(* ===== verification/Py_Prelude.thy ===== *)
theory Py_Prelude
  imports Complex_Main
begin

text \<open>
  Shared vocabulary of the development.

  Python method bodies are modelled as \<^emph>\<open>statements\<close>: functions from a state to an
  \<^emph>\<open>outcome\<close>, which is the state after the statement (\<open>Next\<close>), an early return with its
  value (\<open>Return\<close>) or a raised exception with the state at the point of the raise
  (\<open>Raise\<close>: the effects made before a raise stay, as in Python). A suite of statements is
  \<open>block [\<dots>]\<close>, so the models keep the order and the early returns of the source. Facts
  about statements are derived with the weakest-precondition rules collected in \<open>wp\<close>.
  The theory also holds the locale of inductive invariants of a step relation, and a few
  generic lemmas on lists and options.
\<close>

named_theorems wp \<open>weakest preconditions of statements\<close>
named_theorems keeps_intros \<open>structural rules for predicates that statements keep\<close>
named_theorems returns_intros \<open>structural rules for the values that statements return\<close>

section \<open>Exceptions, outcomes, statements\<close>

datatype exn =
    IndexError
  | KeyError
  | ValueError
  | TypeError
  | AttributeError
  | AssertionError
  | RuntimeError
  | SdpHandlingErrors int string "string option"
    \<comment> \<open>SdpParseError and RtpProxyError: code, msg, arg\<close>
  | OtherError string

datatype ('s, 'r) outcome =
    Next 's
  | Return 'r 's
  | Raise exn 's

type_synonym ('s, 'r) stmt = "'s \<Rightarrow> ('s, 'r) outcome"

definition skip :: "('s, 'r) stmt" where
  "skip s = Next s"

definition upd :: "('s \<Rightarrow> 's) \<Rightarrow> ('s, 'r) stmt" where
  "upd f s = Next (f s)"

definition ret :: "'r \<Rightarrow> ('s, 'r) stmt" where
  "ret v s = Return v s"

definition raise :: "exn \<Rightarrow> ('s, 'r) stmt" where
  "raise e s = Raise e s"

fun block :: "('s, 'r) stmt list \<Rightarrow> ('s, 'r) stmt" where
  "block [] s = Next s"
| "block (c # cs) s =
     (case c s of Next t \<Rightarrow> block cs t | Return v t \<Rightarrow> Return v t | Raise e t \<Rightarrow> Raise e t)"

definition if_else :: "('s \<Rightarrow> bool) \<Rightarrow> ('s, 'r) stmt \<Rightarrow> ('s, 'r) stmt \<Rightarrow> ('s, 'r) stmt" where
  "if_else b c d s = (if b s then c s else d s)"

definition if_then :: "('s \<Rightarrow> bool) \<Rightarrow> ('s, 'r) stmt \<Rightarrow> ('s, 'r) stmt" where
  "if_then b c = if_else b c skip"

text \<open>A local variable bound to an expression over the state.\<close>

definition local :: "('s \<Rightarrow> 'a) \<Rightarrow> ('a \<Rightarrow> ('s, 'r) stmt) \<Rightarrow> ('s, 'r) stmt" where
  "local e k s = k (e s) s"

text \<open>A local variable bound to an expression whose evaluation may raise.\<close>

definition fetch :: "('s \<Rightarrow> exn + 'a) \<Rightarrow> ('a \<Rightarrow> ('s, 'r) stmt) \<Rightarrow> ('s, 'r) stmt" where
  "fetch e k s = (case e s of Inl x \<Rightarrow> Raise x s | Inr v \<Rightarrow> k v s)"

text \<open>
  A call of a method: its statement runs to a value (falling off the end returns the
  given default, Python's \<^verbatim>\<open>None\<close>) and the caller goes on with it.
\<close>

definition call :: "'q \<Rightarrow> ('s, 'q) stmt \<Rightarrow> ('q \<Rightarrow> ('s, 'r) stmt) \<Rightarrow> ('s, 'r) stmt" where
  "call dflt m k s =
     (case m s of Next t \<Rightarrow> k dflt t | Return v t \<Rightarrow> k v t | Raise e t \<Rightarrow> Raise e t)"

text \<open>\<^verbatim>\<open>try: c except ...: h\<close>; the handler sees the state at the point of the raise.\<close>

definition try_catch :: "('s, 'r) stmt \<Rightarrow> (exn \<Rightarrow> ('s, 'r) stmt) \<Rightarrow> ('s, 'r) stmt" where
  "try_catch c h s = (case c s of Next t \<Rightarrow> Next t | Return v t \<Rightarrow> Return v t | Raise e t \<Rightarrow> h e t)"

fun foreach :: "'a list \<Rightarrow> ('a \<Rightarrow> ('s, 'r) stmt) \<Rightarrow> ('s, 'r) stmt" where
  "foreach [] body s = Next s"
| "foreach (x # xs) body s =
     (case body x s of Next t \<Rightarrow> foreach xs body t | Return v t \<Rightarrow> Return v t | Raise e t \<Rightarrow> Raise e t)"

fun out_state :: "('s, 'r) outcome \<Rightarrow> 's" where
  "out_state (Next s) = s"
| "out_state (Return v s) = s"
| "out_state (Raise e s) = s"

declare block.simps [simp del] foreach.simps [simp del]

lemmas stmt_defs = skip_def upd_def ret_def raise_def if_else_def if_then_def local_def fetch_def
  call_def try_catch_def block.simps foreach.simps

section \<open>Weakest preconditions\<close>

text \<open>
  \<open>wp c N R X s\<close>: run from \<open>s\<close>, the statement \<open>c\<close> falls through to a state in \<open>N\<close>,
  or returns \<open>v\<close> in a state in \<open>R v\<close>, or raises \<open>e\<close> in a state in \<open>X e\<close>.
\<close>

definition wpc :: "('s, 'r) stmt \<Rightarrow> ('s \<Rightarrow> bool) \<Rightarrow> ('r \<Rightarrow> 's \<Rightarrow> bool) \<Rightarrow> (exn \<Rightarrow> 's \<Rightarrow> bool) \<Rightarrow> 's \<Rightarrow> bool" where
  "wpc c N R X s = (case c s of Next t \<Rightarrow> N t | Return v t \<Rightarrow> R v t | Raise e t \<Rightarrow> X e t)"

lemma wpc_skip [wp, simp]: "wpc skip N R X s = N s"
  by (simp add: wpc_def skip_def)

lemma wpc_upd [wp, simp]: "wpc (upd f) N R X s = N (f s)"
  by (simp add: wpc_def upd_def)

lemma wpc_ret [wp, simp]: "wpc (ret v) N R X s = R v s"
  by (simp add: wpc_def ret_def)

lemma wpc_raise [wp, simp]: "wpc (raise e) N R X s = X e s"
  by (simp add: wpc_def raise_def)

lemma wpc_block_Nil [wp, simp]: "wpc (block []) N R X s = N s"
  by (simp add: wpc_def block.simps)

lemma wpc_block_Cons [wp, simp]:
  "wpc (block (c # cs)) N R X s = wpc c (wpc (block cs) N R X) R X s"
  by (simp add: wpc_def block.simps split: outcome.split)

lemma wpc_if_else [wp, simp]:
  "wpc (if_else b c d) N R X s = (if b s then wpc c N R X s else wpc d N R X s)"
  by (simp add: wpc_def if_else_def)

lemma wpc_if_then [wp, simp]:
  "wpc (if_then b c) N R X s = (if b s then wpc c N R X s else N s)"
  by (simp add: if_then_def)

lemma wpc_local [wp, simp]: "wpc (local e k) N R X s = wpc (k (e s)) N R X s"
  by (simp add: wpc_def local_def)

lemma wpc_fetch [wp, simp]:
  "wpc (fetch e k) N R X s = (case e s of Inl x \<Rightarrow> X x s | Inr v \<Rightarrow> wpc (k v) N R X s)"
  by (simp add: wpc_def fetch_def split: sum.split)

lemma wpc_call [wp, simp]:
  "wpc (call d m k) N R X s = wpc m (wpc (k d) N R X) (\<lambda>v. wpc (k v) N R X) X s"
  by (simp add: wpc_def call_def split: outcome.split)

lemma wpc_try_catch [wp, simp]:
  "wpc (try_catch c h) N R X s = wpc c N R (\<lambda>e. wpc (h e) N R X) s"
  by (simp add: wpc_def try_catch_def split: outcome.split)

lemma wpc_foreach_Nil [wp, simp]: "wpc (foreach [] body) N R X s = N s"
  by (simp add: wpc_def foreach.simps)

lemma wpc_foreach_Cons [wp, simp]:
  "wpc (foreach (x # xs) body) N R X s = wpc (body x) (wpc (foreach xs body) N R X) R X s"
  by (simp add: wpc_def foreach.simps split: outcome.split)

lemma wpc_mono:
  assumes "wpc c N R X s" "\<And>t. N t \<Longrightarrow> N' t" "\<And>v t. R v t \<Longrightarrow> R' v t" "\<And>e t. X e t \<Longrightarrow> X' e t"
  shows "wpc c N' R' X' s"
  using assms by (auto simp: wpc_def split: outcome.splits)

lemma wpc_conj:
  "wpc c (\<lambda>t. N t \<and> N' t) (\<lambda>v t. R v t \<and> R' v t) (\<lambda>e t. X e t \<and> X' e t) s =
     (wpc c N R X s \<and> wpc c N' R' X' s)"
  by (auto simp: wpc_def split: outcome.splits)

lemma wpc_foreach_inv:
  assumes "\<And>x s. x \<in> set xs \<Longrightarrow> I s \<Longrightarrow> wpc (body x) I (\<lambda>_. I) (\<lambda>_. I) s" and "I s"
  shows "wpc (foreach xs body) I (\<lambda>_. I) (\<lambda>_. I) s"
  using assms
proof (induction xs arbitrary: s)
  case Nil
  then show ?case by simp
next
  case (Cons x xs)
  have "wpc (body x) I (\<lambda>_. I) (\<lambda>_. I) s"
    using Cons.prems by simp
  then show ?case
    unfolding wpc_foreach_Cons
    by (rule wpc_mono) (use Cons in auto)
qed

text \<open>Statements that leave a predicate of the state alone, whatever their outcome.\<close>

definition keeps :: "('s \<Rightarrow> bool) \<Rightarrow> ('s, 'r) stmt \<Rightarrow> bool" where
  "keeps I c \<longleftrightarrow> (\<forall>s. I s \<longrightarrow> I (out_state (c s)))"

lemma keeps_wpc: "keeps I c \<longleftrightarrow> (\<forall>s. I s \<longrightarrow> wpc c I (\<lambda>_. I) (\<lambda>_. I) s)"
proof -
  have "I (out_state (c s)) = wpc c I (\<lambda>_. I) (\<lambda>_. I) s" for s
    by (cases "c s") (auto simp: wpc_def)
  then show ?thesis by (simp add: keeps_def)
qed

lemma keepsI: "(\<And>s. I s \<Longrightarrow> wpc c I (\<lambda>_. I) (\<lambda>_. I) s) \<Longrightarrow> keeps I c"
  by (simp add: keeps_wpc)

lemma keepsD: "keeps I c \<Longrightarrow> I s \<Longrightarrow> I (out_state (c s))"
  by (simp add: keeps_def)

lemma keeps_conj: "keeps I c \<Longrightarrow> keeps J c \<Longrightarrow> keeps (\<lambda>s. I s \<and> J s) c"
  by (simp add: keeps_def)

lemma keepsW: "keeps I c \<Longrightarrow> I s \<Longrightarrow> wpc c I (\<lambda>_. I) (\<lambda>_. I) s"
  by (simp add: keeps_wpc)

lemma out_state_wpc: "I (out_state (c s)) \<longleftrightarrow> wpc c I (\<lambda>_. I) (\<lambda>_. I) s"
  by (cases "c s") (auto simp: wpc_def)

lemma keeps_skip [keeps_intros]: "keeps I skip"
  by (simp add: keeps_wpc)

lemma keeps_ret [keeps_intros]: "keeps I (ret v)"
  by (simp add: keeps_wpc)

lemma keeps_raise [keeps_intros]: "keeps I (raise e)"
  by (simp add: keeps_wpc)

lemma keeps_upd: "(\<And>s. I s \<Longrightarrow> I (f s)) \<Longrightarrow> keeps I (upd f)"
  by (simp add: keeps_wpc)

lemma keeps_block_Nil [keeps_intros]: "keeps I (block [])"
  by (simp add: keeps_wpc)

lemma keeps_block_Cons [keeps_intros]: "keeps I c \<Longrightarrow> keeps I (block cs) \<Longrightarrow> keeps I (block (c # cs))"
  unfolding keeps_def
proof (intro allI impI)
  fix s
  assume "\<forall>s. I s \<longrightarrow> I (out_state (c s))" "\<forall>s. I s \<longrightarrow> I (out_state (block cs s))" "I s"
  then show "I (out_state (block (c # cs) s))"
    by (cases "c s") (simp_all add: block.simps, (metis out_state.simps)+)
qed

lemma keeps_if_else [keeps_intros]: "keeps I c \<Longrightarrow> keeps I d \<Longrightarrow> keeps I (if_else b c d)"
  by (simp add: keeps_wpc)

lemma keeps_if_then [keeps_intros]: "keeps I c \<Longrightarrow> keeps I (if_then b c)"
  by (simp add: keeps_wpc)

lemma keeps_local [keeps_intros]: "(\<And>v. keeps I (k v)) \<Longrightarrow> keeps I (local e k)"
  by (simp add: keeps_wpc)

lemma keeps_fetch [keeps_intros]: "(\<And>v. keeps I (k v)) \<Longrightarrow> keeps I (fetch e k)"
  by (simp add: keeps_wpc split: sum.split)

lemma keeps_call [keeps_intros]: "keeps I m \<Longrightarrow> (\<And>v. keeps I (k v)) \<Longrightarrow> keeps I (call d m k)"
  unfolding keeps_def
proof (intro allI impI)
  fix s
  assume "\<forall>s. I s \<longrightarrow> I (out_state (m s))" "\<And>v. \<forall>s. I s \<longrightarrow> I (out_state (k v s))" "I s"
  then show "I (out_state (call d m k s))"
    by (cases "m s") (simp_all add: call_def, (metis out_state.simps)+)
qed

lemma keeps_try_catch [keeps_intros]: "keeps I c \<Longrightarrow> (\<And>e. keeps I (h e)) \<Longrightarrow> keeps I (try_catch c h)"
  unfolding keeps_def
proof (intro allI impI)
  fix s
  assume "\<forall>s. I s \<longrightarrow> I (out_state (c s))" "\<And>e. \<forall>s. I s \<longrightarrow> I (out_state (h e s))" "I s"
  then show "I (out_state (try_catch c h s))"
    by (cases "c s") (simp_all add: try_catch_def, (metis out_state.simps)+)
qed

lemma keeps_foreach [keeps_intros]: "(\<And>x. keeps I (body x)) \<Longrightarrow> keeps I (foreach xs body)"
  unfolding keeps_wpc by (simp add: wpc_foreach_inv)

text \<open>
  What holds of the value that a statement returns and of the state at that point, when the
  statement starts in a state in \<open>D\<close>.
\<close>

definition returns :: "('s \<Rightarrow> bool) \<Rightarrow> ('r \<Rightarrow> 's \<Rightarrow> bool) \<Rightarrow> ('s, 'r) stmt \<Rightarrow> bool" where
  "returns D R c \<longleftrightarrow> (\<forall>s v t. D s \<longrightarrow> c s = Return v t \<longrightarrow> R v t)"

lemma returnsD: "returns D R c \<Longrightarrow> D s \<Longrightarrow> c s = Return v t \<Longrightarrow> R v t"
  by (simp add: returns_def)

lemma returns_wpc: "returns D R c \<longleftrightarrow> (\<forall>s. D s \<longrightarrow> wpc c (\<lambda>_. True) R (\<lambda>_ _. True) s)"
  by (auto simp: returns_def wpc_def split: outcome.split)

lemma keeps_True: "keeps (\<lambda>_. True) c"
  by (simp add: keeps_def)

lemma returns_simple [returns_intros]: "returns D R skip" "returns D R (upd f)" "returns D R (raise e)" "returns D R (block [])"
  by (simp_all add: returns_wpc)

lemma returns_ret [returns_intros]: "(\<And>t. D t \<Longrightarrow> R v t) \<Longrightarrow> returns D R (ret v)"
  by (simp add: returns_wpc)

lemma returns_block_Cons:
  "keeps D c \<Longrightarrow> returns D R c \<Longrightarrow> returns D R (block cs) \<Longrightarrow> returns D R (block (c # cs))"
  unfolding returns_def keeps_def by (auto simp: block.simps split: outcome.splits)

lemma returns_if_else [returns_intros]: "returns D R c \<Longrightarrow> returns D R d \<Longrightarrow> returns D R (if_else b c d)"
  by (simp add: returns_wpc)

lemma returns_if_then [returns_intros]: "returns D R c \<Longrightarrow> returns D R (if_then b c)"
  by (simp add: returns_wpc)

lemma returns_local [returns_intros]: "(\<And>v. returns D R (k v)) \<Longrightarrow> returns D R (local e k)"
  by (simp add: returns_wpc)

lemma returns_fetch [returns_intros]: "(\<And>v. returns D R (k v)) \<Longrightarrow> returns D R (fetch e k)"
  by (simp add: returns_wpc split: sum.split)

lemma returns_call: "keeps D m \<Longrightarrow> (\<And>v. returns D R (k v)) \<Longrightarrow> returns D R (call d m k)"
  unfolding returns_def keeps_def call_def by (auto split: outcome.splits)

lemma returns_call_post:
  "returns D Q m \<Longrightarrow> (\<And>t. Q d t) \<Longrightarrow> (\<And>v. returns (Q v) R (k v)) \<Longrightarrow> returns D R (call d m k)"
  unfolding returns_def call_def by (auto split: outcome.splits) blast+

lemma returns_try_catch: "keeps D c \<Longrightarrow> returns D R c \<Longrightarrow> (\<And>e. returns D R (h e)) \<Longrightarrow> returns D R (try_catch c h)"
  unfolding returns_def keeps_def try_catch_def by (auto split: outcome.splits)

lemma returns_foreach:
  "(\<And>x. keeps D (body x)) \<Longrightarrow> (\<And>x. returns D R (body x)) \<Longrightarrow> returns D R (foreach xs body)"
proof (induction xs)
  case Nil
  then show ?case by (simp add: returns_wpc)
next
  case (Cons x xs)
  show ?case unfolding returns_def
  proof (intro allI impI)
    fix s v t
    assume s: "D s" and r: "foreach (x # xs) body s = Return v t"
    show "R v t"
    proof (cases "body x s")
      case (Next u)
      have "D u" using Cons.prems(1) s Next by (metis keeps_def out_state.simps(1))
      then show ?thesis using Cons r Next by (auto simp: returns_def foreach.simps)
    next
      case (Return w u)
      then show ?thesis using Cons.prems(2) r s by (auto simp: returns_def foreach.simps)
    qed (use r in \<open>simp add: foreach.simps\<close>)
  qed
qed

lemma returns_conj_keeps: "returns (\<lambda>_. True) R c \<Longrightarrow> keeps D c \<Longrightarrow> returns D (\<lambda>v t. D t \<and> R v t) c"
  unfolding returns_def keeps_def by (metis out_state.simps(2))

lemma returns_weaken: "returns D R c \<Longrightarrow> (\<And>v t. R v t \<Longrightarrow> R' v t) \<Longrightarrow> returns D R' c"
  unfolding returns_def by blast

section \<open>Inductive invariants of a step relation\<close>

inductive reach :: "('s \<Rightarrow> bool) \<Rightarrow> ('s \<Rightarrow> 's \<Rightarrow> bool) \<Rightarrow> 's \<Rightarrow> bool" for init step where
  reach_init: "init s \<Longrightarrow> reach init step s"
| reach_step: "reach init step s \<Longrightarrow> step s t \<Longrightarrow> reach init step t"

locale step_invariant =
  fixes init :: "'s \<Rightarrow> bool" and step :: "'s \<Rightarrow> 's \<Rightarrow> bool" and inv :: "'s \<Rightarrow> bool"
  assumes inv_init: "init s \<Longrightarrow> inv s"
    and inv_step: "inv s \<Longrightarrow> step s t \<Longrightarrow> inv t"
begin

lemma reach_inv: "reach init step s \<Longrightarrow> inv s"
  by (induction rule: reach.induct) (auto intro: inv_init inv_step)

lemma steps_inv: "step\<^sup>*\<^sup>* s t \<Longrightarrow> inv s \<Longrightarrow> inv t"
  by (induction rule: rtranclp_induct) (auto intro: inv_step)

end

section \<open>Printing and parsing\<close>

text \<open>
  The contract of a header class: what it prints, it reads back. The parser may raise. The
  consequences (two well-formed values that print alike are equal; printing, parsing and
  printing again changes nothing) are shared by every class that interprets the locale.
\<close>

locale header_codec =
  fixes parse :: "string \<Rightarrow> exn + 'a" and print :: "'a \<Rightarrow> string" and wf :: "'a \<Rightarrow> bool"
  assumes parse_print: "wf x \<Longrightarrow> parse (print x) = Inr x"
begin

lemma print_inj: "wf x \<Longrightarrow> wf y \<Longrightarrow> print x = print y \<Longrightarrow> x = y"
  by (metis parse_print sum.inject(2))

lemma reprint: "wf x \<Longrightarrow> map_sum id print (parse (print x)) = Inr (print x)"
  by (simp add: parse_print)

lemma parse_accepts: "wf x \<Longrightarrow> \<exists>y. parse (print x) = Inr y \<and> print y = print x"
  by (simp add: parse_print)

end

section \<open>Lists and options\<close>

lemma map_sum_eq_Inr [simp]: "map_sum f g x = Inr y \<longleftrightarrow> (\<exists>z. x = Inr z \<and> y = g z)"
  by (cases x) auto

lemma map_sum_eq_Inl [simp]: "map_sum f g x = Inl y \<longleftrightarrow> (\<exists>z. x = Inl z \<and> y = f z)"
  by (cases x) auto

lemma filter_Cons_hd: "filter P xs = y # ys \<Longrightarrow> P y \<and> y \<in> set xs"
  by (metis filter_eq_Cons_iff in_set_conv_decomp)

lemma sorted_wrt_snoc:
  "sorted_wrt R (xs @ [x]) \<longleftrightarrow> sorted_wrt R xs \<and> (\<forall>y \<in> set xs. R y x)"
  by (simp add: sorted_wrt_append)

lemma distinct_remove1_snoc: "distinct xs \<Longrightarrow> x \<notin> set xs \<Longrightarrow> distinct (xs @ [x])"
  by simp

end
