(* ===== verification/Py_String.thy ===== *)
theory Py_String
  imports Py_Prelude
begin

text \<open>
  The string operations of Python that the SIP and SDP code uses, on \<open>string\<close> (a
  \<open>char\<close> is a code point below 256). Each is a total function; \<open>int()\<close> gives \<open>None\<close>
  where Python raises \<^verbatim>\<open>ValueError\<close>.
\<close>

section \<open>Splitting and joining\<close>

text \<open>\<^verbatim>\<open>s.split(c, 1)\<close>: a list of one or two parts.\<close>

fun split1 :: "char \<Rightarrow> string \<Rightarrow> string list" where
  "split1 c [] = [[]]"
| "split1 c (x # xs) =
     (if x = c then [[], xs]
      else (case split1 c xs of p # ps \<Rightarrow> (x # p) # ps | [] \<Rightarrow> []))"

text \<open>\<^verbatim>\<open>s.split(c)\<close>.\<close>

fun split_on :: "char \<Rightarrow> string \<Rightarrow> string list" where
  "split_on c [] = [[]]"
| "split_on c (x # xs) =
     (if x = c then [] # split_on c xs
      else (case split_on c xs of p # ps \<Rightarrow> (x # p) # ps | [] \<Rightarrow> []))"

text \<open>\<^verbatim>\<open>sep.join(l)\<close>.\<close>

fun join_with :: "string \<Rightarrow> string list \<Rightarrow> string" where
  "join_with sep [] = []"
| "join_with sep [x] = x"
| "join_with sep (x # y # ys) = x @ sep @ join_with sep (y # ys)"

definition is_space :: "char \<Rightarrow> bool" where
  "is_space c = (let n = of_char c :: nat in
     (9 \<le> n \<and> n \<le> 13) \<or> (28 \<le> n \<and> n \<le> 32) \<or> n = 133 \<or> n = 160)"

text \<open>\<^verbatim>\<open>s.split()\<close>: runs of whitespace separate, no empty parts. The accumulator is the
  word being read.\<close>

fun split_ws_acc :: "string \<Rightarrow> string \<Rightarrow> string list" where
  "split_ws_acc w [] = (if w = [] then [] else [w])"
| "split_ws_acc w (c # cs) =
     (if is_space c then (if w = [] then split_ws_acc [] cs else w # split_ws_acc [] cs)
      else split_ws_acc (w @ [c]) cs)"

definition split_ws :: "string \<Rightarrow> string list" where
  "split_ws s = split_ws_acc [] s"

definition lstrip :: "string \<Rightarrow> string" where
  "lstrip s = dropWhile is_space s"

definition rstrip :: "string \<Rightarrow> string" where
  "rstrip s = rev (dropWhile is_space (rev s))"

definition strip :: "string \<Rightarrow> string" where
  "strip s = rstrip (lstrip s)"

definition is_linebreak :: "char \<Rightarrow> bool" where
  "is_linebreak c = (let n = of_char c :: nat in
     (10 \<le> n \<and> n \<le> 13) \<or> (28 \<le> n \<and> n \<le> 30) \<or> n = 133)"

abbreviation CR :: char where "CR \<equiv> CHR 0x0D"
abbreviation LF :: char where "LF \<equiv> CHR 0x0A"

text \<open>\<^verbatim>\<open>s.splitlines()\<close>: \<^verbatim>\<open>\r\n\<close> is one break; no last empty line.\<close>

fun splitlines_acc :: "string \<Rightarrow> string \<Rightarrow> string list" where
  "splitlines_acc w [] = (if w = [] then [] else [w])"
| "splitlines_acc w [c] = (if is_linebreak c then [w] else [w @ [c]])"
| "splitlines_acc w (c # d # cs) =
     (if c = CR \<and> d = LF then w # splitlines_acc [] cs
      else if is_linebreak c then w # splitlines_acc [] (d # cs)
      else splitlines_acc (w @ [c]) (d # cs))"

definition splitlines :: "string \<Rightarrow> string list" where
  "splitlines s = splitlines_acc [] s"

definition startswith :: "string \<Rightarrow> string \<Rightarrow> bool" where
  "startswith p s = (take (length p) s = p)"

definition endswith :: "string \<Rightarrow> string \<Rightarrow> bool" where
  "endswith p s = (length p \<le> length s \<and> drop (length s - length p) s = p)"

definition lower_char :: "char \<Rightarrow> char" where
  "lower_char c = (let n = of_char c :: nat in
     if (65 \<le> n \<and> n \<le> 90) \<or> (192 \<le> n \<and> n \<le> 222 \<and> n \<noteq> 215) then char_of (n + 32) else c)"

definition lower :: "string \<Rightarrow> string" where
  "lower s = map lower_char s"

section \<open>Decimal numbers\<close>

definition is_digit :: "char \<Rightarrow> bool" where
  "is_digit c = (let n = of_char c :: nat in 48 \<le> n \<and> n \<le> 57)"

definition digit_val :: "char \<Rightarrow> nat" where
  "digit_val c = of_char c - 48"

definition digit_char :: "nat \<Rightarrow> char" where
  "digit_char n = char_of (48 + n)"

fun show_nat :: "nat \<Rightarrow> string" where
  "show_nat n = (if n < 10 then [digit_char n] else show_nat (n div 10) @ [digit_char (n mod 10)])"

declare show_nat.simps [simp del]

text \<open>\<^verbatim>\<open>str(n)\<close> of an int.\<close>

definition show_int :: "int \<Rightarrow> string" where
  "show_int i = (if i < 0 then CHR ''-'' # show_nat (nat (- i)) else show_nat (nat i))"

text \<open>The digits of \<^verbatim>\<open>int(s)\<close>: single underscores are allowed between digits.\<close>

fun digits_val :: "nat \<Rightarrow> string \<Rightarrow> nat option" where
  "digits_val acc [] = Some acc"
| "digits_val acc (c # cs) =
     (if is_digit c then digits_val (acc * 10 + digit_val c) cs
      else if c = CHR ''_'' \<and> cs \<noteq> [] \<and> is_digit (hd cs) then digits_val acc cs
      else None)"

definition nat_of_string :: "string \<Rightarrow> nat option" where
  "nat_of_string s = (if s \<noteq> [] \<and> is_digit (hd s) then digits_val 0 s else None)"

definition py_int :: "string \<Rightarrow> int option" where
  "py_int s = (case strip s of
       [] \<Rightarrow> None
     | c # cs \<Rightarrow>
         if c = CHR ''-'' then map_option (\<lambda>n. - int n) (nat_of_string cs)
         else if c = CHR ''+'' then map_option int (nat_of_string cs)
         else map_option int (nat_of_string (c # cs)))"

section \<open>Lemmas\<close>

lemma split1_absent [simp]: "c \<notin> set a \<Longrightarrow> split1 c a = [a]"
  by (induction a) auto

lemma split1_append [simp]: "c \<notin> set a \<Longrightarrow> split1 c (a @ c # b) = [a, b]"
  by (induction a) auto

lemma split1_not_Nil [simp]: "split1 c s \<noteq> []"
  by (induction s) (auto split: list.split)

lemma split_on_not_Nil [simp]: "split_on c s \<noteq> []"
  by (induction s) (auto split: list.split)

lemma split_on_absent [simp]: "c \<notin> set a \<Longrightarrow> split_on c a = [a]"
  by (induction a) auto

lemma split_on_append [simp]: "c \<notin> set a \<Longrightarrow> split_on c (a @ c # b) = a # split_on c b"
  by (induction a) auto

lemma join_with_Cons: "xs \<noteq> [] \<Longrightarrow> join_with sep (x # xs) = x @ sep @ join_with sep xs"
  by (cases xs) auto

lemma split_on_join:
  "xs \<noteq> [] \<Longrightarrow> \<forall>x \<in> set xs. c \<notin> set x \<Longrightarrow> split_on c (join_with [c] xs) = xs"
proof (induction xs)
  case Nil
  then show ?case by simp
next
  case (Cons x xs)
  then show ?case by (cases xs) auto
qed

lemma join_split_on: "join_with [c] (split_on c s) = s"
proof (induction s)
  case Nil
  then show ?case by simp
next
  case (Cons x xs)
  obtain p ps where "split_on c xs = p # ps"
    using split_on_not_Nil [of c xs] by (cases "split_on c xs") auto
  with Cons show ?case by (cases ps) auto
qed

definition no_space :: "string \<Rightarrow> bool" where
  "no_space s \<longleftrightarrow> (\<forall>c \<in> set s. \<not> is_space c)"

lemma no_space_simps [simp]:
  "no_space []"
  "no_space (c # cs) \<longleftrightarrow> \<not> is_space c \<and> no_space cs"
  "no_space (s @ t) \<longleftrightarrow> no_space s \<and> no_space t"
  by (auto simp: no_space_def)

lemma split_ws_acc_word: "no_space v \<Longrightarrow> split_ws_acc w (v @ s) = split_ws_acc (w @ v) s"
  by (induction v arbitrary: w) auto

lemma split_ws_word: "no_space v \<Longrightarrow> v \<noteq> [] \<Longrightarrow> split_ws v = [v]"
  using split_ws_acc_word [of v "[]" "[]"] by (simp add: split_ws_def)

lemma split_ws_cons:
  "no_space v \<Longrightarrow> v \<noteq> [] \<Longrightarrow> is_space c \<Longrightarrow> split_ws (v @ c # s) = v # split_ws s"
  using split_ws_acc_word [of v "[]" "c # s"] by (simp add: split_ws_def)

lemma is_space_blank [simp]: "is_space CHR '' ''"
  by (simp add: is_space_def)

lemma dropWhile_first: "s = [] \<or> \<not> P (hd s) \<Longrightarrow> dropWhile P s = s"
  by (cases s) auto

lemma strip_id: "s = [] \<or> (\<not> is_space (hd s) \<and> \<not> is_space (last s)) \<Longrightarrow> strip s = s"
  using dropWhile_first [of s is_space] dropWhile_first [of "rev s" is_space]
  by (auto simp: strip_def lstrip_def rstrip_def hd_rev)

lemma strip_no_space [simp]: "no_space s \<Longrightarrow> strip s = s"
  by (rule strip_id) (auto simp: no_space_def)

lemma startswith_append [simp]: "startswith p (p @ s)"
  by (simp add: startswith_def)

lemma digit_char_props [simp]:
  assumes "n < 10"
  shows "is_digit (digit_char n)" "digit_val (digit_char n) = n" "\<not> is_space (digit_char n)"
  using assms by (auto simp: digit_char_def is_digit_def digit_val_def is_space_def)

lemma is_digit_no_space: "is_digit c \<Longrightarrow> \<not> is_space c"
  by (auto simp: is_digit_def is_space_def Let_def)

lemma show_nat_digits: "\<forall>c \<in> set (show_nat n). is_digit c"
proof (induction n rule: show_nat.induct)
  case (1 n)
  then show ?case by (subst show_nat.simps) auto
qed

lemma show_nat_not_Nil [simp]: "show_nat n \<noteq> []"
  by (subst show_nat.simps) simp

lemma digits_val_append:
  "\<forall>c \<in> set ds. is_digit c \<Longrightarrow> digits_val acc (ds @ es) =
     (case digits_val acc ds of None \<Rightarrow> None | Some v \<Rightarrow> digits_val v es)"
  by (induction ds arbitrary: acc) auto

lemma digits_val_show_nat: "digits_val 0 (show_nat n) = Some n"
proof (induction n rule: show_nat.induct)
  case (1 n)
  show ?case
  proof (cases "n < 10")
    case True
    then show ?thesis by (subst show_nat.simps) simp
  next
    case False
    with "1" have "digits_val 0 (show_nat (n div 10)) = Some (n div 10)" by blast
    with False show ?thesis
      by (subst show_nat.simps) (simp add: digits_val_append show_nat_digits)
  qed
qed

lemma nat_of_string_show_nat [simp]: "nat_of_string (show_nat n) = Some n"
  using show_nat_digits [of n] by (simp add: nat_of_string_def digits_val_show_nat)

lemma no_space_show_nat [simp]: "no_space (show_nat n)"
  using show_nat_digits [of n] by (auto simp: no_space_def dest: is_digit_no_space)

lemma no_space_show_int [simp]: "no_space (show_int i)"
  by (simp add: show_int_def is_space_def)

lemma show_int_not_Nil [simp]: "show_int i \<noteq> []"
  by (simp add: show_int_def)

lemma not_digit_sign [simp]: "\<not> is_digit CHR ''-''" "\<not> is_digit CHR ''+''"
  by (simp_all add: is_digit_def)

lemma show_nat_Cons: "show_nat n = c # cs \<Longrightarrow> is_digit c"
  using show_nat_digits [of n] by simp

lemma py_int_show_int [simp]: "py_int (show_int i) = Some i"
proof (cases "i < 0")
  case True
  then show ?thesis by (simp add: py_int_def show_int_def is_space_def)
next
  case False
  obtain c cs where s: "show_nat (nat i) = c # cs"
    by (cases "show_nat (nat i)") auto
  have "is_digit c" using s by (rule show_nat_Cons)
  then have "c \<noteq> CHR ''-''" and "c \<noteq> CHR ''+''" by auto
  moreover have "strip (c # cs) = c # cs"
    using strip_no_space [OF no_space_show_nat, of "nat i"] s by simp
  moreover have "nat_of_string (c # cs) = Some (nat i)"
    using nat_of_string_show_nat [of "nat i"] s by simp
  ultimately show ?thesis using False s
    by (simp add: py_int_def show_int_def)
qed

lemma show_int_inj [simp]: "show_int i = show_int j \<longleftrightarrow> i = j"
  by (metis option.inject py_int_show_int)

lemma show_int_digits: "c \<in> set (show_int i) \<Longrightarrow> is_digit c \<or> c = CHR ''-''"
  using show_nat_digits by (auto simp: show_int_def split: if_splits)

lemma show_int_absent:
  "\<not> is_digit c \<Longrightarrow> c \<noteq> CHR ''-'' \<Longrightarrow> c \<notin> set (show_int i)"
  using show_int_digits by blast

end
