(* ===== verification/Sip_URL.thy ===== *)
theory Sip_URL
  imports Py_String "HOL-Library.Code_Target_Numeral"
begin

text \<open>
  \<^verbatim>\<open>sippy/SipConf.py\<close> and \<^verbatim>\<open>sippy/SipURL.py\<close>: SIP URLs, their parser (\<open>SipURL_parse\<close>), their
  printer (\<open>SipURL_localStr\<close>) and the address accessors the user agent and the transaction
  layer use. A Python dict is an association list in insertion order. The text that
  \<^verbatim>\<open>str(SipConf.my_address)\<close> gives (the host's own address) is an argument of the printer.
  The main results are the percent-encoding round trip and the parse/print round trip.
\<close>

section \<open>SipConf\<close>

datatype sip_host = MyAddress | Host string
datatype sip_port = MyPort int | Port int
datatype sip_transport = MyTransport string | Transport string

type_synonym hostport = "sip_host \<times> sip_port"
type_synonym taddr = "hostport \<times> sip_transport"

definition default_port :: int where
  "default_port = 5060"

definition default_transport :: string where
  "default_transport = ''udp''"

definition my_port :: sip_port where
  "my_port = MyPort default_port"

definition my_transport :: sip_transport where
  "my_transport = MyTransport default_transport"

fun port_int :: "sip_port \<Rightarrow> int" where
  "port_int (MyPort p) = p"
| "port_int (Port p) = p"

fun is_my_transport :: "sip_transport option \<Rightarrow> bool" where
  "is_my_transport (Some (MyTransport _)) = True"
| "is_my_transport _ = False"

definition port_needed :: "int \<Rightarrow> sip_transport option \<Rightarrow> string option \<Rightarrow> bool" where
  "port_needed port transport local_transport =
     (\<not> (is_my_transport transport \<and> local_transport = Some default_transport \<and> port = default_port))"

section \<open>Dictionaries in insertion order\<close>

fun dict_set :: "'k \<Rightarrow> 'v \<Rightarrow> ('k \<times> 'v) list \<Rightarrow> ('k \<times> 'v) list" where
  "dict_set k v [] = [(k, v)]"
| "dict_set k v (p # ps) = (if fst p = k then (k, v) # ps else p # dict_set k v ps)"

lemma map_of_dict_set [simp]: "map_of (dict_set k v d) = (map_of d)(k \<mapsto> v)"
  by (induction d) auto

lemma dict_set_keys: "fst ` set (dict_set k v d) = insert k (fst ` set d)"
  by (induction d) auto

lemma distinct_dict_set: "distinct (map fst d) \<Longrightarrow> distinct (map fst (dict_set k v d))"
  by (induction d) (auto simp: dict_set_keys)

lemma dict_set_new: "k \<notin> fst ` set d \<Longrightarrow> dict_set k v d = d @ [(k, v)]"
  by (induction d) auto

section \<open>Percent-encoding (urllib.parse.quote, unquote)\<close>

definition hex_char :: "nat \<Rightarrow> char" where
  "hex_char n = (if n < 10 then char_of (48 + n) else char_of (55 + n))"

definition hex_val :: "char \<Rightarrow> nat option" where
  "hex_val c = (let n = of_char c :: nat in
     if 48 \<le> n \<and> n \<le> 57 then Some (n - 48)
     else if 65 \<le> n \<and> n \<le> 70 then Some (n - 55)
     else if 97 \<le> n \<and> n \<le> 102 then Some (n - 87)
     else None)"

definition pct_byte :: "nat \<Rightarrow> string" where
  "pct_byte b = [CHR ''%'', hex_char (b div 16), hex_char (b mod 16)]"

text \<open>The UTF-8 bytes of a code point below 256.\<close>

definition utf8_char :: "char \<Rightarrow> nat list" where
  "utf8_char c = (let n = of_char c :: nat in if n < 128 then [n] else [192 + n div 64, 128 + n mod 64])"

definition always_safe :: "char \<Rightarrow> bool" where
  "always_safe c = (let n = of_char c :: nat in
     (48 \<le> n \<and> n \<le> 57) \<or> (65 \<le> n \<and> n \<le> 90) \<or> (97 \<le> n \<and> n \<le> 122) \<or> c \<in> set ''_.-~'')"

definition quote :: "string \<Rightarrow> string \<Rightarrow> string" where
  "quote safe s = concat (map (\<lambda>c.
     if always_safe c \<or> (c \<in> set safe \<and> of_char c < (128::nat)) then [c]
     else concat (map pct_byte (utf8_char c))) s)"

text \<open>
  \<open>unquote\<close> reads escapes to bytes and decodes them as UTF-8. Results that leave the code
  points below 256 (and undecodable bytes, which Python replaces by U+FFFD) are outside
  the model: \<open>None\<close>.
\<close>

fun unquote_bytes :: "string \<Rightarrow> nat list" where
  "unquote_bytes [] = []"
| "unquote_bytes (c # cs) =
     (case (c = CHR ''%'', cs) of
        (True, x # y # rest) \<Rightarrow>
          (case (hex_val x, hex_val y) of
             (Some a, Some b) \<Rightarrow> (16 * a + b) # unquote_bytes rest
           | _ \<Rightarrow> of_char c # unquote_bytes (x # y # rest))
      | _ \<Rightarrow> of_char c # unquote_bytes cs)"

fun decode_latin :: "nat list \<Rightarrow> string option" where
  "decode_latin [] = Some []"
| "decode_latin (b # bs) =
     (if b < 128 then map_option (Cons (char_of b)) (decode_latin bs)
      else (case bs of
          d # ds \<Rightarrow>
            if (b = 194 \<or> b = 195) \<and> 128 \<le> d \<and> d < 192
            then map_option (Cons (char_of ((b - 192) * 64 + (d - 128)))) (decode_latin ds)
            else None
        | [] \<Rightarrow> None))"

fun ascii_runs :: "string \<Rightarrow> (bool \<times> string) list" where
  "ascii_runs [] = []"
| "ascii_runs (c # cs) =
     (let a = of_char c < (128::nat) in
      case ascii_runs cs of
        (b, r) # rs \<Rightarrow> if a = b then (b, c # r) # rs else (a, [c]) # (b, r) # rs
      | [] \<Rightarrow> [(a, [c])])"

fun unquote_runs :: "(bool \<times> string) list \<Rightarrow> string option" where
  "unquote_runs [] = Some []"
| "unquote_runs ((a, r) # rs) =
     (case (if a then decode_latin (unquote_bytes r) else Some r, unquote_runs rs) of
        (Some x, Some y) \<Rightarrow> Some (x @ y)
      | _ \<Rightarrow> None)"

definition unquote :: "string \<Rightarrow> string option" where
  "unquote s = (if CHR ''%'' \<in> set s then unquote_runs (ascii_runs s) else Some s)"

definition USERNAME_SAFE :: string where
  "USERNAME_SAFE = ''&=+$,;?/#'' @ ''-_.!~*'' @ [CHR 0x27] @ ''()''"

section \<open>SipURL\<close>

record sip_url =
  scheme :: string
  username :: "string option"
  userparams :: "string list"
  password :: "string option"
  host :: sip_host
  port :: "sip_port option"
  uheaders :: "(string \<times> string) list option"
  usertype :: "string option"
  transport :: "sip_transport option"
  ttl :: "int option"
  maddr :: "string option"
  umethod :: "string option"
  utag :: "string option"
  other :: "string list"
  lr :: bool

text \<open>
  The constructor with \<^verbatim>\<open>url = None\<close>: with no host given, host, port and transport are the
  configured ones. The defaults of the remaining attributes are those of \<^verbatim>\<open>__init__\<close>.
\<close>

definition SipURL :: "string option \<Rightarrow> (sip_host \<times> sip_port option \<times> sip_transport option) option \<Rightarrow> sip_url" where
  "SipURL uname hpt = \<lparr>
     scheme = ''sip'', username = uname, userparams = [], password = None,
     host = (case hpt of None \<Rightarrow> MyAddress | Some (h, p, t) \<Rightarrow> h),
     port = (case hpt of None \<Rightarrow> Some my_port | Some (h, p, t) \<Rightarrow> p),
     uheaders = None, usertype = None,
     transport = (case hpt of None \<Rightarrow> Some my_transport | Some (h, p, t) \<Rightarrow> t),
     ttl = None, maddr = None, umethod = None, utag = None, other = [], lr = False\<rparr>"

definition SipURL_getAddr :: "sip_url \<Rightarrow> hostport" where
  "SipURL_getAddr u = (host u, case port u of Some p \<Rightarrow> p | None \<Rightarrow> Port default_port)"

definition SipURL_getTAddr :: "sip_url \<Rightarrow> taddr" where
  "SipURL_getTAddr u =
     (SipURL_getAddr u,
      case transport u of Some t \<Rightarrow> t | None \<Rightarrow> Transport default_transport)"

definition SipURL_setAddr :: "hostport \<Rightarrow> sip_url \<Rightarrow> sip_url" where
  "SipURL_setAddr a u = u\<lparr>host := fst a, port := Some (snd a)\<rparr>"

text \<open>
  \<^verbatim>\<open>getCopy\<close> calls the constructor without \<^verbatim>\<open>scheme\<close>. A host is always given (an
  attribute that is \<^verbatim>\<open>None\<close> would have selected the configured address).
\<close>

definition SipURL_getCopy :: "sip_url \<Rightarrow> sip_url" where
  "SipURL_getCopy u = u\<lparr>scheme := ''sip''\<rparr>"

fun show_transport :: "sip_transport \<Rightarrow> string" where
  "show_transport (MyTransport d) = d"
| "show_transport (Transport t) = t"

definition SipURL_getParams :: "string option \<Rightarrow> sip_url \<Rightarrow> string list" where
  "SipURL_getParams local_transport u =
     (case usertype u of None \<Rightarrow> [] | Some v \<Rightarrow> [''user='' @ v]) @
     (case transport u of
        None \<Rightarrow> []
      | Some (MyTransport d) \<Rightarrow>
          (case local_transport of
             None \<Rightarrow> []
           | Some t \<Rightarrow> if t = default_transport then [] else [''transport='' @ t])
      | Some (Transport t) \<Rightarrow> [''transport='' @ t]) @
     (case ttl u of None \<Rightarrow> [] | Some v \<Rightarrow> [''ttl='' @ show_int v]) @
     (case maddr u of None \<Rightarrow> [] | Some v \<Rightarrow> [''maddr='' @ v]) @
     (case umethod u of None \<Rightarrow> [] | Some v \<Rightarrow> [''method='' @ v]) @
     (case utag u of None \<Rightarrow> [] | Some v \<Rightarrow> [''tag='' @ v]) @
     other u @
     (if lr u then [''lr''] else [])"

text \<open>One parameter of \<^verbatim>\<open>setParams\<close>; \<^verbatim>\<open>int(value)\<close> of \<^verbatim>\<open>ttl\<close> may raise.\<close>

definition SipURL_setParam :: "string \<Rightarrow> sip_url \<Rightarrow> exn + sip_url" where
  "SipURL_setParam p u =
     (case split1 (CHR ''='') p of
        [name, value] \<Rightarrow>
          if name = ''user'' then Inr (u\<lparr>usertype := Some value\<rparr>)
          else if name = ''transport'' then Inr (u\<lparr>transport := Some (Transport value)\<rparr>)
          else if name = ''ttl'' then
            (case py_int value of None \<Rightarrow> Inl ValueError | Some n \<Rightarrow> Inr (u\<lparr>ttl := Some n\<rparr>))
          else if name = ''maddr'' then Inr (u\<lparr>maddr := Some value\<rparr>)
          else if name = ''method'' then Inr (u\<lparr>umethod := Some value\<rparr>)
          else if name = ''tag'' then Inr (u\<lparr>utag := Some value\<rparr>)
          else if name = ''lr'' then Inr (u\<lparr>lr := True\<rparr>)
          else Inr (u\<lparr>other := other u @ [p]\<rparr>)
      | _ \<Rightarrow> if p = ''lr'' then Inr (u\<lparr>lr := True\<rparr>) else Inr (u\<lparr>other := other u @ [p]\<rparr>))"

fun SipURL_setParamList :: "string list \<Rightarrow> sip_url \<Rightarrow> exn + sip_url" where
  "SipURL_setParamList [] u = Inr u"
| "SipURL_setParamList (p # ps) u =
     (case SipURL_setParam p u of Inl e \<Rightarrow> Inl e | Inr v \<Rightarrow> SipURL_setParamList ps v)"

definition SipURL_setParams :: "string list \<Rightarrow> sip_url \<Rightarrow> exn + sip_url" where
  "SipURL_setParams ps u = SipURL_setParamList ps
     (u\<lparr>usertype := None, transport := None, ttl := None, maddr := None, umethod := None,
        utag := None, other := [], lr := False\<rparr>)"

subsection \<open>Printing\<close>

type_synonym local_addr = "(string \<times> int) \<times> string"

fun show_host :: "string \<Rightarrow> sip_host \<Rightarrow> string" where
  "show_host my MyAddress = my"
| "show_host my (Host h) = h"

definition SipURL_localStr :: "string \<Rightarrow> local_addr option \<Rightarrow> sip_url \<Rightarrow> string" where
  "SipURL_localStr my la u =
     (let lt = map_option snd la in
      scheme u @ '':'' @
      (case username u of
         None \<Rightarrow> []
       | Some n \<Rightarrow>
           quote USERNAME_SAFE n @ concat (map (\<lambda>v. CHR '';'' # v) (userparams u)) @
           (case password u of None \<Rightarrow> [] | Some p \<Rightarrow> '':'' @ p) @ ''@'') @
      (case (la, host u) of
         (Some ((a, _), _), MyAddress) \<Rightarrow> a
       | _ \<Rightarrow> show_host my (host u)) @
      (case port u of
         None \<Rightarrow> []
       | Some p \<Rightarrow>
           (let q = (case (la, p) of (Some ((_, lp), _), MyPort _) \<Rightarrow> lp | _ \<Rightarrow> port_int p) in
            if port_needed q (transport u) lt then '':'' @ show_int q else [])) @
      concat (map (\<lambda>p. CHR '';'' # p) (SipURL_getParams lt u)) @
      (case uheaders u of
         None \<Rightarrow> []
       | Some [] \<Rightarrow> []
       | Some hs \<Rightarrow> ''?'' @ join_with ''&'' (map (\<lambda>(h, v). h @ ''='' @ quote ''/'' v) hs)))"

subsection \<open>Parsing\<close>

definition parse_header :: "string \<Rightarrow> (string \<times> string) list \<Rightarrow> exn + (string \<times> string) list" where
  "parse_header h d =
     (case split_on (CHR ''='') h of
        [k, v] \<Rightarrow> (case unquote v of None \<Rightarrow> Inl (OtherError ''unicode'') | Some w \<Rightarrow> Inr (dict_set k w d))
      | _ \<Rightarrow> Inl ValueError)"

fun parse_headers :: "string list \<Rightarrow> (string \<times> string) list \<Rightarrow> exn + (string \<times> string) list" where
  "parse_headers [] d = Inr d"
| "parse_headers (h # hs) d =
     (case parse_header h d of Inl e \<Rightarrow> Inl e | Inr d' \<Rightarrow> parse_headers hs d')"

definition parse_port :: "string \<Rightarrow> exn + sip_port option" where
  "parse_port pp =
     (case py_int pp of
        Some n \<Rightarrow> Inr (Some (Port n))
      | None \<Rightarrow>
          (let p = strip pp in
           if p = [] then Inr None
           else if CHR '':'' \<in> set p \<and> hd p \<noteq> CHR '':'' then
             (case split1 (CHR '':'') p of
                [a, b] \<Rightarrow>
                  if a = b then (case py_int a of Some n \<Rightarrow> Inr (Some (Port n)) | None \<Rightarrow> Inl ValueError)
                  else Inl ValueError
              | _ \<Rightarrow> Inl ValueError)
           else Inl ValueError))"

text \<open>The host and the text of the port, \<^verbatim>\<open>None\<close> when there is none.\<close>

definition parse_hostport :: "bool \<Rightarrow> string \<Rightarrow> exn + (string \<times> string option)" where
  "parse_hostport relaxed hp =
     (if relaxed \<and> hp = [] then Inr ([], None)
      else case hp of
        [] \<Rightarrow> Inl IndexError
      | c # _ \<Rightarrow>
          if c = CHR ''['' then
            (case split1 (CHR '']'') hp of
               [a, b] \<Rightarrow>
                 Inr (a @ '']'',
                      if b = [] then None
                      else (case split1 (CHR '':'') b of [_, p] \<Rightarrow> Some p | _ \<Rightarrow> None))
             | _ \<Rightarrow> Inl IndexError)
          else
            (case split1 (CHR '':'') hp of
               [a, p] \<Rightarrow> Inr (a, Some p)
             | a # _ \<Rightarrow> Inr (a, None)
             | [] \<Rightarrow> Inl IndexError))"

text \<open>\<^verbatim>\<open>userpass\<close>: username, user parameters and password.\<close>

definition parse_userpass :: "string \<Rightarrow> exn + (string \<times> string list \<times> string option)" where
  "parse_userpass up =
     (let ups = split1 (CHR '':'') up;
          pass = (case ups of [_, p] \<Rightarrow> Some p | _ \<Rightarrow> None);
          us = split_on (CHR '';'') (hd ups)
      in case unquote (hd us) of
           None \<Rightarrow> Inl (OtherError ''unicode'')
         | Some n \<Rightarrow> Inr (n, tl us, pass))"

definition split_at_sign :: "string \<Rightarrow> string option \<times> string" where
  "split_at_sign s = (case split1 (CHR ''@'') s of [a, b] \<Rightarrow> (Some a, b) | _ \<Rightarrow> (None, s))"

text \<open>
  \<^verbatim>\<open>parseSipURL\<close>: the part up to the first \<^verbatim>\<open>@\<close>, then the host part, the parameters and the
  URL headers. The last parameter, or the host when there is no parameter, may carry the
  \<^verbatim>\<open>?headers\<close> suffix.
\<close>

definition parseSipURL :: "bool \<Rightarrow> string \<Rightarrow> sip_url \<Rightarrow> exn + sip_url" where
  "parseSipURL relaxed url u0 =
     (let (up, rest) = split_at_sign url;
          parts = split_on (CHR '';'') rest;
          params = tl parts;
          hq = (if params = [] then split1 (CHR ''?'') (hd parts) else [hd parts])
      in case (case hq of [_, h] \<Rightarrow> map_sum id Some (parse_headers (split_on (CHR ''&'') h) []) | _ \<Rightarrow> Inr None) of
           Inl e \<Rightarrow> Inl e
         | Inr hs1 \<Rightarrow>
      (case (case up of None \<Rightarrow> Inr u0
             | Some s \<Rightarrow> map_sum id (\<lambda>(n, ps, pw). u0\<lparr>username := Some n,
                 userparams := (if ps = [] then userparams u0 else ps), password := pw\<rparr>) (parse_userpass s)) of
           Inl e \<Rightarrow> Inl e
         | Inr u1 \<Rightarrow>
      (case parse_hostport relaxed (hd hq) of
           Inl e \<Rightarrow> Inl e
         | Inr (h, pp) \<Rightarrow>
      (case (case pp of None \<Rightarrow> Inr (port u1) | Some t \<Rightarrow> parse_port t) of
           Inl e \<Rightarrow> Inl e
         | Inr p \<Rightarrow>
      (let u2 = u1\<lparr>host := Host h, port := p, uheaders := hs1\<rparr> in
       if params = [] then Inr u2
       else (let arr = split1 (CHR ''?'') (last params) in
         case SipURL_setParams (butlast params @ [hd arr]) u2 of
           Inl e \<Rightarrow> Inl e
         | Inr u3 \<Rightarrow>
             (case arr of
                [_, h] \<Rightarrow> map_sum id (\<lambda>d. u3\<lparr>uheaders := Some d\<rparr>) (parse_headers (split_on (CHR ''&'') h) [])
              | _ \<Rightarrow> Inr u3)))))))"

text \<open>An instance before parsing: the class attributes.\<close>

definition url_blank :: sip_url where
  "url_blank = \<lparr>
     scheme = ''sip'', username = None, userparams = [], password = None, host = Host [],
     port = None, uheaders = None, usertype = None, transport = None, ttl = None, maddr = None,
     umethod = None, utag = None, other = [], lr = False\<rparr>"

fun convertTelParams :: "string list \<Rightarrow> exn + string list" where
  "convertTelParams [] = Inr []"
| "convertTelParams (p # ps) =
     (case split_on (CHR ''='') p of
        [k, v] \<Rightarrow> map_sum id (Cons (lower k @ ''='' @ v)) (convertTelParams ps)
      | _ \<Rightarrow> Inl ValueError)"

definition convertTelURL :: "bool \<Rightarrow> string \<Rightarrow> sip_url \<Rightarrow> exn + sip_url" where
  "convertTelURL relaxed url u0 =
     (let u1 = (if relaxed then u0\<lparr>scheme := ''sip'', host := Host []\<rparr>
                else u0\<lparr>scheme := ''sip'', host := MyAddress, port := Some my_port,
                       transport := Some my_transport\<rparr>);
          parts = split_on (CHR '';'') url
      in case unquote (hd parts) of
           None \<Rightarrow> Inl (OtherError ''unicode'')
         | Some n \<Rightarrow> map_sum id (\<lambda>ps. u1\<lparr>username := Some n, userparams := ps\<rparr>)
                       (convertTelParams (tl parts)))"

definition SipURL_parse :: "bool \<Rightarrow> bool \<Rightarrow> string \<Rightarrow> exn + sip_url" where
  "SipURL_parse autoconvert_tel_url relaxed url =
     (let parts = (case split1 (CHR '':'') url of [a, b] \<Rightarrow> (lower a, b) | _ \<Rightarrow> (''sip'', url)) in
      if fst parts \<notin> set [''sip'', ''sips'', ''tel''] then Inl ValueError
      else if fst parts = ''tel'' then
        (if autoconvert_tel_url then convertTelURL relaxed (snd parts) (url_blank\<lparr>scheme := ''tel''\<rparr>)
         else Inl ValueError)
      else parseSipURL relaxed (snd parts) (url_blank\<lparr>scheme := fst parts\<rparr>))"

section \<open>The percent-encoding round trip\<close>

lemma hex_val_hex_char [simp]: "n < 16 \<Longrightarrow> hex_val (hex_char n) = Some n"
  by (auto simp: hex_val_def hex_char_def Let_def)

lemma hex_char_ascii: "n < 16 \<Longrightarrow> of_char (hex_char n) < (128::nat)"
  by (auto simp: hex_char_def)

lemma utf8_char_bytes: "\<forall>b \<in> set (utf8_char c). b < 256"
proof -
  define n where "n = (of_char c :: nat)"
  have "n < 256" by (simp add: n_def)
  then have "n div 64 < 64" by arith
  moreover have "n mod 64 < 128" by (rule less_trans [of _ 64]) simp_all
  ultimately show ?thesis by (simp add: utf8_char_def n_def [symmetric] Let_def)
qed

lemma quote_Cons:
  "quote safe (c # cs) =
     (if always_safe c \<or> (c \<in> set safe \<and> of_char c < (128::nat)) then [c]
      else concat (map pct_byte (utf8_char c))) @ quote safe cs"
  by (simp add: quote_def)

lemma pct_byte_ascii: "b < 256 \<Longrightarrow> \<forall>x \<in> set (pct_byte b). of_char x < (128::nat)"
  by (auto simp: pct_byte_def hex_char_ascii)

lemma quote_ascii: "\<forall>x \<in> set (quote safe s). of_char x < (128::nat)"
proof (induction s)
  case Nil
  then show ?case by (simp add: quote_def)
next
  case (Cons c cs)
  have "always_safe c \<Longrightarrow> of_char c < (128::nat)"
    by (auto simp: always_safe_def Let_def)
  moreover have "\<forall>x \<in> set (concat (map pct_byte (utf8_char c))). of_char x < (128::nat)"
    using utf8_char_bytes [of c] pct_byte_ascii by auto
  ultimately show ?case using Cons by (auto simp: quote_Cons)
qed

lemma unquote_bytes_pct: "b < 256 \<Longrightarrow> unquote_bytes (pct_byte b @ s) = b # unquote_bytes s"
  by (simp add: pct_byte_def)

lemma unquote_bytes_pcts:
  "\<forall>b \<in> set bs. b < 256 \<Longrightarrow> unquote_bytes (concat (map pct_byte bs) @ s) = bs @ unquote_bytes s"
  by (induction bs) (auto simp: unquote_bytes_pct)

lemma unquote_bytes_plain: "c \<noteq> CHR ''%'' \<Longrightarrow> unquote_bytes (c # s) = of_char c # unquote_bytes s"
  by simp

lemma unquote_bytes_quote:
  "CHR ''%'' \<notin> set safe \<Longrightarrow> unquote_bytes (quote safe s) = concat (map utf8_char s)"
proof (induction s)
  case Nil
  then show ?case by (simp add: quote_def)
next
  case (Cons c cs)
  show ?case
  proof (cases "always_safe c \<or> (c \<in> set safe \<and> of_char c < (128::nat))")
    case True
    then have "c \<noteq> CHR ''%''" using Cons.prems by (auto simp: always_safe_def)
    moreover have "of_char c < (128::nat)"
      using True by (auto simp: always_safe_def Let_def)
    ultimately show ?thesis using True Cons
      by (simp add: quote_Cons utf8_char_def)
  next
    case False
    then have "quote safe (c # cs) = concat (map pct_byte (utf8_char c)) @ quote safe cs"
      by (auto simp: quote_Cons)
    then show ?thesis using Cons utf8_char_bytes [of c]
      by (simp add: unquote_bytes_pcts)
  qed
qed

lemma decode_latin_utf8: "decode_latin (concat (map utf8_char s)) = Some s"
proof (induction s)
  case Nil
  then show ?case by simp
next
  case (Cons c cs)
  define n where "n = (of_char c :: nat)"
  have n: "n < 256" "char_of n = c" by (simp_all add: n_def)
  have "64 * (n div 64) + n mod 64 = n" by simp
  moreover have "\<not> n < 128 \<Longrightarrow> n div 64 = 2 \<or> n div 64 = 3" using n by auto
  ultimately show ?case using Cons n
    by (auto simp: utf8_char_def n_def [symmetric] Let_def mult.commute)
qed

lemma ascii_runs_ascii:
  "s \<noteq> [] \<Longrightarrow> \<forall>x \<in> set s. of_char x < (128::nat) \<Longrightarrow> ascii_runs s = [(True, s)]"
proof (induction s)
  case Nil
  then show ?case by simp
next
  case (Cons c cs)
  then show ?case by (cases cs) auto
qed

lemma quote_no_pct: "CHR ''%'' \<notin> set (quote safe s) \<Longrightarrow> quote safe s = s"
proof (induction s)
  case Nil
  then show ?case by (simp add: quote_def)
next
  case (Cons c cs)
  have "utf8_char c \<noteq> []" by (simp add: utf8_char_def Let_def)
  then have "CHR ''%'' \<in> set (concat (map pct_byte (utf8_char c)))"
    by (cases "utf8_char c") (auto simp: pct_byte_def)
  with Cons show ?case by (auto simp: quote_Cons split: if_splits)
qed

lemma unquote_quote [simp]:
  assumes "CHR ''%'' \<notin> set safe"
  shows "unquote (quote safe s) = Some s"
proof (cases "CHR ''%'' \<in> set (quote safe s)")
  case True
  then have "quote safe s \<noteq> []" by auto
  then have "ascii_runs (quote safe s) = [(True, quote safe s)]"
    by (rule ascii_runs_ascii) (rule quote_ascii)
  then show ?thesis using True assms
    by (simp add: unquote_def unquote_bytes_quote decode_latin_utf8)
next
  case False
  then show ?thesis using quote_no_pct by (simp add: unquote_def)
qed

section \<open>The URL round trip\<close>

text \<open>
  The URLs that survive printing and parsing: a \<^verbatim>\<open>sip:\<close> or \<^verbatim>\<open>sips:\<close> URL with a named host
  (no IPv6 literal), fixed port and transport, whose parts do not hold the delimiters
  that end them.
\<close>

definition free_of :: "string \<Rightarrow> string \<Rightarrow> bool" where
  "free_of bad s \<longleftrightarrow> (\<forall>c \<in> set bad. c \<notin> set s)"

definition known_params :: "string list" where
  "known_params = [''user'', ''transport'', ''ttl'', ''maddr'', ''method'', ''tag'', ''lr'']"

definition wf_other :: "string \<Rightarrow> bool" where
  "wf_other p \<longleftrightarrow> p \<noteq> ''lr'' \<and> (case split1 (CHR ''='') p of [n, v] \<Rightarrow> n \<notin> set known_params | _ \<Rightarrow> True)"

definition wf_params :: "sip_url \<Rightarrow> bool" where
  "wf_params u \<longleftrightarrow>
     (case transport u of Some (MyTransport _) \<Rightarrow> False | _ \<Rightarrow> True) \<and>
     (\<forall>p \<in> set (other u). wf_other p) \<and>
     (\<forall>p \<in> set (SipURL_getParams None u). free_of '';?@'' p)"

definition wf_user :: "sip_url \<Rightarrow> bool" where
  "wf_user u \<longleftrightarrow> (case username u of
      None \<Rightarrow> userparams u = [] \<and> password u = None
    | Some n \<Rightarrow> CHR '';'' \<notin> set n \<and> (\<forall>v \<in> set (userparams u). free_of '';:@'' v) \<and>
        (case password u of None \<Rightarrow> True | Some p \<Rightarrow> CHR ''@'' \<notin> set p))"

definition wf_host :: "sip_url \<Rightarrow> bool" where
  "wf_host u \<longleftrightarrow>
     (\<exists>h. host u = Host h \<and> h \<noteq> [] \<and> free_of ''[:;?@'' h) \<and>
     (case port u of Some (MyPort _) \<Rightarrow> False | _ \<Rightarrow> True)"

definition wf_uheaders :: "sip_url \<Rightarrow> bool" where
  "wf_uheaders u \<longleftrightarrow> (case uheaders u of
      None \<Rightarrow> True
    | Some hs \<Rightarrow> hs \<noteq> [] \<and> distinct (map fst hs) \<and> (\<forall>(k, v) \<in> set hs. free_of ''=&;?@'' k))"

definition wf_url :: "sip_url \<Rightarrow> bool" where
  "wf_url u \<longleftrightarrow> scheme u \<in> {''sip'', ''sips''} \<and> wf_user u \<and> wf_host u \<and> wf_params u \<and> wf_uheaders u"

lemma free_of_simps [simp]:
  "free_of bad []"
  "free_of bad (s @ t) \<longleftrightarrow> free_of bad s \<and> free_of bad t"
  by (auto simp: free_of_def)

subsection \<open>Parameters\<close>

lemma setParamList_append:
  "SipURL_setParamList (ps @ qs) u =
     (case SipURL_setParamList ps u of Inl e \<Rightarrow> Inl e | Inr v \<Rightarrow> SipURL_setParamList qs v)"
  by (induction ps arbitrary: u) (auto split: sum.splits)

lemma split1_lit: "c \<notin> set n \<Longrightarrow> split1 c (n @ [c] @ v) = [n, v]"
  using split1_append [of c n v] by simp

lemma setParam_known:
  "SipURL_setParam (''user='' @ v) u = Inr (u\<lparr>usertype := Some v\<rparr>)"
  "SipURL_setParam (''transport='' @ v) u = Inr (u\<lparr>transport := Some (Transport v)\<rparr>)"
  "SipURL_setParam (''ttl='' @ show_int i) u = Inr (u\<lparr>ttl := Some i\<rparr>)"
  "SipURL_setParam (''maddr='' @ v) u = Inr (u\<lparr>maddr := Some v\<rparr>)"
  "SipURL_setParam (''method='' @ v) u = Inr (u\<lparr>umethod := Some v\<rparr>)"
  "SipURL_setParam (''tag='' @ v) u = Inr (u\<lparr>utag := Some v\<rparr>)"
  "SipURL_setParam ''lr'' u = Inr (u\<lparr>lr := True\<rparr>)"
  by (simp_all add: SipURL_setParam_def)

lemma split1_cases: "(\<exists>a. split1 c s = [a] \<and> a = s) \<or> (\<exists>a b. split1 c s = [a, b])"
proof (cases "c \<in> set s")
  case True
  then obtain a b where "s = a @ c # b" "c \<notin> set a" by (meson split_list_first)
  then show ?thesis by auto
qed auto

lemma setParam_other: "wf_other p \<Longrightarrow> SipURL_setParam p u = Inr (u\<lparr>other := other u @ [p]\<rparr>)"
  using split1_cases [of "CHR ''=''" p]
  by (auto simp: SipURL_setParam_def wf_other_def known_params_def)

lemma setParamList_other:
  "\<forall>p \<in> set ps. wf_other p \<Longrightarrow> SipURL_setParamList ps u = Inr (u\<lparr>other := other u @ ps\<rparr>)"
  by (induction ps arbitrary: u) (auto simp: setParam_other)

lemma setParamList_opt:
  "usertype u = None \<Longrightarrow> SipURL_setParamList (case x of None \<Rightarrow> [] | Some v \<Rightarrow> [''user='' @ v]) u = Inr (u\<lparr>usertype := x\<rparr>)"
  "ttl u = None \<Longrightarrow> SipURL_setParamList (case i of None \<Rightarrow> [] | Some v \<Rightarrow> [''ttl='' @ show_int v]) u = Inr (u\<lparr>ttl := i\<rparr>)"
  "maddr u = None \<Longrightarrow> SipURL_setParamList (case x of None \<Rightarrow> [] | Some v \<Rightarrow> [''maddr='' @ v]) u = Inr (u\<lparr>maddr := x\<rparr>)"
  "umethod u = None \<Longrightarrow> SipURL_setParamList (case x of None \<Rightarrow> [] | Some v \<Rightarrow> [''method='' @ v]) u = Inr (u\<lparr>umethod := x\<rparr>)"
  "utag u = None \<Longrightarrow> SipURL_setParamList (case x of None \<Rightarrow> [] | Some v \<Rightarrow> [''tag='' @ v]) u = Inr (u\<lparr>utag := x\<rparr>)"
  "\<not> lr u \<Longrightarrow> SipURL_setParamList (if l then [''lr''] else []) u = Inr (u\<lparr>lr := l\<rparr>)"
  by (cases u; cases x; cases i; simp add: setParam_known del: append_Cons)+

lemma setParamList_transport:
  assumes "transport u = None" and "case t of Some (MyTransport _) \<Rightarrow> False | _ \<Rightarrow> True"
  shows "SipURL_setParamList (case t of None \<Rightarrow> []
      | Some (MyTransport d) \<Rightarrow> (case None of None \<Rightarrow> [] | Some t \<Rightarrow> if t = default_transport then [] else [''transport='' @ t])
      | Some (Transport t) \<Rightarrow> [''transport='' @ t]) u = Inr (u\<lparr>transport := t\<rparr>)"
  using assms
  by (cases u) (auto simp: setParam_known simp del: append_Cons split: option.splits sip_transport.splits)

lemma setParams_getParams:
  assumes "wf_params v" and "v = u\<lparr>usertype := usertype v, transport := transport v, ttl := ttl v,
      maddr := maddr v, umethod := umethod v, utag := utag v, other := other v, lr := lr v\<rparr>"
  shows "SipURL_setParams (SipURL_getParams None v) u = Inr v"
proof -
  have "\<forall>p \<in> set (other v). wf_other p"
    and "case transport v of Some (MyTransport _) \<Rightarrow> False | _ \<Rightarrow> True"
    using assms(1) by (simp_all add: wf_params_def)
  then have "SipURL_setParams (SipURL_getParams None v) u =
      Inr (u\<lparr>usertype := usertype v, transport := transport v, ttl := ttl v,
        maddr := maddr v, umethod := umethod v, utag := utag v, other := other v, lr := lr v\<rparr>)"
    unfolding SipURL_setParams_def SipURL_getParams_def
    by (simp add: setParamList_append setParamList_opt setParamList_transport setParamList_other
        del: append_Cons)
  with assms(2) show ?thesis by simp
qed

subsection \<open>Headers, user part, host\<close>

lemma quote_chars:
  "x \<in> set (quote safe s) \<Longrightarrow> always_safe x \<or> x \<in> set safe \<or> x = CHR ''%''"
proof (induction s)
  case Nil
  then show ?case by (simp add: quote_def)
next
  case (Cons c cs)
  have hex: "b < 16 \<Longrightarrow> always_safe (hex_char b)" for b
    by (auto simp: always_safe_def hex_char_def Let_def)
  have "\<forall>b \<in> set (utf8_char c). \<forall>y \<in> set (pct_byte b). always_safe y \<or> y = CHR ''%''"
    using utf8_char_bytes [of c] by (auto simp: pct_byte_def intro!: hex)
  with Cons show ?case by (auto simp: quote_Cons split: if_splits)
qed

lemma quote_absent: "\<not> always_safe x \<Longrightarrow> x \<notin> set safe \<Longrightarrow> x \<noteq> CHR ''%'' \<Longrightarrow> x \<notin> set (quote safe s)"
  using quote_chars by blast

lemma quote_semicolon: "CHR '';'' \<notin> set s \<Longrightarrow> CHR '';'' \<notin> set (quote safe s)"
proof (induction s)
  case Nil
  then show ?case by (simp add: quote_def)
next
  case (Cons c cs)
  have hex: "b < 16 \<Longrightarrow> hex_char b \<noteq> CHR '';''" for b
    by (auto simp: hex_char_def dest!: arg_cong [where f = "of_char :: char \<Rightarrow> nat"])
  have "CHR '';'' \<notin> set (concat (map pct_byte (utf8_char c)))"
    using utf8_char_bytes [of c] by (auto simp: pct_byte_def dest!: hex [symmetric, THEN notE, rotated])
  with Cons show ?case by (auto simp: quote_Cons)
qed

lemma always_safe_delims [simp]:
  "\<not> always_safe CHR '';''" "\<not> always_safe CHR '':''" "\<not> always_safe CHR ''@''" "\<not> always_safe CHR ''?''"
  "\<not> always_safe CHR ''=''" "\<not> always_safe CHR ''&''" "\<not> always_safe CHR ''%''"
  by (simp_all add: always_safe_def)

definition print_header :: "string \<times> string \<Rightarrow> string" where
  "print_header = (\<lambda>(h, v). h @ ''='' @ quote ''/'' v)"

lemma parse_header_print:
  "free_of ''=&;?@'' k \<Longrightarrow> parse_header (print_header (k, v)) d = Inr (dict_set k v d)"
  by (simp add: parse_header_def print_header_def free_of_def quote_absent)

lemma parse_headers_print:
  "distinct (map fst hs) \<Longrightarrow> \<forall>(k, v) \<in> set hs. free_of ''=&;?@'' k \<Longrightarrow>
     fst ` set d \<inter> fst ` set hs = {} \<Longrightarrow> parse_headers (map print_header hs) d = Inr (d @ hs)"
proof (induction hs arbitrary: d)
  case Nil
  then show ?case by simp
next
  case (Cons h hs)
  obtain k v where h: "h = (k, v)" by force
  have "dict_set k v d = d @ [(k, v)]"
    by (rule dict_set_new) (use Cons.prems h in auto)
  moreover have "parse_headers (map print_header hs) (d @ [h]) = Inr ((d @ [h]) @ hs)"
    by (rule Cons.IH) (use Cons.prems h in auto)
  ultimately show ?case using Cons.prems h by (simp add: parse_header_print)
qed

lemma print_header_free: "free_of ''=&;?@'' k \<Longrightarrow> free_of ''&;?@'' (print_header (k, v))"
  by (auto simp: print_header_def free_of_def quote_absent)

lemma join_with_chars: "x \<in> set (join_with sep xs) \<Longrightarrow> x \<in> set sep \<or> (\<exists>y \<in> set xs. x \<in> set y)"
  by (induction sep xs rule: join_with.induct) auto

definition print_headers :: "(string \<times> string) list \<Rightarrow> string" where
  "print_headers hs = join_with ''&'' (map print_header hs)"

lemma free_of_join:
  assumes "free_of bad sep" and "\<forall>y \<in> set xs. free_of bad y"
  shows "free_of bad (join_with sep xs)"
  unfolding free_of_def
proof (intro ballI notI)
  fix c
  assume c: "c \<in> set bad" and "c \<in> set (join_with sep xs)"
  then consider "c \<in> set sep" | y where "y \<in> set xs" "c \<in> set y"
    using join_with_chars by blast
  then show False using assms c by cases (auto simp: free_of_def)
qed

lemma free_of_subset: "free_of bad s \<Longrightarrow> set bad' \<subseteq> set bad \<Longrightarrow> free_of bad' s"
  by (auto simp: free_of_def)

lemma print_headers_free:
  assumes "\<forall>(k, v) \<in> set hs. free_of ''=&;?@'' k"
  shows "free_of '';?@'' (print_headers hs)"
  unfolding print_headers_def
proof (rule free_of_join)
  show "free_of '';?@'' ''&''" by (simp add: free_of_def)
  have "free_of '';?@'' (print_header h)" if "h \<in> set hs" for h
  proof -
    have "free_of ''=&;?@'' (fst h)" using assms that by (cases h) auto
    then have "free_of ''&;?@'' (print_header h)"
      using print_header_free [of "fst h" "snd h"] by simp
    then show ?thesis by (rule free_of_subset) auto
  qed
  then show "\<forall>y \<in> set (map print_header hs). free_of '';?@'' y" by auto
qed

lemma parse_print_headers:
  assumes "hs \<noteq> []" "distinct (map fst hs)" "\<forall>(k, v) \<in> set hs. free_of ''=&;?@'' k"
  shows "parse_headers (split_on (CHR ''&'') (print_headers hs)) [] = Inr hs"
proof -
  have "split_on (CHR ''&'') (print_headers hs) = map print_header hs"
    unfolding print_headers_def
    by (rule split_on_join) (use assms print_header_free in \<open>auto simp: free_of_def\<close>)
  then show ?thesis using parse_headers_print [OF assms(2,3), of "[]"] by simp
qed

subsection \<open>The whole URL\<close>

definition print_user :: "sip_url \<Rightarrow> string \<Rightarrow> string" where
  "print_user u n = quote USERNAME_SAFE n @ concat (map (\<lambda>v. CHR '';'' # v) (userparams u)) @
     (case password u of None \<Rightarrow> [] | Some p \<Rightarrow> '':'' @ p)"

definition print_hostport :: "sip_url \<Rightarrow> string" where
  "print_hostport u = show_host [] (host u) @ (case port u of None \<Rightarrow> [] | Some p \<Rightarrow> '':'' @ show_int (port_int p))"

definition print_suffix :: "sip_url \<Rightarrow> string" where
  "print_suffix u = (case uheaders u of None \<Rightarrow> [] | Some hs \<Rightarrow> ''?'' @ print_headers hs)"

lemma localStr_wf:
  assumes "wf_url u"
  shows "SipURL_localStr my None u = scheme u @ '':'' @
     (case username u of None \<Rightarrow> [] | Some n \<Rightarrow> print_user u n @ ''@'') @
     print_hostport u @ concat (map (\<lambda>p. CHR '';'' # p) (SipURL_getParams None u)) @ print_suffix u"
  using assms
  by (auto simp: SipURL_localStr_def Let_def print_user_def print_hostport_def print_suffix_def
      print_headers_def print_header_def wf_url_def wf_host_def wf_uheaders_def port_needed_def
      split: option.splits list.splits)

lemma split_on_semis:
  "CHR '';'' \<notin> set a \<Longrightarrow> \<forall>p \<in> set ps. CHR '';'' \<notin> set p \<Longrightarrow>
     split_on (CHR '';'') (a @ concat (map (\<lambda>p. CHR '';'' # p) ps)) = a # ps"
  by (induction ps arbitrary: a) auto

lemma parse_print_user:
  assumes "wf_url u" and "username u = Some n"
  shows "parse_userpass (print_user u n) = Inr (n, userparams u, password u)"
    and "CHR ''@'' \<notin> set (print_user u n)"
proof -
  have safe: "CHR ''%'' \<notin> set USERNAME_SAFE" "CHR '':'' \<notin> set USERNAME_SAFE" "CHR ''@'' \<notin> set USERNAME_SAFE"
    by (simp_all add: USERNAME_SAFE_def)
  define a where "a = quote USERNAME_SAFE n @ concat (map (\<lambda>v. CHR '';'' # v) (userparams u))"
  have wf: "CHR '';'' \<notin> set n" "\<forall>v \<in> set (userparams u). free_of '';:@'' v"
    "case password u of None \<Rightarrow> True | Some p \<Rightarrow> CHR ''@'' \<notin> set p"
    using assms by (auto simp: wf_url_def wf_user_def)
  have a: "CHR '':'' \<notin> set a" "CHR ''@'' \<notin> set a"
    using wf(2) safe by (auto simp: a_def quote_absent free_of_def)
  have "split_on (CHR '';'') a = quote USERNAME_SAFE n # userparams u"
    unfolding a_def by (rule split_on_semis) (use wf quote_semicolon in \<open>auto simp: free_of_def\<close>)
  moreover have "split1 (CHR '':'') (print_user u n) = (case password u of None \<Rightarrow> [a] | Some p \<Rightarrow> [a, p])"
  proof -
    have "print_user u n = a @ (case password u of None \<Rightarrow> [] | Some p \<Rightarrow> '':'' @ p)"
      by (simp add: print_user_def a_def)
    then show ?thesis using a(1) by (simp split: option.split)
  qed
  ultimately show "parse_userpass (print_user u n) = Inr (n, userparams u, password u)"
    using safe by (auto simp: parse_userpass_def split: option.splits)
  show "CHR ''@'' \<notin> set (print_user u n)"
    using a(2) wf(3) by (auto simp: print_user_def a_def split: option.splits)
qed

lemma colon_not_int [simp]: "CHR '':'' \<notin> set (show_int i)" "CHR '';'' \<notin> set (show_int i)"
    "CHR ''?'' \<notin> set (show_int i)" "CHR ''@'' \<notin> set (show_int i)"
  by (rule show_int_absent; simp add: is_digit_def)+

lemma parse_print_hostport:
  assumes "wf_url u"
  shows "\<exists>h pp. parse_hostport r (print_hostport u) = Inr (h, pp) \<and> host u = Host h \<and>
      (case pp of None \<Rightarrow> Inr None | Some t \<Rightarrow> parse_port t) = Inr (port u)"
    and "free_of '';?@'' (print_hostport u)"
proof -
  obtain h where h: "host u = Host h" "h \<noteq> []" "free_of ''[:;?@'' h"
    and p: "case port u of Some (MyPort _) \<Rightarrow> False | _ \<Rightarrow> True"
    using assms by (auto simp: wf_url_def wf_host_def)
  then obtain c cs where hc: "h = c # cs" by (cases h) auto
  have c: "c \<noteq> CHR ''[''" "CHR '':'' \<notin> set h" using h(3) hc by (auto simp: free_of_def)
  show "\<exists>h pp. parse_hostport r (print_hostport u) = Inr (h, pp) \<and> host u = Host h \<and>
      (case pp of None \<Rightarrow> Inr None | Some t \<Rightarrow> parse_port t) = Inr (port u)"
  proof (cases "port u")
    case None
    then show ?thesis using c h hc
      by (auto simp: parse_hostport_def print_hostport_def)
  next
    case (Some q)
    then obtain n where n: "q = Port n" using p by (cases q) auto
    have "split1 (CHR '':'') (h @ '':'' @ show_int n) = [h, show_int n]"
      using c(2) split1_append [of "CHR '':''" h "show_int n"] by simp
    then show ?thesis using c h hc Some n
      by (auto simp: parse_hostport_def print_hostport_def parse_port_def)
  qed
  show "free_of '';?@'' (print_hostport u)"
    using h by (auto simp: print_hostport_def free_of_def split: option.splits)
qed

lemma getParams_uheaders [simp]: "SipURL_getParams lt (u\<lparr>uheaders := x\<rparr>) = SipURL_getParams lt u"
  by (simp add: SipURL_getParams_def)

lemma uheaders_same: "uheaders u = x \<Longrightarrow> u\<lparr>uheaders := x\<rparr> = u"
  by (cases u) simp

lemma print_suffix_parse:
  assumes "wf_url u" and "free_of ''?'' a"
  shows "split1 (CHR ''?'') (a @ print_suffix u) =
      (case uheaders u of None \<Rightarrow> [a] | Some hs \<Rightarrow> [a, print_headers hs])"
    and "case uheaders u of None \<Rightarrow> True
      | Some hs \<Rightarrow> parse_headers (split_on (CHR ''&'') (print_headers hs)) [] = Inr hs"
    and "free_of '';@'' (print_suffix u)"
proof -
  have a: "CHR ''?'' \<notin> set a" using assms(2) by (simp add: free_of_def)
  then show "split1 (CHR ''?'') (a @ print_suffix u) =
      (case uheaders u of None \<Rightarrow> [a] | Some hs \<Rightarrow> [a, print_headers hs])"
    by (simp add: print_suffix_def split: option.split)
  show "case uheaders u of None \<Rightarrow> True
      | Some hs \<Rightarrow> parse_headers (split_on (CHR ''&'') (print_headers hs)) [] = Inr hs"
    using assms(1) by (auto simp: wf_url_def wf_uheaders_def parse_print_headers split: option.split)
  have "free_of '';?@'' (print_headers hs)" if "uheaders u = Some hs" for hs
    by (rule print_headers_free) (use assms(1) that in \<open>simp add: wf_url_def wf_uheaders_def\<close>)
  then show "free_of '';@'' (print_suffix u)"
    by (auto simp: print_suffix_def free_of_def split: option.splits)
qed

lemma split_at_sign_simps:
  "CHR ''@'' \<notin> set a \<Longrightarrow> split_at_sign (a @ CHR ''@'' # b) = (Some a, b)"
  "CHR ''@'' \<notin> set b \<Longrightarrow> split_at_sign b = (None, b)"
  by (simp_all add: split_at_sign_def)

lemma split_on_body:
  assumes "CHR '';'' \<notin> set a" "\<forall>p \<in> set ps. CHR '';'' \<notin> set p" "CHR '';'' \<notin> set h"
  shows "split_on (CHR '';'') (a @ concat (map (\<lambda>p. CHR '';'' # p) ps) @ h) =
     (if ps = [] then [a @ h] else a # butlast ps @ [last ps @ h])"
proof (cases ps rule: rev_cases)
  case Nil
  then show ?thesis using assms by simp
next
  case (snoc qs q)
  have "split_on (CHR '';'') (a @ concat (map (\<lambda>p. CHR '';'' # p) (qs @ [q @ h]))) = a # qs @ [q @ h]"
    by (rule split_on_semis) (use assms snoc in auto)
  then show ?thesis using snoc by simp
qed

lemma setParams_blank:
  assumes "wf_params u"
  defines "b \<equiv> \<lparr>scheme = scheme u, username = username u, userparams = userparams u,
     password = password u, host = host u, port = port u, uheaders = uheaders u, usertype = None,
     transport = None, ttl = None, maddr = None, umethod = None, utag = None, other = [], lr = False\<rparr>"
  shows "SipURL_setParams (SipURL_getParams None u) b = Inr u"
  by (rule setParams_getParams [OF assms(1)]) (simp add: b_def)

lemma parseSipURL_print:
  assumes wf: "wf_url u"
  shows "parseSipURL r ((case username u of None \<Rightarrow> [] | Some n \<Rightarrow> print_user u n @ ''@'') @
     print_hostport u @ concat (map (\<lambda>p. CHR '';'' # p) (SipURL_getParams None u)) @ print_suffix u)
     (url_blank\<lparr>scheme := scheme u\<rparr>) = Inr u"
proof -
  define ps where "ps = SipURL_getParams None u"
  define body where "body = print_hostport u @ concat (map (\<lambda>p. CHR '';'' # p) ps) @ print_suffix u"
  have psf: "\<forall>p \<in> set ps. free_of '';?@'' p" and wp: "wf_params u"
    using wf by (simp_all add: wf_url_def wf_params_def ps_def)
  obtain h pp where hp: "parse_hostport r (print_hostport u) = Inr (h, pp)" "host u = Host h"
      "(case pp of None \<Rightarrow> Inr None | Some t \<Rightarrow> parse_port t) = Inr (port u)"
    and hpf: "free_of '';?@'' (print_hostport u)"
    using parse_print_hostport(1) [OF wf, of r] parse_print_hostport(2) [OF wf] by blast
  have pp: "pp = None \<Longrightarrow> port u = None" "pp = Some t \<Longrightarrow> parse_port t = Inr (port u)" for t
    using hp(3) by auto
  have at: "CHR ''@'' \<notin> set body"
    using psf hpf print_suffix_parse(3) [OF wf, of "[]"] by (auto simp: body_def free_of_def)
  have sign: "split_at_sign ((case username u of None \<Rightarrow> [] | Some n \<Rightarrow> print_user u n @ ''@'') @ body)
      = (map_option (print_user u) (username u), body)"
    using at parse_print_user(2) [OF wf] by (auto simp: split_at_sign_simps split: option.split)
  have parts: "split_on (CHR '';'') body =
      (if ps = [] then [print_hostport u @ print_suffix u]
       else print_hostport u # butlast ps @ [last ps @ print_suffix u])"
    unfolding body_def
    by (rule split_on_body) (use psf hpf print_suffix_parse(3) [OF wf, of "[]"] in \<open>auto simp: free_of_def\<close>)
  have user: "username u = Some n \<Longrightarrow> parse_userpass (print_user u n) = Inr (n, userparams u, password u)"
    and nouser: "username u = None \<Longrightarrow> userparams u = [] \<and> password u = None" for n
    using parse_print_user(1) [OF wf] wf by (auto simp: wf_url_def wf_user_def)
  have sfx: "free_of ''?'' a \<Longrightarrow> split1 (CHR ''?'') (a @ print_suffix u) =
      (case uheaders u of None \<Rightarrow> [a] | Some hs \<Rightarrow> [a, print_headers hs])" for a
    by (rule print_suffix_parse(1) [OF wf])
  have hpq: "free_of ''?'' (print_hostport u)" and lpq: "ps \<noteq> [] \<Longrightarrow> free_of ''?'' (last ps)"
    using hpf psf by (auto simp: free_of_def)
  have hd: "uheaders u = Some hs \<Longrightarrow> parse_headers (split_on (CHR ''&'') (print_headers hs)) [] = Inr hs" for hs
    using print_suffix_parse(2) [OF wf hpq] by simp
  have "parseSipURL r ((case username u of None \<Rightarrow> [] | Some n \<Rightarrow> print_user u n @ ''@'') @ body)
     (url_blank\<lparr>scheme := scheme u\<rparr>) = Inr u"
  proof (cases "ps = []")
    case True
    then have "usertype u = None" "transport u = None" "ttl u = None" "maddr u = None"
      "umethod u = None" "utag u = None" "other u = []" "\<not> lr u"
      using wp by (auto simp: ps_def SipURL_getParams_def wf_params_def
          split: option.splits sip_transport.splits if_splits)
    then have u: "\<lparr>scheme = scheme u, username = username u, userparams = userparams u,
        password = password u, host = host u, port = port u, uheaders = uheaders u, usertype = None,
        transport = None, ttl = None, maddr = None, umethod = None, utag = None, other = [], lr = False\<rparr> = u"
      by (cases u) simp
    have "parseSipURL r ((case username u of None \<Rightarrow> [] | Some n \<Rightarrow> print_user u n @ ''@'') @ body)
       (url_blank\<lparr>scheme := scheme u\<rparr>) = Inr \<lparr>scheme = scheme u, username = username u, userparams = userparams u,
        password = password u, host = host u, port = port u, uheaders = uheaders u, usertype = None,
        transport = None, ttl = None, maddr = None, umethod = None, utag = None, other = [], lr = False\<rparr>"
      unfolding parseSipURL_def sign
      using True hp(1,2) pp user nouser sfx [OF hpq] hd
      by (cases "username u"; cases "uheaders u"; cases pp) (simp_all add: Let_def parts url_blank_def)
    then show ?thesis by (simp only: u)
  next
    case False
    have "wf_params (u\<lparr>uheaders := None\<rparr>)" using wp by (simp add: wf_params_def)
    from setParams_blank [OF this] False
    have "SipURL_setParams (butlast ps @ [last ps]) \<lparr>scheme = scheme u, username = username u, userparams = userparams u,
        password = password u, host = host u, port = port u, uheaders = None, usertype = None,
        transport = None, ttl = None, maddr = None, umethod = None, utag = None, other = [], lr = False\<rparr>
        = Inr (u\<lparr>uheaders := None\<rparr>)"
      by (simp add: ps_def)
    with False show ?thesis
      unfolding parseSipURL_def sign
      using hp(1,2) pp user nouser sfx [OF lpq] hd
      by (cases "username u"; cases "uheaders u"; cases pp; cases "userparams u = []")
        (simp_all add: uheaders_same Let_def parts url_blank_def)
  qed
  then show ?thesis by (simp add: body_def ps_def)
qed

lemma SipURL_parse_print:
  assumes "wf_url u"
  shows "SipURL_parse tel relaxed (SipURL_localStr my None u) = Inr u"
proof -
  have "split1 (CHR '':'') (SipURL_localStr my None u) =
     [scheme u, (case username u of None \<Rightarrow> [] | Some n \<Rightarrow> print_user u n @ ''@'') @
     print_hostport u @ concat (map (\<lambda>p. CHR '';'' # p) (SipURL_getParams None u)) @ print_suffix u]"
    using assms unfolding localStr_wf [OF assms] by (auto simp: wf_url_def)
  moreover have "lower (scheme u) = scheme u" "scheme u \<noteq> ''tel''"
    using assms by (auto simp: wf_url_def lower_def lower_char_def)
  ultimately show ?thesis
    using assms parseSipURL_print [OF assms] by (auto simp: SipURL_parse_def wf_url_def)
qed

interpretation url_codec: header_codec "SipURL_parse tel relaxed" "SipURL_localStr my None" wf_url
  by unfold_locales (rule SipURL_parse_print)

end
