(* ===== verification/Sip_Headers.thy ===== *)
theory Sip_Headers
  imports Sip_URL
begin

text \<open>
  The header field bodies of \<^verbatim>\<open>sippy/SipAddress.py\<close>, \<^verbatim>\<open>SipVia.py\<close>, \<^verbatim>\<open>SipCSeq.py\<close>,
  \<^verbatim>\<open>SipNumericHF.py\<close> and their relatives: records, parsers, printers and accessors. A parsed
  body is a value of the record; the text of a body that has not been parsed yet is a
  \<open>string\<close>.
\<close>

section \<open>SipAddress\<close>

definition dquote :: char where
  "dquote = CHR 0x22"

definition backslash :: char where
  "backslash = CHR 0x5C"

text \<open>
  \<^verbatim>\<open>findquotes(s)\<close> with its default start 1: the positions of the double quotes that are not
  preceded by a backslash.
\<close>

definition findquotes :: "string \<Rightarrow> nat list" where
  "findquotes s = filter (\<lambda>i. s ! i = dquote \<and> (i = 0 \<or> s ! (i - 1) \<noteq> backslash)) [1..<length s]"

record sip_address =
  aname :: "string option"
  aurl :: sip_url
  aparams :: "(string \<times> string option) list"
  params_order :: "string list"
  hadbrace :: bool

definition SipAddress :: "string option \<Rightarrow> sip_url \<Rightarrow> sip_address" where
  "SipAddress n u = \<lparr>aname = n, aurl = u, aparams = [], params_order = [], hadbrace = True\<rparr>"

definition addr_param :: "string \<Rightarrow> (string \<times> string option) list \<times> string list \<Rightarrow> (string \<times> string option) list \<times> string list" where
  "addr_param l po =
     (if l = [] then po
      else let kv = split1 (CHR ''='') l;
               k = hd kv;
               v = (case kv of [_, x] \<Rightarrow> Some x | _ \<Rightarrow> None)
           in (dict_set k v (fst po), (if k \<in> set (snd po) then remove1 k (snd po) else snd po) @ [k]))"

definition addr_params :: "string \<Rightarrow> (string \<times> string option) list \<times> string list" where
  "addr_params s = fold addr_param (split_on (CHR '';'') s) ([], [])"

text \<open>
  The text of a quoted display name and what follows it. \<^verbatim>\<open>address.find('<', 1, q)\<close> looks in
  the characters from 1 up to, not including, the quote at \<open>q\<close>. With no closing quote at
  all the loop variable is never bound, and Python raises.
\<close>

fun quoted_split :: "string \<Rightarrow> nat \<Rightarrow> nat list \<Rightarrow> nat" where
  "quoted_split s prev [] = prev"
| "quoted_split s prev (q # qs) =
     (if CHR ''<'' \<in> set (take (q - 1) (drop 1 s)) then prev else quoted_split s q qs)"

definition quoted_name :: "string \<Rightarrow> exn + (string \<times> string)" where
  "quoted_name s =
     (case findquotes s of
        [] \<Rightarrow> Inl (OtherError ''UnboundLocalError'')
      | q # qs \<Rightarrow>
          (let e = quoted_split s q qs in
           Inr (take (e - 1) (drop 1 s), strip (drop (e + 1) s))))"

definition SipAddress_parse :: "bool \<Rightarrow> bool \<Rightarrow> string \<Rightarrow> exn + sip_address" where
  "SipAddress_parse tel relaxed s =
     (if startswith ''sip:'' (lower s) \<and> CHR ''<'' \<notin> set s then
        (let parts = split1 (CHR '';'') s;
             po = (case parts of [_, p] \<Rightarrow> addr_params p | _ \<Rightarrow> ([], []))
         in map_sum id (\<lambda>u. \<lparr>aname = None, aurl = u, aparams = fst po, params_order = snd po, hadbrace = False\<rparr>)
              (SipURL_parse tel relaxed (hd parts)))
      else
        (case (if startswith [dquote] s
               then map_sum id (\<lambda>(n, u). (n, if startswith ''<'' u then drop 1 u else u)) (quoted_name s)
               else (case split1 (CHR ''<'') s of [n, u] \<Rightarrow> Inr (strip n, u) | _ \<Rightarrow> Inl ValueError)) of
           Inl e \<Rightarrow> Inl e
         | Inr (n, u) \<Rightarrow>
             (case split1 (CHR ''>'') u of
                [v, ps] \<Rightarrow>
                  (case SipURL_parse tel relaxed v of
                     Inl e \<Rightarrow> Inl e
                   | Inr url \<Rightarrow>
                       (let po = (if strip ps = [] then ([], []) else addr_params (strip ps)) in
                        Inr \<lparr>aname = Some n, aurl = url, aparams = fst po, params_order = snd po, hadbrace = True\<rparr>))
              | _ \<Rightarrow> Inl ValueError)))"

definition isalnum_char :: "char \<Rightarrow> bool" where
  "isalnum_char c = (let n = of_char c :: nat in
     (48 \<le> n \<and> n \<le> 57) \<or> (65 \<le> n \<and> n \<le> 90) \<or> (97 \<le> n \<and> n \<le> 122) \<or>
     n \<in> {170, 178, 179, 181, 185, 186, 188, 189, 190} \<or>
     (192 \<le> n \<and> n \<noteq> 215 \<and> n \<noteq> 247))"

definition needquotes :: "string \<Rightarrow> bool" where
  "needquotes s = (\<not> (s \<noteq> [] \<and> list_all (\<lambda>c. isalnum_char c \<or> c \<in> set (''-.!%*_+`~'' @ [CHR 0x27])) s))"

definition SipAddress_localStr :: "string \<Rightarrow> local_addr option \<Rightarrow> sip_address \<Rightarrow> exn + string" where
  "SipAddress_localStr my la a =
     (let named = (case aname a of Some n \<Rightarrow> n \<noteq> [] | None \<Rightarrow> False);
          n = (case aname a of Some n \<Rightarrow> n | None \<Rightarrow> []);
          od = (if hadbrace a \<or> named then ''<'' else []);
          cd = (if hadbrace a \<or> named then ''>'' else []);
          pre = (if named then (if needquotes n then [dquote] @ n @ [dquote] @ '' '' else n @ '' '') else [])
      in if \<forall>k \<in> set (params_order a). map_of (aparams a) k \<noteq> None
         then Inr (pre @ od @ SipURL_localStr my la (aurl a) @ cd @
           concat (map (\<lambda>k. case map_of (aparams a) k of
                              Some (Some v) \<Rightarrow> '';'' @ k @ ''='' @ v
                            | _ \<Rightarrow> '';'' @ k) (params_order a)))
         else Inl KeyError)"

definition SipAddress_getCopy :: "sip_address \<Rightarrow> sip_address" where
  "SipAddress_getCopy a = a\<lparr>aurl := SipURL_getCopy (aurl a)\<rparr>"

definition SipAddress_getParam :: "string \<Rightarrow> sip_address \<Rightarrow> string option" where
  "SipAddress_getParam k a = (case map_of (aparams a) k of Some v \<Rightarrow> v | None \<Rightarrow> None)"

definition SipAddress_setParam :: "string \<Rightarrow> string option \<Rightarrow> sip_address \<Rightarrow> sip_address" where
  "SipAddress_setParam k v a = a\<lparr>aparams := dict_set k v (aparams a),
     params_order := (if k \<in> set (params_order a) then params_order a else params_order a @ [k])\<rparr>"

definition SipAddress_delParam :: "string \<Rightarrow> sip_address \<Rightarrow> exn + sip_address" where
  "SipAddress_delParam k a =
     (if map_of (aparams a) k = None then Inl KeyError
      else if k \<notin> set (params_order a) then Inl ValueError
      else Inr (a\<lparr>aparams := filter (\<lambda>p. fst p \<noteq> k) (aparams a),
                   params_order := remove1 k (params_order a)\<rparr>))"

text \<open>\<^verbatim>\<open>SipFrom.getTag\<close>, \<^verbatim>\<open>setTag\<close> and \<^verbatim>\<open>delTag\<close>: the tag is a parameter of the address.\<close>

definition getTag :: "sip_address \<Rightarrow> string option" where
  "getTag a = SipAddress_getParam ''tag'' a"

definition setTag :: "string option \<Rightarrow> sip_address \<Rightarrow> sip_address" where
  "setTag v a = SipAddress_setParam ''tag'' v a"

definition delTag :: "sip_address \<Rightarrow> exn + sip_address" where
  "delTag a = SipAddress_delParam ''tag'' a"

text \<open>The dictionary and the order list of an address name the same parameters, once each.\<close>

definition addr_inv :: "sip_address \<Rightarrow> bool" where
  "addr_inv a \<longleftrightarrow> distinct (params_order a) \<and> distinct (map fst (aparams a)) \<and>
     set (params_order a) = fst ` set (aparams a)"

definition params_inv :: "(string \<times> string option) list \<times> string list \<Rightarrow> bool" where
  "params_inv po \<longleftrightarrow> distinct (snd po) \<and> distinct (map fst (fst po)) \<and> set (snd po) = fst ` set (fst po)"

lemma addr_inv_params: "addr_inv a \<longleftrightarrow> params_inv (aparams a, params_order a)"
  by (simp add: addr_inv_def params_inv_def)

lemma addr_param_inv: "params_inv po \<Longrightarrow> params_inv (addr_param l po)"
  by (auto simp: params_inv_def addr_param_def Let_def dict_set_keys distinct_dict_set set_remove1_eq)

lemma addr_params_inv [simp]: "params_inv (addr_params s)"
proof -
  have "params_inv po \<Longrightarrow> params_inv (fold addr_param ls po)" for ls po
    by (induction ls arbitrary: po) (auto simp: addr_param_inv)
  then show ?thesis by (simp add: addr_params_def params_inv_def)
qed

lemma params_inv_Nil [simp]: "params_inv ([], [])"
  by (simp add: params_inv_def)

lemma SipAddress_parse_inv: "SipAddress_parse tel r s = Inr a \<Longrightarrow> addr_inv a"
  by (auto simp: SipAddress_parse_def addr_inv_params Let_def split: if_splits sum.splits list.splits)

lemma SipAddress_setParam_inv: "addr_inv a \<Longrightarrow> addr_inv (SipAddress_setParam k v a)"
  by (auto simp: addr_inv_def SipAddress_setParam_def dict_set_keys distinct_dict_set)

lemma SipAddress_delParam_inv: "addr_inv a \<Longrightarrow> SipAddress_delParam k a = Inr b \<Longrightarrow> addr_inv b"
  by (force simp: addr_inv_def SipAddress_delParam_def distinct_map_filter set_remove1_eq split: if_splits)

lemma getParam_setParam [simp]:
  "SipAddress_getParam k (SipAddress_setParam k' v a) = (if k = k' then v else SipAddress_getParam k a)"
  by (simp add: SipAddress_getParam_def SipAddress_setParam_def)

lemma getTag_setTag [simp]: "getTag (setTag v a) = v"
  by (simp add: getTag_def setTag_def)

lemma getTag_getCopy [simp]: "getTag (SipAddress_getCopy a) = getTag a"
  by (simp add: getTag_def SipAddress_getParam_def SipAddress_getCopy_def)

text \<open>Printing an address never raises once the dictionary and the order list agree.\<close>

lemma SipAddress_localStr_total: "addr_inv a \<Longrightarrow> \<exists>s. SipAddress_localStr my la a = Inr s"
  by (auto simp: SipAddress_localStr_def addr_inv_def Let_def map_of_eq_None_iff)

section \<open>SipVia\<close>

record sip_via =
  sipver :: string
  vtransport :: sip_transport
  hostname :: sip_host
  vport :: "sip_port option"
  vparams :: "(string \<times> string option) list"

text \<open>The constructor with neither a body nor a \<^verbatim>\<open>cself\<close>.\<close>

definition SipVia :: sip_via where
  "SipVia = \<lparr>sipver = ''SIP/2.0'', vtransport = my_transport, hostname = MyAddress,
     vport = Some my_port, vparams = [(''rport'', None)]\<rparr>"

text \<open>\<^verbatim>\<open>s.split(None, 1)\<close> and \<^verbatim>\<open>s.rsplit('/', 1)\<close>.\<close>

definition split_ws1 :: "string \<Rightarrow> string list" where
  "split_ws1 s = (let t = lstrip s;
                      w = takeWhile (\<lambda>c. \<not> is_space c) t;
                      r = lstrip (drop (length w) t)
                  in if t = [] then [] else if r = [] then [w] else [w, r])"

definition rsplit1 :: "char \<Rightarrow> string \<Rightarrow> string list" where
  "rsplit1 c s = (case split1 c (rev s) of [a, b] \<Rightarrow> [rev b, rev a] | _ \<Rightarrow> [s])"

definition via_param :: "string \<Rightarrow> (string \<times> string option) list \<Rightarrow> (string \<times> string option) list" where
  "via_param p d = (case split1 (CHR ''='') p of
       [k, v] \<Rightarrow> dict_set k (Some v) d
     | k # _ \<Rightarrow> dict_set k None d
     | [] \<Rightarrow> d)"

definition via_port :: "string list \<Rightarrow> exn + sip_port option" where
  "via_port hcomps = (case hcomps of
       [_, t] \<Rightarrow>
         (case py_int t of
            Some n \<Rightarrow> Inr (Some (Port n))
          | None \<Rightarrow>
              (case split1 (CHR '':'') t of
                 [a, b] \<Rightarrow> if a \<noteq> b then Inl ValueError
                            else (case py_int a of Some n \<Rightarrow> Inr (Some (Port n)) | None \<Rightarrow> Inl ValueError)
               | _ \<Rightarrow> Inl ValueError))
     | _ \<Rightarrow> Inr None)"

definition SipVia_parse :: "string \<Rightarrow> exn + sip_via" where
  "SipVia_parse body =
     (case split_ws1 body of
        [parts, hn] \<Rightarrow>
          (case rsplit1 (CHR ''/'') parts of
             [v, t] \<Rightarrow>
               (let hcomps = map strip (split_on (CHR '';'') hn);
                    params = fold via_param (tl hcomps) [];
                    h0 = hd hcomps
                in case (if startswith ''['' h0
                         then (case split1 (CHR '']'') h0 of
                                 [a, b] \<Rightarrow> Inr (a @ '']'', split1 (CHR '':'') b)
                               | _ \<Rightarrow> Inl IndexError)
                         else Inr (hd (split1 (CHR '':'') h0), split1 (CHR '':'') h0)) of
                     Inl e \<Rightarrow> Inl e
                   | Inr (h, hc) \<Rightarrow>
                       map_sum id (\<lambda>p. \<lparr>sipver = rstrip v, vtransport = Transport (lstrip t), hostname = Host h,
                                         vport = p, vparams = params\<rparr>) (via_port hc))
           | _ \<Rightarrow> Inl IndexError)
      | _ \<Rightarrow> Inl ValueError)"

definition upper_char :: "char \<Rightarrow> char" where
  "upper_char c = (let n = of_char c :: nat in if 97 \<le> n \<and> n \<le> 122 then char_of (n - 32) else c)"

definition SipVia_localStr :: "string \<Rightarrow> local_addr option \<Rightarrow> sip_via \<Rightarrow> string" where
  "SipVia_localStr my la v =
     (let tr = (case vtransport v of
                  MyTransport d \<Rightarrow>
                    (let t = map upper_char (case la of None \<Rightarrow> d | Some (_, lt) \<Rightarrow> lt) in
                     if t = ''WS'' then ''WSS'' else t)
                | Transport t \<Rightarrow> t)
      in sipver v @ ''/'' @ tr @ '' '' @
         (case (la, hostname v) of (Some ((a, _), _), MyAddress) \<Rightarrow> a | _ \<Rightarrow> show_host my (hostname v)) @
         (case vport v of
            None \<Rightarrow> []
          | Some p \<Rightarrow>
              (case (la, p) of
                 (Some ((_, lp), lt), MyPort _) \<Rightarrow>
                   if port_needed lp (Some (vtransport v)) (Some lt) then '':'' @ show_int lp else []
               | _ \<Rightarrow> '':'' @ show_int (port_int p))) @
         concat (map (\<lambda>(k, x). CHR '';'' # k @ (case x of None \<Rightarrow> [] | Some y \<Rightarrow> CHR ''='' # y)) (vparams v)))"

definition SipVia_genBranch :: "string \<Rightarrow> sip_via \<Rightarrow> sip_via" where
  "SipVia_genBranch token v = v\<lparr>vparams := dict_set ''branch'' (Some (''z9hG4bK'' @ token)) (vparams v)\<rparr>"

definition SipVia_getBranch :: "sip_via \<Rightarrow> string option" where
  "SipVia_getBranch v = (case map_of (vparams v) ''branch'' of Some x \<Rightarrow> x | None \<Rightarrow> None)"

definition SipVia_setParam :: "string \<Rightarrow> string option \<Rightarrow> sip_via \<Rightarrow> sip_via" where
  "SipVia_setParam k x v = v\<lparr>vparams := dict_set k x (vparams v)\<rparr>"

definition SipVia_getAddr :: "sip_via \<Rightarrow> sip_host \<times> sip_port option" where
  "SipVia_getAddr v = (hostname v, vport v)"

text \<open>
  Where a response to the request goes: \<^verbatim>\<open>rport\<close> and \<^verbatim>\<open>received\<close> override the sent-by
  address. A \<^verbatim>\<open>received\<close> without a value gives no host.
\<close>

definition SipVia_getTAddr :: "sip_via \<Rightarrow> exn + (sip_host option \<times> sip_port)" where
  "SipVia_getTAddr v =
     (case (case map_of (vparams v) ''rport'' of
              Some (Some r) \<Rightarrow> (case py_int r of
                  None \<Rightarrow> Inl ValueError
                | Some n \<Rightarrow> Inr (if n \<le> 0 then None else Some (Port n)))
            | _ \<Rightarrow> Inr None) of
        Inl e \<Rightarrow> Inl e
      | Inr rport \<Rightarrow>
          Inr (case map_of (vparams v) ''received'' of
                 Some x \<Rightarrow> map_option Host x
               | None \<Rightarrow> Some (fst (SipVia_getAddr v)),
               case rport of Some p \<Rightarrow> p
               | None \<Rightarrow> (case snd (SipVia_getAddr v) of Some p \<Rightarrow> p | None \<Rightarrow> Port default_port)))"

lemma getBranch_genBranch [simp]:
  "SipVia_getBranch (SipVia_genBranch t v) = Some (''z9hG4bK'' @ t)"
  by (simp add: SipVia_getBranch_def SipVia_genBranch_def)

definition wf_via :: "sip_via \<Rightarrow> bool" where
  "wf_via v \<longleftrightarrow> sipver v \<noteq> [] \<and> no_space (sipver v) \<and>
     (\<exists>t. vtransport v = Transport t \<and> no_space t \<and> CHR ''/'' \<notin> set t) \<and>
     (\<exists>h. hostname v = Host h \<and> h \<noteq> [] \<and> no_space h \<and> free_of ''[:;'' h) \<and>
     (case vport v of Some (MyPort _) \<Rightarrow> False | _ \<Rightarrow> True) \<and>
     distinct (map fst (vparams v)) \<and>
     (\<forall>(k, x) \<in> set (vparams v). no_space k \<and> free_of ''=;'' k \<and>
        (case x of None \<Rightarrow> True | Some y \<Rightarrow> no_space y \<and> CHR '';'' \<notin> set y))"

definition print_via_param :: "string \<times> string option \<Rightarrow> string" where
  "print_via_param = (\<lambda>(k, x). k @ (case x of None \<Rightarrow> [] | Some y \<Rightarrow> CHR ''='' # y))"

lemma via_param_print:
  "free_of ''=;'' k \<Longrightarrow> via_param (print_via_param (k, x)) d = dict_set k x d"
  by (simp add: via_param_def print_via_param_def free_of_def split: option.split)

lemma via_params_print:
  "distinct (map fst ps) \<Longrightarrow> \<forall>(k, x) \<in> set ps. free_of ''=;'' k \<Longrightarrow> fst ` set d \<inter> fst ` set ps = {} \<Longrightarrow>
     fold via_param (map print_via_param ps) d = d @ ps"
proof (induction ps arbitrary: d)
  case Nil
  then show ?case by simp
next
  case (Cons p ps)
  obtain k x where p: "p = (k, x)" by force
  have "dict_set k x d = d @ [p]" unfolding p
    by (rule dict_set_new) (use Cons.prems p in auto)
  moreover have "fold via_param (map print_via_param ps) (d @ [p]) = (d @ [p]) @ ps"
    by (rule Cons.IH) (use Cons.prems p in auto)
  ultimately show ?case using Cons.prems p by (simp add: via_param_print)
qed

lemma split_ws1_two:
  assumes "no_space a" "a \<noteq> []" "no_space b" "b \<noteq> []"
  shows "split_ws1 (a @ CHR '' '' # b) = [a, b]"
proof -
  have "lstrip (a @ CHR '' '' # b) = a @ CHR '' '' # b"
    using assms(1,2) by (cases a) (auto simp: lstrip_def)
  moreover have "takeWhile (\<lambda>c. \<not> is_space c) (a @ CHR '' '' # b) = a"
    using assms(1) by (simp add: takeWhile_append2 no_space_def)
  moreover have "lstrip (CHR '' '' # b) = b"
    using assms(3,4) by (cases b) (auto simp: lstrip_def)
  ultimately show ?thesis using assms by (simp add: split_ws1_def Let_def)
qed

lemma rsplit1_append: "c \<notin> set b \<Longrightarrow> rsplit1 c (a @ c # b) = [a, b]"
  by (simp add: rsplit1_def)

lemma no_space_strips [simp]: "no_space s \<Longrightarrow> lstrip s = s" "no_space s \<Longrightarrow> rstrip s = s"
proof -
  show "no_space s \<Longrightarrow> lstrip s = s"
    by (cases s) (auto simp: lstrip_def)
  show "no_space s \<Longrightarrow> rstrip s = s"
    by (cases s rule: rev_cases) (auto simp: rstrip_def)
qed

lemma SipVia_parse_print:
  assumes wf: "wf_via v"
  shows "SipVia_parse (SipVia_localStr my None v) = Inr v"
proof -
  obtain t h where t: "vtransport v = Transport t" "no_space t" "CHR ''/'' \<notin> set t"
    and h: "hostname v = Host h" "h \<noteq> []" "no_space h" "free_of ''[:;'' h"
    and sv: "sipver v \<noteq> []" "no_space (sipver v)"
    and vp: "case vport v of Some (MyPort _) \<Rightarrow> False | _ \<Rightarrow> True"
    and ps: "distinct (map fst (vparams v))"
      "\<forall>(k, x) \<in> set (vparams v). no_space k \<and> free_of ''=;'' k \<and>
        (case x of None \<Rightarrow> True | Some y \<Rightarrow> no_space y \<and> CHR '';'' \<notin> set y)"
    using wf by (auto simp: wf_via_def)
  define hp where "hp = h @ (case vport v of None \<Rightarrow> [] | Some p \<Rightarrow> CHR '':'' # show_int (port_int p))"
  define rest where "rest = hp @ concat (map (\<lambda>p. CHR '';'' # p) (map print_via_param (vparams v)))"
  have str: "SipVia_localStr my None v = (sipver v @ CHR ''/'' # t) @ CHR '' '' # rest"
    using t(1) h(1)
    by (simp add: SipVia_localStr_def rest_def hp_def print_via_param_def comp_def case_prod_unfold split: option.split)
  have pf: "no_space (print_via_param p) \<and> CHR '';'' \<notin> set (print_via_param p)" if "p \<in> set (vparams v)" for p
    using ps(2) that by (cases p) (auto simp: print_via_param_def free_of_def is_space_def split: option.splits)
  have hpf: "no_space hp" "CHR '';'' \<notin> set hp" "hp \<noteq> []"
    using h by (auto simp: hp_def free_of_def is_space_def split: option.splits)
  have "no_space rest" using hpf(1) pf
    by (auto simp: rest_def no_space_def is_space_def)
  moreover have "no_space (sipver v @ CHR ''/'' # t)" using sv t by (simp add: is_space_def)
  ultimately have ws: "split_ws1 ((sipver v @ CHR ''/'' # t) @ CHR '' '' # rest) = [sipver v @ CHR ''/'' # t, rest]"
    by (intro split_ws1_two) (use hpf(3) in \<open>auto simp: rest_def\<close>)
  have semi: "split_on (CHR '';'') rest = hp # map print_via_param (vparams v)"
    unfolding rest_def by (rule split_on_semis) (use hpf pf in auto)
  have strips: "map strip (hp # map print_via_param (vparams v)) = hp # map print_via_param (vparams v)"
    using hpf pf by (auto intro!: map_idI)
  have params: "fold via_param (map print_via_param (vparams v)) [] = vparams v"
    using via_params_print [OF ps(1), of "[]"] ps(2) by auto
  obtain c cs where hc: "h = c # cs" using h(2) by (cases h) auto
  have br: "\<not> startswith ''['' hp" using h(4) hc by (auto simp: startswith_def hp_def free_of_def)
  have col: "split1 (CHR '':'') hp = (case vport v of None \<Rightarrow> [h] | Some p \<Rightarrow> [h, show_int (port_int p)])"
    using h(4) by (simp add: hp_def free_of_def split: option.split)
  have "via_port (split1 (CHR '':'') hp) = Inr (vport v)" "hd (split1 (CHR '':'') hp) = h"
    using vp by (auto simp: col via_port_def split: option.splits sip_port.splits)
  then show ?thesis
    using t h(1) sv unfolding str SipVia_parse_def ws
    by (simp add: rsplit1_append semi strips br params Let_def del: list.map)
qed

interpretation via_codec: header_codec SipVia_parse "SipVia_localStr my None" wf_via
  by unfold_locales (rule SipVia_parse_print)

section \<open>SipCSeq and the numeric headers\<close>

type_synonym cseq = "int \<times> string"

definition SipCSeq_parse :: "string \<Rightarrow> exn + cseq" where
  "SipCSeq_parse body = (case split_ws body of
       [n, m] \<Rightarrow> (case py_int n of None \<Rightarrow> Inl ValueError | Some i \<Rightarrow> Inr (i, m))
     | _ \<Rightarrow> Inl ValueError)"

definition SipCSeq_str :: "cseq \<Rightarrow> string" where
  "SipCSeq_str c = show_int (fst c) @ '' '' @ snd c"

definition cseq_initial_min :: int where "cseq_initial_min = 1"
definition cseq_initial_max :: int where "cseq_initial_max = 2 ^ 31 - 1"
definition cseq_initial_headroom :: int where "cseq_initial_headroom = 1024"

text \<open>
  \<^verbatim>\<open>genRandCSeq\<close>; the number that \<^verbatim>\<open>secrets.randbelow\<close> draws is the argument reduced below
  the bound.
\<close>

definition genRandCSeq :: "int \<Rightarrow> int" where
  "genRandCSeq rnd =
     (let cseq_max = cseq_initial_max - cseq_initial_headroom;
          cseq_span = cseq_max - cseq_initial_min + 1
      in cseq_initial_min + rnd mod cseq_span)"

definition SipNumericHF_parse :: "string \<Rightarrow> exn + int" where
  "SipNumericHF_parse body = (case py_int body of None \<Rightarrow> Inl ValueError | Some i \<Rightarrow> Inr i)"

definition SipNumericHF_str :: "int \<Rightarrow> string" where
  "SipNumericHF_str n = show_int n"

definition wf_cseq :: "cseq \<Rightarrow> bool" where
  "wf_cseq c \<longleftrightarrow> snd c \<noteq> [] \<and> no_space (snd c)"

interpretation cseq_codec: header_codec SipCSeq_parse SipCSeq_str wf_cseq
proof unfold_locales
  fix c :: cseq
  assume "wf_cseq c"
  then have "split_ws (show_int (fst c) @ CHR '' '' # snd c) = [show_int (fst c), snd c]"
    by (simp add: wf_cseq_def split_ws_cons split_ws_word)
  then show "SipCSeq_parse (SipCSeq_str c) = Inr c"
    by (simp add: SipCSeq_parse_def SipCSeq_str_def)
qed

interpretation numeric_codec: header_codec SipNumericHF_parse SipNumericHF_str "\<lambda>_. True"
  by unfold_locales (simp add: SipNumericHF_parse_def SipNumericHF_str_def)

lemma genRandCSeq_bounds: "1 \<le> genRandCSeq r" "genRandCSeq r \<le> 2 ^ 31 - 1 - 1024"
proof -
  have "0 \<le> r mod 2147482623" "r mod 2147482623 < 2147482623" by simp_all
  then show "1 \<le> genRandCSeq r" "genRandCSeq r \<le> 2 ^ 31 - 1 - 1024"
    by (simp_all add: genRandCSeq_def cseq_initial_min_def cseq_initial_max_def
        cseq_initial_headroom_def Let_def)
qed

end
