(* ===== verification/Sip_Auth.thy ===== *)
theory Sip_Auth
  imports Sip_Headers
begin

text \<open>
  Digest authentication: \<^verbatim>\<open>sippy/SipAuthorization.py\<close> (the credentials) and
  \<^verbatim>\<open>sippy/SipWWWAuthenticate.py\<close> (the challenge). The hash functions of \<^verbatim>\<open>hashlib\<close> are an
  argument \<open>h\<close>: \<open>h n s\<close> is the hexadecimal digest of the text \<open>s\<close> under the hash named
  \<open>n\<close>. Nothing is assumed of it.
\<close>

type_synonym hashes = "string \<Rightarrow> string \<Rightarrow> string"

definition DGST_MD5 :: nat where "DGST_MD5 = 1"
definition DGST_MD5SESS :: nat where "DGST_MD5SESS = 2"
definition DGST_SHA256 :: nat where "DGST_SHA256 = 4"
definition DGST_SHA256SESS :: nat where "DGST_SHA256SESS = 8"
definition DGST_SHA512 :: nat where "DGST_SHA512 = 16"
definition DGST_SHA512SESS :: nat where "DGST_SHA512SESS = 32"

definition DGST_PRIOS :: "nat list" where
  "DGST_PRIOS = [DGST_SHA512, DGST_SHA512SESS, DGST_SHA256, DGST_SHA256SESS, DGST_MD5, DGST_MD5SESS]"

text \<open>\<^verbatim>\<open>_HASH_FUNC\<close>: the hash and the mask bit of an algorithm name.\<close>

definition HASH_FUNC :: "string option \<Rightarrow> (string \<times> nat) option" where
  "HASH_FUNC alg = map_of
     [(None, (''md5'', DGST_MD5)), (Some ''MD5'', (''md5'', DGST_MD5)),
      (Some ''MD5-sess'', (''md5'', DGST_MD5SESS)), (Some ''SHA-256'', (''sha256'', DGST_SHA256)),
      (Some ''SHA-256-sess'', (''sha256'', DGST_SHA256SESS)),
      (Some ''SHA-512-256'', (''sha512_256'', DGST_SHA512)),
      (Some ''SHA-512-256-sess'', (''sha512_256'', DGST_SHA512SESS))] alg"

definition IsDigestAlgSupported :: "string option \<Rightarrow> bool" where
  "IsDigestAlgSupported alg = (HASH_FUNC alg \<noteq> None)"

fun NameList2AlgMask :: "string option list \<Rightarrow> exn + nat list" where
  "NameList2AlgMask [] = Inr []"
| "NameList2AlgMask (a # as) =
     (case HASH_FUNC a of
        None \<Rightarrow> Inl KeyError
      | Some (_, m) \<Rightarrow> map_sum id (Cons m) (NameList2AlgMask as))"

text \<open>\<^verbatim>\<open>x.encode()\<close> of an attribute that is \<^verbatim>\<open>None\<close> raises.\<close>

definition need :: "string option \<Rightarrow> (string \<Rightarrow> exn + 'a) \<Rightarrow> exn + 'a" where
  "need x k = (case x of None \<Rightarrow> Inl AttributeError | Some s \<Rightarrow> k s)"

definition DigestCalcHA1 :: "hashes \<Rightarrow> string option \<Rightarrow> string option \<Rightarrow> string option \<Rightarrow> string option \<Rightarrow>
    string option \<Rightarrow> string option \<Rightarrow> exn + string" where
  "DigestCalcHA1 h alg user realm pass nonce cnonce =
     (case HASH_FUNC alg of
        None \<Rightarrow> Inl KeyError
      | Some (hf, _) \<Rightarrow>
          need user (\<lambda>u. need realm (\<lambda>r. need pass (\<lambda>p.
            (let HA1 = h hf (u @ '':'' @ r @ '':'' @ p) in
             if (case alg of Some a \<Rightarrow> a \<noteq> [] \<and> endswith ''-sess'' a | None \<Rightarrow> False)
             then need nonce (\<lambda>n. need cnonce (\<lambda>c. Inr (h hf (HA1 @ '':'' @ n @ '':'' @ c))))
             else Inr HA1)))))"

definition truthy :: "string option \<Rightarrow> bool" where
  "truthy x = (case x of None \<Rightarrow> False | Some s \<Rightarrow> s \<noteq> [])"

definition DigestCalcResponse :: "hashes \<Rightarrow> string option \<Rightarrow> string \<Rightarrow> string option \<Rightarrow> string option \<Rightarrow>
    string option \<Rightarrow> string option \<Rightarrow> string \<Rightarrow> string option \<Rightarrow> string option \<Rightarrow> exn + string" where
  "DigestCalcResponse h alg HA1 nonce nc cnonce qop meth uri entity =
     (case HASH_FUNC alg of
        None \<Rightarrow> Inl KeyError
      | Some (hf, _) \<Rightarrow>
          need uri (\<lambda>u.
            (let HA2 = h hf (meth @ '':'' @ u @
                   (if qop = Some ''auth-int''
                    then '':'' @ h hf (case entity of None \<Rightarrow> [] | Some e \<Rightarrow> e) else []))
             in need nonce (\<lambda>n.
               Inr (h hf (HA1 @ '':'' @ n @ '':'' @
                 (if truthy nc \<and> truthy cnonce \<and> truthy qop
                  then the nc @ '':'' @ the cnonce @ '':'' @ the qop @ '':'' else []) @ HA2))))))"

record sip_authorization =
  auth_proxy :: bool
    \<comment> \<open>SipProxyAuthorization rather than SipAuthorization\<close>
  auth_username :: "string option"
  auth_uri :: "string option"
  auth_realm :: "string option"
  auth_nonce :: "string option"
  auth_response :: "string option"
  auth_qop :: "string option"
  auth_cnonce :: "string option"
  auth_nc :: "string option"
  auth_algorithm :: "string option"
  auth_otherparams :: "(string \<times> string) list"

definition genAuthResponse :: "hashes \<Rightarrow> string option \<Rightarrow> string \<Rightarrow> string option \<Rightarrow> sip_authorization \<Rightarrow> exn + sip_authorization" where
  "genAuthResponse h pass meth body a =
     (case DigestCalcHA1 h (auth_algorithm a) (auth_username a) (auth_realm a) pass (auth_nonce a) (auth_cnonce a) of
        Inl e \<Rightarrow> Inl e
      | Inr HA1 \<Rightarrow>
          map_sum id (\<lambda>r. a\<lparr>auth_response := Some r\<rparr>)
            (DigestCalcResponse h (auth_algorithm a) HA1 (auth_nonce a) (auth_nc a) (auth_cnonce a)
               (auth_qop a) meth (auth_uri a) body))"

text \<open>
  \<^verbatim>\<open>verifyHA1\<close>; \<open>valid nonce mask\<close> stands for \<^verbatim>\<open>HashOracle.validate_challenge\<close> at the time
  of the call.
\<close>

definition verifyHA1 :: "hashes \<Rightarrow> (string option \<Rightarrow> nat list \<Rightarrow> bool) \<Rightarrow> string \<Rightarrow> string \<Rightarrow> string option \<Rightarrow> sip_authorization \<Rightarrow> exn + bool" where
  "verifyHA1 h valid HA1 meth body a =
     (case HASH_FUNC (auth_algorithm a) of
        None \<Rightarrow> Inr False
      | Some (_, algmask) \<Rightarrow>
          if auth_qop a \<noteq> None \<and> auth_qop a \<notin> {Some ''auth'', Some ''auth-int''} then Inr False
          else if \<not> valid (auth_nonce a) [algmask] then Inr False
          else map_sum id (\<lambda>r. Some r = auth_response a)
                 (DigestCalcResponse h (auth_algorithm a) HA1 (auth_nonce a) (auth_nc a) (auth_cnonce a)
                    (auth_qop a) meth (auth_uri a) body))"

definition verify :: "hashes \<Rightarrow> (string option \<Rightarrow> nat list \<Rightarrow> bool) \<Rightarrow> string option \<Rightarrow> string \<Rightarrow> string option \<Rightarrow> sip_authorization \<Rightarrow> exn + bool" where
  "verify h valid pass meth body a =
     (case DigestCalcHA1 h (auth_algorithm a) (auth_username a) (auth_realm a) pass (auth_nonce a) (auth_cnonce a) of
        Inl e \<Rightarrow> Inl e
      | Inr HA1 \<Rightarrow> verifyHA1 h valid HA1 meth body a)"

record sip_challenge =
  ch_proxy :: bool
    \<comment> \<open>SipProxyAuthenticate rather than SipWWWAuthenticate\<close>
  ch_realm :: "string option"
  ch_nonce :: "string option"
  ch_qop :: "string list option"
  ch_algorithm :: "string option"
  ch_opaque :: "string option"
  ch_otherparams :: "(string \<times> string) list"

definition supportedAlgorithm :: "sip_challenge \<Rightarrow> bool \<times> string option" where
  "supportedAlgorithm c =
     (case ch_qop c of
        Some q \<Rightarrow>
          (case filter (\<lambda>x. x \<in> {''auth'', ''auth-int''}) q of
             [] \<Rightarrow> (False, None)
           | x # _ \<Rightarrow> (IsDigestAlgSupported (ch_algorithm c), Some x))
      | None \<Rightarrow>
          (case ch_algorithm c of
             Some a \<Rightarrow> if endswith ''-sess'' a \<or> a \<noteq> ''MD5'' then (False, None)
                       else (IsDigestAlgSupported (ch_algorithm c), None)
           | None \<Rightarrow> (IsDigestAlgSupported (ch_algorithm c), None)))"

text \<open>\<^verbatim>\<open>genAuthHF\<close>; \<open>token\<close> is the result of \<^verbatim>\<open>token_hex(4)\<close>.\<close>

definition genAuthHF :: "hashes \<Rightarrow> string \<Rightarrow> string option \<Rightarrow> string option \<Rightarrow> string \<Rightarrow> string \<Rightarrow>
    string option \<Rightarrow> string option \<Rightarrow> sip_challenge \<Rightarrow> exn + sip_authorization" where
  "genAuthHF h token user pass meth uri body qop c =
     (let q = ch_qop c \<noteq> None \<and> qop \<noteq> None in
      genAuthResponse h pass meth body \<lparr>auth_proxy = ch_proxy c, auth_username = user, auth_uri = Some uri,
        auth_realm = ch_realm c, auth_nonce = ch_nonce c, auth_response = None,
        auth_qop = (if q then qop else None),
        auth_cnonce = (if q then Some token else None),
        auth_nc = (if q then Some ''00000001'' else None),
        auth_algorithm = ch_algorithm c,
        auth_otherparams = (case ch_opaque c of None \<Rightarrow> [] | Some op \<Rightarrow> [(''opaque'', [dquote] @ op @ [dquote])])\<rparr>)"

section \<open>The text of the headers\<close>

text \<open>\<^verbatim>\<open>s.strip(chars)\<close>.\<close>

definition strip_chars :: "string \<Rightarrow> string \<Rightarrow> string" where
  "strip_chars cs s = rev (dropWhile (\<lambda>c. c \<in> set cs) (rev (dropWhile (\<lambda>c. c \<in> set cs) s)))"

definition auth_blank :: "bool \<Rightarrow> sip_authorization" where
  "auth_blank proxy = \<lparr>auth_proxy = proxy, auth_username = None, auth_uri = None, auth_realm = None,
     auth_nonce = None, auth_response = None, auth_qop = None, auth_cnonce = None, auth_nc = None,
     auth_algorithm = None, auth_otherparams = []\<rparr>"

definition auth_set :: "string \<Rightarrow> string \<Rightarrow> sip_authorization \<Rightarrow> sip_authorization" where
  "auth_set name value a =
     (let n = lower name; v = Some (strip_chars [dquote] value) in
      if n = ''username'' then a\<lparr>auth_username := v\<rparr>
      else if n = ''uri'' then a\<lparr>auth_uri := v\<rparr>
      else if n = ''realm'' then a\<lparr>auth_realm := v\<rparr>
      else if n = ''nonce'' then a\<lparr>auth_nonce := v\<rparr>
      else if n = ''response'' then a\<lparr>auth_response := v\<rparr>
      else if n = ''qop'' then a\<lparr>auth_qop := v\<rparr>
      else if n = ''cnonce'' then a\<lparr>auth_cnonce := v\<rparr>
      else if n = ''nc'' then a\<lparr>auth_nc := v\<rparr>
      else if n = ''algorithm'' then a\<lparr>auth_algorithm := v\<rparr>
      else a\<lparr>auth_otherparams := auth_otherparams a @ [(name, value)]\<rparr>)"

fun auth_loop :: "string list \<Rightarrow> sip_authorization \<Rightarrow> exn + sip_authorization" where
  "auth_loop [] a = Inr a"
| "auth_loop (x # xs) a =
     (case split1 (CHR ''='') (strip_chars '', '' x) of
        [n, v] \<Rightarrow> auth_loop xs (auth_set n v a)
      | _ \<Rightarrow> Inl ValueError)"

definition SipAuthorization_parse :: "bool \<Rightarrow> string \<Rightarrow> exn + sip_authorization" where
  "SipAuthorization_parse proxy body =
     (case split1 (CHR '' '') body of
        [_, ps] \<Rightarrow> auth_loop (split_on (CHR '','') ps) (auth_blank proxy)
      | _ \<Rightarrow> Inl IndexError)"

definition show_opt :: "string option \<Rightarrow> string" where
  "show_opt x = (case x of None \<Rightarrow> ''None'' | Some s \<Rightarrow> s)"

definition quoted :: "string \<Rightarrow> string option \<Rightarrow> string" where
  "quoted n v = n @ ''='' @ [dquote] @ show_opt v @ [dquote]"

definition SipAuthorization_params :: "sip_authorization \<Rightarrow> string list" where
  "SipAuthorization_params a =
     [quoted ''username'' (auth_username a), quoted ''realm'' (auth_realm a), quoted ''nonce'' (auth_nonce a),
      quoted ''uri'' (auth_uri a), quoted ''response'' (auth_response a)] @
     (case auth_algorithm a of None \<Rightarrow> [] | Some alg \<Rightarrow> [''algorithm='' @ alg]) @
     (case auth_qop a of None \<Rightarrow> [] | Some q \<Rightarrow>
        [''qop='' @ q, ''nc='' @ show_opt (auth_nc a), quoted ''cnonce'' (auth_cnonce a)]) @
     map (\<lambda>(n, v). n @ ''='' @ v) (auth_otherparams a)"

definition SipAuthorization_str :: "sip_authorization \<Rightarrow> string" where
  "SipAuthorization_str a = ''Digest '' @ join_with '','' (SipAuthorization_params a)"

definition chal_set :: "string \<Rightarrow> string \<Rightarrow> sip_challenge \<Rightarrow> sip_challenge" where
  "chal_set name value c =
     (if name = ''realm'' then c\<lparr>ch_realm := Some value\<rparr>
      else if name = ''nonce'' then c\<lparr>ch_nonce := Some value\<rparr>
      else if name = ''algorithm'' then c\<lparr>ch_algorithm := Some (if value = ''md5'' then ''MD5'' else value)\<rparr>
      else if name = ''qop'' then c\<lparr>ch_qop := Some (map strip (split_on (CHR '','') value))\<rparr>
      else if name = ''opaque'' then c\<lparr>ch_opaque := Some value\<rparr>
      else c\<lparr>ch_otherparams := ch_otherparams c @ [(name, value)]\<rparr>)"

fun chal_pairs :: "string list list \<Rightarrow> sip_challenge \<Rightarrow> exn + sip_challenge" where
  "chal_pairs [] c = Inr c"
| "chal_pairs (p # ps) c = (case p of [n, v] \<Rightarrow> chal_pairs ps (chal_set n v c) | _ \<Rightarrow> Inl ValueError)"

text \<open>
  The loop of \<^verbatim>\<open>SipWWWAuthenticate.parse\<close> over the pieces between double quotes: a piece of
  unquoted text, whose last parameter gets the quoted piece after it.
\<close>

fun chal_loop :: "string list \<Rightarrow> sip_challenge \<Rightarrow> exn + sip_challenge" where
  "chal_loop [] c = Inr c"
| "chal_loop [p] c = chal_pairs (map (\<lambda>x. split1 (CHR ''='') (strip x)) (split_on (CHR '','') (strip_chars '' ,='' p))) c"
| "chal_loop (p # q # ps) c =
     (let ps1 = map (\<lambda>x. split1 (CHR ''='') (strip x)) (split_on (CHR '','') (strip_chars '' ,='' p)) in
      case chal_pairs (butlast ps1 @ [last ps1 @ [q]]) c of Inl e \<Rightarrow> Inl e | Inr c' \<Rightarrow> chal_loop ps c')"

definition chal_blank :: "bool \<Rightarrow> sip_challenge" where
  "chal_blank proxy = \<lparr>ch_proxy = proxy, ch_realm = None, ch_nonce = None, ch_qop = None,
     ch_algorithm = None, ch_opaque = None, ch_otherparams = []\<rparr>"

definition SipWWWAuthenticate_parse :: "bool \<Rightarrow> string \<Rightarrow> exn + sip_challenge" where
  "SipWWWAuthenticate_parse proxy body =
     (case split1 (CHR '' '') body of
        [_, s] \<Rightarrow>
          (let parts = split_on dquote (strip s) in
           chal_loop (if length parts mod 2 \<noteq> 0 \<and> last parts = [] then butlast parts else parts) (chal_blank proxy))
      | _ \<Rightarrow> Inl IndexError)"

definition SipWWWAuthenticate_str :: "sip_challenge \<Rightarrow> string" where
  "SipWWWAuthenticate_str c =
     ''Digest '' @ quoted ''realm'' (ch_realm c) @ '','' @ quoted ''nonce'' (ch_nonce c) @
     (case ch_qop c of
        None \<Rightarrow> []
      | Some q \<Rightarrow> if length q > 1 then '','' @ quoted ''qop'' (Some (join_with '','' q)) else '',qop='' @ join_with '','' q) @
     (case ch_algorithm c of None \<Rightarrow> [] | Some a \<Rightarrow> '',algorithm='' @ a) @
     (case ch_opaque c of None \<Rightarrow> [] | Some x \<Rightarrow> '','' @ quoted ''opaque'' (Some x)) @
     concat (map (\<lambda>(n, v). '','' @ quoted n (Some v)) (ch_otherparams c))"

section \<open>Lemmas\<close>

lemma genAuthResponse_frame:
  assumes "genAuthResponse h pass meth body a = Inr b"
  shows "b = a\<lparr>auth_response := auth_response b\<rparr>" "auth_response b \<noteq> None"
    "auth_algorithm b = auth_algorithm a" "auth_nonce b = auth_nonce a" "auth_qop b = auth_qop a"
  using assms by (auto simp: genAuthResponse_def split: sum.splits)

text \<open>Credentials made from a password verify against it, as far as the nonce is valid.\<close>

lemma verify_genAuthResponse:
  assumes gen: "genAuthResponse h pass meth body a = Inr b"
    and qop: "auth_qop a \<in> {None, Some ''auth'', Some ''auth-int''}"
    and alg: "HASH_FUNC (auth_algorithm a) = Some (hf, m)"
  shows "verify h valid pass meth body b = Inr (valid (auth_nonce a) [m])"
proof -
  obtain HA1 r where
    ha1: "DigestCalcHA1 h (auth_algorithm a) (auth_username a) (auth_realm a) pass (auth_nonce a) (auth_cnonce a) = Inr HA1"
    and r: "DigestCalcResponse h (auth_algorithm a) HA1 (auth_nonce a) (auth_nc a) (auth_cnonce a) (auth_qop a) meth (auth_uri a) body = Inr r"
    and b: "b = a\<lparr>auth_response := Some r\<rparr>"
    using gen by (auto simp: genAuthResponse_def split: sum.splits)
  show ?thesis using qop alg ha1 r by (auto simp: verify_def verifyHA1_def b)
qed

lemma supportedAlgorithm_cases:
  assumes "supportedAlgorithm c = (True, q)"
  obtains (noqop) "ch_qop c = None" "q = None" "\<And>a. ch_algorithm c = Some a \<Longrightarrow> \<not> endswith ''-sess'' a"
      "HASH_FUNC (ch_algorithm c) \<noteq> None"
  | (qop) x where "ch_qop c \<noteq> None" "q = Some x" "x \<in> {''auth'', ''auth-int''}"
      "HASH_FUNC (ch_algorithm c) \<noteq> None"
proof (cases "ch_qop c")
  case None
  then show thesis using assms
    by (intro noqop) (auto simp: supportedAlgorithm_def IsDigestAlgSupported_def split: option.splits if_splits)
next
  case (Some qs)
  define f where "f = filter (\<lambda>x. x \<in> {''auth'', ''auth-int''}) qs"
  have f: "supportedAlgorithm c = (case f of [] \<Rightarrow> (False, None) | x # _ \<Rightarrow> (IsDigestAlgSupported (ch_algorithm c), Some x))"
    by (simp add: supportedAlgorithm_def Some f_def)
  then obtain x xs where x: "f = x # xs" using assms by (cases f) auto
  show thesis
  proof (rule qop [of x])
    show "ch_qop c \<noteq> None" using Some by simp
    show "q = Some x" "HASH_FUNC (ch_algorithm c) \<noteq> None"
      using f x assms by (simp_all add: IsDigestAlgSupported_def)
    show "x \<in> {''auth'', ''auth-int''}"
      using filter_Cons_hd [of "\<lambda>x. x \<in> {''auth'', ''auth-int''}" qs x xs] x by (simp add: f_def)
  qed
qed

lemma DigestCalcHA1_total:
  assumes "HASH_FUNC alg \<noteq> None" and "\<And>a. alg = Some a \<Longrightarrow> endswith ''-sess'' a \<Longrightarrow> cnonce \<noteq> None"
  shows "\<exists>x. DigestCalcHA1 h alg (Some u) (Some r) (Some p) (Some n) cnonce = Inr x"
proof -
  obtain hf m where "HASH_FUNC alg = Some (hf, m)" using assms(1) by auto
  then show ?thesis using assms(2)
    by (cases alg; cases cnonce) (auto simp: DigestCalcHA1_def need_def Let_def)
qed

lemma DigestCalcResponse_total:
  assumes "HASH_FUNC alg \<noteq> None"
  shows "\<exists>x. DigestCalcResponse h alg HA1 (Some n) nc cnonce qop meth (Some uri) e = Inr x"
proof -
  obtain hf m where "HASH_FUNC alg = Some (hf, m)" using assms by auto
  then show ?thesis by (simp add: DigestCalcResponse_def need_def Let_def)
qed

lemma genAuthResponse_total:
  assumes "HASH_FUNC (auth_algorithm a) \<noteq> None" "auth_username a = Some u" "auth_realm a = Some r"
    "auth_nonce a = Some n" "auth_uri a = Some uri"
    "\<And>x. auth_algorithm a = Some x \<Longrightarrow> endswith ''-sess'' x \<Longrightarrow> auth_cnonce a \<noteq> None"
  shows "\<exists>b. genAuthResponse h (Some p) meth body a = Inr b"
proof -
  obtain HA1 where ha1: "DigestCalcHA1 h (auth_algorithm a) (Some u) (Some r) (Some p) (Some n) (auth_cnonce a) = Inr HA1"
    using DigestCalcHA1_total [of "auth_algorithm a" "auth_cnonce a" h u r p n] assms(1,6) by blast
  obtain x where "DigestCalcResponse h (auth_algorithm a) HA1 (Some n) (auth_nc a) (auth_cnonce a) (auth_qop a) meth (Some uri) body = Inr x"
    using DigestCalcResponse_total [OF assms(1)] by blast
  with ha1 show ?thesis using assms(2-5) by (simp add: genAuthResponse_def)
qed

text \<open>A challenge that \<open>supportedAlgorithm\<close> accepts can be answered without an exception.\<close>

lemma genAuthHF_total:
  assumes "supportedAlgorithm c = (True, q)" and "ch_realm c = Some r" "ch_nonce c = Some n"
  shows "\<exists>a. genAuthHF h tok (Some u) (Some p) meth uri body q c = Inr a"
  using assms(1)
proof (cases rule: supportedAlgorithm_cases)
  case noqop
  then show ?thesis unfolding genAuthHF_def Let_def
    by (intro genAuthResponse_total) (use assms in auto)
next
  case (qop x)
  then show ?thesis unfolding genAuthHF_def Let_def
    by (intro genAuthResponse_total) (use assms in auto)
qed

subsection \<open>The text of the credentials is read back\<close>

definition clean :: "string \<Rightarrow> bool" where
  "clean v \<longleftrightarrow> CHR '','' \<notin> set v \<and> dquote \<notin> set v"

text \<open>A value printed without quotes: it may not end with a character that the parser strips.\<close>

definition bare :: "string \<Rightarrow> bool" where
  "bare v \<longleftrightarrow> clean v \<and> v \<noteq> [] \<and> last v \<noteq> CHR '' ''"

definition auth_names :: "string list" where
  "auth_names = [''username'', ''uri'', ''realm'', ''nonce'', ''response'', ''qop'', ''cnonce'', ''nc'', ''algorithm'']"

definition wf_auth :: "bool \<Rightarrow> sip_authorization \<Rightarrow> bool" where
  "wf_auth proxy a \<longleftrightarrow> auth_proxy a = proxy \<and>
     (\<forall>x \<in> {auth_username a, auth_realm a, auth_nonce a, auth_uri a, auth_response a}. x \<noteq> None \<and> clean (the x)) \<and>
     (case auth_algorithm a of None \<Rightarrow> True | Some x \<Rightarrow> bare x) \<and>
     (case auth_qop a of
        None \<Rightarrow> auth_nc a = None \<and> auth_cnonce a = None
      | Some q \<Rightarrow> bare q \<and> auth_nc a \<noteq> None \<and> bare (the (auth_nc a)) \<and> auth_cnonce a \<noteq> None \<and> clean (the (auth_cnonce a))) \<and>
     (\<forall>(n, v) \<in> set (auth_otherparams a). lower n \<notin> set auth_names \<and> CHR ''='' \<notin> set n \<and> n \<noteq> [] \<and> hd n \<noteq> CHR '' '' \<and>
        CHR '','' \<notin> set n \<and> CHR '','' \<notin> set v \<and> v \<noteq> [] \<and> last v \<noteq> CHR '' '')"

lemma strip_chars_id: "s = [] \<or> (hd s \<notin> set cs \<and> last s \<notin> set cs) \<Longrightarrow> strip_chars cs s = s"
  using dropWhile_first [of s "\<lambda>c. c \<in> set cs"] dropWhile_first [of "rev s" "\<lambda>c. c \<in> set cs"]
  by (auto simp: strip_chars_def hd_rev)

lemma dropWhile_absent: "c \<notin> set s \<Longrightarrow> dropWhile (\<lambda>x. x = c) s = s"
  by (cases s) auto

lemma strip_quotes: "dquote \<notin> set v \<Longrightarrow> strip_chars [dquote] (dquote # v @ [dquote]) = v"
proof (cases v)
  case Nil
  then show ?thesis by (simp add: strip_chars_def)
next
  case (Cons x xs)
  assume v: "dquote \<notin> set v"
  have "dropWhile (\<lambda>c. c = dquote) (v @ [dquote]) = v @ [dquote]" using v Cons by (auto simp: dropWhile_append)
  then show ?thesis using v dropWhile_absent [of dquote "rev v"] by (simp add: strip_chars_def)
qed

lemma auth_loop_append:
  "auth_loop (xs @ ys) a = (case auth_loop xs a of Inl e \<Rightarrow> Inl e | Inr b \<Rightarrow> auth_loop ys b)"
  by (induction xs arbitrary: a) (auto split: list.split)

text \<open>One parameter of the list.\<close>

lemma auth_loop_Cons:
  assumes "CHR ''='' \<notin> set n" "n \<noteq> []" "hd n \<noteq> CHR '' ''" "hd n \<noteq> CHR '',''" "v \<noteq> []" "last v \<noteq> CHR '' ''" "last v \<noteq> CHR '',''"
  shows "auth_loop ((n @ CHR ''='' # v) # ps) a = auth_loop ps (auth_set n v a)"
proof -
  have "strip_chars '', '' (n @ CHR ''='' # v) = n @ CHR ''='' # v"
    by (rule strip_chars_id) (use assms in auto)
  then show ?thesis using assms(1) by simp
qed

lemmas auth_loop_param = auth_loop_Cons [where ps = "[]", unfolded auth_loop.simps(1)]

lemma last_not_in: "v \<noteq> [] \<Longrightarrow> c \<notin> set v \<Longrightarrow> last v \<noteq> c"
  using last_in_set by blast

lemma auth_loop_quoted:
  assumes "CHR ''='' \<notin> set n" "n \<noteq> []" "hd n \<noteq> CHR '' ''" "hd n \<noteq> CHR '',''"
  shows "auth_loop [quoted n (Some v)] a = Inr (auth_set n (dquote # v @ [dquote]) a)"
  using auth_loop_param [of n "dquote # v @ [dquote]" a] assms by (simp add: quoted_def show_opt_def dquote_def)

lemma auth_set_quoted:
  assumes "dquote \<notin> set v"
  shows "auth_set ''username'' (dquote # v @ [dquote]) a = a\<lparr>auth_username := Some v\<rparr>"
    "auth_set ''uri'' (dquote # v @ [dquote]) a = a\<lparr>auth_uri := Some v\<rparr>"
    "auth_set ''realm'' (dquote # v @ [dquote]) a = a\<lparr>auth_realm := Some v\<rparr>"
    "auth_set ''nonce'' (dquote # v @ [dquote]) a = a\<lparr>auth_nonce := Some v\<rparr>"
    "auth_set ''response'' (dquote # v @ [dquote]) a = a\<lparr>auth_response := Some v\<rparr>"
    "auth_set ''cnonce'' (dquote # v @ [dquote]) a = a\<lparr>auth_cnonce := Some v\<rparr>"
  using strip_quotes [OF assms] by (simp_all add: auth_set_def lower_def lower_char_def)

lemma auth_set_bare:
  assumes "bare v"
  shows "auth_set ''algorithm'' v a = a\<lparr>auth_algorithm := Some v\<rparr>"
    "auth_set ''qop'' v a = a\<lparr>auth_qop := Some v\<rparr>" "auth_set ''nc'' v a = a\<lparr>auth_nc := Some v\<rparr>"
proof -
  have "strip_chars [dquote] v = v"
    using assms by (intro strip_chars_id) (auto simp: bare_def clean_def last_not_in dest: hd_in_set)
  then show "auth_set ''algorithm'' v a = a\<lparr>auth_algorithm := Some v\<rparr>"
    "auth_set ''qop'' v a = a\<lparr>auth_qop := Some v\<rparr>" "auth_set ''nc'' v a = a\<lparr>auth_nc := Some v\<rparr>"
    by (simp_all add: auth_set_def lower_def lower_char_def)
qed

lemma auth_loop_others:
  assumes "\<forall>(n, v) \<in> set ps. lower n \<notin> set auth_names \<and> CHR ''='' \<notin> set n \<and> n \<noteq> [] \<and> hd n \<noteq> CHR '' '' \<and>
        CHR '','' \<notin> set n \<and> CHR '','' \<notin> set v \<and> v \<noteq> [] \<and> last v \<noteq> CHR '' ''"
  shows "auth_loop (map (\<lambda>(n, v). n @ ''='' @ v) ps) a = Inr (a\<lparr>auth_otherparams := auth_otherparams a @ ps\<rparr>)"
  using assms
proof (induction ps arbitrary: a)
  case Nil
  then show ?case by simp
next
  case (Cons p ps)
  obtain n v where p: "p = (n, v)" by force
  have n: "hd n \<noteq> CHR '',''" "last v \<noteq> CHR '',''" using Cons.prems p by (auto dest: hd_in_set last_not_in)
  have "auth_loop [n @ CHR ''='' # v] a = Inr (auth_set n v a)"
    by (rule auth_loop_param) (use Cons.prems p n in auto)
  moreover have "auth_set n v a = a\<lparr>auth_otherparams := auth_otherparams a @ [(n, v)]\<rparr>"
    using Cons.prems p by (auto simp: auth_set_def auth_names_def Let_def)
  ultimately show ?case using Cons auth_loop_append [of "[n @ CHR ''='' # v]" "map (\<lambda>(n, v). n @ ''='' @ v) ps" a] p by simp
qed

lemma quoted_comma: "v \<noteq> None \<Longrightarrow> clean (the v) \<Longrightarrow> CHR '','' \<notin> set n \<Longrightarrow> CHR '','' \<notin> set (quoted n v)"
  by (auto simp: quoted_def show_opt_def clean_def dquote_def)

lemma auth_params_commas:
  assumes "wf_auth proxy a"
  shows "\<forall>x \<in> set (SipAuthorization_params a). CHR '','' \<notin> set x"
proof -
  have "\<forall>x \<in> set (case auth_algorithm a of None \<Rightarrow> [] | Some alg \<Rightarrow> [''algorithm='' @ alg]). CHR '','' \<notin> set x"
    using assms by (cases "auth_algorithm a") (simp_all add: wf_auth_def bare_def clean_def)
  moreover have "\<forall>x \<in> set (case auth_qop a of None \<Rightarrow> [] | Some q \<Rightarrow>
        [''qop='' @ q, ''nc='' @ show_opt (auth_nc a), quoted ''cnonce'' (auth_cnonce a)]). CHR '','' \<notin> set x"
  proof (cases "auth_qop a")
    case (Some q)
    then obtain nc where nc: "auth_nc a = Some nc" "bare nc" "bare q" "auth_cnonce a \<noteq> None" "clean (the (auth_cnonce a))"
      using assms by (cases "auth_nc a") (simp_all add: wf_auth_def)
    have "CHR '','' \<notin> set (quoted ''cnonce'' (auth_cnonce a))" by (rule quoted_comma) (use nc in simp_all)
    then show ?thesis using nc Some by (simp add: show_opt_def bare_def clean_def)
  qed simp
  moreover have "\<forall>x \<in> set (map (\<lambda>(n, v). n @ ''='' @ v) (auth_otherparams a)). CHR '','' \<notin> set x"
    using assms by (auto simp: wf_auth_def)
  moreover have "\<forall>x \<in> set [quoted ''username'' (auth_username a), quoted ''realm'' (auth_realm a), quoted ''nonce'' (auth_nonce a),
      quoted ''uri'' (auth_uri a), quoted ''response'' (auth_response a)]. CHR '','' \<notin> set x"
    using assms quoted_comma by (simp add: wf_auth_def)
  ultimately show ?thesis unfolding SipAuthorization_params_def set_append ball_Un by blast
qed

text \<open>The two optional groups of parameters.\<close>

lemma auth_loop_algorithm:
  assumes "case alg of None \<Rightarrow> True | Some x \<Rightarrow> bare x" "auth_algorithm a = None"
  shows "auth_loop (case alg of None \<Rightarrow> [] | Some x \<Rightarrow> [''algorithm='' @ x]) a = Inr (a\<lparr>auth_algorithm := alg\<rparr>)"
proof (cases alg)
  case (Some x)
  then have "bare x" using assms(1) by simp
  then have "auth_loop [''algorithm'' @ CHR ''='' # x] a = Inr (auth_set ''algorithm'' x a)"
    by (intro auth_loop_param) (auto simp: bare_def clean_def last_not_in)
  then show ?thesis using Some auth_set_bare [OF \<open>bare x\<close>] by simp
qed (use assms(2) in simp)

lemma auth_loop_qop:
  assumes "bare q" "bare nc" "dquote \<notin> set cn"
  shows "auth_loop [''qop='' @ q, ''nc='' @ nc, quoted ''cnonce'' (Some cn)] a =
    Inr (a\<lparr>auth_qop := Some q, auth_nc := Some nc, auth_cnonce := Some cn\<rparr>)"
proof -
  have "auth_loop [''qop='' @ q, ''nc='' @ nc, quoted ''cnonce'' (Some cn)] a =
      auth_loop [''nc='' @ nc, quoted ''cnonce'' (Some cn)] (auth_set ''qop'' q a)"
    using auth_loop_Cons [of "''qop''" q "[''nc='' @ nc, quoted ''cnonce'' (Some cn)]" a] assms(1)
    by (simp add: bare_def clean_def last_not_in del: auth_loop.simps)
  also have "\<dots> = auth_loop [quoted ''cnonce'' (Some cn)] (auth_set ''nc'' nc (auth_set ''qop'' q a))"
    using auth_loop_Cons [of "''nc''" nc "[quoted ''cnonce'' (Some cn)]" "auth_set ''qop'' q a"] assms(2)
    by (simp add: bare_def clean_def last_not_in del: auth_loop.simps)
  also have "\<dots> = Inr (auth_set ''cnonce'' (dquote # cn @ [dquote]) (auth_set ''nc'' nc (auth_set ''qop'' q a)))"
    by (rule auth_loop_quoted) simp_all
  finally show ?thesis by (simp add: auth_set_bare auth_set_quoted assms)
qed

lemma auth_loop_five:
  assumes "dquote \<notin> set u" "dquote \<notin> set r" "dquote \<notin> set n" "dquote \<notin> set i" "dquote \<notin> set x"
  shows "auth_loop [quoted ''username'' (Some u), quoted ''realm'' (Some r), quoted ''nonce'' (Some n), quoted ''uri'' (Some i),
      quoted ''response'' (Some x)] a =
    Inr (a\<lparr>auth_username := Some u, auth_uri := Some i, auth_realm := Some r, auth_nonce := Some n, auth_response := Some x\<rparr>)"
proof -
  have step: "auth_loop (quoted k (Some v) # ps) b = auth_loop ps (auth_set k (dquote # v @ [dquote]) b)"
    if "k \<in> {''username'', ''realm'', ''nonce'', ''uri'', ''response''}" for k v ps b
    using auth_loop_append [of "[quoted k (Some v)]" ps b] auth_loop_quoted [of k v b] that by auto
  show ?thesis using assms by (simp add: step auth_set_quoted del: auth_loop.simps(2))
qed

lemma SipAuthorization_parse_str:
  assumes wf: "wf_auth proxy a"
  shows "SipAuthorization_parse proxy (SipAuthorization_str a) = Inr a"
proof -
  obtain u r n i x where v: "auth_username a = Some u" "auth_realm a = Some r" "auth_nonce a = Some n" "auth_uri a = Some i"
    "auth_response a = Some x" and q: "dquote \<notin> set u" "dquote \<notin> set r" "dquote \<notin> set n" "dquote \<notin> set i" "dquote \<notin> set x"
    using wf by (auto simp: wf_auth_def clean_def)
  let ?b = "(auth_blank proxy)\<lparr>auth_username := Some u, auth_uri := Some i, auth_realm := Some r, auth_nonce := Some n, auth_response := Some x\<rparr>"
  let ?c = "?b\<lparr>auth_algorithm := auth_algorithm a\<rparr>"
  let ?d = "?c\<lparr>auth_qop := auth_qop a, auth_nc := auth_nc a, auth_cnonce := auth_cnonce a\<rparr>"
  have alg: "auth_loop (case auth_algorithm a of None \<Rightarrow> [] | Some alg \<Rightarrow> [''algorithm='' @ alg]) ?b = Inr ?c"
    using wf by (intro auth_loop_algorithm) (simp_all add: wf_auth_def auth_blank_def)
  have qop: "auth_loop (case auth_qop a of None \<Rightarrow> [] | Some q \<Rightarrow>
        [''qop='' @ q, ''nc='' @ show_opt (auth_nc a), quoted ''cnonce'' (auth_cnonce a)]) ?c = Inr ?d"
  proof (cases "auth_qop a")
    case None
    then show ?thesis using wf by (simp add: wf_auth_def auth_blank_def)
  next
    case (Some q)
    then obtain nc cn where "auth_nc a = Some nc" "auth_cnonce a = Some cn" "bare q" "bare nc" "dquote \<notin> set cn"
      using wf by (auto simp: wf_auth_def clean_def)
    then show ?thesis using auth_loop_qop [of q nc cn ?c] Some by (simp add: show_opt_def del: auth_loop.simps)
  qed
  have oth: "auth_loop (map (\<lambda>(n, v). n @ ''='' @ v) (auth_otherparams a)) ?d = Inr a"
    using auth_loop_others [of "auth_otherparams a" ?d] wf v by (simp add: wf_auth_def auth_blank_def)
  have "auth_loop (SipAuthorization_params a) (auth_blank proxy) = Inr a"
    unfolding SipAuthorization_params_def v auth_loop_append auth_loop_five [OF q] sum.case alg qop oth ..
  moreover have "split_on CHR '','' (join_with '','' (SipAuthorization_params a)) = SipAuthorization_params a"
    using auth_params_commas [OF wf] by (intro split_on_join) (auto simp: SipAuthorization_params_def)
  ultimately show ?thesis
    using split1_append [of "CHR '' ''" "''Digest''" "join_with '','' (SipAuthorization_params a)"]
    by (simp add: SipAuthorization_parse_def SipAuthorization_str_def)
qed

interpretation auth_codec: header_codec "SipAuthorization_parse proxy" SipAuthorization_str "wf_auth proxy"
  by unfold_locales (rule SipAuthorization_parse_str)

end
