(* ===== verification/Sdp_Body.thy ===== *)
theory Sdp_Body
  imports Sip_URL
begin

text \<open>
  Session descriptions: \<^verbatim>\<open>sippy/SdpBody.py\<close>, \<^verbatim>\<open>SdpMediaDescription.py\<close>, \<^verbatim>\<open>SdpMedia.py\<close>,
  \<^verbatim>\<open>SdpOrigin.py\<close>, \<^verbatim>\<open>SdpConnecton.py\<close> and \<^verbatim>\<open>SdpGeneric.py\<close>. The headers that Python reads and
  sets by name (\<^verbatim>\<open>setattr(self, name + '_header', ...)\<close>) are maps from the name. The local
  address that the printers take is the host alone (\<^verbatim>\<open>SdpOrigin.localStr\<close> reads nothing
  else of it); \<open>my\<close> is the text of \<^verbatim>\<open>SipConf.my_address\<close>. The main result is that a
  description that is printed is read back.
\<close>

section \<open>The headers\<close>

record sdp_origin =
  o_username :: string
  session_id :: string
  o_version :: string
  network_type :: string
  address_type :: string
  o_address :: sip_host

definition SdpOrigin_parse :: "string \<Rightarrow> exn + sdp_origin" where
  "SdpOrigin_parse body = (case split_ws body of
       [u, i, v, n, t, a] \<Rightarrow> Inr \<lparr>o_username = u, session_id = i, o_version = v, network_type = n,
                                   address_type = t, o_address = Host a\<rparr>
     | _ \<Rightarrow> Inl ValueError)"

text \<open>The constructor with no body; the argument is the value of the class's counter.\<close>

definition SdpOrigin :: "int \<Rightarrow> sdp_origin" where
  "SdpOrigin sid = \<lparr>o_username = ''-'', session_id = show_int sid, o_version = show_int sid,
     network_type = ''IN'', address_type = ''IP4'', o_address = MyAddress\<rparr>"

definition SdpOrigin_fields :: "sdp_origin \<Rightarrow> string \<Rightarrow> string \<Rightarrow> string" where
  "SdpOrigin_fields o_h atype addr = join_with '' '' [o_username o_h, session_id o_h, o_version o_h, network_type o_h, atype, addr]"

definition SdpOrigin_localStr :: "string \<Rightarrow> string option \<Rightarrow> sdp_origin \<Rightarrow> string" where
  "SdpOrigin_localStr my la o_h =
     (case (la, o_address o_h) of
        (Some a, MyAddress) \<Rightarrow>
          if startswith ''['' a then SdpOrigin_fields o_h ''IP6'' (butlast (tl a))
          else SdpOrigin_fields o_h ''IP4'' a
      | _ \<Rightarrow> SdpOrigin_fields o_h (address_type o_h) (show_host my (o_address o_h)))"

record sdp_connection =
  ntype :: string
  atype :: string
  caddr :: string

definition SdpConnecton_parse :: "string \<Rightarrow> exn + sdp_connection" where
  "SdpConnecton_parse body = (case split_ws body of
       n # t # a # _ \<Rightarrow> Inr \<lparr>ntype = n, atype = t, caddr = a\<rparr>
     | _ \<Rightarrow> Inl ValueError)"

definition SdpConnecton_str :: "sdp_connection \<Rightarrow> string" where
  "SdpConnecton_str c = join_with '' '' [ntype c, atype c, caddr c]"

datatype media_type = MTAudio | MTVideo | MTOther

datatype formats = IntFormats "int list" | StrFormats "string list"

record sdp_media =
  mtype :: media_type
  stype :: string
  m_port :: int
  m_transport :: string
  m_formats :: formats

definition media_type_of :: "string \<Rightarrow> media_type" where
  "media_type_of st = (if lower st = ''audio'' then MTAudio else if lower st = ''video'' then MTVideo else MTOther)"

fun py_ints :: "string list \<Rightarrow> exn + int list" where
  "py_ints [] = Inr []"
| "py_ints (x # xs) = (case py_int x of None \<Rightarrow> Inl ValueError | Some i \<Rightarrow> map_sum id (Cons i) (py_ints xs))"

definition SdpMedia_parse :: "string \<Rightarrow> exn + sdp_media" where
  "SdpMedia_parse body = (case split_ws body of
       st # p # rest \<Rightarrow>
         (case py_int p of
            None \<Rightarrow> Inl ValueError
          | Some pn \<Rightarrow>
              (case rest of
                 [] \<Rightarrow> Inl IndexError
               | tr # fs \<Rightarrow>
                   (let mt = media_type_of st in
                    map_sum id (\<lambda>fm. \<lparr>mtype = mt, stype = st, m_port = pn, m_transport = tr, m_formats = fm\<rparr>)
                      (if mt \<in> {MTAudio, MTVideo} then map_sum id IntFormats (py_ints fs) else Inr (StrFormats fs)))))
     | _ \<Rightarrow> Inl IndexError)"

fun format_strs :: "formats \<Rightarrow> string list" where
  "format_strs (IntFormats is) = map show_int is"
| "format_strs (StrFormats ss) = ss"

definition SdpMedia_str :: "sdp_media \<Rightarrow> string" where
  "SdpMedia_str m = stype m @ '' '' @ show_int (m_port m) @ '' '' @ m_transport m @
     concat (map (\<lambda>f. '' '' @ f) (format_strs (m_formats m)))"

record a_header =
  a_name :: string
  a_value :: "string option"

definition a_header_parse :: "string \<Rightarrow> a_header" where
  "a_header_parse s = (case split1 (CHR '':'') s of
       [n, v] \<Rightarrow> \<lparr>a_name = n, a_value = Some v\<rparr>
     | _ \<Rightarrow> \<lparr>a_name = s, a_value = None\<rparr>)"

definition a_header_str :: "a_header \<Rightarrow> string" where
  "a_header_str a = (case a_value a of None \<Rightarrow> a_name a | Some v \<Rightarrow> a_name a @ '':'' @ v)"

section \<open>Media descriptions\<close>

record sdp_section =
  m_header :: "sdp_media option"
  c_header :: "sdp_connection option"
  sect_headers :: "string \<rightharpoonup> string"
    \<comment> \<open>\<^verbatim>\<open>i_header\<close>, \<^verbatim>\<open>b_header\<close>, \<^verbatim>\<open>k_header\<close>\<close>
  a_headers :: "a_header list"

definition SdpMediaDescription :: sdp_section where
  "SdpMediaDescription = \<lparr>m_header = None, c_header = None, sect_headers = Map.empty, a_headers = []\<rparr>"

definition SdpMediaDescription_addHeader :: "string \<Rightarrow> string \<Rightarrow> sdp_section \<Rightarrow> exn + sdp_section" where
  "SdpMediaDescription_addHeader name v sec =
     (if name = ''a'' then Inr (sec\<lparr>a_headers := a_headers sec @ [a_header_parse v]\<rparr>)
      else if name = ''m'' then map_sum id (\<lambda>m. sec\<lparr>m_header := Some m\<rparr>) (SdpMedia_parse v)
      else if name = ''c'' then map_sum id (\<lambda>c. sec\<lparr>c_header := Some c\<rparr>) (SdpConnecton_parse v)
      else if name \<in> {''i'', ''b'', ''k''} then Inr (sec\<lparr>sect_headers := (sect_headers sec)(name \<mapsto> v)\<rparr>)
      else Inl KeyError)"

type_synonym sdp_lines = "(string \<times> string) list"

definition opt_line :: "string \<Rightarrow> string option \<Rightarrow> sdp_lines" where
  "opt_line n v = (case v of None \<Rightarrow> [] | Some x \<Rightarrow> [(n, x)])"

text \<open>The lines of a media description, in the order of \<^verbatim>\<open>all_headers\<close>.\<close>

definition section_lines :: "bool \<Rightarrow> sdp_section \<Rightarrow> sdp_lines" where
  "section_lines noC sec =
     opt_line ''m'' (map_option SdpMedia_str (m_header sec)) @
     opt_line ''i'' (sect_headers sec ''i'') @
     (if noC then [] else opt_line ''c'' (map_option SdpConnecton_str (c_header sec))) @
     opt_line ''b'' (sect_headers sec ''b'') @
     opt_line ''k'' (sect_headers sec ''k'') @
     map (\<lambda>a. (''a'', a_header_str a)) (a_headers sec)"

definition lines_str :: "sdp_lines \<Rightarrow> string" where
  "lines_str ls = concat (map (\<lambda>(n, v). n @ ''='' @ v @ [CR, LF]) ls)"

definition SdpMediaDescription_localStr :: "bool \<Rightarrow> sdp_section \<Rightarrow> string" where
  "SdpMediaDescription_localStr noC sec = lines_str (section_lines noC sec)"

definition SdpMediaDescription_insertHeader :: "nat \<Rightarrow> string \<Rightarrow> string \<Rightarrow> sdp_section \<Rightarrow> exn + sdp_section" where
  "SdpMediaDescription_insertHeader indx name v sec =
     (if name \<noteq> ''a'' then Inl AssertionError
      else Inr (sec\<lparr>a_headers := take indx (a_headers sec) @ [a_header_parse v] @ drop indx (a_headers sec)\<rparr>))"

fun PTbyName :: "string \<Rightarrow> a_header list \<Rightarrow> exn + int option" where
  "PTbyName name [] = Inr None"
| "PTbyName name (a # as) =
     (if a_name a = ''rtpmap'' then
        (case a_value a of
           None \<Rightarrow> Inl AttributeError
         | Some v \<Rightarrow>
             (case split1 (CHR '' '') v of
                [pt, n] \<Rightarrow> if n = name then (case py_int pt of None \<Rightarrow> Inl ValueError | Some i \<Rightarrow> Inr (Some i))
                           else PTbyName name as
              | _ \<Rightarrow> Inl IndexError))
      else PTbyName name as)"

definition getPTbyName :: "string \<Rightarrow> sdp_section \<Rightarrow> exn + int option" where
  "getPTbyName name sec = PTbyName name (a_headers sec)"

text \<open>\<^verbatim>\<open>pt in self.m_header.formats\<close>: an int is never equal to a string.\<close>

fun has_format :: "int \<Rightarrow> formats \<Rightarrow> bool" where
  "has_format pt (IntFormats is) = (pt \<in> set is)"
| "has_format pt (StrFormats ss) = False"

text \<open>
  \<^verbatim>\<open>optimize_a\<close>. The loop runs over a list made before it and removes objects from
  \<^verbatim>\<open>a_headers\<close>; \<^verbatim>\<open>list.remove\<close> compares by identity here, so each object the loop drops is
  the one that was examined.
\<close>

definition stale_a :: "formats \<Rightarrow> a_header \<Rightarrow> bool" where
  "stale_a fs a =
     (a_name a \<in> {''rtpmap'', ''fmtp''} \<and>
      (case a_value a of
         None \<Rightarrow> False
       | Some v \<Rightarrow> (case py_int (hd (split1 (CHR '' '') v)) of None \<Rightarrow> False | Some pt \<Rightarrow> \<not> has_format pt fs)))"

definition optimize_a :: "sdp_section \<Rightarrow> exn + sdp_section" where
  "optimize_a sec = (case m_header sec of
       Some m \<Rightarrow> Inr (sec\<lparr>a_headers := filter (\<lambda>a. \<not> stale_a (m_formats m) a) (a_headers sec)\<rparr>)
     | None \<Rightarrow> if \<exists>a \<in> set (a_headers sec). stale_a (StrFormats []) a then Inl AttributeError else Inr sec)"

definition isOnHold :: "sdp_section \<Rightarrow> exn + bool" where
  "isOnHold sec = (case c_header sec of
       None \<Rightarrow> Inl AttributeError
     | Some c \<Rightarrow> Inr ((atype c = ''IP4'' \<and> caddr c = ''0.0.0.0'') \<or> (atype c = ''IP6'' \<and> caddr c = ''::'') \<or>
         (\<exists>a \<in> set (a_headers sec). a_value a = None \<and> a_name a \<in> {''sendonly'', ''inactive''})))"

section \<open>Session descriptions\<close>

record sdp_body =
  o_header :: "sdp_origin option"
  sc_header :: "sdp_connection option"
  top_headers :: "string \<rightharpoonup> string"
    \<comment> \<open>\<^verbatim>\<open>v\<close>, \<^verbatim>\<open>s\<close>, \<^verbatim>\<open>i\<close>, \<^verbatim>\<open>u\<close>, \<^verbatim>\<open>e\<close>, \<^verbatim>\<open>p\<close>, \<^verbatim>\<open>b\<close>, \<^verbatim>\<open>t\<close>, \<^verbatim>\<open>r\<close>, \<^verbatim>\<open>z\<close>, \<^verbatim>\<open>k\<close>\<close>
  sa_headers :: "a_header list"
  sections :: "sdp_section list"

definition SdpBody_empty :: sdp_body where
  "SdpBody_empty = \<lparr>o_header = None, sc_header = None, top_headers = Map.empty, sa_headers = [], sections = []\<rparr>"

definition generic_names :: "string list" where
  "generic_names = [''v'', ''s'', ''i'', ''u'', ''e'', ''p'', ''b'', ''t'', ''r'', ''z'', ''k'']"

definition SdpBody_addHeader :: "string \<Rightarrow> string \<Rightarrow> sdp_body \<Rightarrow> exn + sdp_body" where
  "SdpBody_addHeader name v b =
     (if name = ''a'' then Inr (b\<lparr>sa_headers := sa_headers b @ [a_header_parse v]\<rparr>)
      else if name = ''o'' then map_sum id (\<lambda>x. b\<lparr>o_header := Some x\<rparr>) (SdpOrigin_parse v)
      else if name = ''c'' then map_sum id (\<lambda>x. b\<lparr>sc_header := Some x\<rparr>) (SdpConnecton_parse v)
      else if name \<in> set generic_names then Inr (b\<lparr>top_headers := (top_headers b)(name \<mapsto> v)\<rparr>)
      else Inl KeyError)"

definition add_to_last :: "string \<Rightarrow> string \<Rightarrow> sdp_section list \<Rightarrow> exn + sdp_section list" where
  "add_to_last name v secs =
     map_sum id (\<lambda>s. butlast secs @ [s]) (SdpMediaDescription_addHeader name v (last secs))"

text \<open>The loop over the lines; the second component is the value of the session's \<^verbatim>\<open>c=\<close>.\<close>

fun sdp_loop :: "string list list \<Rightarrow> string option \<Rightarrow> sdp_body \<Rightarrow> exn + (string option \<times> sdp_body)" where
  "sdp_loop [] ch b = Inr (ch, b)"
| "sdp_loop (p # ls) ch b =
     (case p of
        [n, v] \<Rightarrow>
          (let name = lower n;
               b1 = (if name = ''m'' then b\<lparr>sections := sections b @ [SdpMediaDescription]\<rparr> else b)
           in if sections b1 = [] then
                (if name = ''c'' then sdp_loop ls (Some v) b1
                 else case SdpBody_addHeader name v b1 of Inl e \<Rightarrow> Inl e | Inr b2 \<Rightarrow> sdp_loop ls ch b2)
              else case add_to_last name v (sections b1) of
                  Inl e \<Rightarrow> Inl e
                | Inr ss \<Rightarrow> sdp_loop ls ch (b1\<lparr>sections := ss\<rparr>))
      | _ \<Rightarrow> Inl ValueError)"

fun fill_c :: "string \<Rightarrow> sdp_section list \<Rightarrow> exn + sdp_section list" where
  "fill_c v [] = Inr []"
| "fill_c v (s # ss) =
     (case (if c_header s = None then SdpMediaDescription_addHeader ''c'' v s else Inr s) of
        Inl e \<Rightarrow> Inl e
      | Inr s' \<Rightarrow> map_sum id (Cons s') (fill_c v ss))"

definition sdp_fill :: "string option \<times> sdp_body \<Rightarrow> exn + sdp_body" where
  "sdp_fill cb = (case cb of
       (None, b) \<Rightarrow> Inr b
     | (Some v, b) \<Rightarrow>
         if sections b = [] then SdpBody_addHeader ''c'' v b
         else map_sum id (\<lambda>ss. b\<lparr>sections := ss\<rparr>) (fill_c v (sections b)))"

definition SdpParseError :: "string \<Rightarrow> exn" where
  "SdpParseError arg = SdpHandlingErrors 488 ''Not Acceptable Here'' (Some arg)"

definition missing_msg :: "string \<Rightarrow> string \<Rightarrow> string" where
  "missing_msg name level = ''Mandatory '' @ [CHR 0x22] @ name @ ''='' @ [CHR 0x22] @ '' '' @ level @ '' header is missing''"

definition top_missing :: "sdp_body \<Rightarrow> string list" where
  "top_missing b = filter (\<lambda>n. if n = ''o'' then o_header b = None else top_headers b n = None) [''v'', ''o'', ''s'', ''t'']"

definition sect_missing :: "sdp_body \<Rightarrow> string list" where
  "sect_missing b = concat (map (\<lambda>s. (if c_header s = None then [''c''] else []) @ (if m_header s = None then [''m''] else [])) (sections b))"

definition sdp_check :: "sdp_body \<Rightarrow> exn + sdp_body" where
  "sdp_check b = (case top_missing b of
       n # _ \<Rightarrow> Inl (SdpParseError (missing_msg n ''session''))
     | [] \<Rightarrow>
         (case sect_missing b of
            n # _ \<Rightarrow> Inl (SdpParseError (missing_msg n ''media''))
          | [] \<Rightarrow> Inr b))"

text \<open>\<^verbatim>\<open>avpairs\<close>: the lines that are not blank, split at the first \<^verbatim>\<open>=\<close>.\<close>

definition avpairs :: "string \<Rightarrow> string list list" where
  "avpairs body = map (split1 (CHR ''='')) (filter (\<lambda>x. strip x \<noteq> []) (splitlines (strip body)))"

definition SdpBody_parse :: "string \<Rightarrow> exn + sdp_body" where
  "SdpBody_parse body =
     (case sdp_loop (avpairs body) None SdpBody_empty of
        Inl e \<Rightarrow> Inl e
      | Inr cb \<Rightarrow> (case sdp_fill cb of Inl e \<Rightarrow> Inl e | Inr b \<Rightarrow> sdp_check b))"

text \<open>\<^verbatim>\<open>__iadd__\<close>: one more line for the last media description, or for the session.\<close>

definition SdpBody_iadd :: "string \<Rightarrow> sdp_body \<Rightarrow> exn + sdp_body" where
  "SdpBody_iadd l b =
     (case split1 (CHR ''='') (strip l) of
        [n, v] \<Rightarrow>
          if sections b \<noteq> [] then map_sum id (\<lambda>ss. b\<lparr>sections := ss\<rparr>) (add_to_last n v (sections b))
          else SdpBody_addHeader n v b
      | _ \<Rightarrow> Inl TypeError)"

subsection \<open>Printing\<close>

definition top_line :: "sdp_body \<Rightarrow> string \<Rightarrow> sdp_lines" where
  "top_line b n = opt_line n (top_headers b n)"

text \<open>\<^verbatim>\<open>first_half\<close> and \<^verbatim>\<open>second_half\<close>; \<open>os\<close> prints the origin.\<close>

definition first_half :: "(sdp_origin \<Rightarrow> string) \<Rightarrow> sdp_body \<Rightarrow> sdp_lines" where
  "first_half os b = top_line b ''v'' @ opt_line ''o'' (map_option os (o_header b)) @
     concat (map (top_line b) [''s'', ''i'', ''u'', ''e'', ''p''])"

definition second_half :: "sdp_body \<Rightarrow> sdp_lines" where
  "second_half b = concat (map (top_line b) [''b'', ''t'', ''r'', ''z'', ''k''])"

definition a_lines :: "a_header list \<Rightarrow> sdp_lines" where
  "a_lines as = map (\<lambda>a. (''a'', a_header_str a)) as"

text \<open>
  The lines of a description when the connection address of the first media description,
  \<open>copt\<close>, is printed once for the whole session, and when it is not.
\<close>

definition shared_c_lines :: "(sdp_origin \<Rightarrow> string) \<Rightarrow> string \<Rightarrow> sdp_body \<Rightarrow> sdp_lines" where
  "shared_c_lines os c0 b = first_half os b @ [(''c'', c0)] @ second_half b @ a_lines (sa_headers b) @
     concat (map (\<lambda>s. section_lines (map_option SdpConnecton_str (c_header s) = Some c0) s) (sections b))"

definition plain_lines :: "(sdp_origin \<Rightarrow> string) \<Rightarrow> sdp_body \<Rightarrow> sdp_lines" where
  "plain_lines os b = first_half os b @ opt_line ''c'' (map_option SdpConnecton_str (sc_header b)) @
     second_half b @ a_lines (sa_headers b) @ concat (map (section_lines False) (sections b))"

text \<open>
  \<^verbatim>\<open>__str__\<close>. With two or more media descriptions the second one may lack a \<^verbatim>\<open>c=\<close>: its text is
  then \<^verbatim>\<open>None\<close> in the comparison.
\<close>

definition SdpBody_lines :: "(sdp_origin \<Rightarrow> string) \<Rightarrow> sdp_body \<Rightarrow> sdp_lines" where
  "SdpBody_lines os b =
     (case sections b of
        [s] \<Rightarrow> (case c_header s of Some c \<Rightarrow> shared_c_lines os (SdpConnecton_str c) b | None \<Rightarrow> plain_lines os b)
      | s # t # _ \<Rightarrow>
          (case (sc_header b, c_header s) of
             (None, Some c) \<Rightarrow>
               if SdpConnecton_str c = (case c_header t of None \<Rightarrow> ''None'' | Some d \<Rightarrow> SdpConnecton_str d)
               then shared_c_lines os (SdpConnecton_str c) b else plain_lines os b
           | _ \<Rightarrow> plain_lines os b)
      | [] \<Rightarrow> plain_lines os b)"

definition SdpBody_str :: "string \<Rightarrow> sdp_body \<Rightarrow> string" where
  "SdpBody_str my b = lines_str (SdpBody_lines (SdpOrigin_localStr my None) b)"

text \<open>
  \<^verbatim>\<open>localStr\<close>: the same lines with the local address in the origin, except that the second
  media description's \<^verbatim>\<open>c_header\<close> is dereferenced when the first one has one.
\<close>

definition SdpBody_localStr :: "string \<Rightarrow> string option \<Rightarrow> sdp_body \<Rightarrow> exn + string" where
  "SdpBody_localStr my la b =
     (case sections b of
        s # t # _ \<Rightarrow>
          if sc_header b = None \<and> c_header s \<noteq> None \<and> c_header t = None then Inl AttributeError
          else Inr (lines_str (SdpBody_lines (SdpOrigin_localStr my la) b))
      | _ \<Rightarrow> Inr (lines_str (SdpBody_lines (SdpOrigin_localStr my la) b)))"

section \<open>The print/parse round trip\<close>

subsection \<open>Lines\<close>

definition good_text :: "string \<Rightarrow> bool" where
  "good_text v \<longleftrightarrow> (\<forall>c \<in> set v. \<not> is_linebreak c) \<and> (v = [] \<or> \<not> is_space (last v))"

definition good_line :: "string \<times> string \<Rightarrow> bool" where
  "good_line nv \<longleftrightarrow> fst nv \<noteq> [] \<and> no_space (fst nv) \<and> CHR ''='' \<notin> set (fst nv) \<and> good_text (snd nv)"

definition line_text :: "string \<times> string \<Rightarrow> string" where
  "line_text nv = fst nv @ CHR ''='' # snd nv"

lemma linebreak_space: "is_linebreak c \<Longrightarrow> is_space c"
  by (auto simp: is_linebreak_def is_space_def Let_def)

lemma no_space_good [simp]: "no_space s \<Longrightarrow> good_text s"
  by (auto simp: good_text_def no_space_def dest: linebreak_space)

lemma splitlines_acc_text:
  "\<forall>c \<in> set v. \<not> is_linebreak c \<Longrightarrow> splitlines_acc w (v @ CR # LF # s) = (w @ v) # splitlines_acc [] s"
proof (induction v arbitrary: w)
  case Nil
  then show ?case by simp
next
  case (Cons c cs)
  then have nb: "\<not> is_linebreak c" by simp
  then have "c \<noteq> CR" by (auto simp: is_linebreak_def)
  then have step: "splitlines_acc w ((c # cs) @ CR # LF # s) = splitlines_acc (w @ [c]) (cs @ CR # LF # s)"
    using nb by (cases cs) auto
  show ?case using Cons.IH [of "w @ [c]"] Cons.prems by (simp only: step) simp
qed

lemma splitlines_acc_last:
  "\<forall>c \<in> set v. \<not> is_linebreak c \<Longrightarrow> v \<noteq> [] \<Longrightarrow> splitlines_acc w v = [w @ v]"
proof (induction v arbitrary: w)
  case Nil
  then show ?case by simp
next
  case (Cons c cs)
  then have "c \<noteq> CR" by (auto simp: is_linebreak_def)
  with Cons show ?case by (cases cs) auto
qed

lemma line_text_good:
  assumes "good_line l"
  shows "\<forall>c \<in> set (line_text l). \<not> is_linebreak c" "line_text l \<noteq> []"
    "\<not> is_space (hd (line_text l))" "\<not> is_space (last (line_text l))" "strip (line_text l) \<noteq> []"
    "split1 (CHR ''='') (line_text l) = [fst l, snd l]"
proof -
  obtain c cs where n: "fst l = c # cs" using assms by (cases "fst l") (auto simp: good_line_def)
  show hd: "\<not> is_space (hd (line_text l))" and ne: "line_text l \<noteq> []"
    using assms by (auto simp: good_line_def line_text_def n)
  show lst: "\<not> is_space (last (line_text l))"
    using assms by (auto simp: good_line_def line_text_def good_text_def is_space_def)
  show "strip (line_text l) \<noteq> []" using strip_id [of "line_text l"] hd lst ne by simp
  show "\<forall>c \<in> set (line_text l). \<not> is_linebreak c"
    using assms by (auto simp: good_line_def line_text_def good_text_def is_linebreak_def no_space_def is_space_def Let_def)
  show "split1 (CHR ''='') (line_text l) = [fst l, snd l]"
    using assms by (simp add: line_text_def good_line_def)
qed

lemma lines_str_Cons: "lines_str (l # ls) = line_text l @ CR # LF # lines_str ls"
  by (cases l) (simp add: lines_str_def line_text_def)

lemma splitlines_lines:
  "\<forall>l \<in> set ls. good_line l \<Longrightarrow> good_line x \<Longrightarrow>
     splitlines (lines_str ls @ line_text x) = map line_text (ls @ [x])"
  unfolding splitlines_def
proof (induction ls)
  case Nil
  then show ?case using line_text_good [of x] by (simp add: lines_str_def splitlines_acc_last)
next
  case (Cons l ls)
  then show ?case using line_text_good(1) [of l] by (simp add: lines_str_Cons splitlines_acc_text)
qed

lemma strip_trailing:
  assumes "s \<noteq> []" "\<not> is_space (hd s)" "\<not> is_space (last s)"
  shows "strip (s @ [CR, LF]) = s"
proof -
  have "lstrip (s @ [CR, LF]) = s @ [CR, LF]"
    using assms by (cases s) (auto simp: lstrip_def)
  moreover have "dropWhile is_space (rev s) = rev s"
    using assms by (intro dropWhile_first) (simp add: hd_rev)
  ultimately show ?thesis by (simp add: strip_def rstrip_def is_space_def)
qed

lemma avpairs_lines:
  assumes "\<forall>l \<in> set ls. good_line l" "ls \<noteq> []"
  shows "avpairs (lines_str ls) = map (\<lambda>(n, v). [n, v]) ls"
proof -
  obtain ys x where ls: "ls = ys @ [x]" using assms(2) by (cases ls rule: rev_cases) auto
  have gx: "good_line x" and gy: "\<forall>l \<in> set ys. good_line l" using assms(1) ls by auto
  define t where "t = lines_str ys @ line_text x"
  have t: "t \<noteq> []" "\<not> is_space (last t)" using line_text_good [OF gx] by (auto simp: t_def)
  have "\<not> is_space (hd t)"
  proof (cases ys)
    case Nil
    then show ?thesis using line_text_good [OF gx] by (simp add: t_def lines_str_def)
  next
    case (Cons l ls)
    then show ?thesis using line_text_good [of l] gy by (simp add: t_def lines_str_Cons)
  qed
  moreover have "lines_str ls = t @ [CR, LF]"
    by (simp add: ls t_def lines_str_def line_text_def case_prod_unfold)
  ultimately have "strip (lines_str ls) = t" using strip_trailing t by simp
  moreover have "splitlines t = map line_text ls"
    unfolding t_def ls by (rule splitlines_lines) (use gx gy in auto)
  moreover have "filter (\<lambda>x. strip x \<noteq> []) (map line_text ls) = map line_text ls"
    using assms(1) line_text_good(5) by (auto simp: filter_id_conv)
  ultimately show ?thesis using assms(1) line_text_good(6)
    by (auto simp: avpairs_def case_prod_unfold)
qed

subsection \<open>Headers\<close>

definition word :: "string \<Rightarrow> bool" where
  "word s \<longleftrightarrow> s \<noteq> [] \<and> no_space s"

lemma split_ws_words:
  "xs \<noteq> [] \<Longrightarrow> \<forall>x \<in> set xs. word x \<Longrightarrow> split_ws (join_with '' '' xs) = xs"
proof (induction xs)
  case Nil
  then show ?case by simp
next
  case (Cons x xs)
  then show ?case
    by (cases xs) (auto simp: word_def split_ws_word split_ws_cons join_with_Cons)
qed

lemma join_words_good: "\<forall>x \<in> set xs. word x \<Longrightarrow> good_text (join_with '' '' xs)"
proof (induction xs)
  case Nil
  then show ?case by (simp add: good_text_def)
next
  case (Cons x xs)
  then have x: "word x" by simp
  then have gx: "good_text x" "\<not> is_linebreak CHR '' ''" by (auto simp: word_def is_linebreak_def)
  show ?case
  proof (cases xs)
    case Nil
    then show ?thesis using gx by simp
  next
    case (Cons y ys)
    then have "join_with '' '' xs \<noteq> []" using \<open>\<forall>x\<in>set (x # xs). word x\<close> by (cases ys) (auto simp: word_def)
    then show ?thesis using gx Cons.IH \<open>\<forall>x\<in>set (x # xs). word x\<close> Cons
      by (auto simp: good_text_def)
  qed
qed

definition wf_conn :: "sdp_connection \<Rightarrow> bool" where
  "wf_conn c \<longleftrightarrow> word (ntype c) \<and> word (atype c) \<and> word (caddr c)"

interpretation conn_codec: header_codec SdpConnecton_parse SdpConnecton_str wf_conn
proof
  fix c
  assume "wf_conn c"
  then have "split_ws (SdpConnecton_str c) = [ntype c, atype c, caddr c]"
    unfolding SdpConnecton_str_def by (intro split_ws_words) (auto simp: wf_conn_def)
  then show "SdpConnecton_parse (SdpConnecton_str c) = Inr c" by (simp add: SdpConnecton_parse_def)
qed

definition wf_origin :: "sdp_origin \<Rightarrow> bool" where
  "wf_origin x \<longleftrightarrow> word (o_username x) \<and> word (session_id x) \<and> word (o_version x) \<and> word (network_type x) \<and>
     word (address_type x) \<and> (case o_address x of Host a \<Rightarrow> word a | MyAddress \<Rightarrow> False)"

interpretation origin_codec: header_codec SdpOrigin_parse "SdpOrigin_localStr my la" wf_origin
proof
  fix x
  assume "wf_origin x"
  then obtain a where a: "o_address x = Host a" "word a"
    and w: "word (o_username x)" "word (session_id x)" "word (o_version x)" "word (network_type x)" "word (address_type x)"
    by (auto simp: wf_origin_def split: sip_host.splits)
  have "SdpOrigin_localStr my la x = SdpOrigin_fields x (address_type x) a"
    using a by (simp add: SdpOrigin_localStr_def split: option.split)
  moreover have "split_ws (SdpOrigin_fields x (address_type x) a) =
      [o_username x, session_id x, o_version x, network_type x, address_type x, a]"
    unfolding SdpOrigin_fields_def by (intro split_ws_words) (use a w in auto)
  ultimately show "SdpOrigin_parse (SdpOrigin_localStr my la x) = Inr x"
    using a by (simp add: SdpOrigin_parse_def)
qed

definition wf_media :: "sdp_media \<Rightarrow> bool" where
  "wf_media m \<longleftrightarrow> word (stype m) \<and> word (m_transport m) \<and> mtype m = media_type_of (stype m) \<and>
     (case m_formats m of
        IntFormats is \<Rightarrow> mtype m \<noteq> MTOther
      | StrFormats ss \<Rightarrow> mtype m = MTOther \<and> (\<forall>x \<in> set ss. word x))"

lemma py_ints_show: "py_ints (map show_int is) = Inr is"
  by (induction "is") auto

lemma join_tail: "x @ concat (map (\<lambda>f. '' '' @ f) xs) = join_with '' '' (x # xs)"
proof (induction xs arbitrary: x)
  case Nil
  then show ?case by simp
next
  case (Cons y ys)
  show ?case using Cons.IH [of y] by simp
qed

lemma SdpMedia_str_join:
  "SdpMedia_str m = join_with '' '' (stype m # show_int (m_port m) # m_transport m # format_strs (m_formats m))"
  using join_tail [of "m_transport m" "format_strs (m_formats m)"] by (simp add: SdpMedia_str_def)

lemma media_words:
  assumes "wf_media m"
  shows "\<forall>x \<in> set (stype m # show_int (m_port m) # m_transport m # format_strs (m_formats m)). word x"
  using assms by (cases "m_formats m") (auto simp: wf_media_def word_def)

interpretation media_codec: header_codec SdpMedia_parse SdpMedia_str wf_media
proof
  fix m
  assume m: "wf_media m"
  then have "split_ws (SdpMedia_str m) = stype m # show_int (m_port m) # m_transport m # format_strs (m_formats m)"
    unfolding SdpMedia_str_join by (intro split_ws_words media_words) auto
  then show "SdpMedia_parse (SdpMedia_str m) = Inr m"
    using m by (cases "m_formats m"; cases "mtype m")
      (auto simp: SdpMedia_parse_def wf_media_def Let_def py_ints_show intro!: sdp_media.equality)
qed

definition wf_a :: "a_header \<Rightarrow> bool" where
  "wf_a a \<longleftrightarrow> CHR '':'' \<notin> set (a_name a) \<and> good_text (a_header_str a)"

lemma a_header_parse_str: "wf_a a \<Longrightarrow> a_header_parse (a_header_str a) = a"
  by (cases "a_value a") (auto simp: wf_a_def a_header_parse_def a_header_str_def)

subsection \<open>The loop over the lines\<close>

abbreviation pairs :: "sdp_lines \<Rightarrow> string list list" where
  "pairs ls \<equiv> map (\<lambda>(n, v). [n, v]) ls"

lemma sdp_loop_append:
  "sdp_loop (xs @ ys) ch b = (case sdp_loop xs ch b of Inl e \<Rightarrow> Inl e | Inr (ch', b') \<Rightarrow> sdp_loop ys ch' b')"
proof (induction xs arbitrary: ch b)
  case Nil
  then show ?case by simp
next
  case (Cons p ls)
  show ?case
  proof (cases "\<exists>n v. p = [n, v]")
    case False
    then have "sdp_loop (p # rest) ch b = Inl ValueError" for rest
      by (auto split: list.split)
    then show ?thesis by simp
  next
    case True
    then obtain n v where p: "p = [n, v]" by blast
    show ?thesis by (simp add: p Let_def Cons.IH split: sum.split)
  qed
qed

text \<open>One line of the session part.\<close>

lemma loop_top:
  assumes "sections b = []" "n \<in> {''v'', ''o'', ''s'', ''i'', ''u'', ''e'', ''p'', ''b'', ''t'', ''r'', ''z'', ''k'', ''a''}"
    and "SdpBody_addHeader n v b = Inr b'"
  shows "sdp_loop ([n, v] # rest) ch b = sdp_loop rest ch b'"
proof -
  have "lower n = n" "n \<noteq> ''m''" "n \<noteq> ''c''" using assms(2) by (auto simp: lower_def lower_char_def)
  then show ?thesis using assms(1,3) by simp
qed

lemma addHeader_sections: "SdpBody_addHeader n v b = Inr b' \<Longrightarrow> sections b' = sections b"
  by (auto simp: SdpBody_addHeader_def split: if_splits)

definition over :: "(string \<rightharpoonup> string) \<Rightarrow> string list \<Rightarrow> (string \<rightharpoonup> string) \<Rightarrow> string \<rightharpoonup> string" where
  "over h ns m = (\<lambda>k. if k \<in> set ns \<and> h k \<noteq> None then h k else m k)"

lemma loop_generic:
  assumes "sections c = []" "set ns \<subseteq> set generic_names"
  shows "sdp_loop (pairs (concat (map (top_line b) ns)) @ rest) ch c =
         sdp_loop rest ch (c\<lparr>top_headers := over (top_headers b) ns (top_headers c)\<rparr>)"
  using assms
proof (induction ns arbitrary: c)
  case Nil
  then show ?case by (simp add: over_def)
next
  case (Cons n ns)
  show ?case
  proof (cases "top_headers b n")
    case None
    then have "over (top_headers b) (n # ns) (top_headers c) = over (top_headers b) ns (top_headers c)"
      by (auto simp: over_def intro!: ext)
    then show ?thesis using Cons None by (simp add: top_line_def opt_line_def)
  next
    case (Some v)
    define c' where "c' = c\<lparr>top_headers := (top_headers c)(n \<mapsto> v)\<rparr>"
    have "n \<in> set generic_names" using Cons.prems by simp
    then have "n \<notin> {''a'', ''o'', ''c''}" and nin: "n \<in> {''v'', ''o'', ''s'', ''i'', ''u'', ''e'', ''p'', ''b'', ''t'', ''r'', ''z'', ''k'', ''a''}"
      by (auto simp: generic_names_def)
    then have "SdpBody_addHeader n v c = Inr c'"
      using \<open>n \<in> set generic_names\<close> by (simp add: SdpBody_addHeader_def c'_def)
    then have step: "sdp_loop ([n, v] # r) ch c = sdp_loop r ch c'" for r
      by (intro loop_top) (use Cons.prems nin in auto)
    have "over (top_headers b) ns (top_headers c') = over (top_headers b) (n # ns) (top_headers c)"
      using Some by (auto simp: over_def c'_def intro!: ext)
    then show ?thesis using Cons.IH [of c'] Cons.prems
      by (simp add: top_line_def opt_line_def Some step del: sdp_loop.simps) (simp add: c'_def)
  qed
qed

lemma loop_a:
  assumes "sections c = []" "\<forall>a \<in> set as. wf_a a"
  shows "sdp_loop (pairs (a_lines as) @ rest) ch c = sdp_loop rest ch (c\<lparr>sa_headers := sa_headers c @ as\<rparr>)"
  using assms
proof (induction as arbitrary: c)
  case Nil
  then show ?case by (simp add: a_lines_def)
next
  case (Cons a as)
  define c' where "c' = c\<lparr>sa_headers := sa_headers c @ [a]\<rparr>"
  have "SdpBody_addHeader ''a'' (a_header_str a) c = Inr c'"
    using Cons.prems by (simp add: SdpBody_addHeader_def c'_def a_header_parse_str)
  then have step: "sdp_loop ([''a'', a_header_str a] # r) ch c = sdp_loop r ch c'" for r
    by (intro loop_top) (use Cons.prems in auto)
  show ?case using Cons.IH [of c'] Cons.prems
    by (simp add: a_lines_def step del: sdp_loop.simps) (simp add: c'_def)
qed

text \<open>The lines of a media description after its \<^verbatim>\<open>m=\<close>.\<close>

fun sect_fold :: "sdp_lines \<Rightarrow> sdp_section \<Rightarrow> exn + sdp_section" where
  "sect_fold [] s = Inr s"
| "sect_fold ((n, v) # ls) s =
     (case SdpMediaDescription_addHeader n v s of Inl e \<Rightarrow> Inl e | Inr t \<Rightarrow> sect_fold ls t)"

lemma sect_fold_append:
  "sect_fold (xs @ ys) s = (case sect_fold xs s of Inl e \<Rightarrow> Inl e | Inr t \<Rightarrow> sect_fold ys t)"
  by (induction xs s rule: sect_fold.induct) (auto split: sum.split)

lemma loop_section:
  assumes "\<forall>(n, v) \<in> set ls. n \<in> {''i'', ''c'', ''b'', ''k'', ''a''}" "sections b = ss @ [s]" "sect_fold ls s = Inr t"
  shows "sdp_loop (pairs ls @ rest) ch b = sdp_loop rest ch (b\<lparr>sections := ss @ [t]\<rparr>)"
  using assms
proof (induction ls arbitrary: b s)
  case Nil
  then have "ss @ [t] = sections b" by simp
  then show ?case by simp
next
  case (Cons l ls)
  obtain n v where l: "l = (n, v)" by force
  then have n: "n \<in> {''i'', ''c'', ''b'', ''k'', ''a''}" using Cons.prems by auto
  then have low: "lower n = n" "n \<noteq> ''m''" by (auto simp: lower_def lower_char_def)
  obtain s1 where s1: "SdpMediaDescription_addHeader n v s = Inr s1" "sect_fold ls s1 = Inr t"
    using Cons.prems(3) by (auto simp: l split: sum.splits)
  define b1 where "b1 = b\<lparr>sections := ss @ [s1]\<rparr>"
  have "sdp_loop (pairs (l # ls) @ rest) ch b = sdp_loop (pairs ls @ rest) ch b1"
    using low Cons.prems(2) s1 by (simp add: l add_to_last_def b1_def)
  also have "\<dots> = sdp_loop rest ch (b1\<lparr>sections := ss @ [t]\<rparr>)"
    by (rule Cons.IH) (use Cons.prems s1 in \<open>auto simp: b1_def\<close>)
  finally show ?case by (simp add: b1_def)
qed

definition wf_section :: "sdp_section \<Rightarrow> bool" where
  "wf_section s \<longleftrightarrow> (case m_header s of None \<Rightarrow> False | Some m \<Rightarrow> wf_media m) \<and>
     (case c_header s of None \<Rightarrow> False | Some c \<Rightarrow> wf_conn c) \<and>
     dom (sect_headers s) \<subseteq> {''i'', ''b'', ''k''} \<and> (\<forall>v \<in> ran (sect_headers s). good_text v) \<and>
     (\<forall>a \<in> set (a_headers s). wf_a a)"

lemma sect_fold_a:
  "\<forall>a \<in> set as. wf_a a \<Longrightarrow> sect_fold (map (\<lambda>a. (''a'', a_header_str a)) as) s = Inr (s\<lparr>a_headers := a_headers s @ as\<rparr>)"
  by (induction as arbitrary: s) (auto simp: SdpMediaDescription_addHeader_def a_header_parse_str)

definition put_opt :: "string \<Rightarrow> string option \<Rightarrow> (string \<rightharpoonup> string) \<Rightarrow> string \<rightharpoonup> string" where
  "put_opt n x f = (case x of None \<Rightarrow> f | Some v \<Rightarrow> f(n \<mapsto> v))"

lemma put_opt_apply: "put_opt n x f k = (if k = n \<and> x \<noteq> None then x else f k)"
  by (simp add: put_opt_def split: option.split)

lemma sect_fold_opt:
  "n \<in> {''i'', ''b'', ''k''} \<Longrightarrow> sect_fold (opt_line n x @ ls) s = sect_fold ls (s\<lparr>sect_headers := put_opt n x (sect_headers s)\<rparr>)"
  by (auto simp: opt_line_def put_opt_def SdpMediaDescription_addHeader_def split: option.split)

lemma sect_fold_c:
  "wf_conn c \<Longrightarrow> sect_fold ((if noC then [] else opt_line ''c'' (Some (SdpConnecton_str c))) @ ls) s =
     sect_fold ls (s\<lparr>c_header := (if noC then c_header s else Some c)\<rparr>)"
  by (simp add: opt_line_def SdpMediaDescription_addHeader_def conn_codec.parse_print)

lemma loop_section_lines:
  assumes wf: "wf_section s"
  shows "sdp_loop (pairs (section_lines noC s) @ rest) ch b =
         sdp_loop rest ch (b\<lparr>sections := sections b @ [s\<lparr>c_header := (if noC then None else c_header s)\<rparr>]\<rparr>)"
proof -
  obtain m c where m: "m_header s = Some m" "wf_media m" and c: "c_header s = Some c" "wf_conn c"
    and d: "dom (sect_headers s) \<subseteq> {''i'', ''b'', ''k''}" and as: "\<forall>a \<in> set (a_headers s). wf_a a"
    using wf by (auto simp: wf_section_def split: option.splits)
  define h where "h = sect_headers s"
  define ls where "ls = tl (section_lines noC s)"
  define b1 where "b1 = b\<lparr>sections := sections b @ [SdpMediaDescription\<lparr>m_header := Some m\<rparr>]\<rparr>"
  have sl: "section_lines noC s = (''m'', SdpMedia_str m) # ls"
    by (simp add: ls_def section_lines_def m opt_line_def)
  have "sdp_loop ([''m'', SdpMedia_str m] # r) ch b = sdp_loop r ch b1" for r
    by (simp add: lower_def lower_char_def add_to_last_def SdpMediaDescription_addHeader_def
        media_codec.parse_print m b1_def)
  moreover have "sdp_loop (pairs ls @ rest) ch b1 =
      sdp_loop rest ch (b1\<lparr>sections := sections b @ [s\<lparr>c_header := (if noC then None else c_header s)\<rparr>]\<rparr>)"
  proof (rule loop_section)
    show "\<forall>(n, v) \<in> set ls. n \<in> {''i'', ''c'', ''b'', ''k'', ''a''}"
      by (auto simp: ls_def section_lines_def m opt_line_def split: option.splits)
    show "sections b1 = sections b @ [SdpMediaDescription\<lparr>m_header := Some m\<rparr>]" by (simp add: b1_def)
    have ls: "ls = opt_line ''i'' (h ''i'') @ (if noC then [] else opt_line ''c'' (Some (SdpConnecton_str c))) @
        opt_line ''b'' (h ''b'') @ opt_line ''k'' (h ''k'') @ map (\<lambda>a. (''a'', a_header_str a)) (a_headers s)"
      using m c by (simp add: ls_def section_lines_def h_def opt_line_def [of "''m''"])
    define m3 where "m3 = put_opt ''k'' (h ''k'') (put_opt ''b'' (h ''b'') (put_opt ''i'' (h ''i'') Map.empty))"
    have "m3 k = h k" for k
    proof (cases "h k")
      case None
      then show ?thesis by (auto simp: m3_def put_opt_apply)
    next
      case (Some v)
      then have "k = ''i'' \<or> k = ''b'' \<or> k = ''k''" using d by (auto simp: h_def)
      then show ?thesis using Some by (elim disjE) (simp_all add: m3_def put_opt_apply)
    qed
    then have "m3 = h" by auto
    have "sect_fold ls (SdpMediaDescription\<lparr>m_header := Some m\<rparr>) =
        Inr \<lparr>m_header = Some m, c_header = (if noC then None else Some c), sect_headers = m3, a_headers = a_headers s\<rparr>"
      unfolding ls m3_def using as c(2)
      by (simp add: sect_fold_opt sect_fold_c sect_fold_a SdpMediaDescription_def)
    then show "sect_fold ls (SdpMediaDescription\<lparr>m_header := Some m\<rparr>) =
        Inr (s\<lparr>c_header := (if noC then None else c_header s)\<rparr>)"
      using \<open>m3 = h\<close> m c by (simp add: h_def)
  qed
  ultimately show ?thesis by (simp add: sl b1_def del: sdp_loop.simps)
qed

lemma loop_sections:
  "\<forall>s \<in> set ss. wf_section s \<Longrightarrow>
     sdp_loop (pairs (concat (map (\<lambda>s. section_lines (f s) s) ss))) ch b =
     Inr (ch, b\<lparr>sections := sections b @ map (\<lambda>s. s\<lparr>c_header := (if f s then None else c_header s)\<rparr>) ss\<rparr>)"
proof (induction ss arbitrary: b)
  case Nil
  then show ?case by simp
next
  case (Cons s ss)
  then have "wf_section s" by simp
  from loop_section_lines [OF this, of "f s" "pairs (concat (map (\<lambda>s. section_lines (f s) s) ss))" ch b]
  show ?case using Cons by simp
qed

subsection \<open>Descriptions\<close>

definition wf_sdp :: "sdp_body \<Rightarrow> bool" where
  "wf_sdp b \<longleftrightarrow> (case o_header b of None \<Rightarrow> False | Some x \<Rightarrow> wf_origin x) \<and>
     {''v'', ''s'', ''t''} \<subseteq> dom (top_headers b) \<and> dom (top_headers b) \<subseteq> set generic_names \<and>
     (\<forall>v \<in> ran (top_headers b). good_text v) \<and>
     (\<forall>a \<in> set (sa_headers b). wf_a a) \<and> (\<forall>s \<in> set (sections b). wf_section s) \<and>
     (case sc_header b of None \<Rightarrow> True | Some c \<Rightarrow> sections b = [] \<and> wf_conn c)"

text \<open>The session part, up to the first \<^verbatim>\<open>m=\<close>.\<close>

lemma loop_session:
  assumes wf: "wf_sdp b" and os: "\<And>x. wf_origin x \<Longrightarrow> SdpOrigin_parse (os x) = Inr x"
  shows "sdp_loop (pairs (first_half os b @ opt_line ''c'' ch @ second_half b @ a_lines (sa_headers b)) @ rest) None SdpBody_empty =
         sdp_loop rest ch (b\<lparr>sc_header := None, sections := []\<rparr>)"
proof -
  obtain x where x: "o_header b = Some x" "wf_origin x" using wf by (auto simp: wf_sdp_def split: option.splits)
  define h where "h = top_headers b"
  define b1 where "b1 = SdpBody_empty\<lparr>top_headers := over h [''v''] Map.empty\<rparr>"
  define b2 where "b2 = b1\<lparr>o_header := Some x\<rparr>"
  define b3 where "b3 = b2\<lparr>top_headers := over h [''s'', ''i'', ''u'', ''e'', ''p''] (top_headers b2)\<rparr>"
  define b4 where "b4 = b3\<lparr>top_headers := over h [''b'', ''t'', ''r'', ''z'', ''k''] (top_headers b3)\<rparr>"
  note defs = b4_def b3_def b2_def b1_def SdpBody_empty_def
  have secs: "sections b1 = []" "sections b2 = []" "sections b3 = []" "sections b4 = []" by (simp_all add: defs)
  have l1: "sdp_loop (pairs (top_line b ''v'') @ r) None SdpBody_empty = sdp_loop r None b1" for r
    using loop_generic [of SdpBody_empty "[''v'']" b r None]
    by (simp add: SdpBody_empty_def generic_names_def b1_def h_def)
  have "sdp_loop ([''o'', os x] # r) None b1 = sdp_loop r None b2" for r
    by (rule loop_top) (use secs x os in \<open>auto simp: SdpBody_addHeader_def b2_def\<close>)
  then have l2: "sdp_loop (pairs (opt_line ''o'' (Some (os x))) @ r) None b1 = sdp_loop r None b2" for r
    by (simp add: opt_line_def del: sdp_loop.simps)
  have l3: "sdp_loop (pairs (concat (map (top_line b) [''s'', ''i'', ''u'', ''e'', ''p''])) @ r) None b2 = sdp_loop r None b3" for r
    unfolding b3_def h_def by (rule loop_generic) (use secs in \<open>auto simp: generic_names_def\<close>)
  have lc: "sdp_loop (pairs (opt_line ''c'' ch) @ r) None b3 = sdp_loop r ch b3" for r
    using secs by (simp add: opt_line_def lower_def lower_char_def split: option.split)
  have l4: "sdp_loop (pairs (concat (map (top_line b) [''b'', ''t'', ''r'', ''z'', ''k''])) @ r) ch b3 = sdp_loop r ch b4" for r
    unfolding b4_def h_def by (rule loop_generic) (use secs in \<open>auto simp: generic_names_def\<close>)
  have l5: "sdp_loop (pairs (a_lines (sa_headers b)) @ r) ch b4 = sdp_loop r ch (b4\<lparr>sa_headers := sa_headers b4 @ sa_headers b\<rparr>)" for r
    by (rule loop_a) (use secs wf in \<open>auto simp: wf_sdp_def\<close>)
  have "top_headers b4 k = h k" for k
  proof (cases "h k")
    case None
    then show ?thesis by (simp add: defs over_def)
  next
    case (Some v)
    then have "k \<in> set generic_names" using wf by (auto simp: wf_sdp_def h_def)
    then show ?thesis using Some by (auto simp: defs over_def generic_names_def)
  qed
  then have "b4\<lparr>sa_headers := sa_headers b4 @ sa_headers b\<rparr> = b\<lparr>sc_header := None, sections := []\<rparr>"
    using x by (auto simp: defs h_def intro!: sdp_body.equality)
  then show ?thesis
    using x by (simp add: first_half_def second_half_def l1 l2 l3 lc l4 l5
        del: sdp_loop.simps concat.simps list.map)
qed

lemma fill_c_sections:
  assumes "\<forall>s \<in> set ss. wf_section s" "wf_conn c" "\<forall>s \<in> set ss. f s \<longrightarrow> c_header s = Some c"
  shows "fill_c (SdpConnecton_str c) (map (\<lambda>s. s\<lparr>c_header := (if f s then None else c_header s)\<rparr>) ss) = Inr ss"
  using assms
proof (induction ss)
  case Nil
  then show ?case by simp
next
  case (Cons s ss)
  then have "wf_section s" "f s \<longrightarrow> c_header s = Some c" by simp_all
  then have "(if f s then SdpMediaDescription_addHeader ''c'' (SdpConnecton_str c) (s\<lparr>c_header := None\<rparr>) else Inr s) = Inr s"
    using Cons.prems(2) by (auto simp: SdpMediaDescription_addHeader_def conn_codec.parse_print intro!: sdp_section.equality)
  moreover obtain d where "c_header s = Some d" using \<open>wf_section s\<close> by (auto simp: wf_section_def split: option.splits)
  ultimately show ?case using Cons by (cases "f s") simp_all
qed

definition good_name :: "string \<Rightarrow> bool" where
  "good_name n \<longleftrightarrow> n \<noteq> [] \<and> no_space n \<and> CHR ''='' \<notin> set n"

lemma good_names [simp]: "n \<in> set (map (\<lambda>c. [c]) ''vosiuepcbtrzkma'') \<Longrightarrow> good_name n"
  by (auto simp: good_name_def is_space_def)

lemma good_opt:
  "good_name n \<Longrightarrow> (\<forall>l \<in> set (opt_line n x). good_line l) \<longleftrightarrow> (\<forall>v. x = Some v \<longrightarrow> good_text v)"
  by (auto simp: opt_line_def good_line_def good_name_def split: option.splits)

lemma good_section_lines: "wf_section s \<Longrightarrow> \<forall>l \<in> set (section_lines f s). good_line l"
proof -
  assume wf: "wf_section s"
  obtain m c where m: "m_header s = Some m" "wf_media m" and c: "c_header s = Some c" "wf_conn c"
    using wf by (auto simp: wf_section_def split: option.splits)
  have "good_text (SdpMedia_str m)" unfolding SdpMedia_str_join by (rule join_words_good) (rule media_words [OF m(2)])
  moreover have "good_text (SdpConnecton_str c)"
    unfolding SdpConnecton_str_def by (rule join_words_good) (use c in \<open>auto simp: wf_conn_def\<close>)
  moreover have "good_text v" if "sect_headers s n = Some v" for n v
    using wf that by (auto simp: wf_section_def ran_def)
  moreover have "\<forall>l \<in> set (map (\<lambda>a. (''a'', a_header_str a)) (a_headers s)). good_line l"
    using wf by (auto simp: wf_section_def wf_a_def good_line_def is_space_def)
  ultimately show ?thesis
    unfolding section_lines_def set_append ball_Un
    by (auto simp: good_opt m c simp del: set_map)
qed

lemma conn_str_eq: "wf_conn c \<Longrightarrow> wf_conn d \<Longrightarrow> SdpConnecton_str c = SdpConnecton_str d \<longleftrightarrow> c = d"
  using conn_codec.print_inj by blast

lemma good_session_lines:
  assumes wf: "wf_sdp b" and os: "\<And>x. wf_origin x \<Longrightarrow> good_text (os x)" and ch: "\<And>v. ch = Some v \<Longrightarrow> good_text v"
  shows "\<forall>l \<in> set (first_half os b @ opt_line ''c'' ch @ second_half b @ a_lines (sa_headers b)). good_line l"
proof -
  have g: "good_text v" if "top_headers b n = Some v" for n v
    using wf that by (auto simp: wf_sdp_def ran_def)
  then have t: "good_name n \<Longrightarrow> \<forall>l \<in> set (top_line b n). good_line l" for n
    unfolding top_line_def by (auto simp: good_opt)
  have "\<forall>l \<in> set (opt_line ''o'' (map_option os (o_header b))). good_line l"
    using wf os by (auto simp: good_opt wf_sdp_def)
  moreover have "\<forall>l \<in> set (opt_line ''c'' ch). good_line l" using ch by (auto simp: good_opt)
  moreover have "\<forall>l \<in> set (a_lines (sa_headers b)). good_line l"
    using wf by (auto simp: wf_sdp_def a_lines_def wf_a_def good_line_def is_space_def)
  ultimately show ?thesis
    unfolding first_half_def second_half_def set_append ball_Un by (simp add: ball_Un) (intro conjI t, simp_all)
qed

text \<open>
  Reading back any choice of the shared connection line that puts it only on media
  descriptions with that connection.
\<close>

lemma parse_lines:
  assumes wf: "wf_sdp b" and os: "\<And>x. wf_origin x \<Longrightarrow> SdpOrigin_parse (os x) = Inr x \<and> good_text (os x)"
    and ch: "case ch of None \<Rightarrow> sc_header b = None \<and> (\<forall>s \<in> set (sections b). \<not> f s)
       | Some c \<Rightarrow> wf_conn c \<and> (if sections b = [] then sc_header b = Some c
           else \<forall>s \<in> set (sections b). f s \<longrightarrow> c_header s = Some c)"
  shows "SdpBody_parse (lines_str (first_half os b @ opt_line ''c'' (map_option SdpConnecton_str ch) @ second_half b @
      a_lines (sa_headers b) @ concat (map (\<lambda>s. section_lines (f s) s) (sections b)))) = Inr b"
proof -
  let ?S = "concat (map (\<lambda>s. section_lines (f s) s) (sections b))"
  let ?T = "first_half os b @ opt_line ''c'' (map_option SdpConnecton_str ch) @ second_half b @ a_lines (sa_headers b)"
  define c where "c = map_option SdpConnecton_str ch"
  define b1 where "b1 = b\<lparr>sc_header := None, sections := map (\<lambda>s. s\<lparr>c_header := (if f s then None else c_header s)\<rparr>) (sections b)\<rparr>"
  have ws: "\<forall>s \<in> set (sections b). wf_section s" using wf by (simp add: wf_sdp_def)
  have gc: "good_text (SdpConnecton_str d)" if "wf_conn d" for d
    unfolding SdpConnecton_str_def by (rule join_words_good) (use that in \<open>auto simp: wf_conn_def\<close>)
  have "\<forall>l \<in> set ?T. good_line l"
    by (rule good_session_lines) (use wf os ch gc in \<open>auto split: option.splits\<close>)
  moreover have "\<forall>l \<in> set ?S. good_line l" using ws good_section_lines by auto
  ultimately have "\<forall>l \<in> set (?T @ ?S). good_line l" unfolding set_append ball_Un by blast
  moreover have "?T @ ?S \<noteq> []"
    using wf by (auto simp: wf_sdp_def first_half_def top_line_def opt_line_def split: option.splits)
  ultimately have "avpairs (lines_str (?T @ ?S)) = pairs ?T @ pairs ?S"
    by (simp add: avpairs_lines)
  moreover have "sdp_loop (pairs ?T @ pairs ?S) None SdpBody_empty = Inr (c, b1)"
    using loop_session [OF wf, of os c "pairs ?S"] loop_sections [OF ws] os
    by (simp add: b1_def c_def)
  moreover have "sdp_fill (c, b1) = Inr b"
  proof (cases ch)
    case None
    then have "map (\<lambda>s. s\<lparr>c_header := (if f s then None else c_header s)\<rparr>) (sections b) = sections b"
      using ch by (auto intro!: map_idI)
    then show ?thesis using None ch by (simp add: sdp_fill_def c_def b1_def)
  next
    case (Some d)
    then show ?thesis using ch fill_c_sections [OF ws, of d f] wf
      by (auto simp: sdp_fill_def c_def b1_def SdpBody_addHeader_def conn_codec.parse_print wf_sdp_def
          split: if_splits option.splits)
  qed
  moreover have "top_missing b = []" "sect_missing b = []"
    using wf by (auto simp: top_missing_def sect_missing_def wf_sdp_def wf_section_def split: option.splits)
  ultimately show ?thesis by (simp add: SdpBody_parse_def sdp_check_def)
qed

lemma origin_good: "wf_origin x \<Longrightarrow> good_text (SdpOrigin_localStr my la x)"
proof -
  assume wf: "wf_origin x"
  then obtain a where a: "o_address x = Host a" "word a" by (auto simp: wf_origin_def split: sip_host.splits)
  then have "SdpOrigin_localStr my la x = SdpOrigin_fields x (address_type x) a"
    by (simp add: SdpOrigin_localStr_def split: option.split)
  moreover have "good_text (SdpOrigin_fields x (address_type x) a)"
    unfolding SdpOrigin_fields_def by (rule join_words_good) (use wf a in \<open>auto simp: wf_origin_def\<close>)
  ultimately show ?thesis by simp
qed

lemma wf_section_c: "wf_section s \<Longrightarrow> \<exists>c. c_header s = Some c \<and> wf_conn c"
  by (auto simp: wf_section_def split: option.splits)

lemma SdpBody_parse_lines:
  assumes wf: "wf_sdp b"
  shows "SdpBody_parse (lines_str (SdpBody_lines (SdpOrigin_localStr my la) b)) = Inr b"
proof -
  define os where "os = SdpOrigin_localStr my la"
  have os: "\<And>x. wf_origin x \<Longrightarrow> SdpOrigin_parse (os x) = Inr x \<and> good_text (os x)"
    by (simp add: os_def origin_codec.parse_print origin_good)
  have ws: "\<exists>c. c_header s = Some c \<and> wf_conn c" if "s \<in> set (sections b)" for s
    using wf that by (intro wf_section_c) (simp add: wf_sdp_def)
  have plain: "SdpBody_parse (lines_str (plain_lines os b)) = Inr b"
    using parse_lines [OF wf os, where ch = "sc_header b" and f = "\<lambda>_. False"] wf
    by (auto simp: plain_lines_def wf_sdp_def split: option.splits)
  have shared: "SdpBody_parse (lines_str (shared_c_lines os (SdpConnecton_str c) b)) = Inr b"
    if "wf_conn c" "sections b \<noteq> []" for c
    using parse_lines [OF wf os, where ch = "Some c" and f = "\<lambda>s. map_option SdpConnecton_str (c_header s) = Some (SdpConnecton_str c)"]
      ws that conn_str_eq by (fastforce simp: shared_c_lines_def opt_line_def)
  show ?thesis
  proof (cases "sections b")
    case Nil
    then show ?thesis using plain by (simp add: SdpBody_lines_def os_def)
  next
    case (Cons s ss)
    obtain c where c: "c_header s = Some c" "wf_conn c" using ws [of s] Cons by auto
    show ?thesis using shared [OF c(2)] plain c Cons
      by (auto simp: SdpBody_lines_def os_def split: list.split option.split)
  qed
qed

lemma SdpBody_parse_str: "wf_sdp b \<Longrightarrow> SdpBody_parse (SdpBody_str my b) = Inr b"
  by (simp add: SdpBody_str_def SdpBody_parse_lines)

interpretation sdp_codec: header_codec SdpBody_parse "SdpBody_str my" wf_sdp
  by unfold_locales (rule SdpBody_parse_str)

text \<open>\<^verbatim>\<open>localStr\<close> of a well-formed description does not raise and reads back too.\<close>

lemma SdpBody_parse_localStr:
  assumes "wf_sdp b"
  obtains t where "SdpBody_localStr my la b = Inr t" "SdpBody_parse t = Inr b"
proof -
  have "\<forall>s \<in> set (sections b). c_header s \<noteq> None"
    using assms wf_section_c by (fastforce simp: wf_sdp_def)
  then have "SdpBody_localStr my la b = Inr (lines_str (SdpBody_lines (SdpOrigin_localStr my la) b))"
    by (auto simp: SdpBody_localStr_def split: list.split)
  then show thesis using SdpBody_parse_lines [OF assms] that by blast
qed

end
