(* ===== verification/Msg_Body.thy ===== *)
theory Msg_Body
  imports Sip_Headers Sdp_Body
begin

text \<open>
  Message bodies: \<^verbatim>\<open>sippy/SipContentType.py\<close>, \<^verbatim>\<open>sippy/MsgBody.py\<close> and
  \<^verbatim>\<open>sippy/MultipartMixBody.py\<close>, and the comma splitting that the constructor of
  \<^verbatim>\<open>sippy/SipAddressHF.py\<close> does, which a part header of a multipart body goes through. The
  sub-headers of a part are checked and dropped (\<^verbatim>\<open>part_headers\<close> is written and never read).
\<close>

section \<open>Comma-separated addresses\<close>

text \<open>
  The loop of \<^verbatim>\<open>SipAddressHF.__init__\<close>. \<open>pre\<close> is the text of \<^verbatim>\<open>body\<close> before the position the
  search goes on from (the loop looks for the next comma from \<^verbatim>\<open>pidx\<close>), \<open>s\<close> the rest.
\<close>

definition comma_splits :: "string \<Rightarrow> bool" where
  "comma_splits pre =
     (let onum = count_list pre (CHR ''<''); cnum = count_list pre (CHR ''>''); qnum = count_list pre dquote
      in (onum = 0 \<and> cnum = 0 \<and> qnum = 0) \<or> (onum > 0 \<and> onum = cnum \<and> qnum mod 2 = 0))"

fun csv_loop :: "string \<Rightarrow> string \<Rightarrow> string list" where
  "csv_loop pre [] = [pre]"
| "csv_loop pre (c # cs) =
     (if c = CHR '','' \<and> comma_splits pre then pre # csv_loop [] cs else csv_loop (pre @ [c]) cs)"

text \<open>The bodies of the exception \<^verbatim>\<open>ESipHeaderCSV\<close>, \<open>None\<close> when it is not raised.\<close>

definition SipAddressHF_csvs :: "string \<Rightarrow> string list option" where
  "SipAddressHF_csvs body = (case csv_loop [] body of [_] \<Rightarrow> None | bs \<Rightarrow> Some bs)"

lemma csv_loop_join: "join_with '','' (csv_loop pre s) = pre @ s"
proof (induction pre s rule: csv_loop.induct)
  case (1 pre)
  then show ?case by simp
next
  case (2 pre c cs)
  have "csv_loop p s \<noteq> []" for p s by (induction p s rule: csv_loop.induct) auto
  with 2 show ?case by (simp add: join_with_Cons)
qed

lemma csv_loop_pieces:
  "p \<in> set (butlast (csv_loop pre s)) \<Longrightarrow> comma_splits p"
proof (induction pre s rule: csv_loop.induct)
  case (1 pre)
  then show ?case by simp
next
  case (2 pre c cs)
  have "csv_loop p s \<noteq> []" for p s by (induction p s rule: csv_loop.induct) auto
  with 2 show ?case by (auto split: if_splits)
qed

definition address_names :: "string list" where
  "address_names = [''from'', ''f'', ''to'', ''t'', ''record-route'', ''route'', ''contact'', ''m'', ''also'',
     ''refer-to'', ''r'', ''cc-diversion'', ''referred-by'', ''p-asserted-identity'', ''diversion'', ''path'']"

text \<open>Whether the constructor of a header's class raises \<^verbatim>\<open>ESipHeaderCSV\<close>, and with which bodies.\<close>

definition header_csvs :: "string \<Rightarrow> string \<Rightarrow> string list option" where
  "header_csvs name body =
     (if name \<in> {''contact'', ''m''} \<and> body = ''*'' then None
      else if name \<in> set address_names then SipAddressHF_csvs body
      else if name \<in> {''via'', ''v''} \<and> CHR '','' \<in> set body then Some (split_on (CHR '','') body)
      else None)"

section \<open>SipContentType\<close>

datatype content_type =
    CTypeRaw string
      \<comment> \<open>not parsed\<close>
  | CType (ct_name: string) (ct_params: "(string \<times> string) list")

fun ct_param_loop :: "string list \<Rightarrow> (string \<times> string) list \<Rightarrow> exn + (string \<times> string) list" where
  "ct_param_loop [] d = Inr d"
| "ct_param_loop (p # ps) d =
     (case split1 (CHR ''='') p of [k, v] \<Rightarrow> ct_param_loop ps (dict_set k v d) | _ \<Rightarrow> Inl ValueError)"

fun SipContentType_parse :: "content_type \<Rightarrow> exn + content_type" where
  "SipContentType_parse (CTypeRaw body) =
     (let parts = split_on (CHR '';'') body in
      map_sum id (CType (hd parts)) (ct_param_loop (tl parts) []))"
| "SipContentType_parse (CType n ps) = Inr (CType n ps)"

fun SipContentType_str :: "content_type \<Rightarrow> string" where
  "SipContentType_str (CTypeRaw body) = body"
| "SipContentType_str (CType n ps) = join_with '';'' (n # map (\<lambda>(k, v). k @ ''='' @ v) ps)"

definition DEFAULT_CTYPE :: content_type where
  "DEFAULT_CTYPE = CType ''application/sdp'' []"

section \<open>MsgBody and MultipartMixBody\<close>

datatype msg_body = MsgBody (content: body_content) (mb_mtype: "content_type option") (needs_update: bool) (parsed: bool)
  and body_content =
    CText string
  | CSdp sdp_body
  | CMulti "msg_body list" string content_type
    \<comment> \<open>parts, boundary, mtype\<close>

text \<open>\<^verbatim>\<open>MsgBody(content, mtype)\<close> of a text and of parsed content.\<close>

definition MsgBody_text :: "string \<Rightarrow> content_type option \<Rightarrow> msg_body" where
  "MsgBody_text s ct = MsgBody (CText s) ct True False"

definition getType :: "msg_body \<Rightarrow> exn + string" where
  "getType b = (case mb_mtype b of
       Some (CType n _) \<Rightarrow> Inr (lower n)
     | _ \<Rightarrow> Inl AttributeError)"

text \<open>\<^verbatim>\<open>s.split(sep)\<close> of a separator longer than a character.\<close>

function split_str_acc :: "string \<Rightarrow> string \<Rightarrow> string \<Rightarrow> string list" where
  "split_str_acc sep w [] = [w]"
| "split_str_acc sep w (c # cs) =
     (if sep \<noteq> [] \<and> startswith sep (c # cs) then w # split_str_acc sep [] (drop (length sep) (c # cs))
      else split_str_acc sep (w @ [c]) cs)"
  by pat_completeness auto
termination
  by (relation "measure (\<lambda>(sep, w, s). length s)") auto

definition split_str :: "string \<Rightarrow> string \<Rightarrow> string list" where
  "split_str sep s = split_str_acc sep [] s"

text \<open>\<^verbatim>\<open>s.split(sep, 1)\<close>.\<close>

definition split_str1 :: "string \<Rightarrow> string \<Rightarrow> string list" where
  "split_str1 sep s = (case split_str sep s of
       [a] \<Rightarrow> [a]
     | a # _ \<Rightarrow> [a, drop (length a + length sep) s]
     | [] \<Rightarrow> [])"

abbreviation CRLF :: string where "CRLF \<equiv> [CR, LF]"

text \<open>The header lines of one part: the content type, if there is one.\<close>

fun part_ctype :: "string list \<Rightarrow> content_type option \<Rightarrow> exn + content_type option" where
  "part_ctype [] ct = Inr ct"
| "part_ctype (hl # hls) ct =
     (case map strip (split1 (CHR '':'') hl) of
        [n, b] \<Rightarrow>
          (if header_csvs (lower n) b \<noteq> None then Inl (OtherError ''ESipHeaderCSV'')
           else if lower n = ''content-type'' then
             (case SipContentType_parse (CTypeRaw b) of Inl e \<Rightarrow> Inl e | Inr c \<Rightarrow> part_ctype hls (Some c))
           else part_ctype hls ct)
      | _ \<Rightarrow> Inl ValueError)"

fun multi_parts :: "string list \<Rightarrow> exn + msg_body list" where
  "multi_parts [] = Inr []"
| "multi_parts (p # ps) =
     (case split_str1 (CRLF @ CRLF) (lstrip p) of
        [hs, sect] \<Rightarrow>
          (case part_ctype (split_str CRLF hs) None of
             Inl e \<Rightarrow> Inl e
           | Inr ct \<Rightarrow> map_sum id (Cons (MsgBody_text sect ct)) (multi_parts ps))
      | _ \<Rightarrow> Inl ValueError)"

text \<open>\<^verbatim>\<open>setBoundary\<close> copies the class's content type, \<^verbatim>\<open>multipart/mixed\<close>, and adds the boundary.\<close>

definition multi_mtype :: "string \<Rightarrow> content_type" where
  "multi_mtype bnd = CType ''multipart/mixed'' [(''boundary'', bnd)]"

definition MultipartMixBody_parse :: "string \<Rightarrow> content_type \<Rightarrow> exn + body_content" where
  "MultipartMixBody_parse body ct =
     (case ct of
        CTypeRaw _ \<Rightarrow> Inl TypeError
      | CType _ ps \<Rightarrow>
          (case map_of ps ''boundary'' of
             None \<Rightarrow> Inl KeyError
           | Some bnd \<Rightarrow>
               (let bparts = split_str (''--'' @ bnd) body in
                if length bparts \<le> 2 \<or> hd bparts \<noteq> [] \<or> strip (last bparts) \<noteq> ''--'' then Inl AssertionError
                else map_sum id (\<lambda>parts. CMulti parts bnd (multi_mtype bnd)) (multi_parts (butlast (tl bparts))))))"

definition MsgBody_parse :: "msg_body \<Rightarrow> exn + msg_body" where
  "MsgBody_parse b =
     (if parsed b then Inr b
      else case (getType b, content b) of
        (Inl e, _) \<Rightarrow> Inl e
      | (Inr t, CText s) \<Rightarrow>
          map_sum id (\<lambda>c. MsgBody c (mb_mtype b) (needs_update b) True)
            (if t = ''application/sdp'' then map_sum id CSdp (SdpBody_parse s)
             else if t = ''multipart/mixed'' then MultipartMixBody_parse s (the (mb_mtype b))
             else Inr (CText s))
      | (Inr t, c) \<Rightarrow> Inr (MsgBody c (mb_mtype b) (needs_update b) True))"

text \<open>The text of a part: \<^verbatim>\<open>Content-Type\<close> is \<^verbatim>\<open>None\<close> for a part that had no type.\<close>

definition part_str :: "string \<Rightarrow> content_type option \<Rightarrow> string \<Rightarrow> string" where
  "part_str bnd ct t = ''--'' @ bnd @ CRLF @ ''Content-Type: '' @
     (case ct of None \<Rightarrow> ''None'' | Some c \<Rightarrow> SipContentType_str c) @ CRLF @ CRLF @ t"

fun MsgBody_str :: "string \<Rightarrow> msg_body \<Rightarrow> string"
  and content_str :: "string \<Rightarrow> body_content \<Rightarrow> string" where
  "MsgBody_str my (MsgBody c ct nu p) = content_str my c"
| "content_str my (CText s) = s"
| "content_str my (CSdp b) = SdpBody_str my b"
| "content_str my (CMulti ps bnd mt) =
     concat (map (\<lambda>p. part_str bnd (mb_mtype p) (MsgBody_str my p)) ps) @ ''--'' @ bnd @ ''--'' @ CRLF"

fun sequence_sum :: "(exn + 'a) list \<Rightarrow> exn + 'a list" where
  "sequence_sum [] = Inr []"
| "sequence_sum (x # xs) = (case x of Inl e \<Rightarrow> Inl e | Inr y \<Rightarrow> map_sum id (Cons y) (sequence_sum xs))"

fun MsgBody_localStr :: "string \<Rightarrow> string option \<Rightarrow> msg_body \<Rightarrow> exn + string"
  and content_localStr :: "string \<Rightarrow> string option \<Rightarrow> body_content \<Rightarrow> exn + string" where
  "MsgBody_localStr my la (MsgBody c ct nu p) = content_localStr my la c"
| "content_localStr my la (CText s) = Inr s"
| "content_localStr my la (CSdp b) = SdpBody_localStr my la b"
| "content_localStr my la (CMulti ps bnd mt) =
     map_sum id (\<lambda>ts. concat ts @ ''--'' @ bnd @ ''--'' @ CRLF)
       (sequence_sum (map (\<lambda>p. map_sum id (part_str bnd (mb_mtype p)) (MsgBody_localStr my la p)) ps))"

text \<open>
  \<^verbatim>\<open>getCopy\<close>. A body that is not parsed is copied with the default content type; the copy of
  a parsed one calls \<^verbatim>\<open>mtype.getCopy()\<close>, which a part without a type does not have. The copy
  of a multipart body is made with a fresh boundary, which is then overwritten in
  \<^verbatim>\<open>boundary\<close> but not in \<^verbatim>\<open>mtype\<close>; \<open>tok\<close> is that boundary.
\<close>

fun MsgBody_getCopy :: "string \<Rightarrow> msg_body \<Rightarrow> exn + msg_body"
  and content_getCopy :: "string \<Rightarrow> body_content \<Rightarrow> exn + body_content" where
  "MsgBody_getCopy tok (MsgBody c ct nu p) =
     (if \<not> p then Inr (MsgBody c (Some DEFAULT_CTYPE) True False)
      else case content_getCopy tok c of
          Inl e \<Rightarrow> Inl e
        | Inr d \<Rightarrow> (case ct of None \<Rightarrow> Inl AttributeError | Some t \<Rightarrow> Inr (MsgBody d (Some t) True True)))"
| "content_getCopy tok (CText s) = Inr (CText s)"
| "content_getCopy tok (CSdp b) = Inr (CSdp b)"
| "content_getCopy tok (CMulti ps bnd mt) =
     map_sum id (\<lambda>qs. CMulti qs bnd (multi_mtype tok)) (sequence_sum (map (MsgBody_getCopy tok) ps))"

lemma getCopy_str_sdp:
  "content b = CSdp s \<Longrightarrow> MsgBody_getCopy tok b = Inr c \<Longrightarrow> MsgBody_str my c = MsgBody_str my b"
  by (cases b) (auto split: if_splits option.splits)

lemma getCopy_str_text:
  "content b = CText s \<Longrightarrow> MsgBody_getCopy tok b = Inr c \<Longrightarrow> MsgBody_str my c = MsgBody_str my b"
  by (cases b) (auto split: if_splits option.splits)

end
