(* ===== verification/Sip_Msg.thy ===== *)
theory Sip_Msg
  imports Sip_Auth Msg_Body
begin

text \<open>
  SIP messages: \<^verbatim>\<open>sippy/SipHeader.py\<close>, \<^verbatim>\<open>SipMsg.py\<close>, \<^verbatim>\<open>SipRequest.py\<close>, \<^verbatim>\<open>SipResponse.py\<close> and the
  header \<^verbatim>\<open>SipReason.py\<close>. The first part is the reader of the wire format (\<open>SipMsg_read\<close>,
  \<open>init_body\<close>), which gives the header fields as names and texts. The second part is the
  message as the user agent and the transaction layer use it, where a header field carries
  the value its class has parsed (\<^verbatim>\<open>SipHeader.getBody\<close> parses at the first use and then keeps
  the value); a field whose text the class cannot parse is \<open>HF_Bad\<close> with the exception that
  \<^verbatim>\<open>getBody\<close> raises.
\<close>

section \<open>SipReason\<close>

record sip_reason =
  protocol :: string
  cause :: int
  rtext :: "string option"

definition SipReason :: "string \<Rightarrow> int \<Rightarrow> string \<Rightarrow> sip_reason" where
  "SipReason p c t = \<lparr>protocol = p, cause = c, rtext = Some t\<rparr>"

text \<open>
  One parameter: its name and value and the text after it. A quoted \<^verbatim>\<open>text\<close> runs to the
  closing quote; what follows up to the next semicolon is dropped.
\<close>

definition after :: "char \<Rightarrow> string \<Rightarrow> string" where
  "after c s = (case split1 c s of [_, r] \<Rightarrow> r | _ \<Rightarrow> [])"

definition reason_param :: "string \<Rightarrow> string \<times> string \<times> string" where
  "reason_param s =
     (let name = hd (split1 (CHR ''='') s); r = lstrip (after (CHR ''='') s)
      in if name = ''text'' \<and> startswith [dquote] r
         then (name, hd (split1 dquote (tl r)), after (CHR '';'') (after dquote (tl r)))
         else (name, hd (split1 (CHR '';'') r), after (CHR '';'') r))"

lemma after_length: "length (after c s) \<le> length s" "s \<noteq> [] \<Longrightarrow> length (after c s) < length s"
proof -
  have *: "split1 c s = [a, r] \<Longrightarrow> length r < length s" for a r
    by (induction s arbitrary: a r) (auto split: if_splits list.splits)
  show "length (after c s) \<le> length s"
    using * by (auto simp: after_def split: list.splits intro: less_imp_le)
  show "s \<noteq> [] \<Longrightarrow> length (after c s) < length s"
    using * by (auto simp: after_def split: list.splits)
qed

lemma lstrip_length: "length (lstrip s) \<le> length s"
  by (simp add: lstrip_def length_dropWhile_le)

lemma reason_param_length:
  assumes "s \<noteq> []"
  shows "length (snd (snd (reason_param s))) < length s"
proof -
  define r where "r = lstrip (after (CHR ''='') s)"
  have "length r < length s"
    unfolding r_def using after_length(2) [OF assms] lstrip_length le_less_trans by blast
  moreover have "length (after (CHR '';'') (after dquote (tl r))) \<le> length r"
    using after_length(1) [of "CHR '';''" "after dquote (tl r)"] after_length(1) [of dquote "tl r"] by simp
  moreover have "length (after (CHR '';'') r) \<le> length r" by (rule after_length)
  ultimately show ?thesis by (auto simp: reason_param_def Let_def r_def [symmetric])
qed

text \<open>The loop of \<^verbatim>\<open>parse\<close>; the values of \<^verbatim>\<open>cause\<close> and \<^verbatim>\<open>reason\<close> so far.\<close>

function reason_loop :: "string \<Rightarrow> int option \<Rightarrow> string option \<Rightarrow> exn + (int option \<times> string option)" where
  "reason_loop s0 c t =
     (let s = lstrip s0 in
      if s = [] then Inr (c, t)
      else case reason_param s of (name, v, rest) \<Rightarrow>
        if name = ''cause'' then
          (case py_int v of None \<Rightarrow> Inl ValueError | Some i \<Rightarrow> reason_loop rest (Some i) t)
        else if name = ''text'' then reason_loop rest c (Some v)
        else Inl AssertionError)"
  by pat_completeness auto
termination
proof (relation "measure (\<lambda>(s, c, t). length s)")
  show "wf (measure (\<lambda>(s, c :: int option, t :: string option). length s))" by simp
  have "length rest < length s" if "reason_param (lstrip s) = (n, v, rest)" "lstrip s \<noteq> []" for s n v rest
    using reason_param_length [OF that(2)] lstrip_length [of s] that(1) by simp
  then show "\<And>s0 c t x n vr v rest i.
       x = lstrip s0 \<Longrightarrow> x \<noteq> [] \<Longrightarrow> (n, vr) = reason_param x \<Longrightarrow> (v, rest) = vr \<Longrightarrow> n = ''cause'' \<Longrightarrow>
       py_int v = Some i \<Longrightarrow> ((rest, Some i, t), s0, c, t) \<in> measure (\<lambda>(s, c, t). length s)"
    and "\<And>s0 c t x n vr v rest.
       x = lstrip s0 \<Longrightarrow> x \<noteq> [] \<Longrightarrow> (n, vr) = reason_param x \<Longrightarrow> (v, rest) = vr \<Longrightarrow> n \<noteq> ''cause'' \<Longrightarrow>
       n = ''text'' \<Longrightarrow> ((rest, c, Some v), s0, c, t) \<in> measure (\<lambda>(s, c, t). length s)"
    by (metis in_measure case_prod_conv)+
qed

declare reason_loop.simps [simp del]

definition SipReason_parse :: "string \<Rightarrow> exn + sip_reason" where
  "SipReason_parse body =
     (case split1 (CHR '';'') body of
        [p, ps] \<Rightarrow>
          (case reason_loop ps None None of
             Inl e \<Rightarrow> Inl e
           | Inr (None, t) \<Rightarrow> Inl AssertionError
           | Inr (Some c, t) \<Rightarrow> Inr \<lparr>protocol = strip p, cause = c, rtext = t\<rparr>)
      | _ \<Rightarrow> Inl ValueError)"

definition SipReason_str :: "sip_reason \<Rightarrow> string" where
  "SipReason_str r = protocol r @ ''; cause='' @ show_int (cause r) @
     (case rtext r of None \<Rightarrow> [] | Some t \<Rightarrow> ''; text='' @ [dquote] @ t @ [dquote])"

definition wf_reason :: "sip_reason \<Rightarrow> bool" where
  "wf_reason r \<longleftrightarrow> CHR '';'' \<notin> set (protocol r) \<and> strip (protocol r) = protocol r \<and>
     (case rtext r of None \<Rightarrow> True | Some t \<Rightarrow> dquote \<notin> set t)"

lemma reason_param_cause:
  assumes "CHR '';'' \<notin> set v" "no_space v"
  shows "reason_param (''cause='' @ v) = (''cause'', v, [])"
    and "reason_param (''cause='' @ v @ CHR '';'' # rest) = (''cause'', v, rest)"
proof -
  have "lstrip (v @ CHR '';'' # rest) = v @ CHR '';'' # rest"
    using assms(2) by (cases v) (auto simp: lstrip_def is_space_def)
  then show "reason_param (''cause='' @ v) = (''cause'', v, [])"
    "reason_param (''cause='' @ v @ CHR '';'' # rest) = (''cause'', v, rest)"
    using assms by (simp_all add: reason_param_def after_def)
qed

interpretation reason_codec: header_codec SipReason_parse SipReason_str wf_reason
proof
  fix r
  assume wf: "wf_reason r"
  have "split1 (CHR '';'') (SipReason_str r) = [protocol r, tl (drop (length (protocol r)) (SipReason_str r))]"
    using wf by (simp add: SipReason_str_def wf_reason_def)
  moreover have "tl (drop (length (protocol r)) (SipReason_str r)) =
      '' cause='' @ show_int (cause r) @ (case rtext r of None \<Rightarrow> [] | Some t \<Rightarrow> ''; text='' @ [dquote] @ t @ [dquote])"
    by (simp add: SipReason_str_def)
  moreover have "reason_loop ('' cause='' @ show_int (cause r) @
      (case rtext r of None \<Rightarrow> [] | Some t \<Rightarrow> ''; text='' @ [dquote] @ t @ [dquote])) None None = Inr (Some (cause r), rtext r)"
  proof (cases "rtext r")
    case None
    have e: "reason_loop [] (Some (cause r)) None = Inr (Some (cause r), None)"
      by (subst reason_loop.simps) (simp add: lstrip_def)
    show ?thesis using None
      by (subst reason_loop.simps)
         (simp add: lstrip_def is_space_def reason_param_cause(1) [of "show_int (cause r)", simplified] e)
  next
    case (Some t)
    have t: "dquote \<notin> set t" using wf Some by (simp add: wf_reason_def)
    have e: "reason_loop [] (Some (cause r)) (Some t) = Inr (Some (cause r), Some t)"
      by (subst reason_loop.simps) (simp add: lstrip_def)
    have "reason_param (''text='' @ [dquote] @ t @ [dquote]) = (''text'', t, [])"
      using t by (simp add: reason_param_def after_def startswith_def lstrip_def dquote_def is_space_def)
    then have s2: "reason_loop ('' text='' @ [dquote] @ t @ [dquote]) (Some (cause r)) None = Inr (Some (cause r), Some t)"
      by (subst reason_loop.simps) (simp add: lstrip_def is_space_def e)
    have p1: "reason_param (''cause='' @ show_int (cause r) @ ''; text='' @ [dquote] @ t @ [dquote]) =
        (''cause'', show_int (cause r), '' text='' @ [dquote] @ t @ [dquote])"
      using reason_param_cause(2) [of "show_int (cause r)" "'' text='' @ [dquote] @ t @ [dquote]"] by simp
    show ?thesis using Some p1 s2
      by (subst reason_loop.simps) (simp add: lstrip_def is_space_def)
  qed
  ultimately show "SipReason_parse (SipReason_str r) = Inr r"
    using wf by (simp add: SipReason_parse_def wf_reason_def)
qed

section \<open>Reading a message from the wire\<close>

record raw_msg =
  rm_startline :: string
  rm_headers :: "(string \<times> string) list"
    \<comment> \<open>canonical name and text of each header field\<close>
  rm_ctype :: "string option"
  rm_clen :: "string option"
  rm_body :: "string option"

text \<open>The first of the three body delimiters that occurs, in their order.\<close>

fun find_body :: "string list \<Rightarrow> string \<Rightarrow> string \<times> string option" where
  "find_body [] buf = (buf, None)"
| "find_body (d # ds) buf =
     (case split_str1 d buf of
        [h, b] \<Rightarrow> (h, if b = [] then None else Some b)
      | _ \<Rightarrow> find_body ds buf)"

text \<open>Continuation lines: \<open>prev\<close> is the line that is being extended.\<close>

definition is_continuation :: "string \<Rightarrow> bool" where
  "is_continuation l = (l = [] \<or> hd l = CHR '' '' \<or> hd l = CHR 0x09)"

fun unfold_lines :: "string \<Rightarrow> string list \<Rightarrow> string list" where
  "unfold_lines prev [] = [prev]"
| "unfold_lines prev (l # ls) =
     (if is_continuation l then unfold_lines (prev @ '' '' @ strip l) ls else prev # unfold_lines l ls)"

text \<open>\<^verbatim>\<open>hf_names[0]\<close> of the class that handles a name.\<close>

definition can_name :: "string \<Rightarrow> string" where
  "can_name n = (case map_of [(''f'', ''from''), (''t'', ''to''), (''i'', ''call-id''), (''m'', ''contact''),
       (''v'', ''via''), (''l'', ''content-length''), (''c'', ''content-type''), (''r'', ''refer-to''),
       (''h323-conf-id'', ''cisco-guid'')] n of None \<Rightarrow> n | Some c \<Rightarrow> c)"

definition add_header :: "string \<Rightarrow> string \<Rightarrow> raw_msg \<Rightarrow> raw_msg" where
  "add_header name body m =
     (if name = ''content-type'' then m\<lparr>rm_ctype := Some body\<rparr>
      else if name = ''content-length'' then m\<lparr>rm_clen := Some body\<rparr>
      else m\<lparr>rm_headers := rm_headers m @ [(name, body)]\<rparr>)"

fun add_headers :: "string \<Rightarrow> string list \<Rightarrow> raw_msg \<Rightarrow> exn + raw_msg" where
  "add_headers n [] m = Inr m"
| "add_headers n (b # bs) m =
     (if header_csvs n b \<noteq> None then Inl (OtherError ''ESipHeaderCSV'')
      else add_headers n bs (add_header (can_name n) b m))"

fun header_loop :: "string list \<Rightarrow> raw_msg \<Rightarrow> exn + raw_msg" where
  "header_loop [] m = Inr m"
| "header_loop (l # ls) m =
     (case map strip (split1 (CHR '':'') l) of
        [n0, b] \<Rightarrow>
          (let n = lower n0 in
           case (case header_csvs n b of None \<Rightarrow> Inr (add_header (can_name n) b m) | Some bs \<Rightarrow> add_headers n bs m) of
             Inl e \<Rightarrow> Inl e
           | Inr m' \<Rightarrow> header_loop ls m')
      | _ \<Rightarrow> Inl ValueError)"

definition mandatory :: "string list" where
  "mandatory = [''via'', ''to'', ''from'', ''cseq'']"

definition SipMsg_read :: "string \<Rightarrow> exn + raw_msg" where
  "SipMsg_read buf =
     (case find_body [CRLF @ CRLF, [CR, CR], [LF, LF]] buf of (hd_part, body) \<Rightarrow>
        case splitlines hd_part of
          [] \<Rightarrow> Inl IndexError
        | sl # ls \<Rightarrow>
            (case header_loop (case ls of [] \<Rightarrow> [] | l # ls' \<Rightarrow> unfold_lines l ls')
                \<lparr>rm_startline = sl, rm_headers = [], rm_ctype = None, rm_clen = None, rm_body = body\<rparr> of
               Inl e \<Rightarrow> Inl e
             | Inr m \<Rightarrow>
                 (case filter (\<lambda>n. n \<notin> set (map fst (rm_headers m))) mandatory of
                    [] \<Rightarrow> Inr m
                  | n # _ \<Rightarrow> Inl (OtherError (n @ '' HF is missed'')))))"

text \<open>\<^verbatim>\<open>init_body\<close>; the result is the text of the body, if there is one.\<close>

definition last_chars :: "nat \<Rightarrow> string \<Rightarrow> string" where
  "last_chars n s = drop (length s - n) s"

text \<open>\<^verbatim>\<open>s[:n]\<close>; a negative \<^verbatim>\<open>n\<close> counts from the end.\<close>

definition py_take :: "int \<Rightarrow> string \<Rightarrow> string" where
  "py_take n s = take (nat (if n < 0 then int (length s) + n else n)) s"

definition init_body :: "raw_msg \<Rightarrow> exn + string option" where
  "init_body m =
     (case rm_clen m of
        None \<Rightarrow> Inr (rm_body m)
      | Some t \<Rightarrow>
          (case SipNumericHF_parse t of
             Inl e \<Rightarrow> Inl e
           | Inr blen \<Rightarrow>
               if blen = 0 then Inr None
               else (case rm_body m of
                   None \<Rightarrow> Inl (OtherError ''SipParseError'')
                 | Some b \<Rightarrow>
                     (let mblen = int (length b) in
                      if blen > mblen then
                        (if blen - mblen < 7 \<and> mblen > 7 \<and> last_chars 4 b = CRLF @ CRLF then Inr (Some b)
                         else if blen - mblen = 2 \<and> last_chars 2 b = CRLF then Inr (Some (b @ CRLF))
                         else if blen - mblen = 1 \<and> last_chars 3 b = [CR, LF, LF] then
                           Inr (Some (py_take (-3) b @ CRLF @ CRLF))
                         else if blen - mblen = 1 \<and> last_chars 2 b = CRLF then Inr (Some (b @ CRLF))
                         else Inl (OtherError ''SipParseError''))
                      else if blen < mblen then Inr (Some (py_take blen b))
                      else Inr (Some b)))))"

lemma SipMsg_read_mandatory:
  assumes "SipMsg_read buf = Inr m"
  shows "set mandatory \<subseteq> set (map fst (rm_headers m))"
proof
  fix n
  assume n: "n \<in> set mandatory"
  from assms have "filter (\<lambda>n. n \<notin> set (map fst (rm_headers m))) mandatory = []"
    by (auto simp: SipMsg_read_def split: prod.splits list.splits sum.splits)
  then show "n \<in> set (map fst (rm_headers m))" using n by (auto simp: filter_empty_conv)
qed

lemma init_body_exact:
  assumes "rm_clen m = Some (show_int (int (length b)))" "rm_body m = Some (b @ rest)" "b \<noteq> []"
  shows "init_body m = Inr (Some b)"
  using assms numeric_codec.parse_print [of "int (length b)"]
  by (simp add: init_body_def SipNumericHF_str_def Let_def py_take_def)

section \<open>Header fields and messages\<close>

datatype hf_body =
    HF_Via sip_via
  | HF_Addr sip_address
    \<comment> \<open>SipFrom, SipTo, SipContact, SipRoute, SipRecordRoute, SipReferTo, SipAlso, ...\<close>
  | HF_Star
    \<comment> \<open>\<^verbatim>\<open>Contact: *\<close>\<close>
  | HF_IntAddr int
    \<comment> \<open>an address header whose address is a number (it cannot be printed)\<close>
  | HF_CSeq cseq
  | HF_Num int
    \<comment> \<open>SipMaxForwards, SipExpires\<close>
  | HF_Str string
    \<comment> \<open>SipCallId, SipUserAgent, SipServer, SipGenericHF\<close>
  | HF_Reason sip_reason
  | HF_Auth sip_authorization
  | HF_Challenge sip_challenge
  | HF_Warning string
    \<comment> \<open>the text of a SipWarning\<close>
  | HF_Bad exn
    \<comment> \<open>a text that the class cannot parse\<close>

record sip_header =
  hname :: string
  hbody :: hf_body

abbreviation SipHeader :: "string \<Rightarrow> hf_body \<Rightarrow> sip_header" where
  "SipHeader n b \<equiv> \<lparr>hname = n, hbody = b\<rparr>"

type_synonym naddr = "hostport option \<times> sip_transport"

record sip_msg =
  headers :: "sip_header list"
  body :: "msg_body option"
  target :: "naddr option"
  msource :: "(string \<times> int) option"
  nated :: bool
  rtime :: real

record sip_req = sip_msg +
  rmethod :: string
  ruri :: sip_url
  rsipver :: string
  user_agent :: "string option"

record sip_resp = sip_msg +
  scode :: int
  reason :: string
  ssipver :: string

subsection \<open>SipMsg\<close>

definition getHFs :: "string \<Rightarrow> 'a sip_msg_scheme \<Rightarrow> sip_header list" where
  "getHFs n m = filter (\<lambda>h. hname h = n) (headers m)"

definition countHFs :: "string \<Rightarrow> 'a sip_msg_scheme \<Rightarrow> nat" where
  "countHFs n m = length (getHFs n m)"

definition delHFs :: "string \<Rightarrow> 'a sip_msg_scheme \<Rightarrow> 'a sip_msg_scheme" where
  "delHFs n m = m\<lparr>headers := filter (\<lambda>h. hname h \<noteq> n) (headers m)\<rparr>"

text \<open>\<^verbatim>\<open>SipHeader.getBody\<close>.\<close>

definition getBody :: "sip_header \<Rightarrow> exn + hf_body" where
  "getBody h = (case hbody h of HF_Bad e \<Rightarrow> Inl e | b \<Rightarrow> Inr b)"

definition getHFBodys :: "string \<Rightarrow> 'a sip_msg_scheme \<Rightarrow> exn + hf_body list" where
  "getHFBodys n m = sequence_sum (map getBody (getHFs n m))"

definition getHF :: "string \<Rightarrow> 'a sip_msg_scheme \<Rightarrow> exn + sip_header" where
  "getHF n m = (case getHFs n m of [] \<Rightarrow> Inl IndexError | h # _ \<Rightarrow> Inr h)"

definition getHFBody :: "string \<Rightarrow> 'a sip_msg_scheme \<Rightarrow> exn + hf_body" where
  "getHFBody n m = (case getHF n m of Inl e \<Rightarrow> Inl e | Inr h \<Rightarrow> getBody h)"

text \<open>\<^verbatim>\<open>getCopy\<close> of a parsed header body.\<close>

fun hf_copy :: "hf_body \<Rightarrow> hf_body" where
  "hf_copy (HF_Addr a) = HF_Addr (SipAddress_getCopy a)"
| "hf_copy b = b"

definition getHFBCopys :: "string \<Rightarrow> 'a sip_msg_scheme \<Rightarrow> hf_body list" where
  "getHFBCopys n m = map (\<lambda>h. hf_copy (hbody h)) (getHFs n m)"

definition getHFBCopy :: "string \<Rightarrow> 'a sip_msg_scheme \<Rightarrow> exn + hf_body" where
  "getHFBCopy n m = map_sum id (\<lambda>h. hf_copy (hbody h)) (getHF n m)"

definition appendHeader :: "sip_header \<Rightarrow> 'a sip_msg_scheme \<Rightarrow> 'a sip_msg_scheme" where
  "appendHeader h m = m\<lparr>headers := headers m @ [h]\<rparr>"

definition appendHeaders :: "sip_header list \<Rightarrow> 'a sip_msg_scheme \<Rightarrow> 'a sip_msg_scheme" where
  "appendHeaders hs m = m\<lparr>headers := headers m @ hs\<rparr>"

text \<open>Typed reads of a header body; a header of another class has no such method.\<close>

fun as_addr :: "hf_body \<Rightarrow> exn + sip_address" where
  "as_addr (HF_Addr a) = Inr a"
| "as_addr _ = Inl AttributeError"

fun as_via :: "hf_body \<Rightarrow> exn + sip_via" where
  "as_via (HF_Via v) = Inr v"
| "as_via _ = Inl AttributeError"

fun as_cseq :: "hf_body \<Rightarrow> exn + cseq" where
  "as_cseq (HF_CSeq c) = Inr c"
| "as_cseq _ = Inl AttributeError"

fun as_str :: "hf_body \<Rightarrow> exn + string" where
  "as_str (HF_Str s) = Inr s"
| "as_str _ = Inl AttributeError"

fun as_num :: "hf_body \<Rightarrow> exn + int" where
  "as_num (HF_Num n) = Inr n"
| "as_num _ = Inl AttributeError"

fun as_reason :: "hf_body \<Rightarrow> exn + sip_reason" where
  "as_reason (HF_Reason r) = Inr r"
| "as_reason _ = Inl AttributeError"

fun as_auth :: "hf_body \<Rightarrow> exn + sip_authorization" where
  "as_auth (HF_Auth r) = Inr r"
| "as_auth _ = Inl AttributeError"

fun as_challenge :: "hf_body \<Rightarrow> exn + sip_challenge" where
  "as_challenge (HF_Challenge r) = Inr r"
| "as_challenge _ = Inl AttributeError"

fun and_then :: "exn + 'a \<Rightarrow> ('a \<Rightarrow> exn + 'b) \<Rightarrow> exn + 'b" where
  "and_then (Inl e) f = Inl e"
| "and_then (Inr x) f = f x"

abbreviation getAddrHF :: "string \<Rightarrow> 'a sip_msg_scheme \<Rightarrow> exn + sip_address" where
  "getAddrHF n m \<equiv> and_then (getHFBody n m) as_addr"

definition getCSeq :: "'a sip_msg_scheme \<Rightarrow> exn + cseq" where
  "getCSeq m = and_then (getHFBody ''cseq'' m) as_cseq"

definition getCallId :: "'a sip_msg_scheme \<Rightarrow> exn + string" where
  "getCallId m = and_then (getHFBody ''call-id'' m) as_str"

text \<open>
  The key of a transaction: \<^verbatim>\<open>getTId\<close>. The dictionary it builds keeps the last header of
  each name. With \<open>wCSM\<close> the method, \<open>wBRN\<close> the branch and \<open>wTTG\<close> the To tag are added.
\<close>

definition last_hf :: "string \<Rightarrow> 'a sip_msg_scheme \<Rightarrow> exn + hf_body" where
  "last_hf n m = (case rev (getHFs n m) of [] \<Rightarrow> Inl KeyError | h # _ \<Rightarrow> getBody h)"

record tid =
  t_callid :: string
  t_ftag :: "string option"
  t_cseq :: int
  t_method :: "string option"
  t_branch :: "string option option"
  t_ttag :: "string option option"

definition getTId :: "bool \<Rightarrow> bool \<Rightarrow> bool \<Rightarrow> 'a sip_msg_scheme \<Rightarrow> exn + tid" where
  "getTId wCSM wBRN wTTG m =
     and_then (and_then (last_hf ''cseq'' m) as_cseq) (\<lambda>cs.
     and_then (and_then (last_hf ''call-id'' m) as_str) (\<lambda>ci.
     and_then (and_then (last_hf ''from'' m) as_addr) (\<lambda>fr.
     and_then (if wBRN then and_then (and_then (getHFBody ''via'' m) as_via) (\<lambda>v. Inr (Some (SipVia_getBranch v))) else Inr None) (\<lambda>br.
     and_then (if wTTG then and_then (getAddrHF ''to'' m) (\<lambda>a. Inr (Some (getTag a))) else Inr None) (\<lambda>tt.
       Inr \<lparr>t_callid = ci, t_ftag = getTag fr, t_cseq = fst cs,
            t_method = (if wCSM then Some (snd cs) else None), t_branch = br, t_ttag = tt\<rparr>)))))"

definition getTIds :: "'a sip_msg_scheme \<Rightarrow> exn + tid list" where
  "getTIds m =
     and_then (and_then (last_hf ''call-id'' m) as_str) (\<lambda>ci.
     and_then (and_then (last_hf ''from'' m) as_addr) (\<lambda>fr.
     and_then (and_then (last_hf ''cseq'' m) as_cseq) (\<lambda>cs.
     and_then (getHFBodys ''via'' m) (\<lambda>vs.
     and_then (sequence_sum (map as_via vs)) (\<lambda>vias.
       Inr (map (\<lambda>v. \<lparr>t_callid = ci, t_ftag = getTag fr, t_cseq = fst cs, t_method = Some (snd cs),
                       t_branch = Some (SipVia_getBranch v), t_ttag = None\<rparr>) vias))))))"

subsection \<open>SipRequest and SipResponse\<close>

definition from_default :: sip_address where
  "from_default = SipAddress (Some ''Anonymous'') (SipURL None (Some (MyAddress, Some my_port, None)))"

text \<open>
  The constructor of a request with its arguments. A header given as \<^verbatim>\<open>None\<close> is made by its
  class: \<open>tok\<close> is the random token of a new branch (when \<open>via\<close> is \<open>None\<close>) and of a new
  Call-ID. The target is that of the next hop: the first route, else the request URI.
\<close>

record req_args =
  ra_method :: string
  ra_ruri :: sip_url
  ra_sipver :: string
  ra_to :: "hf_body option"
  ra_from :: "hf_body option"
  ra_via :: "hf_body option"
  ra_cseq :: "int option"
  ra_callid :: "hf_body option"
  ra_maxforwards :: "hf_body option"
  ra_body :: "msg_body option"
  ra_contact :: "hf_body option"
  ra_routes :: "hf_body list"
  ra_target :: "naddr option"
  ra_user_agent :: "string option"
  ra_expires :: "hf_body option"

definition some_addr :: "taddr \<Rightarrow> naddr" where
  "some_addr a = (Some (fst a), snd a)"

definition req_target :: "req_args \<Rightarrow> exn + naddr" where
  "req_target a =
     (case ra_target a of
        Some t \<Rightarrow> Inr t
      | None \<Rightarrow> (case ra_routes a of
            [] \<Rightarrow> Inr (some_addr (SipURL_getTAddr (ra_ruri a)))
          | r # _ \<Rightarrow> and_then (as_addr r) (\<lambda>x. Inr (some_addr (SipURL_getTAddr (aurl x))))))"

definition my_uaname :: string where
  "my_uaname = ''Sippy''"

definition SipRequest :: "string \<Rightarrow> req_args \<Rightarrow> exn + sip_req" where
  "SipRequest tok a =
     and_then (req_target a) (\<lambda>t.
       Inr \<lparr>headers =
         [SipHeader ''via'' (case ra_via a of Some v \<Rightarrow> v | None \<Rightarrow> HF_Via (SipVia_genBranch tok SipVia))] @
         map (SipHeader ''route'') (ra_routes a) @
         [SipHeader ''max-forwards'' (case ra_maxforwards a of Some m \<Rightarrow> m | None \<Rightarrow> HF_Num 70),
          SipHeader ''from'' (case ra_from a of Some f \<Rightarrow> f | None \<Rightarrow> HF_Addr from_default),
          SipHeader ''to'' (case ra_to a of Some f \<Rightarrow> f | None \<Rightarrow> HF_Addr (SipAddress None (ra_ruri a))),
          SipHeader ''call-id'' (case ra_callid a of Some c \<Rightarrow> c | None \<Rightarrow> HF_Str tok),
          SipHeader ''cseq'' (HF_CSeq (case ra_cseq a of Some c \<Rightarrow> c | None \<Rightarrow> 1, ra_method a))] @
         (case ra_contact a of Some c \<Rightarrow> [SipHeader ''contact'' c] | None \<Rightarrow> []) @
         (case ra_expires a of
            Some e \<Rightarrow> [SipHeader ''expires'' e]
          | None \<Rightarrow> if ra_method a = ''INVITE'' then [SipHeader ''expires'' (HF_Num 300)] else []) @
         [SipHeader ''user-agent'' (HF_Str (case ra_user_agent a of Some u \<Rightarrow> u | None \<Rightarrow> my_uaname))],
       body = ra_body a, target = Some t, msource = None, nated = False, rtime = 0,
       rmethod = ra_method a, ruri = ra_ruri a, rsipver = ra_sipver a, user_agent = ra_user_agent a\<rparr>)"

text \<open>
  \<^verbatim>\<open>genResponse\<close>; the From, Call-ID, To and CSeq headers are required. The server name, when
  given, is the text of a \<^verbatim>\<open>Server\<close> header. \<open>ext_reason\<close> as a reason header.
\<close>

definition genResponse :: "int \<Rightarrow> string \<Rightarrow> msg_body option \<Rightarrow> string option \<Rightarrow> sip_reason option \<Rightarrow> sip_req \<Rightarrow> exn + sip_resp" where
  "genResponse sc rs bd server ext req =
     and_then (getHFBCopy ''from'' req) (\<lambda>fr.
     and_then (getHFBCopy ''call-id'' req) (\<lambda>ci.
     and_then (getHFBCopy ''to'' req) (\<lambda>tt.
     and_then (getHFBCopy ''cseq'' req) (\<lambda>cs.
       Inr \<lparr>headers = map (SipHeader ''via'') (getHFBCopys ''via'' req) @
           map (SipHeader ''record-route'') (getHFBCopys ''record-route'' req) @
           [SipHeader ''from'' fr, SipHeader ''to'' tt, SipHeader ''call-id'' ci, SipHeader ''cseq'' cs] @
           (case server of None \<Rightarrow> [] | Some s \<Rightarrow> [SipHeader ''server'' (HF_Str s)]) @
           (case ext of None \<Rightarrow> [] | Some r \<Rightarrow> [SipHeader ''reason'' (HF_Reason r)]),
         body = bd, target = None, msource = None, nated = False, rtime = 0,
         scode = sc, reason = rs, ssipver = rsipver req\<rparr>))))"

definition first_hf :: "string \<Rightarrow> 'a sip_msg_scheme \<Rightarrow> exn + hf_body option" where
  "first_hf n m = map_sum id (\<lambda>bs. case bs of [] \<Rightarrow> None | b # _ \<Rightarrow> Some b) (getHFBodys n m)"

text \<open>The requests that go with an INVITE: \<^verbatim>\<open>genACK\<close>, \<^verbatim>\<open>genCANCEL\<close>, \<^verbatim>\<open>genRequest\<close>.\<close>

definition derived_args :: "string \<Rightarrow> sip_req \<Rightarrow> exn + req_args" where
  "derived_args meth req =
     and_then (first_hf ''max-forwards'' req) (\<lambda>mf.
     and_then (getHFBCopy ''from'' req) (\<lambda>fr.
     and_then (getHFBCopy ''via'' req) (\<lambda>v.
     and_then (getHFBCopy ''call-id'' req) (\<lambda>ci.
     and_then (getCSeq req) (\<lambda>cs.
       Inr \<lparr>ra_method = meth, ra_ruri = SipURL_getCopy (ruri req), ra_sipver = rsipver req, ra_to = None,
            ra_from = Some fr, ra_via = Some v, ra_cseq = Some (fst cs), ra_callid = Some ci,
            ra_maxforwards = mf, ra_body = None, ra_contact = None, ra_routes = [], ra_target = None,
            ra_user_agent = user_agent req, ra_expires = None\<rparr>)))))"

definition genACK :: "hf_body option \<Rightarrow> sip_req \<Rightarrow> exn + sip_req" where
  "genACK to req =
     and_then (case to of Some t \<Rightarrow> Inr t | None \<Rightarrow> map_sum id hf_copy (getHFBody ''to'' req)) (\<lambda>t.
     and_then (derived_args ''ACK'' req) (\<lambda>a. SipRequest [] (a\<lparr>ra_to := Some t\<rparr>)))"

definition genCANCEL :: "sip_req \<Rightarrow> exn + sip_req" where
  "genCANCEL req =
     and_then (derived_args ''CANCEL'' req) (\<lambda>a.
     and_then (getHFBCopy ''to'' req) (\<lambda>t.
       SipRequest [] (a\<lparr>ra_to := Some t, ra_routes := getHFBCopys ''route'' req, ra_target := target req\<rparr>)))"

definition req_genRequest :: "string \<Rightarrow> int option \<Rightarrow> sip_req \<Rightarrow> exn + sip_req" where
  "req_genRequest meth cs req =
     and_then (derived_args meth req) (\<lambda>a.
     and_then (getHFBCopy ''to'' req) (\<lambda>t.
     and_then (first_hf ''expires'' req) (\<lambda>ex.
       SipRequest [] (a\<lparr>ra_to := Some t, ra_expires := ex,
         ra_cseq := (case cs of None \<Rightarrow> ra_cseq a | Some c \<Rightarrow> Some c)\<rparr>))))"

definition setSCode :: "int \<Rightarrow> string \<Rightarrow> sip_resp \<Rightarrow> sip_resp" where
  "setSCode sc rs r = r\<lparr>scode := sc, reason := rs\<rparr>"

text \<open>Whether \<^verbatim>\<open>localStr\<close> prints the message; an address that is a number has no text.\<close>

definition printable :: "'a sip_msg_scheme \<Rightarrow> bool" where
  "printable m = list_all (\<lambda>h. case hbody h of HF_IntAddr _ \<Rightarrow> False | _ \<Rightarrow> True) (headers m)"

subsection \<open>From the wire to a message\<close>

text \<open>The parser of a header field's class, by the canonical name; \<open>tel\<close> is
  \<^verbatim>\<open>SipConf.autoconvert_tel_url\<close>.\<close>

definition hf_of :: "('a \<Rightarrow> hf_body) \<Rightarrow> exn + 'a \<Rightarrow> hf_body" where
  "hf_of f x = (case x of Inl e \<Rightarrow> HF_Bad e | Inr v \<Rightarrow> f v)"

definition hf_parse :: "bool \<Rightarrow> string \<Rightarrow> string \<Rightarrow> hf_body" where
  "hf_parse tel n t =
     (if n = ''contact'' \<and> t = ''*'' then HF_Star
      else if n \<in> set address_names then hf_of HF_Addr (SipAddress_parse tel (n \<in> {''from'', ''to'', ''p-asserted-identity''}) t)
      else if n = ''via'' then hf_of HF_Via (SipVia_parse t)
      else if n = ''cseq'' then hf_of HF_CSeq (SipCSeq_parse t)
      else if n \<in> {''max-forwards'', ''expires'', ''rseq''} then hf_of HF_Num (SipNumericHF_parse t)
      else if n = ''reason'' then hf_of HF_Reason (SipReason_parse t)
      else if n = ''authorization'' then hf_of HF_Auth (SipAuthorization_parse False t)
      else if n = ''proxy-authorization'' then hf_of HF_Auth (SipAuthorization_parse True t)
      else if n = ''www-authenticate'' then hf_of HF_Challenge (SipWWWAuthenticate_parse False t)
      else if n = ''proxy-authenticate'' then hf_of HF_Challenge (SipWWWAuthenticate_parse True t)
      else HF_Str t)"

definition raw_headers :: "bool \<Rightarrow> raw_msg \<Rightarrow> sip_header list" where
  "raw_headers tel m = map (\<lambda>(n, t). SipHeader n (hf_parse tel n t)) (rm_headers m)"

text \<open>The body: \<^verbatim>\<open>MsgBody(mbody, content_type.getBody())\<close>.\<close>

definition raw_body :: "raw_msg \<Rightarrow> exn + msg_body option" where
  "raw_body m = and_then (init_body m) (\<lambda>b. case b of
       None \<Rightarrow> Inr None
     | Some t \<Rightarrow> (case rm_ctype m of
           None \<Rightarrow> Inr (Some (MsgBody_text t (Some DEFAULT_CTYPE)))
         | Some ct \<Rightarrow> map_sum id (\<lambda>c. Some (MsgBody_text t (Some c))) (SipContentType_parse (CTypeRaw ct))))"

definition SipRequest_read :: "bool \<Rightarrow> real \<Rightarrow> string \<Rightarrow> exn + sip_req" where
  "SipRequest_read tel now buf =
     and_then (SipMsg_read buf) (\<lambda>m.
       case split_ws (rm_startline m) of
         [meth, u, ver] \<Rightarrow>
           and_then (SipURL_parse tel False u) (\<lambda>url.
           and_then (raw_body m) (\<lambda>b.
             Inr \<lparr>headers = raw_headers tel m, body = b, target = None, msource = None, nated = False, rtime = now,
                  rmethod = meth, ruri = url, rsipver = ver, user_agent = None\<rparr>))
       | _ \<Rightarrow> Inl ValueError)"

text \<open>\<^verbatim>\<open>startline.split(None, 2)\<close>.\<close>

definition split_ws2 :: "string \<Rightarrow> string list" where
  "split_ws2 s = (case split_ws1 s of [a, r] \<Rightarrow> a # split_ws1 r | xs \<Rightarrow> xs)"

definition SipResponse_read :: "bool \<Rightarrow> real \<Rightarrow> string \<Rightarrow> exn + sip_resp" where
  "SipResponse_read tel now buf =
     and_then (SipMsg_read buf) (\<lambda>m.
     and_then (case split_ws2 (rm_startline m) of
         [ver, sc] \<Rightarrow> Inr (ver, sc, ''Unspecified'')
       | [ver, sc, rs] \<Rightarrow> Inr (ver, sc, rs)
       | _ \<Rightarrow> Inl ValueError) (\<lambda>(ver, sc, rs).
       case py_int sc of
         None \<Rightarrow> Inl ValueError
       | Some code \<Rightarrow>
           and_then (if code > 100 \<and> code < 400 then raw_body m else Inr None) (\<lambda>b.
             Inr \<lparr>headers = raw_headers tel m, body = b, target = None, msource = None, nated = False, rtime = now,
                  scode = code, reason = rs, ssipver = ver\<rparr>)))"

section \<open>Properties\<close>

lemma and_then_Inr [simp]: "and_then x f = Inr y \<longleftrightarrow> (\<exists>z. x = Inr z \<and> f z = Inr y)"
  by (cases x) auto

lemma getHFs_simps [simp]:
  "getHFs n (m\<lparr>body := b\<rparr>) = getHFs n m" "getHFs n (m\<lparr>rtime := t\<rparr>) = getHFs n m"
  by (simp_all add: getHFs_def)

lemma genResponse_scode: "genResponse sc rs b sv ext req = Inr r \<Longrightarrow> scode r = sc \<and> reason r = rs \<and> body r = b"
  by (auto simp: genResponse_def)

end
