(* ===== verification/CC_Events.thy ===== *)
theory CC_Events
  imports Sip_Msg
begin

text \<open>
  The call control events that user agents and the call controller exchange:
  \<^verbatim>\<open>sippy/CCEvents.py\<close>. A class is an \<open>ev_kind\<close>; the attributes that only some classes have
  (\<^verbatim>\<open>max_forwards\<close>, \<^verbatim>\<open>challenges\<close>, \<^verbatim>\<open>warning\<close>) are fields of every event. The data of an
  event is a Python value whose shape depends on where the event was made; the shapes that
  occur are the constructors of \<open>ev_data\<close>. The class attribute \<^verbatim>\<open>CCEventGeneric.seq\<close>, the
  number of the next event, is threaded through the functions that make events.
\<close>

datatype ev_kind =
    CCEventTry | CCEventRing | CCEventPreConnect | CCEventConnect | CCEventUpdate | CCEventInfo
  | CCEventDisconnect | CCEventFail | CCEventRedirect

datatype ev_code = Code int | AckCode
  \<comment> \<open>the first component of a status tuple: a number, or the string \<^verbatim>\<open>'ACK'\<close>\<close>

datatype ev_data =
    is_D_None: D_None
  | D_Try "string option" "string option" "string option" "msg_body option" "sip_authorization option" "string option"
    \<comment> \<open>\<^verbatim>\<open>(cId, callingID, calledID, body, auth, callingName)\<close>\<close>
  | D_Scode ev_code string "msg_body option"
    \<comment> \<open>\<^verbatim>\<open>(code, reason, body)\<close>\<close>
  | D_Scode2 int string
    \<comment> \<open>\<^verbatim>\<open>(code, reason)\<close>\<close>
  | D_Redirect ev_code string "msg_body option" "sip_address list option"
    \<comment> \<open>\<^verbatim>\<open>(code, reason, body, contacts)\<close>\<close>
  | D_Body msg_body
  | D_Also sip_address
    \<comment> \<open>the target of a transfer\<close>

record cc_event =
  ekind :: ev_kind
  edata :: ev_data
  ertime :: real
  eorigin :: "string option"
  reason_rfc3326 :: "sip_reason option"
  extra_headers :: "sip_header list option"
  eseq :: int
  max_forwards :: "int option"
  challenges :: "sip_header list option"
  warning :: "sip_header option"

text \<open>The constructor: \<open>n\<close> is the value of the class attribute \<^verbatim>\<open>seq\<close>, which it then increments.\<close>

definition CCEvent :: "ev_kind \<Rightarrow> ev_data \<Rightarrow> real \<Rightarrow> string option \<Rightarrow> int \<Rightarrow> cc_event" where
  "CCEvent k d t o' n = \<lparr>ekind = k, edata = d, ertime = t, eorigin = o', reason_rfc3326 = None,
     extra_headers = None, eseq = n, max_forwards = None, challenges = None, warning = None\<rparr>"

definition header_copy :: "sip_header \<Rightarrow> sip_header" where
  "header_copy h = h\<lparr>hbody := hf_copy (hbody h)\<rparr>"

text \<open>\<^verbatim>\<open>getCopy\<close>: a new event, with a number of its own, and the attributes of its class.\<close>

definition event_getCopy :: "cc_event \<Rightarrow> int \<Rightarrow> cc_event" where
  "event_getCopy e n =
     (CCEvent (ekind e) (edata e) (ertime e) (eorigin e) n)\<lparr>
       extra_headers := map_option (map header_copy) (extra_headers e),
       reason_rfc3326 := reason_rfc3326 e,
       max_forwards := (if ekind e \<in> {CCEventTry, CCEventUpdate} then max_forwards e else None),
       challenges := (if ekind e = CCEventFail then map_option (map header_copy) (challenges e) else None),
       warning := (if ekind e = CCEventFail then map_option header_copy (warning e) else None)\<rparr>"

definition opt_list :: "'a list \<Rightarrow> 'a list option" where
  "opt_list xs = (if xs = [] then None else Some xs)"

definition getExtraHeaders :: "cc_event \<Rightarrow> sip_header list option" where
  "getExtraHeaders e =
     opt_list
       ((case extra_headers e of None \<Rightarrow> [] | Some hs \<Rightarrow> hs) @
        (case reason_rfc3326 e of None \<Rightarrow> [] | Some r \<Rightarrow> [SipHeader ''reason'' (HF_Reason r)]) @
        (if ekind e = CCEventFail then
           (case challenges e of None \<Rightarrow> [] | Some cs \<Rightarrow> cs) @ (case warning e of None \<Rightarrow> [] | Some w \<Rightarrow> [w])
         else []))"

definition setWarning :: "string \<Rightarrow> cc_event \<Rightarrow> cc_event" where
  "setWarning t e = e\<lparr>warning := Some (SipHeader ''warning'' (HF_Warning (map (\<lambda>c. if c = dquote then CHR 0x27 else c) t)))\<rparr>"

text \<open>
  The body inside an event's data. The SDP hooks change a body in place and hand the same
  object back, so an event made before the hook ran sees the change.
\<close>

fun data_with_body :: "msg_body \<Rightarrow> ev_data \<Rightarrow> ev_data" where
  "data_with_body b (D_Try c i d _ a n) = D_Try c i d (Some b) a n"
| "data_with_body b (D_Scode c r _) = D_Scode c r (Some b)"
| "data_with_body b (D_Redirect c r _ x) = D_Redirect c r (Some b) x"
| "data_with_body b (D_Body _) = D_Body b"
| "data_with_body b d = d"

definition event_with_body :: "msg_body \<Rightarrow> cc_event \<Rightarrow> cc_event" where
  "event_with_body b e = e\<lparr>edata := data_with_body b (edata e)\<rparr>"

lemma event_simps [simp]:
  "eseq (CCEvent k d t o' n) = n" "ekind (CCEvent k d t o' n) = k" "edata (CCEvent k d t o' n) = d"
  "ertime (CCEvent k d t o' n) = t" "eorigin (CCEvent k d t o' n) = o'"
  "eseq (event_with_body b e) = eseq e" "ekind (event_with_body b e) = ekind e"
  "eseq (event_getCopy e n) = n" "ekind (event_getCopy e n) = ekind e"
  "eseq (setWarning w e) = eseq e" "ekind (setWarning w e) = ekind e"
  by (simp_all add: CCEvent_def event_with_body_def event_getCopy_def setWarning_def)

lemma header_copy_getTag:
  "hbody h = HF_Addr a \<Longrightarrow> hbody (header_copy h) = HF_Addr b \<Longrightarrow> getTag b = getTag a"
  by (auto simp: header_copy_def)

text \<open>A copy asks for the same extra headers, up to copying them.\<close>

lemma getExtraHeaders_getCopy:
  "getExtraHeaders (event_getCopy e n) = map_option (map header_copy) (getExtraHeaders e)"
  by (auto simp: getExtraHeaders_def event_getCopy_def CCEvent_def opt_list_def header_copy_def
      split: option.splits)

end
