(* ===== verification/UA_Core.thy ===== *)
theory UA_Core
  imports CC_Events
begin

text \<open>
  The user agent object of \<^verbatim>\<open>sippy/UA.py\<close>: its attributes, and the operations that the state
  classes call (\<open>genRequest\<close>, \<open>sendUasResponse\<close>, the credit timer, the event queue,
  \<open>changeState\<close>).

  What a user agent does to the rest of the system is recorded in \<open>trace\<close>: the calls of the
  transaction manager, the callbacks of the application, the events handed to \<^verbatim>\<open>event_cb\<close>.
  Timers are kept in \<open>timers\<close>, the timers that are running, and addressed by number, as are
  transactions and state objects (\<open>nid\<close> is the next free number). The two SDP hooks are
  functions on a body. \<^verbatim>\<open>on_remote_sdp_change\<close> returns the body (\<open>HookDone\<close>), returns \<^verbatim>\<open>None\<close>
  and calls back later (\<open>HookDelayed\<close>) or raises; the result of \<^verbatim>\<open>on_local_sdp_change\<close> is not
  used, it calls back later or raises. The completion of a hook is a step of its own
  (\<open>delayed_remote_sdp_update\<close>, \<open>delayed_local_sdp_update\<close>). Random tokens and numbers, the
  digest functions and the host's own address are functions and constants of the record;
  \<open>now\<close> is the value a call of \<^verbatim>\<open>MonoTime()\<close> gives.

  The arguments \<^verbatim>\<open>laddress\<close>, \<^verbatim>\<open>compact\<close> and \<^verbatim>\<open>lossemul\<close>, which the user agent only hands on to
  the transaction manager, are left out.
\<close>

section \<open>The object\<close>

datatype ua_class =
    UasStateIdle | UasStateTrying | UasStateRinging | UasStateUpdating
  | UacStateIdle | UacStateTrying | UacStateRinging | UacStateUpdating | UacStateCancelling
  | UaStateConnected | UaStateFailed | UaStateDisconnected | UaStateDead

record ua_state =
  st_class :: ua_class
  st_id :: nat
  st_te :: "nat option"
    \<comment> \<open>\<^verbatim>\<open>te\<close> of UacStateCancelling\<close>
  keepalives :: int
  ka_tr :: "nat option"
  triedauth :: bool
    \<comment> \<open>these three of UaStateConnected\<close>

fun st_connected :: "ua_class \<Rightarrow> bool" where
  "st_connected UasStateUpdating = True"
| "st_connected UacStateUpdating = True"
| "st_connected UaStateConnected = True"
| "st_connected _ = False"

fun st_dead :: "ua_class \<Rightarrow> bool" where
  "st_dead UaStateDead = True"
| "st_dead _ = False"

datatype timer_kind =
    T_expires | T_no_progress | T_no_reply | T_credit real
  | T_goDead | T_goIdle nat | T_keepAlive nat | T_disconnect
  \<comment> \<open>the number is that of the state object whose method the timer calls\<close>

record timer =
  tm_id :: nat
  tm_kind :: timer_kind
  tm_at :: real

datatype cb_kind = CbConn | CbDisc | CbFail | CbRing | CbDead

datatype cb_args = CbUa | CbArgs real "string option" "ev_code option"

datatype resp_cb = NoRespCb | UacRespCb | KeepAliveRespCb nat | RCompleteCb

datatype action =
    A_SendResponse sip_resp bool
    \<comment> \<open>whether \<^verbatim>\<open>ack_cb\<close> is given\<close>
  | A_NewTransaction nat sip_req resp_cb "sip_header list option"
  | A_CancelTransaction nat "sip_header list option"
  | A_SetUack nat
  | A_SetAckBody nat "msg_body option"
  | A_SendACK nat
  | A_ClearRespCb nat
  | A_RegConsumer string
  | A_UnregConsumer string
  | A_Callback cb_kind string cb_args
  | A_Emit cc_event
  | A_LocalSdp cc_event msg_body
  | A_RemoteSdp cc_event msg_body

datatype sdp_hook = HookDone msg_body | HookDelayed | HookRaise exn

record ua =
  state :: "ua_state option"
  event_cb :: bool
    \<comment> \<open>whether a callback is set\<close>
  uasResp :: "sip_resp option"
  ua_username :: "string option"
  ua_password :: "string option"
  auth_enalgs :: "string option list option"
  equeue :: "cc_event list"
  credit_time :: "real option"
  credit_times :: "(int \<times> real option) list"
  credit_timer :: "nat option"
  conn_cbs :: "string list"
  disc_cbs :: "string list"
  fail_cbs :: "string list"
  ring_cbs :: "string list"
  dead_cbs :: "string list"
  rCSeq :: "int option"
  lTag :: string
  lUri :: "sip_address option"
  rUri :: "sip_address option"
  cId :: "string option"
  lCSeq :: "int option"
  lContact :: "sip_address option"
  rAddr :: naddr
  rAddr0 :: naddr
  routes :: "sip_address list option"
  rTarget :: "sip_url option"
  lSDP :: "msg_body option"
  rSDP :: "msg_body option"
  kaInterval :: real
  branch :: "string option"
  reqs :: "(int \<times> sip_req) list option"
  ua_extra_headers :: "sip_header list option"
  useRefer :: bool
  expire_time :: "real option"
  expire_timer :: "nat option"
  expire_mtime :: "real option"
  no_progress_time :: "real option"
  no_progress_timer :: "nat option"
  no_progress_mtime :: "real option"
  no_reply_time :: "real option"
  no_reply_timer :: "nat option"
  on_local_sdp_change :: "(msg_body \<Rightarrow> exn option) option"
  on_remote_sdp_change :: "(msg_body \<Rightarrow> sdp_hook) option"
  last_scode :: int
  setup_ts :: "real option"
  p100_ts :: "real option"
  p1xx_ts :: "real option"
  connect_ts :: "real option"
  disconnect_ts :: "real option"
  local_ua :: "string option"
  remote_ua :: "string option"
  elast_seq :: "int option"
  origin :: "string option"
  outbound_proxy :: "hostport option"
  pass_auth :: bool
  pending_tr :: "nat option"
  tr :: "nat option"
  late_media :: bool
  godead_timeout :: real
  \<comment> \<open>the rest of the system, as far as the user agent sees it\<close>
  my_address :: string
  token :: "nat \<Rightarrow> string"
  rnd :: "nat \<Rightarrow> int"
  hash :: hashes
  now :: real
  ntok :: nat
  nid :: nat
  cc_seq :: int
  tr_extra :: "nat \<Rightarrow> sip_header list option"
  timers :: "timer list"
  trace :: "action list"

end
