(* ===== verification/UA_Ops.thy ===== *)
theory UA_Ops
  imports UA_Core
begin

text \<open>
  The operations of \<^verbatim>\<open>sippy/UA.py\<close> that the state classes use, as statements over the user
  agent.
\<close>

section \<open>Effects\<close>

definition act :: "action \<Rightarrow> (ua, 'r) stmt" where
  "act a = upd (\<lambda>s. s\<lparr>trace := trace s @ [a]\<rparr>)"

text \<open>A new event takes its number from the class attribute.\<close>

definition new_event :: "ev_kind \<Rightarrow> ev_data \<Rightarrow> real \<Rightarrow> string option \<Rightarrow> (cc_event \<Rightarrow> (ua, 'r) stmt) \<Rightarrow> (ua, 'r) stmt" where
  "new_event k d t o' c s = c (CCEvent k d t o' (cc_seq s)) (s\<lparr>cc_seq := cc_seq s + 1\<rparr>)"

definition new_token :: "(string \<Rightarrow> (ua, 'r) stmt) \<Rightarrow> (ua, 'r) stmt" where
  "new_token c s = c (token s (ntok s)) (s\<lparr>ntok := Suc (ntok s)\<rparr>)"

definition new_id :: "(nat \<Rightarrow> (ua, 'r) stmt) \<Rightarrow> (ua, 'r) stmt" where
  "new_id c s = c (nid s) (s\<lparr>nid := Suc (nid s)\<rparr>)"

text \<open>\<^verbatim>\<open>Timeout\<close> and \<^verbatim>\<open>TimeoutAbsMono\<close>; \<^verbatim>\<open>timer.cancel()\<close>.\<close>

definition start_timer :: "timer_kind \<Rightarrow> real \<Rightarrow> (nat \<Rightarrow> (ua, 'r) stmt) \<Rightarrow> (ua, 'r) stmt" where
  "start_timer k tm c = new_id (\<lambda>i. block [upd (\<lambda>s. s\<lparr>timers := timers s @ [\<lparr>tm_id = i, tm_kind = k, tm_at = tm\<rparr>]\<rparr>), c i])"

definition stop_timer :: "nat \<Rightarrow> (ua, 'r) stmt" where
  "stop_timer i = upd (\<lambda>s. s\<lparr>timers := filter (\<lambda>t. tm_id t \<noteq> i) (timers s)\<rparr>)"

definition cancel_opt :: "nat option \<Rightarrow> (ua, 'r) stmt" where
  "cancel_opt x = (case x of None \<Rightarrow> skip | Some i \<Rightarrow> stop_timer i)"

definition append_event :: "cc_event \<Rightarrow> (ua, 'r) stmt" where
  "append_event e = upd (\<lambda>s. s\<lparr>equeue := equeue s @ [e]\<rparr>)"

definition run_cbs :: "cb_kind \<Rightarrow> string list \<Rightarrow> cb_args \<Rightarrow> (ua, 'r) stmt" where
  "run_cbs k names a = foreach names (\<lambda>n. act (A_Callback k n a))"

text \<open>An attribute that must not be \<^verbatim>\<open>None\<close>.\<close>

definition attr :: "'a option \<Rightarrow> exn + 'a" where
  "attr x = (case x of None \<Rightarrow> Inl AttributeError | Some v \<Rightarrow> Inr v)"

section \<open>Events\<close>

definition emitEvent :: "cc_event \<Rightarrow> (ua, 'r) stmt" where
  "emitEvent e = if_then event_cb
     (if_then (\<lambda>s. case elast_seq s of None \<Rightarrow> True | Some n \<Rightarrow> n < eseq e)
       (block [upd (\<lambda>s. s\<lparr>elast_seq := Some (eseq e)\<rparr>), act (A_Emit e)]))"

text \<open>
  The loop of \<^verbatim>\<open>emitPendingEvents\<close>: it takes the events off the queue one by one. The
  callback is recorded, so nothing is added to the queue meanwhile and \<^verbatim>\<open>event_cb\<close> stays.
\<close>

definition emitPendingEvents :: "(ua, 'r) stmt" where
  "emitPendingEvents = if_then event_cb
     (local equeue (\<lambda>q. foreach q (\<lambda>e. block [upd (\<lambda>s. s\<lparr>equeue := tl (equeue s)\<rparr>), emitEvent e])))"

section \<open>The credit timer\<close>

definition cancelCreditTimer :: "(ua, 'r) stmt" where
  "cancelCreditTimer = local credit_timer (\<lambda>t. block [cancel_opt t, upd (\<lambda>s. s\<lparr>credit_timer := None\<rparr>)])"

definition min_credit :: "(int \<times> real option) list \<Rightarrow> real option" where
  "min_credit d = (let xs = List.map_filter snd d in if xs = [] then None else Some (Min (set xs)))"

definition startCreditTimer :: "real \<Rightarrow> (ua, 'r) stmt" where
  "startCreditTimer rt = block [
     local credit_time (\<lambda>c. case c of
         None \<Rightarrow> skip
       | Some t \<Rightarrow> upd (\<lambda>s. s\<lparr>credit_times := dict_set 0 (Some (rt + t)) (credit_times s), credit_time := None\<rparr>)),
     local credit_times (\<lambda>d. case min_credit d of
         None \<Rightarrow> skip
       | Some t \<Rightarrow> start_timer (T_credit t) t (\<lambda>i. upd (\<lambda>s. s\<lparr>credit_timer := Some i\<rparr>)))]"

section \<open>Requests and responses\<close>

text \<open>\<^verbatim>\<open>newTransaction\<close>: a request that cannot be printed makes the transaction manager raise.\<close>

definition newTransaction :: "sip_req \<Rightarrow> resp_cb \<Rightarrow> sip_header list option \<Rightarrow> (nat \<Rightarrow> (ua, 'r) stmt) \<Rightarrow> (ua, 'r) stmt" where
  "newTransaction req cb eh c =
     (if \<not> printable req then raise AttributeError
      else new_id (\<lambda>i. block [
        act (A_NewTransaction i req cb eh),
        upd (\<lambda>s. s\<lparr>tr_extra := (tr_extra s)(i := eh)\<rparr>),
        c i]))"

definition newUacTransaction :: "sip_req \<Rightarrow> sip_header list option \<Rightarrow> (ua, 'r) stmt" where
  "newUacTransaction req eh = newTransaction req UacRespCb eh (\<lambda>i. upd (\<lambda>s. s\<lparr>tr := Some i\<rparr>))"

definition cancelTransaction :: "nat option \<Rightarrow> sip_header list option \<Rightarrow> (ua, 'r) stmt" where
  "cancelTransaction x eh = (case x of
       None \<Rightarrow> raise AttributeError
     | Some i \<Rightarrow> act (A_CancelTransaction i eh))"

definition req_of_ua :: "string \<Rightarrow> int option \<Rightarrow> sip_url \<Rightarrow> sip_address list \<Rightarrow> ua \<Rightarrow> req_args" where
  "req_of_ua meth mf turi rts s = \<lparr>
     ra_method = meth, ra_ruri = turi, ra_sipver = ''SIP/2.0'',
     ra_to = map_option HF_Addr (rUri s), ra_from = map_option HF_Addr (lUri s), ra_via = None,
     ra_cseq = lCSeq s, ra_callid = map_option HF_Str (cId s), ra_maxforwards = map_option HF_Num mf,
     ra_body = None, ra_contact = map_option HF_Addr (lContact s), ra_routes = map HF_Addr rts,
     ra_target = Some (case outbound_proxy s of Some p \<Rightarrow> (Some p, my_transport) | None \<Rightarrow> rAddr s),
     ra_user_agent = local_ua s, ra_expires = None\<rparr>"

definition auth_name :: "sip_authorization \<Rightarrow> string" where
  "auth_name a = (if auth_proxy a then ''proxy-authorization'' else ''authorization'')"

text \<open>
  \<^verbatim>\<open>genRequest\<close>. The target URI is set before any state that sends requests is entered; a
  user agent without one raises here (in the code: when the request is printed).
\<close>

definition genRequest :: "string \<Rightarrow> msg_body option \<Rightarrow> (sip_challenge \<times> string option) option \<Rightarrow>
    sip_header list option \<Rightarrow> int option \<Rightarrow> (sip_req \<Rightarrow> (ua, 'r) stmt) \<Rightarrow> (ua, 'r) stmt" where
  "genRequest meth bd cqop eh mf c =
     fetch (\<lambda>s. attr (rTarget s)) (\<lambda>turi.
     fetch (\<lambda>s. case routes s of None \<Rightarrow> Inl TypeError | Some r \<Rightarrow> Inr r) (\<lambda>rts.
     new_token (\<lambda>tok.
     fetch (\<lambda>s. SipRequest tok (req_of_ua meth mf turi rts s)) (\<lambda>req0.
     new_token (\<lambda>tok2.
     fetch (\<lambda>s. case cqop of
         None \<Rightarrow> Inr req0
       | Some (ch, qop) \<Rightarrow>
           map_sum id (\<lambda>a. appendHeader (SipHeader (auth_name a) (HF_Auth a)) req0)
             (genAuthHF (hash s) tok2 (ua_username s) (ua_password s) meth (SipURL_localStr (my_address s) None turi)
                (if qop = Some ''auth-int'' then map_option (MsgBody_str (my_address s)) bd else None) qop ch)) (\<lambda>req1.
     local (\<lambda>s. (case bd of None \<Rightarrow> id | Some b \<Rightarrow> (\<lambda>m. m\<lparr>body := Some b\<rparr>)) req1) (\<lambda>req2.
     local (\<lambda>s. (case ua_extra_headers s of None \<Rightarrow> id | Some hs \<Rightarrow> appendHeaders hs) req2) (\<lambda>req3.
     local (\<lambda>s. (case eh of None \<Rightarrow> id | Some hs \<Rightarrow> appendHeaders hs) req3) (\<lambda>req.
     fetch (\<lambda>s. case lCSeq s of None \<Rightarrow> Inl TypeError | Some n \<Rightarrow> Inr n) (\<lambda>n.
     block [
       if_then (\<lambda>_. meth = ''INVITE'')
         (fetch (\<lambda>s. case reqs s of None \<Rightarrow> Inl TypeError | Some r \<Rightarrow> Inr r)
            (\<lambda>r. upd (\<lambda>s. s\<lparr>reqs := Some (dict_set n req r)\<rparr>))),
       upd (\<lambda>s. s\<lparr>lCSeq := Some (n + 1)\<rparr>),
       c req]))))))))))"

definition resp_getCopy :: "string \<Rightarrow> sip_resp \<Rightarrow> exn + sip_resp" where
  "resp_getCopy tok r =
     (case body r of
        None \<Rightarrow> Inr (r\<lparr>headers := map header_copy (headers r)\<rparr>)
      | Some b \<Rightarrow> map_sum id (\<lambda>c. r\<lparr>headers := map header_copy (headers r), body := Some c\<rparr>) (MsgBody_getCopy tok b))"

text \<open>
  \<^verbatim>\<open>sendUasResponse\<close>. A status \<^verbatim>\<open>'ACK'\<close>, which is not a number, makes the transaction manager
  raise.
\<close>

definition sendUasResponse :: "ev_code \<Rightarrow> string \<Rightarrow> msg_body option \<Rightarrow> sip_address list option \<Rightarrow>
    sip_header list option \<Rightarrow> bool \<Rightarrow> (ua, 'r) stmt" where
  "sendUasResponse code rs bd contacts eh ack_wait =
     new_token (\<lambda>tok.
     fetch (\<lambda>s. and_then (attr (uasResp s)) (resp_getCopy tok)) (\<lambda>r0.
       case code of
         AckCode \<Rightarrow> raise TypeError
       | Code n \<Rightarrow>
           act (A_SendResponse
             (appendHeaders (case eh of None \<Rightarrow> [] | Some hs \<Rightarrow> hs)
               (appendHeaders (map (\<lambda>a. SipHeader ''contact'' (HF_Addr a)) (case contacts of None \<Rightarrow> [] | Some cs \<Rightarrow> cs))
                 ((setSCode n rs r0)\<lparr>body := bd\<rparr>))) ack_wait)))"

text \<open>\<^verbatim>\<open>req.sendResponse\<close>, which \<^verbatim>\<open>recvRequest\<close> sets.\<close>

definition req_sendResponse :: "int \<Rightarrow> string \<Rightarrow> sip_req \<Rightarrow> (ua, 'r) stmt" where
  "req_sendResponse code rs req =
     fetch (\<lambda>s. genResponse code rs None (local_ua s) None req) (\<lambda>r. act (A_SendResponse r False))"

section \<open>State changes\<close>

datatype newstate =
    NS_None
  | NS ua_class "(cb_kind \<times> string list \<times> cb_args) option"
    \<comment> \<open>a tuple: the class, the callbacks and their arguments\<close>
  | NS_Int ev_code
  | NS_Tuple ev_code
    \<comment> \<open>a tuple whose first component is a status code\<close>

text \<open>An assignment to an attribute of the state object.\<close>

definition set_state :: "(ua_state \<Rightarrow> ua_state) \<Rightarrow> (ua, 'r) stmt" where
  "set_state f = upd (\<lambda>s. s\<lparr>state := map_option f (state s)\<rparr>)"

text \<open>\<^verbatim>\<open>onStateChange\<close> of the state that is left.\<close>

definition onStateChange :: "ua_state \<Rightarrow> (ua, 'r) stmt" where
  "onStateChange st =
     (if st_class st \<noteq> UaStateConnected then skip
      else block [
        (case ka_tr st of
           None \<Rightarrow> skip
         | Some i \<Rightarrow> block [act (A_CancelTransaction i None), set_state (\<lambda>x. x\<lparr>ka_tr := None\<rparr>)]),
        local pending_tr (\<lambda>p. case p of
           None \<Rightarrow> skip
         | Some i \<Rightarrow> block [act (A_SendACK i), upd (\<lambda>s. s\<lparr>pending_tr := None\<rparr>)]),
        local expire_timer (\<lambda>t. case t of
           None \<Rightarrow> skip
         | Some i \<Rightarrow> block [stop_timer i, upd (\<lambda>s. s\<lparr>expire_timer := None\<rparr>)])])"

definition new_state :: "ua_class \<Rightarrow> nat \<Rightarrow> ua_state" where
  "new_state c i = \<lparr>st_class = c, st_id = i, st_te = None, keepalives = 0, ka_tr = None, triedauth = False\<rparr>"

text \<open>\<^verbatim>\<open>UaStateDead.__init__\<close>.\<close>

definition initDead :: "(ua, 'r) stmt" where
  "initDead = block [
     local cId (\<lambda>c. case c of None \<Rightarrow> skip | Some i \<Rightarrow> act (A_UnregConsumer i)),
     local tr (\<lambda>t. case t of None \<Rightarrow> skip | Some i \<Rightarrow> act (A_ClearRespCb i)),
     upd (\<lambda>s. s\<lparr>tr := None, event_cb := False, conn_cbs := [], disc_cbs := [], fail_cbs := [],
       on_local_sdp_change := None, on_remote_sdp_change := None, expire_timer := None,
       no_progress_timer := None, credit_timer := None, reqs := None\<rparr>),
     local dead_cbs (\<lambda>cs. run_cbs CbDead cs CbUa),
     upd (\<lambda>s. s\<lparr>dead_cbs := []\<rparr>)]"

text \<open>
  \<^verbatim>\<open>newstate[0](self)\<close>: the constructor of the class, then the attribute \<^verbatim>\<open>state\<close>.
\<close>

definition enterState :: "ua_class \<Rightarrow> (ua, 'r) stmt" where
  "enterState c = new_id (\<lambda>i.
     (case c of
        UaStateConnected \<Rightarrow> block [
          upd (\<lambda>s. s\<lparr>branch := None\<rparr>),
          local kaInterval (\<lambda>k. if k > 0 then local now (\<lambda>t. start_timer (T_keepAlive i) (t + k) (\<lambda>_. skip)) else skip),
          upd (\<lambda>s. s\<lparr>state := Some (new_state c i)\<rparr>)]
      | UacStateCancelling \<Rightarrow> block [
          upd (\<lambda>s. s\<lparr>on_local_sdp_change := None, on_remote_sdp_change := None\<rparr>),
          local now (\<lambda>t. start_timer (T_goIdle i) (t + 300) (\<lambda>te.
            upd (\<lambda>s. s\<lparr>state := Some ((new_state c i)\<lparr>st_te := Some te\<rparr>)\<rparr>)))]
      | UaStateDead \<Rightarrow> block [initDead, upd (\<lambda>s. s\<lparr>state := Some (new_state c i)\<rparr>)]
      | _ \<Rightarrow>
          if c \<in> {UaStateDisconnected, UaStateFailed} then block [
            upd (\<lambda>s. s\<lparr>on_local_sdp_change := None, on_remote_sdp_change := None\<rparr>),
            local (\<lambda>s. now s + godead_timeout s) (\<lambda>t. start_timer T_goDead t (\<lambda>_.
              upd (\<lambda>s. s\<lparr>state := Some (new_state c i)\<rparr>)))]
          else upd (\<lambda>s. s\<lparr>state := Some (new_state c i)\<rparr>)))"

definition changeState :: "newstate \<Rightarrow> (ua, 'r) stmt" where
  "changeState ns = (case ns of
       NS_None \<Rightarrow> raise TypeError
     | NS_Int _ \<Rightarrow> raise TypeError
     | NS_Tuple _ \<Rightarrow> block [
         local state (\<lambda>st. case st of None \<Rightarrow> skip | Some x \<Rightarrow> onStateChange x),
         raise TypeError]
     | NS c cbs \<Rightarrow> block [
         local state (\<lambda>st. case st of None \<Rightarrow> skip | Some x \<Rightarrow> onStateChange x),
         enterState c,
         (case cbs of None \<Rightarrow> skip | Some (k, names, a) \<Rightarrow> run_cbs k names a)])"

end
