(* ===== verification/UA_Events.thy ===== *)
theory UA_Events
  imports UA_Ops
begin

text \<open>
  The event side of the state classes: what a user agent does when the call controller sends
  it an event. One definition per method of \<^verbatim>\<open>sippy/UasState*.py\<close>, \<^verbatim>\<open>UacState*.py\<close> and
  \<^verbatim>\<open>UaState*.py\<close>, named after its class and method, then \<open>UA_recvEvent\<close> of \<^verbatim>\<open>sippy/UA.py\<close>. A
  method's result is a \<open>newstate\<close>.
\<close>

section \<open>Shared pieces\<close>

abbreviation contact_default :: sip_address where
  "contact_default \<equiv> SipAddress (Some ''Anonymous'') (SipURL None (Some (MyAddress, Some my_port, Some my_transport)))"

definition contact_of :: "ua \<Rightarrow> sip_address list option" where
  "contact_of s = Some [case lContact s of Some c \<Rightarrow> c | None \<Rightarrow> contact_default]"

text \<open>Call of \<^verbatim>\<open>on_local_sdp_change(body, partial(ua.delayed_local_sdp_update, event))\<close>.\<close>

definition local_hook :: "cc_event \<Rightarrow> msg_body \<Rightarrow> (ua, 'r) stmt" where
  "local_hook e b = local on_local_sdp_change (\<lambda>h. case h of
       None \<Rightarrow> skip
     | Some f \<Rightarrow> (case f b of None \<Rightarrow> act (A_LocalSdp e b) | Some x \<Rightarrow> raise x))"

definition wants_local_hook :: "msg_body option \<Rightarrow> ua \<Rightarrow> bool" where
  "wants_local_hook bd s = (case bd of None \<Rightarrow> False | Some b \<Rightarrow> on_local_sdp_change s \<noteq> None \<and> needs_update b)"

text \<open>The status tuple of an event. Data of another shape cannot be unpacked or indexed.\<close>

fun unpack3 :: "ev_data \<Rightarrow> exn + (ev_code \<times> string \<times> msg_body option)" where
  "unpack3 (D_Scode c r b) = Inr (c, r, b)"
| "unpack3 (D_Scode2 c r) = Inl ValueError"
| "unpack3 (D_Redirect c r b x) = Inl ValueError"
| "unpack3 (D_Try c i d b a n) = Inl ValueError"
| "unpack3 _ = Inl TypeError"

fun data_code :: "ev_data \<Rightarrow> exn + ev_code" where
  "data_code (D_Scode c r b) = Inr c"
| "data_code (D_Scode2 c r) = Inr (Code c)"
| "data_code (D_Redirect c r b x) = Inr c"
| "data_code _ = Inl TypeError"

fun data_code_reason :: "ev_data \<Rightarrow> exn + (ev_code \<times> string)" where
  "data_code_reason (D_Scode c r b) = Inr (c, r)"
| "data_code_reason (D_Scode2 c r) = Inr (Code c, r)"
| "data_code_reason (D_Redirect c r b x) = Inr (c, r)"
| "data_code_reason _ = Inl TypeError"

fun redirect_data :: "ev_data \<Rightarrow> exn + (ev_code \<times> string \<times> msg_body option \<times> sip_address list option)" where
  "redirect_data D_None = Inr (Code 500, ''Failed'', None, None)"
| "redirect_data (D_Redirect c r b x) = Inr (c, r, b, x)"
| "redirect_data (D_Scode c r b) = Inl IndexError"
| "redirect_data (D_Scode2 c r) = Inl IndexError"
| "redirect_data _ = Inl TypeError"

text \<open>When the call ended: the event's time, or the present when that is before the setup.\<close>

definition end_ts :: "real \<Rightarrow> ua \<Rightarrow> real" where
  "end_ts rt s = (case setup_ts s of None \<Rightarrow> rt | Some t \<Rightarrow> if rt \<ge> t then rt else now s)"

definition set_disconnect_ts :: "(ua \<Rightarrow> real) \<Rightarrow> (ua, 'r) stmt" where
  "set_disconnect_ts f = upd (\<lambda>s. s\<lparr>disconnect_ts := Some (f s)\<rparr>)"

definition disc_state :: "ua_class \<Rightarrow> real \<Rightarrow> string option \<Rightarrow> ev_code option \<Rightarrow> (ua, newstate) stmt" where
  "disc_state c rt o' code = local disc_cbs (\<lambda>cs. ret (NS c (Some (CbDisc, cs, CbArgs rt o' code))))"

definition fail_state :: "real \<Rightarrow> string option \<Rightarrow> ev_code option \<Rightarrow> (ua, newstate) stmt" where
  "fail_state rt o' code = local fail_cbs (\<lambda>cs. ret (NS UaStateFailed (Some (CbFail, cs, CbArgs rt o' code))))"

definition conn_state :: "real \<Rightarrow> string option \<Rightarrow> (ua, newstate) stmt" where
  "conn_state rt o' = local conn_cbs (\<lambda>cs. ret (NS UaStateConnected (Some (CbConn, cs, CbArgs rt o' None))))"

definition clear_expire_timer :: "(ua, 'r) stmt" where
  "clear_expire_timer = local expire_timer (\<lambda>t. block [cancel_opt t, upd (\<lambda>s. s\<lparr>expire_timer := None\<rparr>)])"

definition clear_no_progress_timer :: "(ua, 'r) stmt" where
  "clear_no_progress_timer = local no_progress_timer (\<lambda>t. block [cancel_opt t, upd (\<lambda>s. s\<lparr>no_progress_timer := None\<rparr>)])"

definition clear_no_reply_timer :: "(ua, 'r) stmt" where
  "clear_no_reply_timer = local no_reply_timer (\<lambda>t. block [cancel_opt t, upd (\<lambda>s. s\<lparr>no_reply_timer := None\<rparr>)])"

definition start_at :: "timer_kind \<Rightarrow> (ua \<Rightarrow> real option) \<Rightarrow> (nat \<Rightarrow> ua \<Rightarrow> ua) \<Rightarrow> (ua, 'r) stmt" where
  "start_at k m f = fetch (\<lambda>s. attr (m s)) (\<lambda>t. start_timer k t (\<lambda>i. upd (f i)))"

definition start_expire_timer :: "(ua, 'r) stmt" where
  "start_expire_timer = start_at T_expires expire_mtime (\<lambda>i s. s\<lparr>expire_timer := Some i\<rparr>)"

definition start_no_progress_timer :: "(ua, 'r) stmt" where
  "start_no_progress_timer = start_at T_no_progress no_progress_mtime (\<lambda>i s. s\<lparr>no_progress_timer := Some i\<rparr>)"

section \<open>UasStateGeneric\<close>

definition UasStateGeneric_delayLocalSdpUpdate :: "cc_event \<Rightarrow> msg_body option \<Rightarrow> (ua, bool) stmt" where
  "UasStateGeneric_delayLocalSdpUpdate e bd = block [
     if_then (wants_local_hook bd) (block [local_hook e (the bd), ret True]),
     ret False]"

definition UasStateGeneric_recvEventRing :: "cc_event \<Rightarrow> sip_header list option \<Rightarrow> sip_address list option \<Rightarrow> (ua, ev_code option) stmt" where
  "UasStateGeneric_recvEventRing e eh contacts =
     (let finish = (\<lambda>code rs bd. block [
            upd (\<lambda>s. s\<lparr>lSDP := bd\<rparr>),
            sendUasResponse code rs bd contacts eh False,
            ret (Some code)])
      in if is_D_None (edata e) then finish (Code 180) ''Ringing'' None
         else fetch (\<lambda>_. unpack3 (edata e)) (\<lambda>(code, rs, bd).
           call False (UasStateGeneric_delayLocalSdpUpdate e bd) (\<lambda>d.
             if d then ret None else finish code rs bd)))"

definition UasStateGeneric_getConnectData :: "cc_event \<Rightarrow> (ua, (ev_code \<times> string \<times> msg_body option) option) stmt" where
  "UasStateGeneric_getConnectData e =
     fetch (\<lambda>_. unpack3 (edata e)) (\<lambda>(code, rs, bd).
     call False (UasStateGeneric_delayLocalSdpUpdate e bd) (\<lambda>d.
       if d then ret None else block [upd (\<lambda>s. s\<lparr>lSDP := bd\<rparr>), ret (Some (code, rs, bd))]))"

definition UasStateGeneric_recvEventRedirect :: "cc_event \<Rightarrow> sip_header list option \<Rightarrow> (ua, ev_code) stmt" where
  "UasStateGeneric_recvEventRedirect e eh =
     fetch (\<lambda>_. redirect_data (edata e)) (\<lambda>(code, rs, bd, cs).
       block [sendUasResponse code rs bd cs eh False, ret code])"

definition UasStateGeneric_sendFailResponse :: "cc_event \<Rightarrow> sip_header list option \<Rightarrow> (ua, ev_code) stmt" where
  "UasStateGeneric_sendFailResponse e eh =
     fetch (\<lambda>_. if is_D_None (edata e) then Inr (Code 500, ''Failed'') else data_code_reason (edata e)) (\<lambda>(code, rs).
       block [sendUasResponse code rs None None eh False, ret code])"

section \<open>UasStateProgressing, UasStateTrying, UasStateRinging\<close>

definition UasStateProgressing_recvEventRing :: "cc_event \<Rightarrow> sip_header list option \<Rightarrow> (ua, ev_code option) stmt" where
  "UasStateProgressing_recvEventRing e eh = local contact_of (\<lambda>c. UasStateGeneric_recvEventRing e eh c)"

definition UasStateProgressing_recvEventConnect :: "cc_event \<Rightarrow> sip_header list option \<Rightarrow> (ua, newstate) stmt" where
  "UasStateProgressing_recvEventConnect e eh =
     call None (UasStateGeneric_getConnectData e) (\<lambda>cd. case cd of
         None \<Rightarrow> ret NS_None
       | Some (code, rs, bd) \<Rightarrow> block [
           local contact_of (\<lambda>c. sendUasResponse code rs bd c eh False),
           clear_expire_timer,
           startCreditTimer (ertime e),
           upd (\<lambda>s. s\<lparr>connect_ts := Some (ertime e)\<rparr>),
           conn_state (ertime e) (eorigin e)])"

definition UasStateProgressing_recvEventPreConnect :: "cc_event \<Rightarrow> sip_header list option \<Rightarrow> (ua, newstate) stmt" where
  "UasStateProgressing_recvEventPreConnect e eh =
     call None (UasStateGeneric_getConnectData e) (\<lambda>cd. case cd of
         None \<Rightarrow> ret NS_None
       | Some (code, rs, bd) \<Rightarrow> block [
           local contact_of (\<lambda>c. sendUasResponse code rs bd c eh True),
           ret (NS UaStateConnected None)])"

definition UasStateProgressing_recvEventRedirect :: "cc_event \<Rightarrow> sip_header list option \<Rightarrow> (ua, newstate) stmt" where
  "UasStateProgressing_recvEventRedirect e eh =
     call AckCode (UasStateGeneric_recvEventRedirect e eh) (\<lambda>code. block [
       clear_expire_timer,
       set_disconnect_ts (\<lambda>_. ertime e),
       fail_state (ertime e) (eorigin e) (Some code)])"

definition UasStateProgressing_recvEventFail :: "cc_event \<Rightarrow> sip_header list option \<Rightarrow> (ua, newstate) stmt" where
  "UasStateProgressing_recvEventFail e eh =
     call AckCode (UasStateGeneric_sendFailResponse e eh) (\<lambda>code. block [
       clear_expire_timer,
       set_disconnect_ts (\<lambda>_. ertime e),
       fail_state (ertime e) (eorigin e) (Some code)])"

definition UasStateProgressing_recvEventDisconnect :: "cc_event \<Rightarrow> sip_header list option \<Rightarrow> (ua, newstate) stmt" where
  "UasStateProgressing_recvEventDisconnect e eh = block [
     sendUasResponse (Code 500) ''Disconnected'' None None eh False,
     clear_expire_timer,
     set_disconnect_ts (\<lambda>_. ertime e),
     local last_scode (\<lambda>c. disc_state UaStateDisconnected (ertime e) (eorigin e) (Some (Code c)))]"

definition UasStateTrying_recvEventRing :: "cc_event \<Rightarrow> sip_header list option \<Rightarrow> (ua, newstate) stmt" where
  "UasStateTrying_recvEventRing e eh =
     fetch (\<lambda>_. if is_D_None (edata e) then Inr (Code 180) else data_code (edata e)) (\<lambda>c0. block [
       if_then (\<lambda>_. c0 = Code 100) (ret NS_None),
       call None (UasStateProgressing_recvEventRing e eh) (\<lambda>rc. case rc of
           None \<Rightarrow> ret NS_None
         | Some code \<Rightarrow> block [
             if_then (\<lambda>s. no_progress_timer s \<noteq> None) (block [
               clear_no_progress_timer,
               if_then (\<lambda>s. expire_time s \<noteq> None) start_expire_timer]),
             if_then (\<lambda>s. p1xx_ts s = None) (upd (\<lambda>s. s\<lparr>p1xx_ts := Some (ertime e)\<rparr>)),
             local ring_cbs (\<lambda>cs. ret (NS UasStateRinging (Some (CbRing, cs, CbArgs (ertime e) (eorigin e) (Some code)))))])])"

text \<open>The Trying versions cancel the no-progress timer after the inherited method.\<close>

definition UasStateTrying_recvEventConnect :: "cc_event \<Rightarrow> sip_header list option \<Rightarrow> (ua, newstate) stmt" where
  "UasStateTrying_recvEventConnect e eh =
     call NS_None (UasStateProgressing_recvEventConnect e eh) (\<lambda>r. block [
       if_then (\<lambda>_. r \<noteq> NS_None) clear_no_progress_timer, ret r])"

definition UasStateTrying_recvEventPreConnect :: "cc_event \<Rightarrow> sip_header list option \<Rightarrow> (ua, newstate) stmt" where
  "UasStateTrying_recvEventPreConnect e eh =
     call NS_None (UasStateProgressing_recvEventPreConnect e eh) (\<lambda>r. block [
       if_then (\<lambda>_. r \<noteq> NS_None) clear_no_progress_timer, ret r])"

definition UasStateTrying_recvEventRedirect :: "cc_event \<Rightarrow> sip_header list option \<Rightarrow> (ua, newstate) stmt" where
  "UasStateTrying_recvEventRedirect e eh =
     call NS_None (UasStateProgressing_recvEventRedirect e eh) (\<lambda>r. block [clear_no_progress_timer, ret r])"

definition UasStateTrying_recvEventFail :: "cc_event \<Rightarrow> sip_header list option \<Rightarrow> (ua, newstate) stmt" where
  "UasStateTrying_recvEventFail e eh =
     call NS_None (UasStateProgressing_recvEventFail e eh) (\<lambda>r. block [clear_no_progress_timer, ret r])"

definition UasStateTrying_recvEventDisconnect :: "cc_event \<Rightarrow> sip_header list option \<Rightarrow> (ua, newstate) stmt" where
  "UasStateTrying_recvEventDisconnect e eh =
     call NS_None (UasStateProgressing_recvEventDisconnect e eh) (\<lambda>r. block [clear_no_progress_timer, ret r])"

definition UasStateTrying_recvEvent :: "cc_event \<Rightarrow> (ua, newstate) stmt" where
  "UasStateTrying_recvEvent e = (let eh = getExtraHeaders e in
     case ekind e of
       CCEventRing \<Rightarrow> UasStateTrying_recvEventRing e eh
     | CCEventConnect \<Rightarrow> UasStateTrying_recvEventConnect e eh
     | CCEventPreConnect \<Rightarrow> UasStateTrying_recvEventPreConnect e eh
     | CCEventRedirect \<Rightarrow> UasStateTrying_recvEventRedirect e eh
     | CCEventFail \<Rightarrow> UasStateTrying_recvEventFail e eh
     | CCEventDisconnect \<Rightarrow> UasStateTrying_recvEventDisconnect e eh
     | _ \<Rightarrow> ret NS_None)"

definition UasStateRinging_recvEventRing :: "cc_event \<Rightarrow> sip_header list option \<Rightarrow> (ua, newstate) stmt" where
  "UasStateRinging_recvEventRing e eh =
     call None (UasStateProgressing_recvEventRing e eh) (\<lambda>rc. case rc of
         None \<Rightarrow> ret NS_None
       | Some code \<Rightarrow> block [
           if_then (\<lambda>s. p1xx_ts s = None) (upd (\<lambda>s. s\<lparr>p1xx_ts := Some (ertime e)\<rparr>)),
           local ring_cbs (\<lambda>cs. run_cbs CbRing cs (CbArgs (ertime e) (eorigin e) (Some code))),
           ret NS_None])"

definition UasStateRinging_recvEvent :: "cc_event \<Rightarrow> (ua, newstate) stmt" where
  "UasStateRinging_recvEvent e = (let eh = getExtraHeaders e in
     case ekind e of
       CCEventRing \<Rightarrow> UasStateRinging_recvEventRing e eh
     | CCEventConnect \<Rightarrow> UasStateProgressing_recvEventConnect e eh
     | CCEventPreConnect \<Rightarrow> UasStateProgressing_recvEventPreConnect e eh
     | CCEventRedirect \<Rightarrow> UasStateProgressing_recvEventRedirect e eh
     | CCEventFail \<Rightarrow> UasStateProgressing_recvEventFail e eh
     | CCEventDisconnect \<Rightarrow> UasStateProgressing_recvEventDisconnect e eh
     | _ \<Rightarrow> ret NS_None)"

section \<open>UasStateUpdating\<close>

definition UasStateUpdating_recvEventConnect :: "cc_event \<Rightarrow> sip_header list option \<Rightarrow> (ua, newstate) stmt" where
  "UasStateUpdating_recvEventConnect e eh =
     call None (UasStateGeneric_getConnectData e) (\<lambda>cd. case cd of
         None \<Rightarrow> ret NS_None
       | Some (code, rs, bd) \<Rightarrow> block [
           local contact_of (\<lambda>c. sendUasResponse code rs bd c eh False),
           ret (NS UaStateConnected None)])"

definition UasStateUpdating_recvEventFail :: "cc_event \<Rightarrow> sip_header list option \<Rightarrow> (ua, newstate) stmt" where
  "UasStateUpdating_recvEventFail e eh = block [
     upd (\<lambda>s. s\<lparr>rSDP := None\<rparr>),
     call AckCode (UasStateGeneric_sendFailResponse e eh) (\<lambda>_. ret (NS UaStateConnected None))]"

definition send_bye :: "sip_header list option \<Rightarrow> (ua, 'r) stmt" where
  "send_bye eh = genRequest ''BYE'' None None eh None (\<lambda>req. newTransaction req NoRespCb None (\<lambda>_. skip))"

definition UasStateUpdating_recvEventDisconnect :: "cc_event \<Rightarrow> sip_header list option \<Rightarrow> (ua, newstate) stmt" where
  "UasStateUpdating_recvEventDisconnect e eh = block [
     sendUasResponse (Code 487) ''Request Terminated'' None None eh False,
     send_bye eh,
     cancelCreditTimer,
     set_disconnect_ts (\<lambda>_. ertime e),
     disc_state UaStateDisconnected (ertime e) (eorigin e) None]"

text \<open>
  The handlers for Ring and Redirect are the inherited methods themselves, whose results are
  a status code and a status tuple.
\<close>

definition UasStateUpdating_recvEvent :: "cc_event \<Rightarrow> (ua, newstate) stmt" where
  "UasStateUpdating_recvEvent e = (let eh = getExtraHeaders e in
     case ekind e of
       CCEventRing \<Rightarrow> call None (UasStateGeneric_recvEventRing e eh None)
         (\<lambda>r. case r of None \<Rightarrow> ret NS_None | Some c \<Rightarrow> ret (NS_Int c))
     | CCEventConnect \<Rightarrow> UasStateUpdating_recvEventConnect e eh
     | CCEventRedirect \<Rightarrow> call AckCode (UasStateGeneric_recvEventRedirect e eh) (\<lambda>c. ret (NS_Tuple c))
     | CCEventFail \<Rightarrow> UasStateUpdating_recvEventFail e eh
     | CCEventDisconnect \<Rightarrow> UasStateUpdating_recvEventDisconnect e eh
     | _ \<Rightarrow> ret NS_None)"

section \<open>UacStateIdle\<close>

definition UacStateIdle_start_timers :: "cc_event \<Rightarrow> (ua, 'r) stmt" where
  "UacStateIdle_start_timers e =
     (let rt = ertime e in block [
       local expire_time (\<lambda>x. case x of None \<Rightarrow> skip | Some t \<Rightarrow> upd (\<lambda>s. s\<lparr>expire_mtime := Some (rt + t)\<rparr>)),
       local no_progress_time (\<lambda>x. case x of
           None \<Rightarrow> skip
         | Some t \<Rightarrow> block [
             upd (\<lambda>s. s\<lparr>no_progress_mtime := Some (rt + t)\<rparr>),
             if_then (\<lambda>s. case expire_time s of None \<Rightarrow> False | Some x \<Rightarrow> t \<ge> x) (upd (\<lambda>s. s\<lparr>no_progress_time := None\<rparr>))]),
       local no_reply_time (\<lambda>x. case x of
           None \<Rightarrow> skip
         | Some t \<Rightarrow>
             if t < 32 then
               if_then (\<lambda>s. (case expire_time s of None \<Rightarrow> False | Some x \<Rightarrow> t \<ge> x) \<or>
                            (case no_progress_time s of None \<Rightarrow> False | Some x \<Rightarrow> t \<ge> x))
                 (upd (\<lambda>s. s\<lparr>no_reply_time := None\<rparr>))
             else upd (\<lambda>s. s\<lparr>no_reply_time := None\<rparr>)),
       local no_reply_time (\<lambda>x. case x of
           Some t \<Rightarrow> start_timer T_no_reply (rt + t) (\<lambda>i. upd (\<lambda>s. s\<lparr>no_reply_timer := Some i\<rparr>))
         | None \<Rightarrow>
             if_else (\<lambda>s. no_progress_time s \<noteq> None) start_no_progress_timer
               (if_then (\<lambda>s. expire_time s \<noteq> None) start_expire_timer))])"

definition set_contact_user :: "string option \<Rightarrow> ua \<Rightarrow> ua" where
  "set_contact_user u s = (let c = (case lContact s of Some c \<Rightarrow> c | None \<Rightarrow> contact_default)
     in s\<lparr>lContact := Some (c\<lparr>aurl := (aurl c)\<lparr>username := u\<rparr>\<rparr>)\<rparr>)"

fun unpack_try :: "ev_data \<Rightarrow> exn + (string option \<times> string option \<times> string option \<times> msg_body option \<times> sip_authorization option \<times> string option)" where
  "unpack_try (D_Try c i d b a n) = Inr (c, i, d, b, a, n)"
| "unpack_try (D_Scode c r b) = Inl ValueError"
| "unpack_try (D_Scode2 c r) = Inl ValueError"
| "unpack_try (D_Redirect c r b x) = Inl ValueError"
| "unpack_try _ = Inl TypeError"

text \<open>The dialog identifiers and the target of an outgoing call.\<close>

definition UacStateIdle_setup :: "string option \<Rightarrow> string option \<Rightarrow> string option \<Rightarrow> msg_body option \<Rightarrow> (ua, 'r) stmt" where
  "UacStateIdle_setup callingID calledID callingName bd =
     fetch (\<lambda>s. case fst (rAddr0 s) of None \<Rightarrow> Inl TypeError | Some a \<Rightarrow> Inr (a, snd (rAddr0 s))) (\<lambda>((h, p), t). block [
       upd (\<lambda>s. s\<lparr>rTarget := Some (SipURL calledID (Some (h, Some p, Some t))),
                   rUri := Some (SipAddress None (SipURL calledID (Some (h, None, None)))),
                   lUri := Some (setTag (Some (lTag s)) (SipAddress callingName (SipURL callingID (Some (MyAddress, None, None)))))\<rparr>),
       upd (\<lambda>s. s\<lparr>lCSeq := Some (genRandCSeq (rnd s (ntok s))), ntok := Suc (ntok s)\<rparr>),
       upd (set_contact_user callingID),
       upd (\<lambda>s. s\<lparr>routes := Some [], lSDP := bd\<rparr>)])"

text \<open>
  With \<^verbatim>\<open>pass_auth\<close> the caller's credentials are added to the request after it was entered in
  \<^verbatim>\<open>reqs\<close>, which holds the same object.
\<close>

definition UacStateIdle_recvEventTry :: "cc_event \<Rightarrow> (ua, newstate) stmt" where
  "UacStateIdle_recvEventTry e = block [
     if_then (\<lambda>s. setup_ts s = None) (upd (\<lambda>s. s\<lparr>setup_ts := Some (ertime e)\<rparr>)),
     upd (\<lambda>s. s\<lparr>origin := Some ''callee''\<rparr>),
     fetch (\<lambda>_. unpack_try (edata e)) (\<lambda>(ci, callingID, calledID, bd, auth, callingName). block [
       if_else (\<lambda>_. bd \<noteq> None)
         (if_then (wants_local_hook bd) (block [local_hook e (the bd), ret NS_None]))
         (upd (\<lambda>s. s\<lparr>late_media := True\<rparr>)),
       new_token (\<lambda>tok. upd (\<lambda>s. s\<lparr>cId := Some (case ci of None \<Rightarrow> tok | Some c \<Rightarrow> c)\<rparr>)),
       local cId (\<lambda>c. act (A_RegConsumer (the c))),
       UacStateIdle_setup callingID calledID callingName bd,
       genRequest ''INVITE'' bd None (getExtraHeaders e) (max_forwards e) (\<lambda>req.
         local (\<lambda>s. case auth of
             Some a \<Rightarrow> if pass_auth s then appendHeader (SipHeader (auth_name a) (HF_Auth a)) req else req
           | None \<Rightarrow> req) (\<lambda>req'. block [
           upd (\<lambda>s. s\<lparr>reqs := map_option (dict_set (the (lCSeq s) - 1) req') (reqs s)\<rparr>),
           newUacTransaction req' (getExtraHeaders e)])),
       UacStateIdle_start_timers e,
       ret (NS UacStateTrying None)])]"

definition UacStateIdle_recvEvent :: "cc_event \<Rightarrow> (ua, newstate) stmt" where
  "UacStateIdle_recvEvent e =
     (if ekind e = CCEventTry then UacStateIdle_recvEventTry e
      else if ekind e \<in> {CCEventFail, CCEventRedirect, CCEventDisconnect} then block [
        set_disconnect_ts (end_ts (ertime e)),
        disc_state UaStateDead (ertime e) (eorigin e) None]
      else ret NS_None)"

section \<open>UacStateTrying, UacStateRinging, UacStateUpdating\<close>

definition UacStateTrying_recvEvent :: "cc_event \<Rightarrow> (ua, newstate) stmt" where
  "UacStateTrying_recvEvent e =
     (if ekind e \<in> {CCEventFail, CCEventRedirect, CCEventDisconnect} then block [
        local tr (\<lambda>t. cancelTransaction t (getExtraHeaders e)),
        clear_expire_timer,
        clear_no_progress_timer,
        clear_no_reply_timer,
        set_disconnect_ts (end_ts (ertime e)),
        local last_scode (\<lambda>c. disc_state UacStateCancelling (ertime e) (eorigin e) (Some (Code c)))]
      else ret NS_None)"

definition UacStateRinging_recvEvent :: "cc_event \<Rightarrow> (ua, newstate) stmt" where
  "UacStateRinging_recvEvent e =
     (if ekind e \<in> {CCEventFail, CCEventRedirect, CCEventDisconnect} then block [
        local tr (\<lambda>t. cancelTransaction t (getExtraHeaders e)),
        clear_expire_timer,
        set_disconnect_ts (end_ts (ertime e)),
        local last_scode (\<lambda>c. disc_state UacStateCancelling (ertime e) (eorigin e) (Some (Code c)))]
      else ret NS_None)"

definition UacStateUpdating_recvEvent :: "cc_event \<Rightarrow> (ua, newstate) stmt" where
  "UacStateUpdating_recvEvent e =
     (if ekind e \<in> {CCEventDisconnect, CCEventFail, CCEventRedirect} then block [
        local tr (\<lambda>t. cancelTransaction t None),
        send_bye (getExtraHeaders e),
        cancelCreditTimer,
        set_disconnect_ts (\<lambda>_. ertime e),
        disc_state UaStateDisconnected (ertime e) (eorigin e) None]
      else ret NS_None)"

section \<open>UaStateConnected\<close>

datatype redirect = R_None | R_Addr sip_address | R_Code int
  \<comment> \<open>a transfer target; \<open>R_Code\<close> is what \<^verbatim>\<open>redirects[0]\<close> of a status tuple gives\<close>

fun redirect_hf :: "redirect \<Rightarrow> hf_body" where
  "redirect_hf (R_Addr a) = HF_Addr a"
| "redirect_hf (R_Code n) = HF_IntAddr n"
| "redirect_hf R_None = HF_Star"

definition UaStateConnected_disconnectFailRedirect :: "cc_event \<Rightarrow> sip_header list option \<Rightarrow> redirect \<Rightarrow> (ua, newstate) stmt" where
  "UaStateConnected_disconnectFailRedirect e eh rd = block [
     if_else (\<lambda>s. rd \<noteq> R_None \<and> useRefer s)
       (genRequest ''REFER'' None None eh None (\<lambda>req.
         fetch (\<lambda>s. attr (lUri s)) (\<lambda>lu.
           newTransaction
             (appendHeader (SipHeader ''referred-by'' (HF_Addr (SipAddress None (aurl lu))))
               (appendHeader (SipHeader ''refer-to'' (redirect_hf rd)) req)) RCompleteCb None (\<lambda>_. skip))))
       (genRequest ''BYE'' None None eh None (\<lambda>req.
         newTransaction (if rd = R_None then req else appendHeader (SipHeader ''also'' (redirect_hf rd)) req)
           NoRespCb None (\<lambda>_. skip))),
     cancelCreditTimer,
     set_disconnect_ts (\<lambda>_. ertime e),
     disc_state UaStateDisconnected (ertime e) (eorigin e) None]"

fun disconnect_target :: "ev_data \<Rightarrow> redirect" where
  "disconnect_target (D_Also a) = R_Addr a"
| "disconnect_target _ = R_None"

text \<open>\<^verbatim>\<open>redirects[0]\<close>: the first component of the status tuple that a redirect event carries.\<close>

fun redirect_target :: "ev_data \<Rightarrow> exn + redirect" where
  "redirect_target D_None = Inr R_None"
| "redirect_target (D_Redirect (Code n) r b x) = Inr (R_Code n)"
| "redirect_target (D_Scode (Code n) r b) = Inr (R_Code n)"
| "redirect_target (D_Scode2 n r) = Inr (R_Code n)"
| "redirect_target _ = Inl TypeError"

fun body_data :: "ev_data \<Rightarrow> msg_body option" where
  "body_data (D_Body b) = Some b"
| "body_data _ = None"

text \<open>\<^verbatim>\<open>fake_laddr\<close>: bodies are compared as they would print with this local address.\<close>

definition UaStateConnected_sameSdp :: "msg_body option \<Rightarrow> ua \<Rightarrow> exn + bool" where
  "UaStateConnected_sameSdp bd s =
     and_then (attr (lSDP s)) (\<lambda>l.
     and_then (MsgBody_localStr (my_address s) (Some ''127.0.0.1'') l) (\<lambda>x.
     and_then (attr bd) (\<lambda>b.
     and_then (MsgBody_localStr (my_address s) (Some ''127.0.0.1'') b) (\<lambda>y. Inr (x = y)))))"

definition exn_reason :: "int \<Rightarrow> string option \<Rightarrow> sip_reason option" where
  "exn_reason code arg = (case arg of Some (c # cs) \<Rightarrow> Some (SipReason ''SIP'' code (c # cs)) | _ \<Rightarrow> None)"

definition UaStateConnected_recvEventUpdate :: "(exn \<Rightarrow> string) \<Rightarrow> cc_event \<Rightarrow> sip_header list option \<Rightarrow> (ua, newstate) stmt" where
  "UaStateConnected_recvEventUpdate exn_str e eh =
     (let bd = body_data (edata e) in
      fetch (UaStateConnected_sameSdp bd) (\<lambda>same. block [
        if_then (\<lambda>_. same)
          (local rSDP (\<lambda>rsdp. case rsdp of
              Some r \<Rightarrow> new_token (\<lambda>tok. fetch (\<lambda>_. MsgBody_getCopy tok r) (\<lambda>c.
                new_event CCEventConnect (D_Scode (Code 200) ''OK'' (Some c)) (ertime e) (eorigin e) (\<lambda>ev.
                  block [append_event ev, ret NS_None])))
            | None \<Rightarrow> new_event CCEventConnect (D_Scode (Code 200) ''OK'' None) (ertime e) (eorigin e) (\<lambda>ev.
                  block [append_event ev, ret NS_None]))),
        if_then (wants_local_hook bd) (block [
          try_catch (local_hook e (the bd)) (\<lambda>x. case x of
              SdpHandlingErrors code msg arg \<Rightarrow>
                new_event CCEventFail (D_Scode2 code msg) (ertime e) None (\<lambda>ev.
                  append_event (ev\<lparr>reason_rfc3326 := exn_reason code arg\<rparr>))
            | _ \<Rightarrow> new_event CCEventFail (D_Scode2 400 ''Malformed SDP Body'') (ertime e) None (\<lambda>ev.
                  append_event (setWarning (exn_str x) ev))),
          ret NS_None]),
        if_then (\<lambda>_. case max_forwards e of None \<Rightarrow> False | Some n \<Rightarrow> n \<le> 0)
          (new_event CCEventFail (D_Scode2 483 ''Too Many Hops'') (ertime e) None (\<lambda>ev.
             block [append_event ev, ret NS_None])),
        genRequest ''INVITE'' bd None eh (map_option (\<lambda>n. n - 1) (max_forwards e)) (\<lambda>req. block [
          upd (\<lambda>s. s\<lparr>lSDP := bd\<rparr>),
          newUacTransaction req eh]),
        ret (NS UacStateUpdating None)]))"

definition UaStateConnected_recvEventInfo :: "cc_event \<Rightarrow> sip_header list option \<Rightarrow> (ua, newstate) stmt" where
  "UaStateConnected_recvEventInfo e eh = block [
     genRequest ''INFO'' (body_data (edata e)) None eh None (\<lambda>req. newTransaction req NoRespCb None (\<lambda>_. skip)),
     ret NS_None]"

definition UaStateConnected_recvEventConnect :: "cc_event \<Rightarrow> sip_header list option \<Rightarrow> (ua, newstate) stmt" where
  "UaStateConnected_recvEventConnect e eh =
     local pending_tr (\<lambda>p. case p of
         None \<Rightarrow> ret NS_None
       | Some i \<Rightarrow> block [
           clear_expire_timer,
           fetch (\<lambda>_. unpack3 (edata e)) (\<lambda>(code, rs, bd). block [
             if_then (wants_local_hook bd) (block [local_hook e (the bd), ret NS_None]),
             cancelCreditTimer,
             startCreditTimer (ertime e),
             upd (\<lambda>s. s\<lparr>connect_ts := Some (ertime e), lSDP := bd\<rparr>),
             act (A_SetAckBody i bd),
             act (A_SendACK i),
             upd (\<lambda>s. s\<lparr>pending_tr := None\<rparr>),
             local (\<lambda>s. (conn_cbs s, origin s)) (\<lambda>(cs, o'). run_cbs CbConn cs (CbArgs (ertime e) o' None)),
             ret NS_None])])"

definition UaStateConnected_recvEvent :: "(exn \<Rightarrow> string) \<Rightarrow> cc_event \<Rightarrow> (ua, newstate) stmt" where
  "UaStateConnected_recvEvent exn_str e = (let eh = getExtraHeaders e in
     case ekind e of
       CCEventDisconnect \<Rightarrow> UaStateConnected_disconnectFailRedirect e eh (disconnect_target (edata e))
     | CCEventFail \<Rightarrow> UaStateConnected_disconnectFailRedirect e eh R_None
     | CCEventRedirect \<Rightarrow> fetch (\<lambda>_. redirect_target (edata e)) (UaStateConnected_disconnectFailRedirect e eh)
     | CCEventUpdate \<Rightarrow> UaStateConnected_recvEventUpdate exn_str e eh
     | CCEventInfo \<Rightarrow> UaStateConnected_recvEventInfo e eh
     | CCEventConnect \<Rightarrow> UaStateConnected_recvEventConnect e eh
     | _ \<Rightarrow> ret NS_None)"

section \<open>UA.recvEvent, UA.disconnect\<close>

text \<open>
  \<^verbatim>\<open>self.state.recvEvent(event)\<close>. UasStateIdle, UaStateFailed, UaStateDisconnected and
  UaStateDead have no event handlers; UacStateCancelling ignores events. \<open>exn_str\<close> is
  \<^verbatim>\<open>str()\<close> of an exception.
\<close>

definition state_recvEvent :: "(exn \<Rightarrow> string) \<Rightarrow> ua_class \<Rightarrow> cc_event \<Rightarrow> (ua, newstate) stmt" where
  "state_recvEvent exn_str c e = (case c of
       UasStateTrying \<Rightarrow> UasStateTrying_recvEvent e
     | UasStateRinging \<Rightarrow> UasStateRinging_recvEvent e
     | UasStateUpdating \<Rightarrow> UasStateUpdating_recvEvent e
     | UacStateIdle \<Rightarrow> UacStateIdle_recvEvent e
     | UacStateTrying \<Rightarrow> UacStateTrying_recvEvent e
     | UacStateRinging \<Rightarrow> UacStateRinging_recvEvent e
     | UacStateUpdating \<Rightarrow> UacStateUpdating_recvEvent e
     | UaStateConnected \<Rightarrow> UaStateConnected_recvEvent exn_str e
     | _ \<Rightarrow> ret NS_None)"

definition change_if :: "newstate \<Rightarrow> (ua, 'r) stmt" where
  "change_if ns = (if ns = NS_None then skip else changeState ns)"

definition UA_recvEvent :: "(exn \<Rightarrow> string) \<Rightarrow> cc_event \<Rightarrow> (ua, unit) stmt" where
  "UA_recvEvent exn_str e = block [
     if_then (\<lambda>s. state s = None)
       (if ekind e \<in> {CCEventTry, CCEventFail, CCEventDisconnect} then changeState (NS UacStateIdle None) else ret ()),
     fetch (\<lambda>s. attr (state s)) (\<lambda>st.
       call NS_None (state_recvEvent exn_str (st_class st) e) change_if),
     emitPendingEvents]"

definition UA_disconnect :: "(exn \<Rightarrow> string) \<Rightarrow> real option \<Rightarrow> string option \<Rightarrow> (ua, unit) stmt" where
  "UA_disconnect exn_str rt o' =
     local (\<lambda>s. case rt of None \<Rightarrow> now s | Some t \<Rightarrow> t) (\<lambda>t.
     new_event CCEventDisconnect D_None t o' (\<lambda>e1. block [
       append_event e1,
       new_event CCEventDisconnect D_None t o' (\<lambda>e2. UA_recvEvent exn_str e2)]))"

end
