(* ===== verification/UA_Messages.thy ===== *)
theory UA_Messages
  imports UA_Events
begin

text \<open>
  The network side of the state classes: what a user agent does with requests, responses,
  ACKs and CANCELs from the transaction manager, with timers and with the completion of the
  SDP hooks; then the entry points of \<^verbatim>\<open>sippy/UA.py\<close>.
\<close>

section \<open>Shared pieces\<close>

text \<open>\<^verbatim>\<open>try: event.reason_rfc3326 = msg.getHFBody('reason') except: pass\<close>.\<close>

definition copy_reason :: "'a sip_msg_scheme \<Rightarrow> cc_event \<Rightarrow> cc_event" where
  "copy_reason m e = (case and_then (getHFBody ''reason'' m) as_reason of
       Inr r \<Rightarrow> e\<lparr>reason_rfc3326 := Some r\<rparr>
     | Inl _ \<Rightarrow> e)"

definition copy_max_forwards :: "'a sip_msg_scheme \<Rightarrow> cc_event \<Rightarrow> cc_event" where
  "copy_max_forwards m e = (case and_then (getHFBody ''max-forwards'' m) as_num of
       Inr n \<Rightarrow> e\<lparr>max_forwards := Some n\<rparr>
     | Inl _ \<Rightarrow> e)"

definition set_rSDP :: "msg_body \<Rightarrow> (ua, 'r) stmt" where
  "set_rSDP b = new_token (\<lambda>tok. fetch (\<lambda>_. MsgBody_getCopy tok b) (\<lambda>c. upd (\<lambda>s. s\<lparr>rSDP := Some c\<rparr>)))"

text \<open>
  The treatment of a body from the network: \<^verbatim>\<open>on_remote_sdp_change\<close>, if set, gets it with
  \<^verbatim>\<open>delayed_remote_sdp_update\<close> as its completion; when it delays, \<open>delayed\<close> is done and the
  event is not queued. Otherwise \<^verbatim>\<open>rSDP\<close> becomes a copy of the body and \<open>c\<close> goes on with the
  event.
\<close>

definition remote_sdp :: "msg_body option \<Rightarrow> cc_event \<Rightarrow> (ua, 'r) stmt \<Rightarrow> (cc_event \<Rightarrow> (ua, 'r) stmt) \<Rightarrow> (ua, 'r) stmt" where
  "remote_sdp bd e delayed c = (case bd of
       None \<Rightarrow> block [upd (\<lambda>s. s\<lparr>rSDP := None\<rparr>), c e]
     | Some b \<Rightarrow> local on_remote_sdp_change (\<lambda>h. case h of
           None \<Rightarrow> block [set_rSDP b, c e]
         | Some f \<Rightarrow> (case f b of
               HookRaise x \<Rightarrow> raise x
             | HookDelayed \<Rightarrow> block [act (A_RemoteSdp e b), delayed]
             | HookDone b' \<Rightarrow> block [set_rSDP b', c (event_with_body b' e)])))"

definition addr_list :: "hf_body list \<Rightarrow> exn + sip_address list" where
  "addr_list bs = map_sum id (map SipAddress_getCopy) (sequence_sum (map as_addr bs))"

definition record_routes :: "'a sip_msg_scheme \<Rightarrow> exn + sip_address list" where
  "record_routes m = and_then (getHFBodys ''record-route'' m) addr_list"

text \<open>
  The route set and the next hop (\<^verbatim>\<open>updateRoutes\<close>, and the same code in UasStateIdle and
  UacStateCancelling): a strict router as the first hop takes the place of the target.
\<close>

definition apply_routes :: "sip_address list \<Rightarrow> (ua, 'r) stmt" where
  "apply_routes rts = fetch (\<lambda>s. attr (rTarget s)) (\<lambda>turi.
     (case rts of
        [] \<Rightarrow> upd (\<lambda>s. s\<lparr>routes := Some [], rAddr := some_addr (SipURL_getTAddr turi)\<rparr>)
      | r # rs \<Rightarrow>
          if \<not> lr (aurl r) then
            upd (\<lambda>s. s\<lparr>routes := Some (rs @ [SipAddress None turi]), rTarget := Some (aurl r),
                        rAddr := some_addr (SipURL_getTAddr (aurl r))\<rparr>)
          else
            if_else (\<lambda>s. outbound_proxy s \<noteq> None)
              (upd (\<lambda>s. s\<lparr>routes := Some (rts @ [SipAddress None turi]),
                           rTarget := Some ((SipURL_getCopy (aurl r))\<lparr>lr := False, other := [], uheaders := Some []\<rparr>)\<rparr>))
              (upd (\<lambda>s. s\<lparr>routes := Some rts, rAddr := some_addr (SipURL_getTAddr (aurl r))\<rparr>))))"

definition UacStateTrying_updateRoutes :: "sip_resp \<Rightarrow> (ua, 'r) stmt" where
  "UacStateTrying_updateRoutes resp = block [
     if_then (\<lambda>_. countHFs ''contact'' resp > 0)
       (fetch (\<lambda>_. getAddrHF ''contact'' resp) (\<lambda>a. upd (\<lambda>s. s\<lparr>rTarget := Some (SipURL_getCopy (aurl a))\<rparr>))),
     fetch (\<lambda>_. record_routes resp) (\<lambda>rts. apply_routes (rev rts))]"

section \<open>Requests\<close>

text \<open>\<^verbatim>\<open>UaStateGeneric._disconnectFromRequest\<close>.\<close>

definition disconnectFromRequest :: "sip_req \<Rightarrow> ev_data \<Rightarrow> bool \<Rightarrow> (ua, newstate) stmt" where
  "disconnectFromRequest req also cpreason =
     local origin (\<lambda>o'. new_event CCEventDisconnect also (rtime req) o' (\<lambda>e. block [
       append_event (if cpreason then copy_reason req e else e),
       set_disconnect_ts (\<lambda>_. rtime req),
       disc_state UaStateDisconnected (rtime req) o' None]))"

definition getRequestAlso :: "sip_req \<Rightarrow> exn + ev_data" where
  "getRequestAlso req =
     (if countHFs ''also'' req > 0 then map_sum id (\<lambda>a. D_Also (SipAddress_getCopy a)) (getAddrHF ''also'' req)
      else Inr D_None)"

subsection \<open>UasStateIdle\<close>

fun set_first_to :: "(sip_address \<Rightarrow> sip_address) \<Rightarrow> sip_header list \<Rightarrow> sip_header list" where
  "set_first_to f [] = []"
| "set_first_to f (h # hs) =
     (if hname h = ''to'' then (case hbody h of HF_Addr a \<Rightarrow> SipHeader ''to'' (HF_Addr (f a)) | _ \<Rightarrow> h) # hs
      else h # set_first_to f hs)"

definition UasStateIdle_start_timers :: "real \<Rightarrow> (ua, 'r) stmt" where
  "UasStateIdle_start_timers rt = block [
     local expire_time (\<lambda>x. case x of None \<Rightarrow> skip | Some t \<Rightarrow> upd (\<lambda>s. s\<lparr>expire_mtime := Some (rt + t)\<rparr>)),
     local no_progress_time (\<lambda>x. case x of
         None \<Rightarrow> skip
       | Some t \<Rightarrow> block [
           upd (\<lambda>s. s\<lparr>no_progress_mtime := Some (rt + t)\<rparr>),
           if_then (\<lambda>s. case expire_time s of None \<Rightarrow> False | Some x \<Rightarrow> t \<ge> x) (upd (\<lambda>s. s\<lparr>no_progress_time := None\<rparr>))]),
     if_else (\<lambda>s. no_progress_time s \<noteq> None) start_no_progress_timer
       (if_then (\<lambda>s. expire_time s \<noteq> None) start_expire_timer)]"

text \<open>The dialog that an INVITE opens: identifiers, route set, the answer 100.\<close>

definition UasStateIdle_setup :: "sip_req \<Rightarrow> (ua, 'r) stmt" where
  "UasStateIdle_setup req = block [
     upd (\<lambda>s. s\<lparr>origin := Some ''caller''\<rparr>),
     fetch (\<lambda>s. genResponse 100 ''Trying'' None (local_ua s) None req) (\<lambda>r. upd (\<lambda>s. s\<lparr>uasResp := Some r\<rparr>)),
     upd (\<lambda>s. s\<lparr>lCSeq := Some (genRandCSeq (rnd s (ntok s))), ntok := Suc (ntok s)\<rparr>),
     upd (\<lambda>s. s\<lparr>lContact := Some (case lContact s of Some c \<Rightarrow> c | None \<Rightarrow> contact_default)\<rparr>),
     fetch (\<lambda>_. getAddrHF ''contact'' req) (\<lambda>a. upd (\<lambda>s. s\<lparr>rTarget := Some (SipURL_getCopy (aurl a))\<rparr>)),
     fetch (\<lambda>s. and_then (attr (uasResp s)) record_routes) apply_routes,
     upd (\<lambda>s. s\<lparr>rAddr0 := rAddr s\<rparr>),
     fetch (\<lambda>s. attr (uasResp s)) (\<lambda>r. act (A_SendResponse r False)),
     fetch (\<lambda>s. and_then (attr (uasResp s)) (getAddrHF ''to'')) (\<lambda>a. block [
       upd (\<lambda>s. s\<lparr>uasResp := map_option (\<lambda>r. r\<lparr>headers := set_first_to (setTag (Some (lTag s))) (headers r)\<rparr>) (uasResp s)\<rparr>),
       upd (\<lambda>s. s\<lparr>lUri := Some (setTag (Some (lTag s)) a)\<rparr>)]),
     fetch (\<lambda>s. and_then (attr (uasResp s)) (getAddrHF ''from'')) (\<lambda>a. upd (\<lambda>s. s\<lparr>rUri := Some a\<rparr>)),
     fetch (\<lambda>s. and_then (attr (uasResp s)) getCallId) (\<lambda>c. block [
       upd (\<lambda>s. s\<lparr>cId := Some c\<rparr>),
       act (A_RegConsumer c)])]"

definition req_auth :: "sip_req \<Rightarrow> exn + sip_authorization option" where
  "req_auth req = (if countHFs ''authorization'' req = 0 then Inr None
     else and_then (getHFBody ''authorization'' req) (\<lambda>b. map_sum id Some (as_auth b)))"

definition UasStateIdle_recvRequest :: "sip_req \<Rightarrow> (ua, newstate) stmt" where
  "UasStateIdle_recvRequest req = block [
     if_then (\<lambda>_. rmethod req \<noteq> ''INVITE'') (ret NS_None),
     UasStateIdle_setup req,
     fetch (\<lambda>_. req_auth req) (\<lambda>auth.
     fetch (\<lambda>_. and_then (getHFBody ''via'' req) as_via) (\<lambda>v. block [
       upd (\<lambda>s. s\<lparr>branch := SipVia_getBranch v\<rparr>),
       local (\<lambda>s. (D_Try (cId s) (username (aurl (the (rUri s)))) (username (ruri req)) (body req) auth (aname (the (rUri s))), origin s)) (\<lambda>(d, o').
       new_event CCEventTry d (rtime req) o' (\<lambda>e0.
       local (\<lambda>_. copy_max_forwards req (copy_reason req e0)) (\<lambda>e. block [
         UasStateIdle_start_timers (ertime e),
         remote_sdp (body req) e
           (block [upd (\<lambda>s. s\<lparr>setup_ts := Some (rtime req)\<rparr>), ret (NS UasStateTrying None)])
           append_event,
         upd (\<lambda>s. s\<lparr>setup_ts := Some (rtime req)\<rparr>),
         ret (NS UasStateTrying None)])))]))]"

subsection \<open>UasStateRinging, UasStateUpdating, UacStateUpdating, UaStateDisconnected\<close>

definition UasStateRinging_recvRequestBye :: "sip_req \<Rightarrow> (ua, newstate) stmt" where
  "UasStateRinging_recvRequestBye req = block [
     sendUasResponse (Code 487) ''Request Terminated'' None None None False,
     req_sendResponse 200 ''OK'' req,
     fetch (\<lambda>_. getRequestAlso req) (\<lambda>also. block [
       clear_expire_timer,
       disconnectFromRequest req also True])]"

definition UasStateUpdating_recvRequest :: "sip_req \<Rightarrow> (ua, newstate) stmt" where
  "UasStateUpdating_recvRequest req =
     (if rmethod req = ''INVITE'' then block [req_sendResponse 491 ''Request Pending'' req, ret NS_None]
      else if rmethod req = ''BYE'' then block [
        sendUasResponse (Code 487) ''Request Terminated'' None None None False,
        req_sendResponse 200 ''OK'' req,
        cancelCreditTimer,
        disconnectFromRequest req D_None True]
      else if rmethod req = ''REFER'' then block [
        if_then (\<lambda>_. countHFs ''refer-to'' req = 0) (block [req_sendResponse 400 ''Bad Request'' req, ret NS_None]),
        sendUasResponse (Code 487) ''Request Terminated'' None None None False,
        req_sendResponse 202 ''Accepted'' req,
        fetch (\<lambda>_. getAddrHF ''refer-to'' req) (\<lambda>a. block [
          cancelCreditTimer,
          disconnectFromRequest req (D_Also (SipAddress_getCopy a)) False])]
      else ret NS_None)"

definition UacStateUpdating_recvRequest :: "sip_req \<Rightarrow> (ua, newstate) stmt" where
  "UacStateUpdating_recvRequest req =
     (if rmethod req = ''INVITE'' then block [req_sendResponse 491 ''Request Pending'' req, ret NS_None]
      else if rmethod req = ''BYE'' then block [
        local tr (\<lambda>t. cancelTransaction t None),
        req_sendResponse 200 ''OK'' req,
        cancelCreditTimer,
        disconnectFromRequest req D_None True]
      else ret NS_None)"

definition UaStateDisconnected_recvRequest :: "sip_req \<Rightarrow> (ua, newstate) stmt" where
  "UaStateDisconnected_recvRequest req = block [
     if_else (\<lambda>_. rmethod req = ''BYE'') (req_sendResponse 200 ''OK'' req) (req_sendResponse 500 ''Disconnected'' req),
     ret NS_None]"

subsection \<open>UaStateConnected\<close>

definition UaStateConnected_recvRequestRefer :: "(exn \<Rightarrow> string) \<Rightarrow> sip_req \<Rightarrow> (ua, newstate) stmt" where
  "UaStateConnected_recvRequestRefer exn_str req = block [
     if_then (\<lambda>_. countHFs ''refer-to'' req = 0) (block [req_sendResponse 400 ''Bad Request'' req, ret NS_None]),
     req_sendResponse 202 ''Accepted'' req,
     fetch (\<lambda>_. getAddrHF ''refer-to'' req) (\<lambda>a.
       local origin (\<lambda>o'. block [
         new_event CCEventDisconnect (D_Also (SipAddress_getCopy a)) (rtime req) o' append_event,
         new_event CCEventDisconnect D_None (rtime req) o' (\<lambda>e. call () (UA_recvEvent exn_str e) (\<lambda>_. skip)),
         ret NS_None]))]"

text \<open>A re-INVITE without a body: the remote description, with every stream on hold.\<close>

definition hold_section :: "sdp_section \<Rightarrow> exn + sdp_section" where
  "hold_section sec = map_sum id (\<lambda>c. sec\<lparr>c_header := Some (c\<lparr>caddr := ''0.0.0.0''\<rparr>)\<rparr>) (attr (c_header sec))"

definition hold_body :: "string \<Rightarrow> msg_body option \<Rightarrow> exn + msg_body" where
  "hold_body tok rsdp =
     and_then (attr rsdp) (\<lambda>r.
     and_then (MsgBody_getCopy tok r) (\<lambda>c.
     and_then (MsgBody_parse c) (\<lambda>b.
       case content b of
         CSdp d \<Rightarrow> map_sum id (\<lambda>ss. MsgBody (CSdp (d\<lparr>sections := ss\<rparr>)) (mb_mtype b) (needs_update b) (parsed b))
           (sequence_sum (map hold_section (sections d)))
       | _ \<Rightarrow> Inl AttributeError)))"

definition str_of_body :: "string \<Rightarrow> msg_body option \<Rightarrow> string" where
  "str_of_body my b = (case b of None \<Rightarrow> ''None'' | Some x \<Rightarrow> MsgBody_str my x)"

definition UaStateConnected_recvRequestInvite :: "sip_req \<Rightarrow> (ua, newstate) stmt" where
  "UaStateConnected_recvRequestInvite req = block [
     fetch (\<lambda>s. genResponse 100 ''Trying'' None (local_ua s) None req) (\<lambda>r. block [
       upd (\<lambda>s. s\<lparr>uasResp := Some r\<rparr>),
       act (A_SendResponse r False)]),
     new_token (\<lambda>tok.
     fetch (\<lambda>s. case body req of Some b \<Rightarrow> Inr b | None \<Rightarrow> hold_body tok (rSDP s)) (\<lambda>b. block [
       if_then (\<lambda>s. body req \<noteq> None \<and> str_of_body (my_address s) (rSDP s) = MsgBody_str (my_address s) b)
         (block [
           local (\<lambda>s. (lSDP s, contact_of s)) (\<lambda>(l, c). sendUasResponse (Code 200) ''OK'' l c None False),
           ret NS_None]),
       local origin (\<lambda>o'. new_event CCEventUpdate (D_Body b) (rtime req) o' (\<lambda>e0.
         remote_sdp (Some b) (copy_max_forwards req (copy_reason req e0))
           (ret (NS UasStateUpdating None)) append_event)),
       ret (NS UasStateUpdating None)]))]"

definition UaStateConnected_recvRequest :: "(exn \<Rightarrow> string) \<Rightarrow> sip_req \<Rightarrow> (ua, newstate) stmt" where
  "UaStateConnected_recvRequest exn_str req =
     (if rmethod req = ''REFER'' then UaStateConnected_recvRequestRefer exn_str req
      else if rmethod req = ''INVITE'' then UaStateConnected_recvRequestInvite req
      else if rmethod req = ''BYE'' then block [
        req_sendResponse 200 ''OK'' req,
        fetch (\<lambda>_. getRequestAlso req) (\<lambda>also. block [
          cancelCreditTimer,
          disconnectFromRequest req also True])]
      else if rmethod req = ''INFO'' then block [
        req_sendResponse 200 ''OK'' req,
        local origin (\<lambda>o'. new_event CCEventInfo (case body req of None \<Rightarrow> D_None | Some b \<Rightarrow> D_Body b) (rtime req) o' (\<lambda>e.
          append_event (copy_reason req e))),
        ret NS_None]
      else if rmethod req = ''OPTIONS'' then block [req_sendResponse 200 ''OK'' req, ret NS_None]
      else ret NS_None)"

subsection \<open>UA.recvRequest\<close>

definition state_recvRequest :: "(exn \<Rightarrow> string) \<Rightarrow> ua_class \<Rightarrow> sip_req \<Rightarrow> (ua, newstate) stmt" where
  "state_recvRequest exn_str c req = (case c of
       UasStateIdle \<Rightarrow> UasStateIdle_recvRequest req
     | UasStateRinging \<Rightarrow> if rmethod req = ''BYE'' then UasStateRinging_recvRequestBye req else ret NS_None
     | UasStateUpdating \<Rightarrow> UasStateUpdating_recvRequest req
     | UacStateUpdating \<Rightarrow> UacStateUpdating_recvRequest req
     | UaStateConnected \<Rightarrow> UaStateConnected_recvRequest exn_str req
     | UaStateDisconnected \<Rightarrow> UaStateDisconnected_recvRequest req
     | _ \<Rightarrow> ret NS_None)"

definition update_ua :: "'a sip_msg_scheme \<Rightarrow> (ua, 'r) stmt" where
  "update_ua m =
     (if countHFs ''user-agent'' m > 0 then
        fetch (\<lambda>_. and_then (getHFBody ''user-agent'' m) as_str) (\<lambda>n. upd (\<lambda>s. s\<lparr>remote_ua := Some n\<rparr>))
      else if countHFs ''server'' m > 0 then
        fetch (\<lambda>_. and_then (getHFBody ''server'' m) as_str) (\<lambda>n. upd (\<lambda>s. s\<lparr>remote_ua := Some n\<rparr>))
      else skip)"

datatype req_result =
    RR_None
  | RR_Response sip_resp
    \<comment> \<open>\<^verbatim>\<open>(resp, None, None)\<close>\<close>
  | RR_Cancellable
    \<comment> \<open>\<^verbatim>\<open>(None, self.state.cancel, self.disconnect)\<close>\<close>

definition UA_recvRequest :: "(exn \<Rightarrow> string) \<Rightarrow> sip_req \<Rightarrow> (ua, req_result) stmt" where
  "UA_recvRequest exn_str req = block [
     if_then (\<lambda>s. remote_ua s = None) (update_ua req),
     fetch (\<lambda>s. case rCSeq s of None \<Rightarrow> Inr None | Some n \<Rightarrow> map_sum id (\<lambda>c. Some (n \<ge> fst c)) (getCSeq req)) (\<lambda>old. block [
       if_then (\<lambda>_. old = Some True)
         (fetch (\<lambda>s. genResponse 500 ''Server Internal Error'' None (local_ua s) None req) (\<lambda>r. ret (RR_Response r))),
       fetch (\<lambda>_. getCSeq req) (\<lambda>c. upd (\<lambda>s. s\<lparr>rCSeq := Some (fst c)\<rparr>)),
       if_then (\<lambda>s. state s = None)
         (if rmethod req = ''INVITE'' then changeState (NS UasStateIdle None) else ret RR_None),
       fetch (\<lambda>s. attr (state s)) (\<lambda>st.
         call NS_None (state_recvRequest exn_str (st_class st) req) (\<lambda>ns. block [
           change_if ns,
           emitPendingEvents,
           ret (if ns \<noteq> NS_None \<and> rmethod req = ''INVITE'' then RR_Cancellable else RR_None)]))])]"

section \<open>Responses\<close>

text \<open>The 2xx part that UacStateTrying and UacStateRinging share.\<close>

definition Uac_recv2xx :: "sip_resp \<Rightarrow> nat \<Rightarrow> (ua, newstate) stmt" where
  "Uac_recv2xx resp t = block [
     UacStateTrying_updateRoutes resp,
     fetch (\<lambda>_. getAddrHF ''to'' resp) (\<lambda>to. case getTag to of
         None \<Rightarrow> local origin (\<lambda>o'. block [
           new_event CCEventFail (D_Scode2 502 ''Bad Gateway'') (rtime resp) o' append_event,
           send_bye None,
           set_disconnect_ts (end_ts (rtime resp)),
           fail_state (rtime resp) o' (Some (Code 502))])
       | Some tag \<Rightarrow> block [
           fetch (\<lambda>s. attr (rUri s)) (\<lambda>u. upd (\<lambda>s. s\<lparr>rUri := Some (setTag (Some tag) u)\<rparr>)),
           local (\<lambda>s. (origin s, late_media s, conn_cbs s)) (\<lambda>(o', late, cs).
             if \<not> late \<or> body resp = None then block [
               upd (\<lambda>s. s\<lparr>late_media := False\<rparr>),
               new_event CCEventConnect (D_Scode (Code (scode resp)) (reason resp) (body resp)) (rtime resp) o' (\<lambda>e. block [
                 startCreditTimer (rtime resp),
                 upd (\<lambda>s. s\<lparr>connect_ts := Some (rtime resp)\<rparr>),
                 remote_sdp (body resp) e (conn_state (rtime resp) o') append_event,
                 conn_state (rtime resp) o'])]
             else
               new_event CCEventPreConnect (D_Scode (Code (scode resp)) (reason resp) (body resp)) (rtime resp) o' (\<lambda>e. block [
                 act (A_SetUack t),
                 upd (\<lambda>s. s\<lparr>pending_tr := Some t\<rparr>),
                 remote_sdp (body resp) e (ret (NS UaStateConnected None)) append_event,
                 ret (NS UaStateConnected None)]))])]"

text \<open>The event for a final response that is not 2xx.\<close>

definition redirect_event_data :: "sip_resp \<Rightarrow> exn + ev_data option" where
  "redirect_event_data resp =
     (if scode resp \<in> {301, 302} \<and> countHFs ''contact'' resp > 0 then
        map_sum id (\<lambda>a. Some (D_Redirect (Code (scode resp)) (reason resp) (body resp) (Some [SipAddress_getCopy a])))
          (getAddrHF ''contact'' resp)
      else if scode resp = 300 \<and> countHFs ''contact'' resp > 0 then
        map_sum id (\<lambda>as. Some (D_Redirect (Code (scode resp)) (reason resp) (body resp) (Some as)))
          (and_then (getHFBodys ''contact'' resp) addr_list)
      else Inr None)"

definition fail_data :: "sip_resp \<Rightarrow> ev_data" where
  "fail_data resp = D_Scode (Code (scode resp)) (reason resp) (body resp)"

definition Uac_failed :: "sip_resp \<Rightarrow> cc_event \<Rightarrow> (ua, newstate) stmt" where
  "Uac_failed resp e = block [
     append_event (copy_reason resp e),
     set_disconnect_ts (end_ts (rtime resp)),
     local origin (\<lambda>o'. fail_state (rtime resp) o' (Some (Code (scode resp))))]"

definition UacStateTrying_recvResponse_final :: "sip_resp \<Rightarrow> (ua, newstate) stmt" where
  "UacStateTrying_recvResponse_final resp =
     fetch (\<lambda>_. redirect_event_data resp) (\<lambda>rd. local (\<lambda>s. (origin s, pass_auth s)) (\<lambda>(o', pass). case rd of
         Some d \<Rightarrow> new_event CCEventRedirect d (rtime resp) o' (Uac_failed resp)
       | None \<Rightarrow> new_event CCEventFail (fail_data resp) (rtime resp) o' (\<lambda>e.
           if pass \<and> scode resp = 401 \<and> countHFs ''www-authenticate'' resp \<noteq> 0 then
             Uac_failed resp (e\<lparr>challenges := Some (map header_copy (getHFs ''www-authenticate'' resp))\<rparr>)
           else if pass \<and> scode resp = 407 \<and> countHFs ''proxy-authenticate'' resp \<noteq> 0 then
             raise TypeError \<comment> \<open>a single header is iterated over\<close>
           else Uac_failed resp e)))"

definition UacStateTrying_recvResponse_body :: "sip_resp \<Rightarrow> nat \<Rightarrow> (ua, newstate) stmt" where
  "UacStateTrying_recvResponse_body resp t =
     (let code = scode resp in block [
       upd (\<lambda>s. s\<lparr>last_scode := code\<rparr>),
       if_then (\<lambda>s. no_reply_timer s \<noteq> None) (block [
         clear_no_reply_timer,
         if_else (\<lambda>s. code = 100 \<and> no_progress_time s \<noteq> None) start_no_progress_timer
           (if_then (\<lambda>s. code < 200 \<and> expire_time s \<noteq> None) start_expire_timer)]),
       if_then (\<lambda>_. code = 100) (block [
         if_then (\<lambda>s. p100_ts s = None) (upd (\<lambda>s. s\<lparr>p100_ts := Some (rtime resp)\<rparr>)),
         local origin (\<lambda>o'. new_event CCEventRing (D_Scode (Code code) (reason resp) (body resp)) (rtime resp) o' append_event),
         ret NS_None]),
       if_then (\<lambda>s. no_progress_timer s \<noteq> None) (block [
         clear_no_progress_timer,
         if_then (\<lambda>s. code < 200 \<and> expire_time s \<noteq> None) start_expire_timer]),
       if_then (\<lambda>_. code < 200)
         (local (\<lambda>s. (origin s, ring_cbs s)) (\<lambda>(o', cs).
           (let done = block [
                  upd (\<lambda>s. s\<lparr>p1xx_ts := Some (rtime resp)\<rparr>),
                  ret (NS UacStateRinging (Some (CbRing, cs, CbArgs (rtime resp) o' (Some (Code code)))))]
            in new_event CCEventRing (D_Scode (Code code) (reason resp) (body resp)) (rtime resp) o' (\<lambda>e. block [
                 remote_sdp (body resp) e done append_event,
                 done])))),
       clear_expire_timer,
       if_else (\<lambda>_. code \<ge> 200 \<and> code < 300) (Uac_recv2xx resp t) (UacStateTrying_recvResponse_final resp)])"

text \<open>\<^verbatim>\<open>UacStateTrying.recvResponse\<close>, which UacStateRinging inherits: errors in the body end the call.\<close>

definition Uac_recvResponse :: "(ua, newstate) stmt \<Rightarrow> sip_resp \<Rightarrow> (ua, newstate) stmt" where
  "Uac_recvResponse inner resp =
     try_catch inner (\<lambda>x. case x of
         SdpHandlingErrors code msg arg \<Rightarrow>
           local origin (\<lambda>o'. new_event CCEventFail (D_Scode2 code msg) (rtime resp) o' (\<lambda>e0.
             (let e = e0\<lparr>reason_rfc3326 := exn_reason code arg\<rparr> in block [
               if_else (\<lambda>_. scode resp < 200) (local tr (\<lambda>t. cancelTransaction t (getExtraHeaders e)))
                 (if_then (\<lambda>_. scode resp \<ge> 200 \<and> scode resp < 300) (send_bye None)),
               append_event e,
               set_disconnect_ts (\<lambda>_. rtime resp),
               fail_state (rtime resp) o' (Some (Code code))])))
       | _ \<Rightarrow> raise x)"

definition UacStateTrying_recvResponse :: "sip_resp \<Rightarrow> nat \<Rightarrow> (ua, newstate) stmt" where
  "UacStateTrying_recvResponse resp t = Uac_recvResponse (UacStateTrying_recvResponse_body resp t) resp"

definition UacStateRinging_recvResponse_body :: "sip_resp \<Rightarrow> nat \<Rightarrow> (ua, newstate) stmt" where
  "UacStateRinging_recvResponse_body resp t =
     (let code = scode resp in block [
       if_then (\<lambda>_. code < 200) (block [
         if_then (\<lambda>s. p1xx_ts s = None) (upd (\<lambda>s. s\<lparr>p1xx_ts := Some (rtime resp)\<rparr>)),
         upd (\<lambda>s. s\<lparr>last_scode := code\<rparr>),
         local (\<lambda>s. (origin s, ring_cbs s)) (\<lambda>(o', cs).
           new_event CCEventRing (D_Scode (Code code) (reason resp) (body resp)) (rtime resp) o' (\<lambda>e. block [
             run_cbs CbRing cs (CbArgs (rtime resp) o' (Some (Code code))),
             remote_sdp (body resp) e (ret NS_None) append_event,
             ret NS_None]))]),
       clear_expire_timer,
       if_else (\<lambda>_. code \<ge> 200 \<and> code < 300) (Uac_recv2xx resp t)
         (fetch (\<lambda>_. redirect_event_data resp) (\<lambda>rd. local origin (\<lambda>o'. case rd of
             Some d \<Rightarrow> new_event CCEventRedirect d (rtime resp) o' (Uac_failed resp)
           | None \<Rightarrow> new_event CCEventFail (fail_data resp) (rtime resp) o' (Uac_failed resp))))])"

definition UacStateRinging_recvResponse :: "sip_resp \<Rightarrow> nat \<Rightarrow> (ua, newstate) stmt" where
  "UacStateRinging_recvResponse resp t = Uac_recvResponse (UacStateRinging_recvResponse_body resp t) resp"

subsection \<open>UacStateUpdating\<close>

definition UacStateUpdating_updateFailed :: "cc_event \<Rightarrow> sip_reason option \<Rightarrow> sip_reason option \<Rightarrow> (ua, newstate) stmt" where
  "UacStateUpdating_updateFailed e bye_reason disconnect_reason = block [
     append_event e,
     send_bye (case bye_reason of None \<Rightarrow> getExtraHeaders e | Some r \<Rightarrow> Some [SipHeader ''reason'' (HF_Reason r)]),
     cancelCreditTimer,
     set_disconnect_ts (\<lambda>_. ertime e),
     local origin (\<lambda>o'. new_event CCEventDisconnect D_None (ertime e) o' (\<lambda>d.
       append_event (d\<lparr>reason_rfc3326 := disconnect_reason\<rparr>))),
     disc_state UaStateDisconnected (ertime e) (eorigin e) None]"

text \<open>The hook may raise here; the two handlers of the source are the second argument.\<close>

definition UacStateUpdating_badSdp :: "(exn \<Rightarrow> string) \<Rightarrow> sip_resp \<Rightarrow> exn \<Rightarrow> (ua, newstate) stmt" where
  "UacStateUpdating_badSdp exn_str resp x =
     new_event CCEventFail (D_Scode2 502 ''Bad Gateway'') (rtime resp) None (\<lambda>e. case x of
         SdpHandlingErrors code msg arg \<Rightarrow>
           UacStateUpdating_updateFailed
             (e\<lparr>reason_rfc3326 := Some (SipReason ''SIP'' 502 ''Malformed SDP Body received from downstream'')\<rparr>)
             (exn_reason code arg) (Some (SipReason ''SIP'' 500 ''Fatal Dialog Refresh Error''))
       | _ \<Rightarrow>
           UacStateUpdating_updateFailed
             (setWarning (''Malformed SDP Body received from downstream: '' @ [dquote] @ exn_str x @ [dquote]) e) None None)"

definition UacStateUpdating_recvResponse :: "(exn \<Rightarrow> string) \<Rightarrow> sip_resp \<Rightarrow> (ua, newstate) stmt" where
  "UacStateUpdating_recvResponse exn_str resp =
     (let code = scode resp; d = D_Scode (Code code) (reason resp) (body resp) in
      local origin (\<lambda>o'. block [
        if_then (\<lambda>_. code < 200) (block [
          if_then (\<lambda>_. code \<noteq> 100) (new_event CCEventRing d (rtime resp) o' append_event),
          ret NS_None]),
        if_then (\<lambda>_. code \<ge> 200 \<and> code < 300)
          (new_event CCEventConnect d (rtime resp) o' (\<lambda>e.
             local on_remote_sdp_change (\<lambda>h.
               case (body resp, h) of
                 (Some b, Some f) \<Rightarrow>
                   (case f b of
                      HookRaise x \<Rightarrow> UacStateUpdating_badSdp exn_str resp x
                    | HookDelayed \<Rightarrow> block [act (A_RemoteSdp e b), ret (NS UaStateConnected None)]
                    | HookDone b' \<Rightarrow> block [set_rSDP b', append_event (event_with_body b' e), ret (NS UaStateConnected None)])
               | (Some b, None) \<Rightarrow> block [set_rSDP b, append_event e, ret (NS UaStateConnected None)]
               | (None, _) \<Rightarrow> block [upd (\<lambda>s. s\<lparr>rSDP := None\<rparr>), append_event e, ret (NS UaStateConnected None)]))),
        fetch (\<lambda>_. redirect_event_data resp) (\<lambda>rd. block [
          if_then (\<lambda>_. rd = None) (upd (\<lambda>s. s\<lparr>lSDP := None\<rparr>)),
          (case rd of
             Some d' \<Rightarrow> new_event CCEventRedirect d' (rtime resp) o'
           | None \<Rightarrow> new_event CCEventFail d (rtime resp) o') (\<lambda>e.
             if code \<in> {408, 481} then UacStateUpdating_updateFailed (copy_reason resp e) None None
             else block [append_event (copy_reason resp e), ret (NS UaStateConnected None)])])]))"

subsection \<open>UacStateCancelling\<close>

definition UacStateCancelling_recvResponse :: "ua_state \<Rightarrow> sip_resp \<Rightarrow> (ua, newstate) stmt" where
  "UacStateCancelling_recvResponse st resp =
     (let code = scode resp in block [
       if_then (\<lambda>_. code < 200) (ret NS_None),
       (case st_te st of None \<Rightarrow> skip | Some i \<Rightarrow> block [stop_timer i, set_state (\<lambda>x. x\<lparr>st_te := None\<rparr>)]),
       if_then (\<lambda>_. code \<ge> 200 \<and> code < 300) (block [
         UacStateTrying_updateRoutes resp,
         fetch (\<lambda>s. and_then (attr (rUri s)) (\<lambda>u. map_sum id (\<lambda>a. setTag (getTag a) u) (getAddrHF ''to'' resp)))
           (\<lambda>u. upd (\<lambda>s. s\<lparr>rUri := Some u\<rparr>)),
         send_bye None,
         ret (NS UaStateDisconnected None)]),
       ret (NS UaStateDead None)])"

section \<open>UA.recvResponse\<close>

text \<open>The first challenge that can be answered.\<close>

fun pick_challenge :: "string option list option \<Rightarrow> sip_challenge list \<Rightarrow> (sip_challenge \<times> string option) option" where
  "pick_challenge enalgs [] = None"
| "pick_challenge enalgs (c # cs) =
     (if (case enalgs of None \<Rightarrow> False | Some as \<Rightarrow> ch_algorithm c \<notin> set as) then pick_challenge enalgs cs
      else case supportedAlgorithm c of (ok, qop) \<Rightarrow> if ok then Some (c, qop) else pick_challenge enalgs cs)"

definition getChallenges :: "string \<Rightarrow> sip_resp \<Rightarrow> exn + sip_challenge list" where
  "getChallenges n resp = and_then (getHFBodys n resp) (\<lambda>bs. sequence_sum (map as_challenge bs))"

definition dict_del :: "'k \<Rightarrow> ('k \<times> 'v) list \<Rightarrow> ('k \<times> 'v) list" where
  "dict_del k d = filter (\<lambda>p. fst p \<noteq> k) d"

definition processChallenge :: "sip_resp \<Rightarrow> int \<Rightarrow> string \<Rightarrow> string \<Rightarrow> sip_header list option \<Rightarrow> (ua, bool) stmt" where
  "processChallenge resp cseq ch_hfname auth_hfname eh = block [
     if_then (\<lambda>s. ua_username s = None \<or> ua_password s = None \<or>
         (case and_then (attr (reqs s)) (\<lambda>r. attr (map_of r cseq)) of Inr q \<Rightarrow> countHFs auth_hfname q \<noteq> 0 | Inl _ \<Rightarrow> True))
       (ret False),
     fetch (\<lambda>_. getChallenges ch_hfname resp) (\<lambda>chs. local auth_enalgs (\<lambda>en.
       case pick_challenge en chs of
         None \<Rightarrow> ret False
       | Some cq \<Rightarrow> local lSDP (\<lambda>l. block [
           genRequest ''INVITE'' l (Some cq) eh None (\<lambda>req. newUacTransaction req eh),
           upd (\<lambda>s. s\<lparr>reqs := map_option (dict_del cseq) (reqs s)\<rparr>),
           ret True])))]"

definition state_recvResponse :: "(exn \<Rightarrow> string) \<Rightarrow> ua_state \<Rightarrow> sip_resp \<Rightarrow> nat \<Rightarrow> (ua, newstate) stmt" where
  "state_recvResponse exn_str st resp t = (case st_class st of
       UacStateTrying \<Rightarrow> UacStateTrying_recvResponse resp t
     | UacStateRinging \<Rightarrow> UacStateRinging_recvResponse resp t
     | UacStateUpdating \<Rightarrow> UacStateUpdating_recvResponse exn_str resp
     | UacStateCancelling \<Rightarrow> UacStateCancelling_recvResponse st resp
     | _ \<Rightarrow> ret NS_None)"

definition in_reqs :: "int \<Rightarrow> ua \<Rightarrow> bool" where
  "in_reqs n s = (case reqs s of None \<Rightarrow> False | Some r \<Rightarrow> map_of r n \<noteq> None)"

definition UA_recvResponse :: "(exn \<Rightarrow> string) \<Rightarrow> sip_resp \<Rightarrow> nat \<Rightarrow> (ua, unit) stmt" where
  "UA_recvResponse exn_str resp t = block [
     if_then (\<lambda>s. case state s of None \<Rightarrow> True | Some st \<Rightarrow> st_dead (st_class st)) (ret ()),
     update_ua resp,
     fetch (\<lambda>_. getCSeq resp) (\<lambda>(cseq, meth). local (\<lambda>s. tr_extra s t) (\<lambda>eh. block [
       if_then (\<lambda>s. meth = ''INVITE'' \<and> \<not> pass_auth s \<and> in_reqs cseq s) (block [
         if_then (\<lambda>_. scode resp = 401)
           (call False (processChallenge resp cseq ''www-authenticate'' ''authorization'' eh) (\<lambda>b. if b then ret () else skip)),
         if_then (\<lambda>_. scode resp = 407)
           (call False (processChallenge resp cseq ''proxy-authenticate'' ''proxy-authorization'' eh) (\<lambda>b. if b then ret () else skip))]),
       if_then (\<lambda>s. scode resp \<ge> 200 \<and> in_reqs cseq s)
         (upd (\<lambda>s. s\<lparr>reqs := map_option (dict_del cseq) (reqs s)\<rparr>)),
       fetch (\<lambda>s. attr (state s)) (\<lambda>st.
         call NS_None (state_recvResponse exn_str st resp t) change_if),
       emitPendingEvents]))]"

section \<open>ACK, CANCEL, timers and hook completions\<close>

definition UaStateConnected_recvACK :: "sip_req \<Rightarrow> (ua, newstate) stmt" where
  "UaStateConnected_recvACK req =
     local origin (\<lambda>o'. new_event CCEventConnect (D_Scode AckCode ''ACK'' (body req)) (rtime req) o' (\<lambda>e. block [
       clear_expire_timer,
       cancelCreditTimer,
       startCreditTimer (rtime req),
       upd (\<lambda>s. s\<lparr>connect_ts := Some (rtime req)\<rparr>),
       local conn_cbs (\<lambda>cs. run_cbs CbConn cs (CbArgs (rtime req) o' None)),
       remote_sdp (body req) e (ret NS_None) append_event,
       ret NS_None]))"

text \<open>\<^verbatim>\<open>recvACK\<close>: the other two connected states have no such method.\<close>

definition UA_recvACK :: "sip_req \<Rightarrow> (ua, unit) stmt" where
  "UA_recvACK req = local state (\<lambda>st. case st of
       None \<Rightarrow> ret ()
     | Some x \<Rightarrow>
         if \<not> st_connected (st_class x) then ret ()
         else if st_class x \<noteq> UaStateConnected then raise AttributeError
         else block [call NS_None (UaStateConnected_recvACK req) change_if, emitPendingEvents])"

definition UasStateProgressing_cancel :: "real \<Rightarrow> sip_req option \<Rightarrow> (ua, unit) stmt" where
  "UasStateProgressing_cancel rt inreq =
     local (\<lambda>s. (origin s, disc_cbs s)) (\<lambda>(o', cs).
     new_event CCEventDisconnect D_None rt o' (\<lambda>e. block [
       set_disconnect_ts (\<lambda>_. rt),
       changeState (NS UaStateDisconnected (Some (CbDisc, cs, CbArgs rt o' None))),
       emitEvent (case inreq of None \<Rightarrow> e | Some r \<Rightarrow> copy_reason r e)]))"

definition UasStateUpdating_cancel :: "real \<Rightarrow> sip_req option \<Rightarrow> (ua, unit) stmt" where
  "UasStateUpdating_cancel rt inreq = block [
     send_bye None,
     cancelCreditTimer,
     set_disconnect_ts (\<lambda>_. rt),
     local (\<lambda>s. (origin s, disc_cbs s)) (\<lambda>(o', cs). block [
       changeState (NS UaStateDisconnected (Some (CbDisc, cs, CbArgs rt o' None))),
       new_event CCEventDisconnect D_None rt o' (\<lambda>e.
         emitEvent (case inreq of None \<Rightarrow> e | Some r \<Rightarrow> copy_reason r e))])]"

text \<open>
  The cancel callback that \<^verbatim>\<open>recvRequest\<close> returns is the method of the state object of that
  moment, of class \<open>c\<close>; it stays that method when the state has changed since.
\<close>

definition state_cancel :: "ua_class \<Rightarrow> real \<Rightarrow> sip_req option \<Rightarrow> (ua, unit) stmt" where
  "state_cancel c rt inreq = (case c of
       UasStateTrying \<Rightarrow> UasStateProgressing_cancel rt inreq
     | UasStateRinging \<Rightarrow> UasStateProgressing_cancel rt inreq
     | UasStateUpdating \<Rightarrow> UasStateUpdating_cancel rt inreq
     | _ \<Rightarrow> ret ())"

text \<open>\<^verbatim>\<open>keepAlive\<close> and \<^verbatim>\<open>keepAliveResp\<close> of the Connected state with number \<open>i\<close>.\<close>

definition is_current :: "nat \<Rightarrow> ua \<Rightarrow> bool" where
  "is_current i s = (case state s of None \<Rightarrow> False | Some st \<Rightarrow> st_id st = i)"

definition UaStateConnected_keepAlive :: "nat \<Rightarrow> (ua, unit) stmt" where
  "UaStateConnected_keepAlive i = if_then (is_current i)
     (local lSDP (\<lambda>l. genRequest ''INVITE'' l None None None (\<lambda>req. block [
       set_state (\<lambda>st. st\<lparr>triedauth := False\<rparr>),
       newTransaction req (KeepAliveRespCb i) None (\<lambda>t. set_state (\<lambda>st. st\<lparr>ka_tr := Some t\<rparr>))])))"

text \<open>
  With credentials and a challenge the method calls \<^verbatim>\<open>genRequest('INVITE', lSDP, challenge)\<close>,
  which unpacks the challenge object as a pair and raises.
\<close>

definition UaStateConnected_keepAliveResp :: "(exn \<Rightarrow> string) \<Rightarrow> nat \<Rightarrow> sip_resp \<Rightarrow> (ua, unit) stmt" where
  "UaStateConnected_keepAliveResp exn_str i resp = if_then (is_current i)
     (let code = scode resp in block [
       if_then (\<lambda>s. ((code = 401 \<and> countHFs ''www-authenticate'' resp \<noteq> 0) \<or>
                     (code = 407 \<and> countHFs ''proxy-authenticate'' resp \<noteq> 0)) \<and>
                    ua_username s \<noteq> None \<and> ua_password s \<noteq> None \<and> \<not> triedauth (the (state s)))
         (raise TypeError),
       if_then (\<lambda>_. code < 200) (ret ()),
       set_state (\<lambda>st. st\<lparr>ka_tr := None, keepalives := keepalives st + 1\<rparr>),
       if_then (\<lambda>_. code \<in> {408, 481, 486}) (block [
         fetch (\<lambda>s. case fst (rAddr s) of None \<Rightarrow> Inl TypeError | Some a \<Rightarrow> Inr a) (\<lambda>_. skip),
         if_then (\<lambda>s. keepalives (the (state s)) = 1)
           (local now (\<lambda>t. start_timer T_disconnect (t + 600) (\<lambda>_. ret ()))),
         UA_disconnect exn_str None None,
         ret ()]),
       local (\<lambda>s. now s + kaInterval s) (\<lambda>t. start_timer (T_keepAlive i) t (\<lambda>_. skip))])"

definition UaStateConnected_rComplete :: "(ua, unit) stmt" where
  "UaStateConnected_rComplete = send_bye None"

definition goDead :: "(ua, unit) stmt" where
  "goDead = changeState (NS UaStateDead None)"

definition UacStateCancelling_goIdle :: "nat \<Rightarrow> (ua, unit) stmt" where
  "UacStateCancelling_goIdle i = block [
     if_then (is_current i) (set_state (\<lambda>st. st\<lparr>st_te := None\<rparr>)),
     changeState (NS UaStateDead None)]"

text \<open>A timer fires: it is no longer running, and its method is called.\<close>

definition fire_timer :: "(exn \<Rightarrow> string) \<Rightarrow> timer \<Rightarrow> (ua, unit) stmt" where
  "fire_timer exn_str t = block [
     stop_timer (tm_id t),
     (case tm_kind t of
        T_expires \<Rightarrow> block [upd (\<lambda>s. s\<lparr>expire_timer := None\<rparr>), UA_disconnect exn_str None None]
      | T_no_progress \<Rightarrow> block [upd (\<lambda>s. s\<lparr>no_progress_timer := None\<rparr>), UA_disconnect exn_str None None]
      | T_no_reply \<Rightarrow> block [upd (\<lambda>s. s\<lparr>no_reply_timer := None\<rparr>), UA_disconnect exn_str None None]
      | T_credit rt \<Rightarrow> block [upd (\<lambda>s. s\<lparr>credit_timer := None\<rparr>), UA_disconnect exn_str (Some rt) None]
      | T_goDead \<Rightarrow> goDead
      | T_goIdle i \<Rightarrow> UacStateCancelling_goIdle i
      | T_keepAlive i \<Rightarrow> UaStateConnected_keepAlive i
      | T_disconnect \<Rightarrow> UA_disconnect exn_str None None)]"

text \<open>
  \<^verbatim>\<open>delayed_remote_sdp_update\<close> and \<^verbatim>\<open>delayed_local_sdp_update\<close>, with the body and without an
  exception (\<open>Inr\<close>) or with one (\<open>Inl\<close>). The fresh event takes its time from the clock.
\<close>

definition fail_of_exn :: "exn \<Rightarrow> (cc_event \<Rightarrow> (ua, 'r) stmt) \<Rightarrow> (ua, 'r) stmt" where
  "fail_of_exn x c = (case x of
       SdpHandlingErrors code msg arg \<Rightarrow>
         local now (\<lambda>t. new_event CCEventFail (D_Scode2 code msg) t None (\<lambda>e. c (e\<lparr>reason_rfc3326 := exn_reason code arg\<rparr>)))
     | _ \<Rightarrow> raise x)"

definition delayed_remote_sdp_update :: "(exn \<Rightarrow> string) \<Rightarrow> cc_event \<Rightarrow> exn + msg_body \<Rightarrow> (ua, unit) stmt" where
  "delayed_remote_sdp_update exn_str e r = (case r of
       Inl x \<Rightarrow> fail_of_exn x (\<lambda>f. block [append_event f, emitPendingEvents, UA_recvEvent exn_str f])
     | Inr b \<Rightarrow> block [set_rSDP b, append_event (event_with_body b e), emitPendingEvents])"

definition delayed_local_sdp_update :: "(exn \<Rightarrow> string) \<Rightarrow> cc_event \<Rightarrow> exn + msg_body \<Rightarrow> (ua, unit) stmt" where
  "delayed_local_sdp_update exn_str e r = (case r of
       Inl x \<Rightarrow> fail_of_exn x (\<lambda>f. block [append_event f, emitPendingEvents, UA_recvEvent exn_str f])
     | Inr b \<Rightarrow> UA_recvEvent exn_str (event_with_body b e))"

section \<open>The remaining methods\<close>

definition isYours :: "sip_req option \<Rightarrow> string option \<times> string option \<times> string option \<Rightarrow> ua \<Rightarrow> exn + bool" where
  "isYours req ids s =
     and_then (case req of
         None \<Rightarrow> Inr (Some ids)
       | Some r \<Rightarrow>
           and_then (if rmethod r \<noteq> ''BYE'' \<and> branch s \<noteq> None
                     then map_sum id (\<lambda>v. branch s \<noteq> SipVia_getBranch v) (and_then (getHFBody ''via'' r) as_via)
                     else Inr False) (\<lambda>other_branch.
             if other_branch then Inr None
             else and_then (getCallId r) (\<lambda>c. and_then (getAddrHF ''from'' r) (\<lambda>f. and_then (getAddrHF ''to'' r) (\<lambda>t.
               Inr (Some (Some c, getTag f, getTag t))))))) (\<lambda>k.
       Inr (case k of
           None \<Rightarrow> False
         | Some (c, ft, tt) \<Rightarrow>
             c = Some (case cId s of None \<Rightarrow> ''None'' | Some x \<Rightarrow> x) \<and>
             (case rUri s of None \<Rightarrow> True | Some u \<Rightarrow> getTag u = ft) \<and>
             (case lUri s of None \<Rightarrow> True | Some u \<Rightarrow> getTag u = tt)))"

definition isDead :: "ua \<Rightarrow> bool" where
  "isDead s = (case state s of None \<Rightarrow> False | Some st \<Rightarrow> st_dead (st_class st))"

definition isConnected :: "ua \<Rightarrow> bool" where
  "isConnected s = (case state s of None \<Rightarrow> False | Some st \<Rightarrow> st_connected (st_class st))"

text \<open>\<^verbatim>\<open>getAcct\<close>: duration, delay, whether it was connected and whether it has ended.\<close>

definition getAcct :: "ua \<Rightarrow> exn + (real \<times> real \<times> bool \<times> bool)" where
  "getAcct s =
     (let ended = disconnect_ts s \<noteq> None; d = (case disconnect_ts s of Some t \<Rightarrow> t | None \<Rightarrow> now s)
      in case setup_ts s of
           None \<Rightarrow> Inl TypeError
         | Some su \<Rightarrow>
             (case connect_ts s of
                Some c \<Rightarrow> Inr (d - c, c - su, True, ended)
              | None \<Rightarrow> Inr (0, d - su, False, ended)))"

definition resetCreditTime :: "real \<Rightarrow> (int \<times> real option) list \<Rightarrow> (ua, unit) stmt" where
  "resetCreditTime rt new = block [
     upd (\<lambda>s. s\<lparr>credit_times := fold (\<lambda>(k, v). dict_set k v) new (credit_times s)\<rparr>),
     fetch (\<lambda>s. attr (state s)) (\<lambda>st.
       if st_connected (st_class st) then block [cancelCreditTimer, startCreditTimer rt] else skip)]"

definition getCID :: "ua \<Rightarrow> string \<times> string option \<times> string option" where
  "getCID s = (case cId s of None \<Rightarrow> ''None'' | Some x \<Rightarrow> x,
     case lUri s of None \<Rightarrow> None | Some u \<Rightarrow> getTag u, case rUri s of None \<Rightarrow> None | Some u \<Rightarrow> getTag u)"

end
