(* ===== verification/UA_Inv.thy ===== *)
theory UA_Inv
  imports UA_Messages "HOL-Library.Sublist"
begin

text \<open>
  Invariants that every operation of the user agent keeps. The locale \<open>ua_invariant\<close> says
  what a predicate must satisfy: it reads only the part \<open>core\<close> of the object, and it is closed
  under the four ways in which the code changes that part. The locale proves once, method by
  method, that every entry point of \<^verbatim>\<open>sippy/UA.py\<close> keeps such a predicate, whatever its
  outcome (a raised exception included). Three predicates interpret it: the order of the
  events handed to the application, the time of disconnection, and that the record of
  effects only grows.
\<close>

section \<open>The user agent as a transition system\<close>

text \<open>
  The constructor (\<^verbatim>\<open>UA.__init__\<close>); the class attributes give the rest. \<open>w\<close> supplies what is
  outside the object (clock, random numbers, digest functions, the number of the next event).
\<close>

record ua_args =
  ua_event_cb :: bool
  arg_username :: "string option"
  arg_password :: "string option"
  nh_address :: "hostport option"
  nh_transport :: sip_transport
  arg_credit_time :: "real option"
  arg_conn_cbs :: "string list option"
  arg_disc_cbs :: "string list option"
  arg_fail_cbs :: "string list option"
  arg_ring_cbs :: "string list option"
  arg_dead_cbs :: "string list option"
  ltag :: "string option"
  arg_extra_headers :: "sip_header list option"
  arg_expire_time :: "real option"
  arg_no_progress_time :: "real option"

definition or_empty :: "'a list option \<Rightarrow> 'a list" where
  "or_empty x = (case x of None \<Rightarrow> [] | Some l \<Rightarrow> l)"

definition UA_init :: "ua_args \<Rightarrow> ua \<Rightarrow> ua" where
  "UA_init a w = w\<lparr>
     state := None, event_cb := ua_event_cb a, uasResp := None, ua_username := arg_username a, ua_password := arg_password a,
     auth_enalgs := None, equeue := [], credit_time := arg_credit_time a, credit_times := [], credit_timer := None,
     conn_cbs := or_empty (arg_conn_cbs a), disc_cbs := or_empty (arg_disc_cbs a), fail_cbs := or_empty (arg_fail_cbs a),
     ring_cbs := or_empty (arg_ring_cbs a), dead_cbs := or_empty (arg_dead_cbs a), rCSeq := None,
     lTag := (case ltag a of Some t \<Rightarrow> t | None \<Rightarrow> token w (ntok w)), ntok := Suc (ntok w),
     lUri := None, rUri := None, cId := None, lCSeq := None, lContact := None,
     rAddr := (nh_address a, nh_transport a), rAddr0 := (nh_address a, nh_transport a), routes := None, rTarget := None,
     lSDP := None, rSDP := None, kaInterval := 0, branch := None, reqs := Some [], ua_extra_headers := arg_extra_headers a,
     useRefer := True, expire_time := arg_expire_time a, expire_timer := None, expire_mtime := None,
     no_progress_time := arg_no_progress_time a, no_progress_timer := None, no_progress_mtime := None,
     no_reply_time := None, no_reply_timer := None, on_local_sdp_change := None, on_remote_sdp_change := None,
     last_scode := 100, setup_ts := None, p100_ts := None, p1xx_ts := None, connect_ts := None, disconnect_ts := None,
     local_ua := None, remote_ua := None, elast_seq := None, origin := None, outbound_proxy := None, pass_auth := False,
     pending_tr := None, tr := None, late_media := False, godead_timeout := 32, timers := [], trace := []\<rparr>"

text \<open>
  A user agent before its first message. The application may have set attributes such as
  the hooks, \<^verbatim>\<open>kaInterval\<close> or \<^verbatim>\<open>pass_auth\<close>; those are left open.
\<close>

definition ua_initial :: "ua \<Rightarrow> bool" where
  "ua_initial s \<longleftrightarrow> state s = None \<and> trace s = [] \<and> equeue s = [] \<and> timers s = [] \<and> elast_seq s = None \<and>
     disconnect_ts s = None \<and> rCSeq s = None \<and> lCSeq s = None"

lemma UA_init_initial: "ua_initial (UA_init a w)"
  by (simp add: ua_initial_def UA_init_def)

text \<open>
  One call of an entry point, to its end or to the exception it raises. A timer that fires is
  one that is running. The attributes that the application sets between calls, and the
  clock, may change.
\<close>

inductive ua_step :: "(exn \<Rightarrow> string) \<Rightarrow> ua \<Rightarrow> ua \<Rightarrow> bool" for es where
  step_request: "ua_step es s (out_state (UA_recvRequest es req s))"
| step_response: "ua_step es s (out_state (UA_recvResponse es resp t s))"
| step_event: "ua_step es s (out_state (UA_recvEvent es e s))"
| step_disconnect: "ua_step es s (out_state (UA_disconnect es rt o' s))"
| step_ack: "ua_step es s (out_state (UA_recvACK req s))"
| step_cancel: "state s = Some st \<Longrightarrow> ua_step es s (out_state (state_cancel (st_class st) rt inreq s))"
| step_timer: "tm \<in> set (timers s) \<Longrightarrow> ua_step es s (out_state (fire_timer es tm s))"
| step_keepalive: "ua_step es s (out_state (UaStateConnected_keepAliveResp es i resp s))"
| step_rcomplete: "ua_step es s (out_state (UaStateConnected_rComplete s))"
| step_remote_sdp: "ua_step es s (out_state (delayed_remote_sdp_update es e r s))"
| step_local_sdp: "ua_step es s (out_state (delayed_local_sdp_update es e r s))"
| step_credit: "ua_step es s (out_state (resetCreditTime rt new s))"
| step_clock: "ua_step es s (s\<lparr>now := t\<rparr>)"
| step_others: "ua_step es s (s\<lparr>cc_seq := n\<rparr>)"

section \<open>Predicates that every operation keeps\<close>

fun is_emit :: "action \<Rightarrow> bool" where
  "is_emit (A_Emit _) = True"
| "is_emit _ = False"

text \<open>The callbacks that report the end of a call.\<close>

fun is_end_cb :: "action \<Rightarrow> bool" where
  "is_end_cb (A_Callback CbDisc _ _) = True"
| "is_end_cb (A_Callback CbFail _ _) = True"
| "is_end_cb _ = False"

text \<open>The timers that end the life of the object.\<close>

fun dead_kind :: "timer_kind \<Rightarrow> bool" where
  "dead_kind T_goDead = True"
| "dead_kind (T_goIdle _) = True"
| "dead_kind _ = False"

definition cls :: "ua \<Rightarrow> ua_class option" where
  "cls s = map_option st_class (state s)"

lemma cls_None [simp]: "cls s = None \<longleftrightarrow> state s = None"
  by (simp add: cls_def)

lemma cls_state [simp]: "state s = Some st \<Longrightarrow> cls s = Some (st_class st)"
  by (simp add: cls_def)

lemma cls_cong: "state s = state t \<Longrightarrow> cls s = cls t"
  by (simp add: cls_def)

definition core :: "ua \<Rightarrow> (action list \<times> int option \<times> bool \<times> real option) \<times> ua_class option \<times> timer list \<times> int option" where
  "core s = ((trace s, elast_seq s, event_cb s, disconnect_ts s), cls s, timers s, rCSeq s)"

definition newer :: "cc_event \<Rightarrow> ua \<Rightarrow> bool" where
  "newer e s = (case elast_seq s of None \<Rightarrow> True | Some n \<Rightarrow> n < eseq e)"

lemma core_simps [simp]:
  "core (s\<lparr>cc_seq := n\<rparr>) = core s" "core (s\<lparr>ntok := k\<rparr>) = core s" "core (s\<lparr>nid := k\<rparr>) = core s"
  "core (s\<lparr>now := x\<rparr>) = core s"
  by (simp_all add: core_def cls_def)

subsection \<open>Code that does not change the state\<close>

text \<open>
  What a predicate must satisfy to be kept by the methods of the state classes, which only
  return the state to go to.
\<close>

locale ua_code =
  fixes I :: "ua \<Rightarrow> bool"
  assumes frame: "core s = core t \<Longrightarrow> I s \<Longrightarrow> I t"
    and I_act: "I s \<Longrightarrow> \<not> is_emit a \<Longrightarrow> \<not> is_end_cb a \<Longrightarrow> I (s\<lparr>trace := trace s @ [a]\<rparr>)"
    and I_emit: "I s \<Longrightarrow> event_cb s \<Longrightarrow> newer e s \<Longrightarrow> I (s\<lparr>elast_seq := Some (eseq e), trace := trace s @ [A_Emit e]\<rparr>)"
    and I_ended: "I s \<Longrightarrow> I (s\<lparr>disconnect_ts := Some x\<rparr>)"
    and I_start: "I s \<Longrightarrow> \<not> dead_kind (tm_kind tm) \<Longrightarrow> I (s\<lparr>timers := timers s @ [tm]\<rparr>)"
    and I_stop: "I s \<Longrightarrow> I (s\<lparr>timers := filter P (timers s)\<rparr>)"
    and I_rCSeq: "I s \<Longrightarrow> rCSeq s = None \<or> (\<exists>n. rCSeq s = Some n \<and> n < m) \<Longrightarrow> I (s\<lparr>rCSeq := Some m\<rparr>)"
begin

lemma keeps_frame [keeps_intros]: "(\<And>s. core (f s) = core s) \<Longrightarrow> keeps I (upd f)"
  by (rule keeps_upd) (metis frame)

lemma keeps_act [keeps_intros]: "\<not> is_emit a \<Longrightarrow> \<not> is_end_cb a \<Longrightarrow> keeps I (act a)"
  unfolding act_def by (rule keeps_upd) (rule I_act)

lemma keeps_emitEvent [keeps_intros]: "keeps I (emitEvent e)"
  unfolding keeps_wpc using I_emit
  by (simp add: emitEvent_def act_def newer_def)

lemma keeps_set_disconnect_ts [keeps_intros]: "keeps I (set_disconnect_ts f)"
  unfolding set_disconnect_ts_def by (rule keeps_upd) (rule I_ended)

lemma keeps_set_state [keeps_intros]: "(\<And>x. st_class (f x) = st_class x) \<Longrightarrow> keeps I (set_state f)"
  unfolding set_state_def by (rule keeps_frame) (simp add: core_def cls_def option.map_comp comp_def)

lemma keeps_new_event [keeps_intros]: "(\<And>e. keeps I (c e)) \<Longrightarrow> keeps I (new_event k d t o' c)"
  unfolding keeps_def new_event_def by (metis core_simps(1) frame)

lemma keeps_new_token [keeps_intros]: "(\<And>e. keeps I (c e)) \<Longrightarrow> keeps I (new_token c)"
  unfolding keeps_def new_token_def by (metis core_simps(2) frame)

lemma keeps_new_id [keeps_intros]: "(\<And>e. keeps I (c e)) \<Longrightarrow> keeps I (new_id c)"
  unfolding keeps_def new_id_def by (metis core_simps(3) frame)

lemma keeps_start_timer [keeps_intros]: "\<not> dead_kind k \<Longrightarrow> (\<And>i. keeps I (c i)) \<Longrightarrow> keeps I (start_timer k t c)"
  unfolding start_timer_def by (intro keeps_new_id keeps_block_Cons keeps_block_Nil keeps_upd I_start) auto

lemma keeps_stop_timer [keeps_intros]: "keeps I (stop_timer i)" "keeps I (cancel_opt x)"
  unfolding stop_timer_def cancel_opt_def
  by (auto intro!: keeps_upd I_stop keeps_skip simp: stop_timer_def split: option.split)

lemma keeps_queue [keeps_intros]: "keeps I (append_event e)"
  "ck \<noteq> CbDisc \<Longrightarrow> ck \<noteq> CbFail \<Longrightarrow> keeps I (run_cbs ck names a)"
  by (cases ck; auto simp: append_event_def run_cbs_def core_def cls_def intro!: keeps_intros)+

lemma keeps_emitPendingEvents [keeps_intros]: "keeps I emitPendingEvents"
  by (auto simp: emitPendingEvents_def core_def cls_def intro!: keeps_intros)

lemma keeps_credit [keeps_intros]: "keeps I cancelCreditTimer" "keeps I (startCreditTimer t)"
  by (auto simp: cancelCreditTimer_def startCreditTimer_def core_def cls_def intro!: keeps_intros split: option.split)

lemma keeps_transactions [keeps_intros]:
  "(\<And>i. keeps I (c i)) \<Longrightarrow> keeps I (newTransaction req cb eh c)" "keeps I (newUacTransaction req eh)"
  "keeps I (cancelTransaction x eh)"
  by (auto simp: newTransaction_def newUacTransaction_def cancelTransaction_def core_def cls_def intro!: keeps_intros split: option.split)

lemma keeps_genRequest [keeps_intros]: "(\<And>r. keeps I (c r)) \<Longrightarrow> keeps I (genRequest m b q eh mf c)"
  unfolding genRequest_def by (auto simp: core_def cls_def intro!: keeps_intros)

lemma keeps_responses [keeps_intros]:
  "keeps I (sendUasResponse code rs b cs eh aw)" "keeps I (req_sendResponse n rs req)" "keeps I (send_bye eh)"
  by (auto simp: sendUasResponse_def req_sendResponse_def send_bye_def intro!: keeps_intros split: ev_code.split)

lemma keeps_hooks [keeps_intros]: "keeps I (local_hook e b)" "keeps I (set_rSDP b)"
  "keeps I d \<Longrightarrow> (\<And>e. keeps I (c e)) \<Longrightarrow> keeps I (remote_sdp bd e d c)"
  by (auto simp: local_hook_def set_rSDP_def remote_sdp_def core_def cls_def intro!: keeps_intros split: option.split sdp_hook.split)

lemma keeps_small [keeps_intros]: "keeps I (disc_state c rt o' code)" "keeps I (fail_state rt o' code)" "keeps I (conn_state rt o')"
  "keeps I clear_expire_timer" "keeps I clear_no_progress_timer" "keeps I clear_no_reply_timer"
  "keeps I start_expire_timer" "keeps I start_no_progress_timer"
  by (auto simp: disc_state_def fail_state_def conn_state_def clear_expire_timer_def clear_no_progress_timer_def
      clear_no_reply_timer_def start_expire_timer_def start_no_progress_timer_def start_at_def core_def cls_def intro!: keeps_intros)

subsection \<open>Events\<close>

lemma keeps_UasStateGeneric [keeps_intros]:
  "keeps I (UasStateGeneric_delayLocalSdpUpdate e bd)" "keeps I (UasStateGeneric_recvEventRing e eh cs)"
  "keeps I (UasStateGeneric_getConnectData e)" "keeps I (UasStateGeneric_recvEventRedirect e eh)"
  "keeps I (UasStateGeneric_sendFailResponse e eh)"
proof -
  show d: "keeps I (UasStateGeneric_delayLocalSdpUpdate e bd)" for bd
    by (auto simp: UasStateGeneric_delayLocalSdpUpdate_def intro!: keeps_intros)
  show "keeps I (UasStateGeneric_recvEventRing e eh cs)" "keeps I (UasStateGeneric_getConnectData e)"
    "keeps I (UasStateGeneric_recvEventRedirect e eh)" "keeps I (UasStateGeneric_sendFailResponse e eh)"
    by (auto simp: UasStateGeneric_recvEventRing_def UasStateGeneric_getConnectData_def
        UasStateGeneric_recvEventRedirect_def UasStateGeneric_sendFailResponse_def core_def cls_def Let_def
        intro!: keeps_intros d)
qed

lemma keeps_UasStateProgressing [keeps_intros]:
  "keeps I (UasStateProgressing_recvEventRing e eh)" "keeps I (UasStateProgressing_recvEventConnect e eh)"
  "keeps I (UasStateProgressing_recvEventPreConnect e eh)" "keeps I (UasStateProgressing_recvEventRedirect e eh)"
  "keeps I (UasStateProgressing_recvEventFail e eh)" "keeps I (UasStateProgressing_recvEventDisconnect e eh)"
  by (auto simp: UasStateProgressing_recvEventRing_def UasStateProgressing_recvEventConnect_def
      UasStateProgressing_recvEventPreConnect_def UasStateProgressing_recvEventRedirect_def
      UasStateProgressing_recvEventFail_def UasStateProgressing_recvEventDisconnect_def core_def cls_def
      intro!: keeps_intros split: option.split)

lemma keeps_UasStateTrying [keeps_intros]: "keeps I (UasStateTrying_recvEvent e)"
  by (auto simp: UasStateTrying_recvEvent_def UasStateTrying_recvEventRing_def UasStateTrying_recvEventConnect_def
      UasStateTrying_recvEventPreConnect_def UasStateTrying_recvEventRedirect_def UasStateTrying_recvEventFail_def
      UasStateTrying_recvEventDisconnect_def core_def cls_def Let_def intro!: keeps_intros split: option.split ev_kind.split)

lemma keeps_UasStateRinging [keeps_intros]: "keeps I (UasStateRinging_recvEvent e)"
  by (auto simp: UasStateRinging_recvEvent_def UasStateRinging_recvEventRing_def core_def cls_def Let_def
      intro!: keeps_intros split: option.split ev_kind.split)

lemma keeps_UasStateUpdating [keeps_intros]: "keeps I (UasStateUpdating_recvEvent e)"
  by (auto simp: UasStateUpdating_recvEvent_def UasStateUpdating_recvEventConnect_def UasStateUpdating_recvEventFail_def
      UasStateUpdating_recvEventDisconnect_def core_def cls_def Let_def intro!: keeps_intros split: option.split ev_kind.split)

lemma keeps_UacStateIdle [keeps_intros]: "keeps I (UacStateIdle_recvEvent e)"
  by (auto simp: UacStateIdle_recvEvent_def UacStateIdle_recvEventTry_def UacStateIdle_setup_def
      UacStateIdle_start_timers_def set_contact_user_def core_def cls_def Let_def intro!: keeps_intros split: option.split)

lemma keeps_UacStates [keeps_intros]:
  "keeps I (UacStateTrying_recvEvent e)" "keeps I (UacStateRinging_recvEvent e)" "keeps I (UacStateUpdating_recvEvent e)"
  by (auto simp: UacStateTrying_recvEvent_def UacStateRinging_recvEvent_def UacStateUpdating_recvEvent_def
      intro!: keeps_intros)

lemma keeps_UaStateConnected [keeps_intros]:
  "keeps I (UaStateConnected_disconnectFailRedirect e eh rd)" "keeps I (UaStateConnected_recvEventUpdate es e eh)"
  "keeps I (UaStateConnected_recvEventInfo e eh)" "keeps I (UaStateConnected_recvEventConnect e eh)"
  by (auto simp: UaStateConnected_disconnectFailRedirect_def UaStateConnected_recvEventUpdate_def
      UaStateConnected_recvEventInfo_def UaStateConnected_recvEventConnect_def core_def cls_def Let_def
      intro!: keeps_intros split: option.split exn.split)

lemma keeps_state_recvEvent [keeps_intros]: "keeps I (state_recvEvent es c e)"
  by (auto simp: state_recvEvent_def UaStateConnected_recvEvent_def Let_def intro!: keeps_intros
      split: ua_class.split ev_kind.split)

subsection \<open>Requests\<close>

lemma keeps_routes [keeps_intros]: "keeps I (apply_routes rts)" "keeps I (UacStateTrying_updateRoutes resp)"
  "keeps I (update_ua m)" "keeps I (disconnectFromRequest req also b)"
  by (auto simp: apply_routes_def UacStateTrying_updateRoutes_def update_ua_def disconnectFromRequest_def core_def cls_def
      intro!: keeps_intros split: list.split)

lemma keeps_UasStateIdle [keeps_intros]: "keeps I (UasStateIdle_recvRequest req)"
  by (auto simp: UasStateIdle_recvRequest_def UasStateIdle_setup_def UasStateIdle_start_timers_def core_def cls_def
      intro!: keeps_intros split: option.split)

text \<open>The guard of \<^verbatim>\<open>recvRequest\<close>: a request that is not newer than the last one is refused.\<close>

lemma keeps_newer_request:
  assumes "keeps I (block rest)"
  shows "keeps I (fetch (\<lambda>s. case rCSeq s of None \<Rightarrow> Inr None | Some n \<Rightarrow> map_sum id (\<lambda>c. Some (n \<ge> fst c)) (getCSeq req)) (\<lambda>old. block (
       if_then (\<lambda>_. old = Some True)
         (fetch (\<lambda>s. genResponse 500 ''Server Internal Error'' None (local_ua s) None req) (\<lambda>r. ret (RR_Response r))) #
       fetch (\<lambda>_. getCSeq req) (\<lambda>c. upd (\<lambda>s. s\<lparr>rCSeq := Some (fst c)\<rparr>)) # rest)))"
  unfolding keeps_wpc
proof (intro allI impI)
  fix s
  assume s: "I s"
  have r: "I t \<Longrightarrow> wpc (block rest) I (\<lambda>_. I) (\<lambda>_. I) t" for t using assms by (rule keepsW)
  show "wpc (fetch (\<lambda>s. case rCSeq s of None \<Rightarrow> Inr None | Some n \<Rightarrow> map_sum id (\<lambda>c. Some (n \<ge> fst c)) (getCSeq req)) (\<lambda>old. block (
       if_then (\<lambda>_. old = Some True)
         (fetch (\<lambda>s. genResponse 500 ''Server Internal Error'' None (local_ua s) None req) (\<lambda>r. ret (RR_Response r))) #
       fetch (\<lambda>_. getCSeq req) (\<lambda>c. upd (\<lambda>s. s\<lparr>rCSeq := Some (fst c)\<rparr>)) # rest))) I (\<lambda>_. I) (\<lambda>_. I) s"
    using s I_rCSeq [OF s] by (auto intro!: r split: option.split sum.split)
qed

lemma keeps_requests [keeps_intros]:
  "keeps I (UasStateRinging_recvRequestBye req)" "keeps I (UasStateUpdating_recvRequest req)"
  "keeps I (UacStateUpdating_recvRequest req)" "keeps I (UaStateConnected_recvRequestInvite req)"
  "keeps I (UaStateDisconnected_recvRequest req)"
  by (auto simp: UasStateRinging_recvRequestBye_def UasStateUpdating_recvRequest_def
      UacStateUpdating_recvRequest_def UaStateConnected_recvRequestInvite_def UaStateDisconnected_recvRequest_def
      core_def cls_def intro!: keeps_intros)

lemma keeps_Connected_recvRequest:
  "keeps I (UaStateConnected_recvRequestRefer es req) \<Longrightarrow> keeps I (UaStateConnected_recvRequest es req)"
  by (auto simp: UaStateConnected_recvRequest_def intro!: keeps_intros)

subsection \<open>Responses\<close>

lemma keeps_Uac_recv2xx [keeps_intros]: "keeps I (Uac_recv2xx resp t)"
  by (auto simp: Uac_recv2xx_def core_def cls_def intro!: keeps_intros split: option.split)

lemma keeps_Uac_final [keeps_intros]: "keeps I (Uac_failed resp e)" "keeps I (UacStateTrying_recvResponse_final resp)"
proof -
  show f: "keeps I (Uac_failed resp e)" for e by (auto simp: Uac_failed_def intro!: keeps_intros)
  show "keeps I (UacStateTrying_recvResponse_final resp)"
    by (auto simp: UacStateTrying_recvResponse_final_def intro!: keeps_intros f split: option.split)
qed

lemma keeps_Uac_recvResponse [keeps_intros]: "keeps I inner \<Longrightarrow> keeps I (Uac_recvResponse inner resp)"
  by (auto simp: Uac_recvResponse_def Let_def intro!: keeps_intros split: exn.split)

lemma keeps_Uac_responses [keeps_intros]:
  "keeps I (UacStateTrying_recvResponse resp t)" "keeps I (UacStateRinging_recvResponse resp t)"
  by (auto simp: UacStateTrying_recvResponse_def UacStateTrying_recvResponse_body_def UacStateRinging_recvResponse_def
      UacStateRinging_recvResponse_body_def core_def cls_def Let_def intro!: keeps_intros split: option.split)

lemma keeps_UacStateUpdating_response [keeps_intros]:
  "keeps I (UacStateUpdating_updateFailed e br dr)" "keeps I (UacStateUpdating_recvResponse es resp)"
proof -
  show f: "keeps I (UacStateUpdating_updateFailed e br dr)" for e br dr
    by (auto simp: UacStateUpdating_updateFailed_def intro!: keeps_intros)
  show "keeps I (UacStateUpdating_recvResponse es resp)"
    by (auto simp: UacStateUpdating_recvResponse_def UacStateUpdating_badSdp_def core_def cls_def Let_def
        intro!: keeps_intros f split: option.split sdp_hook.split exn.split)
qed

lemma keeps_processChallenge [keeps_intros]: "keeps I (processChallenge resp n ch ah eh)"
  by (auto simp: processChallenge_def core_def cls_def intro!: keeps_intros split: option.split)

lemma keeps_state_recvResponse [keeps_intros]: "keeps I (state_recvResponse es st resp t)"
  by (auto simp: state_recvResponse_def UacStateCancelling_recvResponse_def core_def cls_def Let_def
      intro!: keeps_intros split: ua_class.split option.split)

subsection \<open>Other methods of the state classes\<close>

lemma keeps_recvACK [keeps_intros]: "keeps I (UaStateConnected_recvACK req)"
  by (auto simp: UaStateConnected_recvACK_def core_def cls_def intro!: keeps_intros split: option.split)

lemma keeps_keepAlive [keeps_intros]: "keeps I (UaStateConnected_keepAlive i)" "keeps I UaStateConnected_rComplete"
  by (auto simp: UaStateConnected_keepAlive_def UaStateConnected_rComplete_def Let_def intro!: keeps_intros)

lemma keeps_onStateChange [keeps_intros]: "keeps I (onStateChange st)"
  by (auto simp: onStateChange_def core_def cls_def intro!: keeps_intros split: option.split)

end

subsection \<open>The entry points\<close>

text \<open>In addition, the predicate is kept by a change of the state.\<close>

locale ua_invariant = ua_code +
  assumes I_dead: "I s \<Longrightarrow> I (s\<lparr>event_cb := False\<rparr>)"
    and I_end_cb: "I s \<Longrightarrow> is_end_cb a \<Longrightarrow> I (s\<lparr>trace := trace s @ [a]\<rparr>)"
    and I_enter: "I s \<Longrightarrow> I (s\<lparr>state := Some st\<rparr>)"
    and I_start_any: "I s \<Longrightarrow> I (s\<lparr>timers := timers s @ [tm]\<rparr>)"
begin

lemma keeps_act_any [keeps_intros]: "\<not> is_emit a \<Longrightarrow> keeps I (act a)"
  unfolding act_def using I_act I_end_cb by (intro keeps_upd) blast

lemma keeps_run_cbs_any [keeps_intros]: "keeps I (run_cbs ck names a)"
  by (auto simp: run_cbs_def intro!: keeps_intros)

lemma keeps_enter [keeps_intros]: "keeps I (upd (\<lambda>s. s\<lparr>state := Some (f s)\<rparr>))"
  by (rule keeps_upd) (rule I_enter)

lemma keeps_start_any [keeps_intros]: "(\<And>i. keeps I (c i)) \<Longrightarrow> keeps I (start_timer k t c)"
  unfolding start_timer_def by (intro keeps_new_id keeps_block_Cons keeps_block_Nil keeps_upd I_start_any) auto

lemma keeps_initDead [keeps_intros]: "keeps I initDead"
proof -
  let ?f = "\<lambda>s :: ua. s\<lparr>tr := None, event_cb := False, conn_cbs := [], disc_cbs := [], fail_cbs := [],
       on_local_sdp_change := None, on_remote_sdp_change := None, expire_timer := None,
       no_progress_timer := None, credit_timer := None, reqs := None\<rparr>"
  have "I s \<Longrightarrow> I (?f s)" for s
    by (rule frame [of "s\<lparr>event_cb := False\<rparr>"]) (auto simp: core_def cls_def intro: I_dead)
  then have f: "keeps I (upd ?f)" by (rule keeps_upd)
  show ?thesis unfolding initDead_def
    by (intro keeps_block_Cons keeps_block_Nil keeps_local f)
       (auto simp: core_def cls_def intro!: keeps_intros split: option.split)
qed

lemma keeps_changeState [keeps_intros]: "keeps I (changeState ns)" "keeps I (change_if ns)"
  by (auto simp: changeState_def change_if_def enterState_def core_def cls_def
      intro!: keeps_intros split: option.split newstate.split ua_class.split)

lemma keeps_UA_recvEvent [keeps_intros]: "keeps I (UA_recvEvent es e)" "keeps I (UA_disconnect es rt o')"
proof -
  show e: "keeps I (UA_recvEvent es e)" for e by (auto simp: UA_recvEvent_def intro!: keeps_intros)
  show "keeps I (UA_disconnect es rt o')" by (auto simp: UA_disconnect_def intro!: keeps_intros e)
qed

lemma keeps_state_recvRequest [keeps_intros]: "keeps I (state_recvRequest es c req)"
proof -
  have "keeps I (UaStateConnected_recvRequestRefer es req)"
    by (auto simp: UaStateConnected_recvRequestRefer_def intro!: keeps_intros)
  then have "keeps I (UaStateConnected_recvRequest es req)" by (rule keeps_Connected_recvRequest)
  then show ?thesis
    by (auto simp: state_recvRequest_def intro!: keeps_intros split: ua_class.split)
qed

lemma keeps_UA_recvRequest [keeps_intros]: "keeps I (UA_recvRequest es req)"
  unfolding UA_recvRequest_def
  by (intro keeps_block_Cons keeps_block_Nil keeps_newer_request)
     (auto simp: core_def cls_def intro!: keeps_intros)

lemma keeps_UA_recvResponse [keeps_intros]: "keeps I (UA_recvResponse es resp t)"
  by (auto simp: UA_recvResponse_def core_def cls_def intro!: keeps_intros)

lemma keeps_UA_recvACK [keeps_intros]: "keeps I (UA_recvACK req)"
  by (auto simp: UA_recvACK_def core_def cls_def intro!: keeps_intros split: option.split)

lemma keeps_state_cancel [keeps_intros]: "keeps I (state_cancel c rt r)"
  by (auto simp: state_cancel_def UasStateProgressing_cancel_def UasStateUpdating_cancel_def
      intro!: keeps_intros split: ua_class.split)

lemma keeps_keepAliveResp [keeps_intros]: "keeps I (UaStateConnected_keepAliveResp es i resp)"
  by (auto simp: UaStateConnected_keepAliveResp_def Let_def
      intro!: keeps_intros)

lemma keeps_fire_timer [keeps_intros]: "keeps I (fire_timer es t)"
  by (auto simp: fire_timer_def goDead_def UacStateCancelling_goIdle_def core_def cls_def intro!: keeps_intros split: timer_kind.split)

lemma keeps_delayed [keeps_intros]: "keeps I (delayed_remote_sdp_update es e r)" "keeps I (delayed_local_sdp_update es e r)"
  by (auto simp: delayed_remote_sdp_update_def delayed_local_sdp_update_def fail_of_exn_def
      intro!: keeps_intros split: sum.split exn.split)

lemma keeps_resetCreditTime [keeps_intros]: "keeps I (resetCreditTime rt new)"
  by (auto simp: resetCreditTime_def core_def cls_def intro!: keeps_intros)

lemma I_step: "ua_step es s t \<Longrightarrow> I s \<Longrightarrow> I t"
proof (induct rule: ua_step.induct)
  case (step_clock s x)
  then show ?case using frame [of s "s\<lparr>now := x\<rparr>"] by (simp add: core_def cls_def)
next
  case (step_others s n)
  then show ?case using frame [of s "s\<lparr>cc_seq := n\<rparr>"] by (simp add: core_def cls_def)
qed (erule keepsD [rotated], rule keeps_intros)+

end

subsection \<open>The order of the events\<close>

text \<open>The events handed to \<^verbatim>\<open>event_cb\<close>, in order.\<close>

definition emitted :: "ua \<Rightarrow> cc_event list" where
  "emitted s = List.map_filter (\<lambda>a. case a of A_Emit e \<Rightarrow> Some e | _ \<Rightarrow> None) (trace s)"

definition emit_ordered :: "ua \<Rightarrow> bool" where
  "emit_ordered s \<longleftrightarrow> sorted_wrt (<) (map eseq (emitted s)) \<and>
     (\<forall>e \<in> set (emitted s). case elast_seq s of None \<Rightarrow> False | Some n \<Rightarrow> eseq e \<le> n)"

lemma emitted_act: "\<not> is_emit a \<Longrightarrow> emitted (s\<lparr>trace := trace s @ [a]\<rparr>) = emitted s"
  by (cases a) (simp_all add: emitted_def List.map_filter_def)

lemma emitted_emit: "emitted (s\<lparr>elast_seq := x, trace := trace s @ [A_Emit e]\<rparr>) = emitted s @ [e]"
  by (simp add: emitted_def List.map_filter_def)

lemma end_cb_not_emit: "is_end_cb a \<Longrightarrow> \<not> is_emit a"
  by (cases a) auto

lemma emit_ordered_cong:
  "trace s = trace t \<Longrightarrow> elast_seq s = elast_seq t \<Longrightarrow> emit_ordered s = emit_ordered t"
  by (simp add: emit_ordered_def emitted_def)

lemma emit_ordered_emit: "emit_ordered s \<Longrightarrow> newer e s \<Longrightarrow>
    emit_ordered (s\<lparr>elast_seq := Some (eseq e), trace := trace s @ [A_Emit e]\<rparr>)"
  by (force simp: emit_ordered_def emitted_emit newer_def sorted_wrt_append split: option.splits)

lemma emit_ordered_simps [simp]:
  "\<not> is_emit a \<Longrightarrow> emit_ordered (s\<lparr>trace := trace s @ [a]\<rparr>) = emit_ordered s"
  "emit_ordered (s\<lparr>disconnect_ts := x\<rparr>) = emit_ordered s" "emit_ordered (s\<lparr>event_cb := b\<rparr>) = emit_ordered s"
  "emit_ordered (s\<lparr>state := st\<rparr>) = emit_ordered s" "emit_ordered (s\<lparr>rCSeq := m\<rparr>) = emit_ordered s" "emit_ordered (s\<lparr>timers := tms\<rparr>) = emit_ordered s"
  by (simp_all add: emit_ordered_def emitted_act) (simp_all add: emitted_def)

interpretation emit_order: ua_invariant emit_ordered
proof
  fix s t :: ua
  show "core s = core t \<Longrightarrow> emit_ordered s \<Longrightarrow> emit_ordered t"
    using emit_ordered_cong [of s t] by (simp add: core_def)
qed (simp_all add: emit_ordered_emit end_cb_not_emit)

interpretation emit_steps: step_invariant ua_initial "ua_step es" emit_ordered
proof
  show "ua_initial s \<Longrightarrow> emit_ordered s" for s
    by (simp add: ua_initial_def emit_ordered_def emitted_def List.map_filter_def)
qed (rule emit_order.I_step)

subsection \<open>The time of disconnection stays\<close>

definition disced :: "ua \<Rightarrow> bool" where
  "disced s \<longleftrightarrow> disconnect_ts s \<noteq> None"

interpretation disc_set: ua_invariant disced
  by unfold_locales (auto simp: core_def cls_def disced_def)

subsection \<open>The record of effects grows\<close>

interpretation trace_grows: ua_invariant "\<lambda>s. prefix tr0 (trace s)"
  by unfold_locales (auto simp: core_def cls_def prefix_def)

subsection \<open>Nothing is emitted without a callback\<close>

interpretation silent: ua_invariant "\<lambda>s. \<not> event_cb s \<and> emitted s = es0"
  by unfold_locales (auto simp: core_def emitted_act end_cb_not_emit, (simp add: emitted_def)+)

subsection \<open>The sequence number of the peer\<close>

definition rcseq_from :: "int \<Rightarrow> ua \<Rightarrow> bool" where
  "rcseq_from n s \<longleftrightarrow> (\<exists>m. rCSeq s = Some m \<and> n \<le> m)"

interpretation rcseq: ua_invariant "rcseq_from n"
  by unfold_locales (auto simp: core_def rcseq_from_def)

end
