(* ===== verification/UA_Fsm.thy ===== *)
theory UA_Fsm
  imports UA_Inv
begin

text \<open>
  The life of a user agent. \<open>fsm\<close> is the abstract state machine, an edge for each change of
  state that a method of the state classes asks for; \<open>life\<close> is the invariant that relates
  the state, the time of disconnection, the timers and the callbacks that report the end of
  the call. \<open>handles\<close> is the contract of a method of a state class; every method meets it,
  and from this every entry point keeps \<open>life\<close> and moves along edges of \<open>fsm\<close> only.
\<close>

section \<open>The abstract machine\<close>

fun ended :: "ua_class \<Rightarrow> bool" where
  "ended UacStateCancelling = True"
| "ended UaStateFailed = True"
| "ended UaStateDisconnected = True"
| "ended UaStateDead = True"
| "ended _ = False"

fun targets :: "ua_class \<Rightarrow> ua_class set" where
  "targets UasStateIdle = {UasStateTrying}"
| "targets UasStateTrying = {UasStateRinging, UaStateConnected, UaStateFailed, UaStateDisconnected}"
| "targets UasStateRinging = {UaStateConnected, UaStateFailed, UaStateDisconnected}"
| "targets UasStateUpdating = {UaStateConnected, UaStateDisconnected}"
| "targets UacStateIdle = {UacStateTrying, UaStateDead}"
| "targets UacStateTrying = {UacStateRinging, UaStateConnected, UaStateFailed, UacStateCancelling}"
| "targets UacStateRinging = {UaStateConnected, UaStateFailed, UacStateCancelling}"
| "targets UacStateUpdating = {UaStateConnected, UaStateDisconnected}"
| "targets UaStateConnected = {UasStateUpdating, UacStateUpdating, UaStateDisconnected}"
| "targets UacStateCancelling = {UaStateDisconnected, UaStateDead}"
| "targets UaStateFailed = {UaStateDead}"
| "targets UaStateDisconnected = {UaStateDead}"
| "targets UaStateDead = {UaStateDead}"

text \<open>A machine without a state becomes a server or a client.\<close>

fun fsm :: "ua_class option \<Rightarrow> ua_class option \<Rightarrow> bool" where
  "fsm None (Some c) = (c \<in> {UasStateIdle, UacStateIdle})"
| "fsm (Some c) (Some d) = (d \<in> targets c)"
| "fsm _ None = False"

definition cls_ended :: "ua_class option \<Rightarrow> bool" where
  "cls_ended x = (case x of None \<Rightarrow> False | Some c \<Rightarrow> ended c)"

lemma targets_ended: "d \<in> targets c \<Longrightarrow> ended c \<Longrightarrow> ended d"
  by (cases c) auto

lemma fsm_ended: "fsm x y \<Longrightarrow> cls_ended x \<Longrightarrow> cls_ended y"
  by (cases x; cases y) (auto simp: cls_ended_def targets_ended)

lemma fsm_path_ended: "fsm\<^sup>*\<^sup>* x y \<Longrightarrow> cls_ended x \<Longrightarrow> cls_ended y"
  by (induction rule: rtranclp_induct) (auto intro: fsm_ended)

lemma fsm_path_dead: "fsm\<^sup>*\<^sup>* x y \<Longrightarrow> x = Some UaStateDead \<Longrightarrow> y = Some UaStateDead"
proof (induction rule: rtranclp_induct)
  case (step y z)
  then show ?case by (cases z) auto
qed simp

section \<open>The invariant\<close>

definition end_cbs :: "ua \<Rightarrow> action list" where
  "end_cbs s = filter is_end_cb (trace s)"

definition cb_batch :: "action list \<Rightarrow> bool" where
  "cb_batch as \<longleftrightarrow> (\<exists>k names x. as = map (\<lambda>n. A_Callback k n x) names)"

definition life :: "ua \<Rightarrow> bool" where
  "life s \<longleftrightarrow>
     ((\<exists>t \<in> set (timers s). dead_kind (tm_kind t)) \<longrightarrow> cls_ended (cls s)) \<and>
     (cls_ended (cls s) \<longrightarrow> disced s) \<and>
     (\<not> cls_ended (cls s) \<longrightarrow> end_cbs s = []) \<and>
     cb_batch (end_cbs s) \<and>
     (cls s = Some UaStateDead \<longrightarrow> \<not> event_cb s)"

text \<open>
  The invariant, a path of the abstract machine from the class of \<open>c0\<close>, and, where that class
  is one of an ended call, no more reports of the end than those of \<open>c0\<close>.
\<close>

datatype origin_point = Origin (o_cls: "ua_class option") (o_cbs: "action list")

definition lives :: "origin_point \<Rightarrow> ua \<Rightarrow> bool" where
  "lives c0 s \<longleftrightarrow> life s \<and> fsm\<^sup>*\<^sup>* (o_cls c0) (cls s) \<and> (cls_ended (o_cls c0) \<longrightarrow> end_cbs s = o_cbs c0)"

lemma end_cbs_simps [simp]:
  "\<not> is_end_cb a \<Longrightarrow> end_cbs (s\<lparr>trace := trace s @ [a]\<rparr>) = end_cbs s"
  "end_cbs (s\<lparr>elast_seq := x, trace := trace s @ [A_Emit e]\<rparr>) = end_cbs s"
  "end_cbs (s\<lparr>disconnect_ts := y\<rparr>) = end_cbs s" "end_cbs (s\<lparr>rCSeq := n\<rparr>) = end_cbs s" "end_cbs (s\<lparr>timers := z\<rparr>) = end_cbs s"
  by (simp_all add: end_cbs_def)

lemma cls_simps [simp]:
  "cls (s\<lparr>trace := a\<rparr>) = cls s" "cls (s\<lparr>disconnect_ts := y\<rparr>) = cls s" "cls (s\<lparr>timers := z\<rparr>) = cls s"
  "cls (s\<lparr>rCSeq := n\<rparr>) = cls s" "cls (s\<lparr>elast_seq := x\<rparr>) = cls s" "cls (s\<lparr>elast_seq := x, trace := a\<rparr>) = cls s"
  by (simp_all add: cls_def)

lemma life_cong: "core s = core t \<Longrightarrow> life s = life t"
  by (simp add: life_def core_def end_cbs_def disced_def)

interpretation lives: ua_code "lives c0"
proof
  fix s t :: ua
  show "core s = core t \<Longrightarrow> lives c0 s \<Longrightarrow> lives c0 t"
    using life_cong [of s t] by (simp add: lives_def core_def end_cbs_def)
qed (auto simp: lives_def life_def disced_def)

interpretation same_class: ua_code "\<lambda>s. cls s = c"
  by unfold_locales (simp_all add: core_def)

section \<open>The contract of a method of a state class\<close>

text \<open>The tuple names the callbacks that report the end of the call.\<close>

fun reports_end :: "(cb_kind \<times> string list \<times> cb_args) option \<Rightarrow> bool" where
  "reports_end (Some (CbDisc, _)) = True"
| "reports_end (Some (CbFail, _)) = True"
| "reports_end _ = False"

text \<open>
  What a method of class \<open>c\<close> may return in a state \<open>t\<close>: an edge of the machine, and the end of
  the call is reported exactly when this edge ends it, with the time already set.
\<close>

fun next_ok :: "ua_class \<Rightarrow> newstate \<Rightarrow> ua \<Rightarrow> bool" where
  "next_ok c (NS d cbs) t \<longleftrightarrow>
     d \<in> targets c \<and> (reports_end cbs \<longleftrightarrow> ended d \<and> \<not> ended c) \<and> (ended d \<and> \<not> ended c \<longrightarrow> disced t)"
| "next_ok c _ t \<longleftrightarrow> True"

definition handles :: "ua_class \<Rightarrow> (ua, newstate) stmt \<Rightarrow> bool" where
  "handles c h \<longleftrightarrow> (\<forall>c0. keeps (lives c0) h) \<and>
     returns (\<lambda>s. cls s = Some c) (\<lambda>ns t. ns = NS_None \<or> cls t = Some c \<and> next_ok c ns t) h"

subsection \<open>A change of state keeps the invariant\<close>

lemma wpc_act [simp]: "wpc (act a) N R X s = N (s\<lparr>trace := trace s @ [a]\<rparr>)"
  by (simp add: act_def)

lemma wpc_run_cbs [simp]: "wpc (run_cbs k ns x) N R X s = N (s\<lparr>trace := trace s @ map (\<lambda>n. A_Callback k n x) ns\<rparr>)"
  by (induction ns arbitrary: s) (simp_all add: run_cbs_def)

lemma wpc_new_id [simp]: "wpc (new_id c) N R X s = wpc (c (nid s)) N R X (s\<lparr>nid := Suc (nid s)\<rparr>)"
  by (simp add: wpc_def new_id_def)

lemma wpc_block_Nil_eta [simp]: "wpc (block []) N R X = N"
  by (rule ext) simp

lemma wpc_new_event:
  "wpc (new_event k d t o' c) N R X s = wpc (c (CCEvent k d t o' (cc_seq s))) N R X (s\<lparr>cc_seq := cc_seq s + 1\<rparr>)"
  by (simp add: wpc_def new_event_def)

lemma wpc_start_timer [simp]:
  "wpc (start_timer k t c) N R X s =
     wpc (c (nid s)) N R X (s\<lparr>nid := Suc (nid s), timers := timers s @ [\<lparr>tm_id = nid s, tm_kind = k, tm_at = t\<rparr>]\<rparr>)"
  by (simp add: start_timer_def)

text \<open>The core of the object after the constructor of a state.\<close>

definition entered :: "ua_class \<Rightarrow> ua \<Rightarrow> ua \<Rightarrow> bool" where
  "entered c s t \<longleftrightarrow> cls t = Some c \<and> end_cbs t = end_cbs s \<and> disced t = disced s \<and>
     (c = UaStateDead \<longrightarrow> \<not> event_cb t) \<and>
     ((\<exists>x \<in> set (timers t). dead_kind (tm_kind x)) \<longrightarrow> ended c \<or> (\<exists>x \<in> set (timers s). dead_kind (tm_kind x)))"

lemma initDead_entered:
  "wpc initDead (\<lambda>t. end_cbs t = end_cbs s \<and> disced t = disced s \<and> timers t = timers s \<and> \<not> event_cb t) (\<lambda>_ _. False) (\<lambda>_ _. False) s"
  by (auto simp: initDead_def end_cbs_def disced_def split: option.split)

lemma enterState_entered: "wpc (enterState c) (entered c s) (\<lambda>_ _. False) (\<lambda>_ _. False) s"
proof (cases "c = UaStateDead")
  case True
  have "wpc initDead (\<lambda>t. end_cbs t = end_cbs s \<and> disced t = disced s \<and> timers t = timers s \<and> \<not> event_cb t)
      (\<lambda>_ _. False) (\<lambda>_ _. False) (s\<lparr>nid := Suc (nid s)\<rparr>)"
    using initDead_entered [of "s\<lparr>nid := Suc (nid s)\<rparr>"] by (simp add: end_cbs_def disced_def)
  then have "wpc initDead (\<lambda>t. entered UaStateDead s (t\<lparr>state := Some (new_state UaStateDead (nid s))\<rparr>))
      (\<lambda>_ _. False) (\<lambda>_ _. False) (s\<lparr>nid := Suc (nid s)\<rparr>)"
    by (rule wpc_mono) (auto simp: entered_def end_cbs_def cls_def new_state_def disced_def)
  then show ?thesis by (simp add: enterState_def True) (erule wpc_mono; simp)
next
  case False
  then show ?thesis
    by (cases c) (auto simp: enterState_def entered_def end_cbs_def cls_def new_state_def disced_def)
qed

lemma entered_lives:
  assumes "entered d s t" "lives c0 s" "fsm (cls s) (Some d)" "ended d \<longrightarrow> disced s"
    "\<not> ended d \<longrightarrow> end_cbs s = []" and "cb_batch (end_cbs s)"
  shows "lives c0 t"
  using assms rtranclp.rtrancl_into_rtrancl [of fsm "o_cls c0" "cls s" "Some d"] fsm_ended [of "cls s" "Some d"]
  by (auto simp: lives_def life_def entered_def cls_ended_def)

text \<open>The callbacks of the tuple run after the new state is entered.\<close>

lemma reports_end_iff:
  "reports_end cbs \<longleftrightarrow> (\<exists>k names x. cbs = Some (k, names, x) \<and> (k = CbDisc \<or> k = CbFail))"
  by (cases cbs; auto) (metis (full_types) reports_end.simps(4,5,6) cb_kind.exhaust)

lemma end_cbs_run: "end_cbs (s\<lparr>trace := trace s @ map (\<lambda>n. A_Callback k n x) names\<rparr>) =
    end_cbs s @ (if k = CbDisc \<or> k = CbFail then map (\<lambda>n. A_Callback k n x) names else [])"
  by (cases k) (auto simp: end_cbs_def filter_map comp_def)

lemma lives_run:
  assumes "lives c0 t" "k = CbDisc \<or> k = CbFail \<Longrightarrow> cls_ended (cls t) \<and> \<not> cls_ended (o_cls c0) \<and> end_cbs t = []"
  shows "lives c0 (t\<lparr>trace := trace t @ map (\<lambda>n. A_Callback k n x) names\<rparr>)"
  using assms by (auto simp: lives_def life_def end_cbs_run cb_batch_def disced_def)

lemma cls_ended_Some [simp]: "cls_ended (Some c) = ended c"
  by (simp add: cls_ended_def)

definition enter_ok :: "ua_class \<Rightarrow> (cb_kind \<times> string list \<times> cb_args) option \<Rightarrow> ua \<Rightarrow> bool" where
  "enter_ok d cbs s \<longleftrightarrow> fsm (cls s) (Some d) \<and> (reports_end cbs \<longrightarrow> ended d \<and> \<not> cls_ended (cls s)) \<and>
     (ended d \<longrightarrow> disced s)"

lemma enterState_lives:
  assumes "lives c0 s" "enter_ok d cbs s"
  shows "wpc (enterState d) (\<lambda>t. lives c0 t \<and> cls t = Some d \<and> (reports_end cbs \<longrightarrow> ended d \<and> \<not> cls_ended (o_cls c0) \<and> end_cbs t = []))
    (\<lambda>_ _. False) (\<lambda>_ _. False) s"
proof (rule wpc_mono [OF enterState_entered])
  fix t
  assume e: "entered d s t"
  have "lives c0 t"
  proof (rule entered_lives)
    show "\<not> ended d \<longrightarrow> end_cbs s = []" "cb_batch (end_cbs s)"
      using assms fsm_ended [of "cls s" "Some d"] by (auto simp: enter_ok_def lives_def life_def)
  qed (use e assms in \<open>simp_all add: enter_ok_def\<close>)
  then show "lives c0 t \<and> cls t = Some d \<and> (reports_end cbs \<longrightarrow> ended d \<and> \<not> cls_ended (o_cls c0) \<and> end_cbs t = [])"
    using e assms fsm_path_ended [of "o_cls c0" "cls s"] by (auto simp: enter_ok_def lives_def life_def entered_def)
qed

lemma onStateChange_lives:
  assumes "lives c0 s" "enter_ok d cbs s"
  shows "wpc (onStateChange st) (\<lambda>t. lives c0 t \<and> enter_ok d cbs t)
    (\<lambda>_ t. lives c0 t \<and> enter_ok d cbs t) (\<lambda>_ t. lives c0 t \<and> enter_ok d cbs t) s"
proof -
  have "keeps (\<lambda>t. lives c0 t \<and> cls t = cls s \<and> (ended d \<longrightarrow> disced t)) (onStateChange st)"
  proof (intro keeps_conj)
    show "keeps (\<lambda>t. ended d \<longrightarrow> disced t) (onStateChange st)"
      using disc_set.keeps_onStateChange [of st] keeps_True by (cases "ended d") auto
  qed (rule lives.keeps_onStateChange same_class.keeps_onStateChange)+
  then have "wpc (onStateChange st) (\<lambda>t. lives c0 t \<and> cls t = cls s \<and> (ended d \<longrightarrow> disced t))
    (\<lambda>_ t. lives c0 t \<and> cls t = cls s \<and> (ended d \<longrightarrow> disced t))
    (\<lambda>_ t. lives c0 t \<and> cls t = cls s \<and> (ended d \<longrightarrow> disced t)) s"
    using assms by (auto simp: enter_ok_def intro: keepsW)
  then show ?thesis by (rule wpc_mono) (use assms in \<open>auto simp: enter_ok_def\<close>)
qed

lemma changeState_lives:
  assumes "lives c0 s" "enter_ok d cbs s"
  shows "lives c0 (out_state (changeState (NS d cbs) s))"
proof -
  have run: "wpc (case cbs of None \<Rightarrow> skip | Some (k, names, x) \<Rightarrow> run_cbs k names x) (lives c0) (\<lambda>_. lives c0) (\<lambda>_. lives c0) t"
    if "lives c0 t \<and> cls t = Some d \<and> (reports_end cbs \<longrightarrow> ended d \<and> \<not> cls_ended (o_cls c0) \<and> end_cbs t = [])" for t
    using that by (auto simp: reports_end_iff split: option.split intro!: lives_run)
  have enter: "wpc (block [enterState d, case cbs of None \<Rightarrow> skip | Some (k, names, x) \<Rightarrow> run_cbs k names x])
      (lives c0) (\<lambda>_. lives c0) (\<lambda>_. lives c0) t" if "lives c0 t" "enter_ok d cbs t" for t
    using enterState_lives [OF that] by (simp) (erule wpc_mono; simp add: run)
  have leave: "wpc (local state (\<lambda>st. case st of None \<Rightarrow> skip | Some x \<Rightarrow> onStateChange x))
      (\<lambda>t. lives c0 t \<and> enter_ok d cbs t) (\<lambda>_ t. lives c0 t \<and> enter_ok d cbs t) (\<lambda>_ t. lives c0 t \<and> enter_ok d cbs t) s"
    by (auto simp: assms intro!: onStateChange_lives split: option.split)
  show ?thesis
    unfolding out_state_wpc changeState_def newstate.case
    by (subst wpc_block_Cons) (rule wpc_mono [OF leave], blast intro: enter, blast+)
qed

lemma changeState_other: "lives c0 s \<Longrightarrow> (\<And>d cbs. ns \<noteq> NS d cbs) \<Longrightarrow> lives c0 (out_state (changeState ns s))"
proof -
  assume "lives c0 s" "\<And>d cbs. ns \<noteq> NS d cbs"
  moreover have "keeps (lives c0) (local state (\<lambda>st. case st of None \<Rightarrow> skip | Some x \<Rightarrow> onStateChange x) :: (ua, 'a) stmt)"
    by (auto intro!: keeps_intros split: option.split)
  ultimately show ?thesis
    by (cases ns) (auto simp: changeState_def intro!: keepsD [where I = "lives c0"] keeps_intros split: option.split)
qed

lemma change_if_lives:
  assumes "lives c0 t" "ns = NS_None \<or> cls t = Some c \<and> next_ok c ns t"
  shows "lives c0 (out_state (change_if ns t))"
proof (cases ns)
  case (NS d cbs)
  have "enter_ok d cbs t"
    using assms NS by (auto simp: enter_ok_def lives_def life_def targets_ended)
  then show ?thesis using assms NS by (simp add: change_if_def changeState_lives)
qed (use assms changeState_other in \<open>auto simp: change_if_def skip_def\<close>)

text \<open>The pattern of the entry points: call the method of the state, change the state, go on.\<close>

lemma keeps_dispatch:
  assumes h: "\<And>st. handles (st_class st) (h st)"
    and k: "\<And>ns t. lives c0 (out_state (change_if ns t :: (ua, 'r) outcome)) \<Longrightarrow> lives c0 t \<Longrightarrow> lives c0 (out_state (k ns t))"
  shows "keeps (lives c0) (fetch (\<lambda>s. attr (state s)) (\<lambda>st. call NS_None (h st) k) :: (ua, 'r) stmt)"
  unfolding keeps_def
proof (intro allI impI)
  fix s
  assume l: "lives c0 s"
  show "lives c0 (out_state (fetch (\<lambda>s. attr (state s)) (\<lambda>st. call NS_None (h st) k) s))"
  proof (cases "state s")
    case None
    then show ?thesis using l by (simp add: fetch_def attr_def)
  next
    case (Some st)
    have ht: "lives c0 (out_state (h st s))" using h [of st] l by (auto simp: handles_def keeps_def)
    show ?thesis
    proof (cases "h st s")
      case (Next t)
      then show ?thesis using ht k [of NS_None t] Some
        by (simp add: fetch_def attr_def call_def change_if_def skip_def)
    next
      case (Return ns t)
      have "ns = NS_None \<or> cls t = Some (st_class st) \<and> next_ok (st_class st) ns t"
        by (rule returnsD [OF conjunct2 [OF h [of st, unfolded handles_def]] _ Return]) (simp add: Some)
      then have "lives c0 (out_state (change_if ns t :: (ua, 'r) outcome))"
        using ht Return by (auto intro: change_if_lives)
      then show ?thesis using ht k [of ns t] Return Some by (simp add: fetch_def attr_def call_def)
    next
      case (Raise e t)
      then show ?thesis using ht Some by (simp add: fetch_def attr_def call_def)
    qed
  qed
qed

section \<open>Every method of the state classes meets the contract\<close>

text \<open>Operations that only go on with their continuation, or that do not return at all.\<close>

lemma returns_block_any [returns_intros]:
  "returns (\<lambda>_. True) R c \<Longrightarrow> returns (\<lambda>_. True) R (block cs) \<Longrightarrow> returns (\<lambda>_. True) R (block (c # cs))"
  by (rule returns_block_Cons [OF keeps_True])

lemma returns_call_any: "(\<And>v. returns (\<lambda>_. True) R (k v)) \<Longrightarrow> returns (\<lambda>_. True) R (call d m k)"
  by (rule returns_call [OF keeps_True])

lemma returns_block_disced [returns_intros]:
  "keeps disced c \<Longrightarrow> returns disced R c \<Longrightarrow> returns disced R (block cs) \<Longrightarrow> returns disced R (block (c # cs))"
  by (rule returns_block_Cons)

lemma returns_set_disconnect [returns_intros]:
  "returns disced R (block cs) \<Longrightarrow> returns (\<lambda>_. True) R (block (set_disconnect_ts f # cs))"
  by (auto simp: set_disconnect_ts_def disced_def returns_wpc wpc_def block.simps upd_def)

lemma returns_new [returns_intros]:
  "(\<And>e. returns (\<lambda>_. True) R (c e)) \<Longrightarrow> returns (\<lambda>_. True) R (new_event k d t o' c)"
  "(\<And>e. returns (\<lambda>_. True) R (c' e)) \<Longrightarrow> returns (\<lambda>_. True) R (new_token c')"
  "(\<And>e. returns (\<lambda>_. True) R (c'' e)) \<Longrightarrow> returns (\<lambda>_. True) R (new_id c'')"
  by (auto simp: returns_def new_event_def new_token_def new_id_def)

lemma returns_new_event_disced [returns_intros]:
  "(\<And>e. returns disced R (c e)) \<Longrightarrow> returns disced R (new_event k d t o' c)"
  by (auto simp: new_event_def disced_def returns_wpc wpc_def)

lemma returns_ops [returns_intros]:
  "returns D R (act a)" "returns D R (stop_timer i)" "returns D R (cancel_opt x)" "returns D R (append_event e)"
  "returns D R (set_disconnect_ts f)" "returns D R (set_state g)"
  by (auto simp: act_def stop_timer_def cancel_opt_def append_event_def set_disconnect_ts_def set_state_def
      intro!: returns_intros split: option.split)

lemma returns_run_cbs [returns_intros]: "returns (\<lambda>_. True) R (run_cbs k n a)"
  unfolding run_cbs_def by (intro returns_foreach keeps_True returns_ops)

lemma returns_start_timer [returns_intros]:
  "(\<And>i. returns (\<lambda>_. True) R (c i)) \<Longrightarrow> returns (\<lambda>_. True) R (start_timer k t c)"
  by (auto simp: start_timer_def intro!: returns_intros)

lemma returns_ops2 [returns_intros]:
  "returns (\<lambda>_. True) R cancelCreditTimer" "returns (\<lambda>_. True) R (startCreditTimer t)"
  "(\<And>i. returns (\<lambda>_. True) R (c i)) \<Longrightarrow> returns (\<lambda>_. True) R (newTransaction req cb eh c)"
  "returns (\<lambda>_. True) R (cancelTransaction x eh)"
  by (auto simp: cancelCreditTimer_def startCreditTimer_def newTransaction_def cancelTransaction_def
      intro!: returns_intros split: option.split)

lemma returns_genRequest [returns_intros]:
  "(\<And>r. returns (\<lambda>_. True) R (c r)) \<Longrightarrow> returns (\<lambda>_. True) R (genRequest m b q eh mf c)"
  by (auto simp: genRequest_def intro!: returns_intros)

lemma returns_requests [returns_intros]: "returns (\<lambda>_. True) R (newUacTransaction req eh)" "returns (\<lambda>_. True) R (send_bye eh)"
  "returns (\<lambda>_. True) R (sendUasResponse code rs b cs eh aw)" "returns (\<lambda>_. True) R (req_sendResponse n rs req)"
  by (auto simp: newUacTransaction_def send_bye_def sendUasResponse_def req_sendResponse_def
      intro!: returns_intros split: ev_code.split)

lemma returns_timers [returns_intros]:
  "returns (\<lambda>_. True) R clear_expire_timer" "returns (\<lambda>_. True) R clear_no_progress_timer"
  "returns (\<lambda>_. True) R clear_no_reply_timer" "returns (\<lambda>_. True) R start_expire_timer"
  "returns (\<lambda>_. True) R start_no_progress_timer"
  by (auto simp: clear_expire_timer_def clear_no_progress_timer_def clear_no_reply_timer_def start_expire_timer_def
      start_no_progress_timer_def start_at_def intro!: returns_intros)

lemma returns_hooks [returns_intros]: "returns (\<lambda>_. True) R (local_hook e b)" "returns (\<lambda>_. True) R (set_rSDP b)"
  "returns (\<lambda>_. True) R d \<Longrightarrow> (\<And>e. returns (\<lambda>_. True) R (c e)) \<Longrightarrow> returns (\<lambda>_. True) R (remote_sdp bd e d c)"
  by (auto simp: local_hook_def set_rSDP_def remote_sdp_def intro!: returns_intros split: option.split sdp_hook.split)

lemma returns_disc_state [returns_intros]:
  "d \<in> targets c \<Longrightarrow> ended d \<Longrightarrow> \<not> ended c \<Longrightarrow> returns disced (next_ok c) (disc_state d rt o' code)"
  "UaStateFailed \<in> targets c \<Longrightarrow> \<not> ended c \<Longrightarrow> returns disced (next_ok c) (fail_state rt o' code)"
  "UaStateConnected \<in> targets c \<Longrightarrow> returns (\<lambda>_. True) (next_ok c) (conn_state rt o')"
  by (auto simp: disc_state_def fail_state_def conn_state_def intro!: returns_intros)

subsection \<open>Events\<close>

lemma next_None: "next_ok c NS_None t"
  by simp

text \<open>A method that calls the inherited one, tidies up and returns the same result.\<close>

lemma keeps_next_ok: "keeps disced c \<Longrightarrow> keeps (next_ok k r) c"
  by (cases r) (auto simp: keeps_def)

lemma returns_inherited [returns_intros]:
  assumes m: "returns (\<lambda>_. True) (next_ok k) m" and c: "\<And>r. keeps disced (c r)" "\<And>r R. returns (\<lambda>_. True) R (c r)"
  shows "returns (\<lambda>_. True) (next_ok k) (call NS_None m (\<lambda>r. block [c r, ret r]))"
proof (rule returns_call_post [OF m])
  fix r
  have "returns (next_ok k r) (next_ok k) (c r)" using c(2) [of "next_ok k" r] by (auto simp: returns_def)
  then show "returns (next_ok k r) (next_ok k) (block [c r, ret r])"
    by (intro returns_block_Cons returns_intros keeps_next_ok keeps_intros c)
qed simp

lemma returns_Progressing [returns_intros]:
  assumes "UaStateConnected \<in> targets c" "UaStateFailed \<in> targets c" "UaStateDisconnected \<in> targets c" "\<not> ended c"
  shows "returns (\<lambda>_. True) (next_ok c) (UasStateProgressing_recvEventConnect e eh)"
    "returns (\<lambda>_. True) (next_ok c) (UasStateProgressing_recvEventPreConnect e eh)"
    "returns (\<lambda>_. True) (next_ok c) (UasStateProgressing_recvEventRedirect e eh)"
    "returns (\<lambda>_. True) (next_ok c) (UasStateProgressing_recvEventFail e eh)"
    "returns (\<lambda>_. True) (next_ok c) (UasStateProgressing_recvEventDisconnect e eh)"
  using assms
  by (auto simp: UasStateProgressing_recvEventConnect_def UasStateProgressing_recvEventPreConnect_def
      UasStateProgressing_recvEventRedirect_def UasStateProgressing_recvEventFail_def UasStateProgressing_recvEventDisconnect_def
      intro!: returns_intros returns_call_any keeps_intros split: option.split)

lemma returns_Trying_inherited [returns_intros]:
  "returns (\<lambda>_. True) (next_ok UasStateTrying) (UasStateTrying_recvEventConnect e eh)"
  "returns (\<lambda>_. True) (next_ok UasStateTrying) (UasStateTrying_recvEventPreConnect e eh)"
  "returns (\<lambda>_. True) (next_ok UasStateTrying) (UasStateTrying_recvEventRedirect e eh)"
  "returns (\<lambda>_. True) (next_ok UasStateTrying) (UasStateTrying_recvEventFail e eh)"
  "returns (\<lambda>_. True) (next_ok UasStateTrying) (UasStateTrying_recvEventDisconnect e eh)"
  unfolding UasStateTrying_recvEventConnect_def UasStateTrying_recvEventPreConnect_def UasStateTrying_recvEventRedirect_def
    UasStateTrying_recvEventFail_def UasStateTrying_recvEventDisconnect_def
  by (rule returns_inherited; auto intro!: returns_intros keeps_intros)+

lemma returns_UasStateTrying: "returns (\<lambda>_. True) (next_ok UasStateTrying) (UasStateTrying_recvEvent e)"
  by (auto simp: UasStateTrying_recvEvent_def UasStateTrying_recvEventRing_def Let_def
      intro!: returns_intros returns_call_any split: ev_kind.split option.split)

lemma returns_UasStateRinging: "returns (\<lambda>_. True) (next_ok UasStateRinging) (UasStateRinging_recvEvent e)"
  by (auto simp: UasStateRinging_recvEvent_def UasStateRinging_recvEventRing_def Let_def
      intro!: returns_intros returns_call_any split: ev_kind.split option.split)

lemma returns_UasStateUpdating: "returns (\<lambda>_. True) (next_ok UasStateUpdating) (UasStateUpdating_recvEvent e)"
  by (auto simp: UasStateUpdating_recvEvent_def UasStateUpdating_recvEventConnect_def UasStateUpdating_recvEventFail_def
      UasStateUpdating_recvEventDisconnect_def Let_def
      intro!: returns_intros returns_call_any keeps_intros split: ev_kind.split option.split)

lemma returns_UacStateIdle: "returns (\<lambda>_. True) (next_ok UacStateIdle) (UacStateIdle_recvEvent e)"
  by (auto simp: UacStateIdle_recvEvent_def UacStateIdle_recvEventTry_def UacStateIdle_setup_def UacStateIdle_start_timers_def Let_def
      intro!: returns_intros keeps_intros split: option.split)

lemma returns_Uac_events:
  "returns (\<lambda>_. True) (next_ok UacStateTrying) (UacStateTrying_recvEvent e)"
  "returns (\<lambda>_. True) (next_ok UacStateRinging) (UacStateRinging_recvEvent e)"
  "returns (\<lambda>_. True) (next_ok UacStateUpdating) (UacStateUpdating_recvEvent e)"
  by (auto simp: UacStateTrying_recvEvent_def UacStateRinging_recvEvent_def UacStateUpdating_recvEvent_def
      intro!: returns_intros keeps_intros)

lemma returns_UaStateConnected: "returns (\<lambda>_. True) (next_ok UaStateConnected) (UaStateConnected_recvEvent es e)"
  by (auto simp: UaStateConnected_recvEvent_def UaStateConnected_disconnectFailRedirect_def UaStateConnected_recvEventUpdate_def
      UaStateConnected_recvEventInfo_def UaStateConnected_recvEventConnect_def Let_def
      intro!: returns_intros returns_try_catch keeps_intros keeps_True split: ev_kind.split option.split exn.split)

lemma handlesI:
  "returns (\<lambda>_. True) (next_ok c) h \<Longrightarrow> keeps (\<lambda>s. cls s = Some c) h \<Longrightarrow> (\<And>c0. keeps (lives c0) h) \<Longrightarrow> handles c h"
  unfolding handles_def by (auto dest!: returns_conj_keeps elim!: returns_weaken)

lemma handles_events: "handles c (state_recvEvent es c e)"
proof (rule handlesI)
  show "returns (\<lambda>_. True) (next_ok c) (state_recvEvent es c e)"
    by (cases c) (auto simp: state_recvEvent_def returns_UasStateTrying returns_UasStateRinging returns_UasStateUpdating
        returns_UacStateIdle returns_Uac_events returns_UaStateConnected intro!: returns_intros)
qed (rule keeps_intros)+

subsection \<open>Responses\<close>

lemma returns_routes [returns_intros]: "returns (\<lambda>_. True) R (apply_routes rts)" "returns (\<lambda>_. True) R (UacStateTrying_updateRoutes resp)"
  by (auto simp: apply_routes_def UacStateTrying_updateRoutes_def intro!: returns_intros split: list.split)

lemma returns_Uac_shared [returns_intros]:
  assumes "UaStateConnected \<in> targets c" "UaStateFailed \<in> targets c" "\<not> ended c"
  shows "returns (\<lambda>_. True) (next_ok c) (Uac_recv2xx resp t)"
    "returns (\<lambda>_. True) (next_ok c) (Uac_failed resp e)"
    "returns (\<lambda>_. True) (next_ok c) inner \<Longrightarrow> returns (\<lambda>_. True) (next_ok c) (Uac_recvResponse inner resp)"
  using assms
  by (auto simp: Uac_recv2xx_def Uac_failed_def Uac_recvResponse_def Let_def
      intro!: returns_intros returns_try_catch keeps_intros keeps_True split: option.split exn.split)

lemma returns_UacStateTrying_resp:
  "returns (\<lambda>_. True) (next_ok UacStateTrying) (UacStateTrying_recvResponse resp t)"
  by (auto simp: UacStateTrying_recvResponse_def UacStateTrying_recvResponse_body_def UacStateTrying_recvResponse_final_def Let_def
      intro!: returns_intros keeps_intros split: option.split)

lemma returns_UacStateRinging_resp:
  "returns (\<lambda>_. True) (next_ok UacStateRinging) (UacStateRinging_recvResponse resp t)"
  by (auto simp: UacStateRinging_recvResponse_def UacStateRinging_recvResponse_body_def Let_def
      intro!: returns_intros keeps_intros split: option.split)

lemma returns_updateFailed [returns_intros]:
  "returns (\<lambda>_. True) (next_ok UacStateUpdating) (UacStateUpdating_updateFailed e br dr)"
  by (auto simp: UacStateUpdating_updateFailed_def intro!: returns_intros keeps_intros)

lemma returns_UacStateUpdating_resp:
  "returns (\<lambda>_. True) (next_ok UacStateUpdating) (UacStateUpdating_recvResponse es resp)"
  by (auto simp: UacStateUpdating_recvResponse_def UacStateUpdating_badSdp_def Let_def
      intro!: returns_intros split: option.split sdp_hook.split exn.split)

lemma returns_UacStateCancelling_resp:
  "returns (\<lambda>_. True) (next_ok UacStateCancelling) (UacStateCancelling_recvResponse st resp)"
  by (auto simp: UacStateCancelling_recvResponse_def Let_def intro!: returns_intros split: option.split)

lemma handles_responses: "handles (st_class st) (state_recvResponse es st resp t)"
proof (rule handlesI)
  show "returns (\<lambda>_. True) (next_ok (st_class st)) (state_recvResponse es st resp t)"
    by (cases "st_class st") (auto simp: state_recvResponse_def returns_UacStateTrying_resp returns_UacStateRinging_resp
        returns_UacStateUpdating_resp returns_UacStateCancelling_resp intro!: returns_intros)
qed (rule keeps_intros)+

section \<open>Every entry point keeps the invariant and follows the machine\<close>

lemma keeps_become:
  assumes "d \<in> {UasStateIdle, UacStateIdle}"
  shows "keeps (lives c0) (if_then (\<lambda>s. state s = None) (if b then changeState (NS d None) else ret v))"
proof -
  have "enter_ok d None s" if "state s = None" for s using that assms by (auto simp: enter_ok_def cls_def)
  then show ?thesis
    by (auto simp: keeps_def if_then_def if_else_def skip_def ret_def intro: changeState_lives)
qed

lemma dispatch_simple: "(\<And>st. handles (st_class st) (h st)) \<Longrightarrow>
    keeps (lives c0) (fetch (\<lambda>s. attr (state s)) (\<lambda>st. call NS_None (h st) change_if))"
  by (rule keeps_dispatch) simp_all

lemma lives_UA_recvEvent: "keeps (lives c0) (UA_recvEvent es e)"
  unfolding UA_recvEvent_def
  by (intro keeps_block_Cons keeps_block_Nil keeps_become dispatch_simple handles_events lives.keeps_emitPendingEvents) simp

lemma lives_UA_disconnect: "keeps (lives c0) (UA_disconnect es rt o')"
  by (auto simp: UA_disconnect_def intro!: keeps_intros lives_UA_recvEvent)

subsection \<open>Requests\<close>

lemma returns_fromRequest [returns_intros]:
  "UaStateDisconnected \<in> targets c \<Longrightarrow> \<not> ended c \<Longrightarrow> returns (\<lambda>_. True) (next_ok c) (disconnectFromRequest req also b)"
  by (auto simp: disconnectFromRequest_def intro!: returns_intros keeps_intros)

lemma returns_UasStateIdle: "returns (\<lambda>_. True) (next_ok UasStateIdle) (UasStateIdle_recvRequest req)"
  by (auto simp: UasStateIdle_recvRequest_def UasStateIdle_setup_def UasStateIdle_start_timers_def
      intro!: returns_intros split: option.split)

lemma returns_requests2:
  "returns (\<lambda>_. True) (next_ok UasStateRinging) (UasStateRinging_recvRequestBye req)"
  "returns (\<lambda>_. True) (next_ok UasStateUpdating) (UasStateUpdating_recvRequest req)"
  "returns (\<lambda>_. True) (next_ok UacStateUpdating) (UacStateUpdating_recvRequest req)"
  "returns (\<lambda>_. True) (next_ok UaStateConnected) (UaStateConnected_recvRequestInvite req)"
  "returns (\<lambda>_. True) (next_ok UaStateDisconnected) (UaStateDisconnected_recvRequest req)"
  by (auto simp: UasStateRinging_recvRequestBye_def UasStateUpdating_recvRequest_def UacStateUpdating_recvRequest_def
      UaStateConnected_recvRequestInvite_def UaStateDisconnected_recvRequest_def intro!: returns_intros)

text \<open>REFER sends the user agent itself an event, and returns no state.\<close>

lemma handles_refer: "handles UaStateConnected (UaStateConnected_recvRequestRefer es req)"
  unfolding handles_def
proof (intro conjI allI)
  show "keeps (lives c0) (UaStateConnected_recvRequestRefer es req)" for c0
    by (auto simp: UaStateConnected_recvRequestRefer_def intro!: keeps_intros lives_UA_recvEvent)
  have "returns (\<lambda>_. True) (\<lambda>ns t. ns = NS_None) (UaStateConnected_recvRequestRefer es req)"
    by (auto simp: UaStateConnected_recvRequestRefer_def intro!: returns_intros returns_call_any)
  then show "returns (\<lambda>s. cls s = Some UaStateConnected)
      (\<lambda>ns t. ns = NS_None \<or> cls t = Some UaStateConnected \<and> next_ok UaStateConnected ns t)
      (UaStateConnected_recvRequestRefer es req)"
    by (auto simp: returns_def)
qed

lemma handles_Connected_other:
  "rmethod req \<noteq> ''REFER'' \<Longrightarrow> handles UaStateConnected (UaStateConnected_recvRequest es req)"
  by (rule handlesI) (auto simp: UaStateConnected_recvRequest_def intro!: returns_intros returns_requests2 keeps_intros)

lemma handles_requests: "handles c (state_recvRequest es c req)"
proof (cases "c = UaStateConnected")
  case True
  then show ?thesis using handles_refer [of es req] handles_Connected_other [of req es]
    by (cases "rmethod req = ''REFER''") (simp_all add: state_recvRequest_def, simp add: UaStateConnected_recvRequest_def)
next
  case False
  then show ?thesis
    by (intro handlesI; cases c)
       (auto simp: state_recvRequest_def returns_UasStateIdle returns_requests2 intro!: returns_intros keeps_intros)
qed

lemma lives_UA_recvRequest: "keeps (lives c0) (UA_recvRequest es req)"
proof -
  have d: "keeps (lives c0) (fetch (\<lambda>s. attr (state s)) (\<lambda>st. call NS_None (state_recvRequest es (st_class st) req)
      (\<lambda>ns. block [change_if ns, emitPendingEvents, ret (f ns)])) :: (ua, req_result) stmt)" for f
  proof (rule keeps_dispatch)
    fix ns t
    assume l: "lives c0 (out_state (change_if ns t :: (ua, req_result) outcome))"
    have "keeps (lives c0) (block [emitPendingEvents, ret (f ns)] :: (ua, req_result) stmt)"
      by (intro keeps_intros)
    then show "lives c0 (out_state (block [change_if ns, emitPendingEvents, ret (f ns)] t :: (ua, req_result) outcome))"
      using l by (subst block.simps(2)) (auto split: outcome.splits simp: keeps_def)
  qed (rule handles_requests)
  show ?thesis unfolding UA_recvRequest_def
    by (intro keeps_block_Cons keeps_block_Nil lives.keeps_newer_request keeps_if_then lives.keeps_routes keeps_become d) simp
qed

subsection \<open>The other entry points\<close>

lemma lives_UA_recvResponse: "keeps (lives c0) (UA_recvResponse es resp t)"
  unfolding UA_recvResponse_def
  by (intro keeps_block_Cons keeps_block_Nil keeps_if_then keeps_ret keeps_fetch keeps_local keeps_call dispatch_simple
        handles_responses lives.keeps_emitPendingEvents lives.keeps_routes lives.keeps_processChallenge)
     (auto intro!: keeps_intros dispatch_simple handles_responses simp: core_def cls_def split: prod.split)

lemma lives_UA_recvACK: "keeps (lives c0) (UA_recvACK req)"
proof -
  have "returns (\<lambda>_. True) (\<lambda>ns t. ns = NS_None) (UaStateConnected_recvACK req)"
    by (auto simp: UaStateConnected_recvACK_def intro!: returns_intros split: option.split)
  then have "keeps (lives c0) (call NS_None (UaStateConnected_recvACK req) change_if :: (ua, unit) stmt)"
    using lives.keeps_recvACK [of c0 req]
    by (auto simp: keeps_def returns_def call_def change_if_def skip_def split: outcome.split)
  then show ?thesis unfolding UA_recvACK_def
    by (auto intro!: keeps_intros split: option.split)
qed

lemma block_from:
  assumes "keeps P c" "\<And>s. P s \<Longrightarrow> L s" "\<And>s. P s \<Longrightarrow> L (out_state (block cs s))" "P s"
  shows "L (out_state (block (c # cs) s))"
proof -
  have "P (out_state (c s))" using assms(1,4) by (rule keepsD)
  then show ?thesis using assms(2,3) by (cases "c s") (simp_all add: block.simps)
qed

text \<open>The class that \<^verbatim>\<open>cancel\<close> leaves, and what its last statements do.\<close>

definition at_class :: "origin_point \<Rightarrow> ua_class \<Rightarrow> ua \<Rightarrow> bool" where
  "at_class c0 c s \<longleftrightarrow> lives c0 s \<and> cls s = Some c"

lemma keeps_at_class: "keeps (lives c0) x \<Longrightarrow> keeps (\<lambda>s. cls s = Some c) x \<Longrightarrow> keeps (at_class c0 c) x"
  by (simp add: keeps_def at_class_def)

lemma lives_end:
  assumes "at_class c0 c s" "UaStateDisconnected \<in> targets c" "\<not> ended c" "disced s" "keeps (lives c0) k"
  shows "lives c0 (out_state (block [changeState (NS UaStateDisconnected (Some (CbDisc, cs, a))), k] s))"
proof -
  have "wpc (changeState (NS UaStateDisconnected (Some (CbDisc, cs, a)))) (lives c0) (\<lambda>_. lives c0) (\<lambda>_. lives c0) s"
    using assms by (simp add: out_state_wpc [symmetric] at_class_def changeState_lives enter_ok_def)
  then show ?thesis unfolding out_state_wpc wpc_block_Cons
    by (rule wpc_mono) (use assms(5) in \<open>auto intro: keepsW\<close>)
qed

lemma lives_Progressing_cancel:
  assumes "at_class c0 c s" "c \<in> {UasStateTrying, UasStateRinging}"
  shows "lives c0 (out_state (UasStateProgressing_cancel rt r s))"
proof -
  let ?s = "s\<lparr>cc_seq := cc_seq s + 1, disconnect_ts := Some rt\<rparr>"
  have "at_class c0 c ?s"
    using assms(1) lives.I_ended [of c0 "s\<lparr>cc_seq := cc_seq s + 1\<rparr>" rt] lives.frame [of s "s\<lparr>cc_seq := cc_seq s + 1\<rparr>" c0]
    by (simp add: at_class_def cls_def)
  then have "lives c0 (out_state (block [changeState (NS UaStateDisconnected (Some (CbDisc, cs, x))), k] ?s))"
    if "keeps (lives c0) k" for cs x and k :: "(ua, unit) stmt"
    using that assms(2) by (intro lives_end [of c0 c]) (auto simp: disced_def)
  then show ?thesis
    by (simp add: UasStateProgressing_cancel_def out_state_wpc set_disconnect_ts_def lives.keeps_emitEvent wpc_new_event)
qed

lemma lives_Updating_cancel:
  assumes "at_class c0 UasStateUpdating s"
  shows "lives c0 (out_state (UasStateUpdating_cancel rt r s))"
  unfolding UasStateUpdating_cancel_def
proof (rule block_from [where P = "at_class c0 UasStateUpdating"])
  fix t
  assume t: "at_class c0 UasStateUpdating t"
  show "lives c0 (out_state (block [cancelCreditTimer, set_disconnect_ts (\<lambda>_. rt),
     local (\<lambda>s. (origin s, disc_cbs s)) (\<lambda>(o', cs). block [
       changeState (NS UaStateDisconnected (Some (CbDisc, cs, CbArgs rt o' None))),
       new_event CCEventDisconnect D_None rt o' (\<lambda>e.
         emitEvent (case r of None \<Rightarrow> e | Some r \<Rightarrow> copy_reason r e))])] t :: (ua, unit) outcome))"
  proof (rule block_from [where P = "at_class c0 UasStateUpdating"])
    fix u
    assume "at_class c0 UasStateUpdating u"
    then have "at_class c0 UasStateUpdating (u\<lparr>disconnect_ts := Some rt\<rparr>)"
      using lives.I_ended by (simp add: at_class_def)
    then have "lives c0 (out_state (block [changeState (NS UaStateDisconnected (Some (CbDisc, cs, a))), k] (u\<lparr>disconnect_ts := Some rt\<rparr>)))"
      if "keeps (lives c0) k" for cs a and k :: "(ua, unit) stmt"
      using that by (intro lives_end) (auto simp: disced_def)
    then show "lives c0 (out_state (block [set_disconnect_ts (\<lambda>_. rt),
     local (\<lambda>s. (origin s, disc_cbs s)) (\<lambda>(o', cs). block [
       changeState (NS UaStateDisconnected (Some (CbDisc, cs, CbArgs rt o' None))),
       new_event CCEventDisconnect D_None rt o' (\<lambda>e.
         emitEvent (case r of None \<Rightarrow> e | Some r \<Rightarrow> copy_reason r e))])] u :: (ua, unit) outcome))"
      by (simp add: out_state_wpc set_disconnect_ts_def lives.keeps_new_event lives.keeps_emitEvent)
  qed (use t in \<open>auto intro!: keeps_at_class keeps_intros simp: at_class_def\<close>)
qed (use assms in \<open>auto intro!: keeps_at_class keeps_intros simp: at_class_def\<close>)

lemma lives_state_cancel: "lives c0 s \<Longrightarrow> state s = Some st \<Longrightarrow> lives c0 (out_state (state_cancel (st_class st) rt r s))"
  using lives_Progressing_cancel [of c0 "st_class st" s rt r] lives_Updating_cancel [of c0 s rt r]
  by (cases "st_class st") (auto simp: state_cancel_def at_class_def ret_def)

subsection \<open>Timers\<close>

lemma lives_goDead: "lives c0 s \<Longrightarrow> cls_ended (cls s) \<Longrightarrow> lives c0 (out_state (changeState (NS UaStateDead None) s))"
proof (rule changeState_lives)
  assume l: "lives c0 s" and e: "cls_ended (cls s)"
  then obtain c where c: "cls s = Some c" "ended c" by (auto simp: cls_ended_def split: option.splits)
  then have "UaStateDead \<in> targets c" by (cases c) auto
  then show "enter_ok UaStateDead None s" using l e c by (simp add: enter_ok_def lives_def life_def)
qed

definition at_end :: "origin_point \<Rightarrow> ua \<Rightarrow> bool" where
  "at_end c0 s \<longleftrightarrow> lives c0 s \<and> cls_ended (cls s)"

interpretation at_end: ua_code "at_end c0"
  by unfold_locales (use lives.frame lives.I_act lives.I_emit lives.I_ended lives.I_start lives.I_stop lives.I_rCSeq in
    \<open>auto simp: at_end_def core_def\<close>)

lemma lives_goIdle: "at_end c0 s \<Longrightarrow> lives c0 (out_state (UacStateCancelling_goIdle i s))"
  unfolding UacStateCancelling_goIdle_def
proof (rule block_from [where P = "at_end c0"])
  fix t
  assume "at_end c0 t"
  then have "lives c0 (out_state (changeState (NS UaStateDead None) t :: (ua, unit) outcome))"
    by (simp add: at_end_def lives_goDead)
  then show "lives c0 (out_state (block [changeState (NS UaStateDead None)] t :: (ua, unit) outcome))"
    by (simp add: out_state_wpc)
qed (auto intro!: keeps_intros simp: at_end_def)

lemma lives_fire_timer:
  assumes "lives c0 s" "tm \<in> set (timers s)"
  shows "lives c0 (out_state (fire_timer es tm s))"
proof (cases "dead_kind (tm_kind tm)")
  case True
  then have "at_end c0 s" using assms by (auto simp: at_end_def lives_def life_def)
  then show ?thesis unfolding fire_timer_def
  proof (rule block_from [where P = "at_end c0", rotated 3])
    fix t
    assume t: "at_end c0 t"
    have "lives c0 (out_state (goDead t))" "lives c0 (out_state (UacStateCancelling_goIdle i t))" for i
      using t lives_goDead lives_goIdle by (auto simp: goDead_def at_end_def)
    then show "lives c0 (out_state (block [case tm_kind tm of
        T_expires \<Rightarrow> block [upd (\<lambda>s. s\<lparr>expire_timer := None\<rparr>), UA_disconnect es None None]
      | T_no_progress \<Rightarrow> block [upd (\<lambda>s. s\<lparr>no_progress_timer := None\<rparr>), UA_disconnect es None None]
      | T_no_reply \<Rightarrow> block [upd (\<lambda>s. s\<lparr>no_reply_timer := None\<rparr>), UA_disconnect es None None]
      | T_credit rt \<Rightarrow> block [upd (\<lambda>s. s\<lparr>credit_timer := None\<rparr>), UA_disconnect es (Some rt) None]
      | T_goDead \<Rightarrow> goDead | T_goIdle i \<Rightarrow> UacStateCancelling_goIdle i | T_keepAlive i \<Rightarrow> UaStateConnected_keepAlive i
      | T_disconnect \<Rightarrow> UA_disconnect es None None] t))"
      using True by (cases "tm_kind tm") (auto simp: out_state_wpc)
  qed (auto intro!: keeps_intros simp: at_end_def)
next
  case False
  have "keeps (lives c0) (fire_timer es tm)"
    using False unfolding fire_timer_def
    by (auto intro!: keeps_intros lives_UA_disconnect simp: core_def cls_def split: timer_kind.split)
  then show ?thesis using assms(1) by (rule keepsD)
qed

lemma lives_others:
  "keeps (lives c0) (UaStateConnected_keepAliveResp es i resp)" "keeps (lives c0) (delayed_remote_sdp_update es e r)"
  "keeps (lives c0) (delayed_local_sdp_update es e r)" "keeps (lives c0) (resetCreditTime rt new)"
  by (auto simp: UaStateConnected_keepAliveResp_def delayed_remote_sdp_update_def delayed_local_sdp_update_def fail_of_exn_def
      resetCreditTime_def Let_def core_def cls_def
      intro!: keeps_intros lives_UA_recvEvent lives_UA_disconnect split: sum.split exn.split)

section \<open>The machine of the user agent refines the abstract one\<close>

lemma lives_step: "ua_step es s t \<Longrightarrow> lives c0 s \<Longrightarrow> lives c0 t"
proof (induct rule: ua_step.induct)
  case (step_clock s x)
  then show ?case using lives.frame [of s "s\<lparr>now := x\<rparr>"] by simp
next
  case (step_others s n)
  then show ?case using lives.frame [of s "s\<lparr>cc_seq := n\<rparr>"] by simp
qed (use lives_UA_recvRequest lives_UA_recvResponse lives_UA_recvEvent lives_UA_disconnect lives_UA_recvACK
       lives_state_cancel lives_fire_timer lives_others lives.keeps_keepAlive in \<open>auto intro: keepsD\<close>)

lemma life_step:
  "ua_step es s t \<Longrightarrow> life s \<Longrightarrow> life t \<and> fsm\<^sup>*\<^sup>* (cls s) (cls t) \<and> (cls_ended (cls s) \<longrightarrow> end_cbs t = end_cbs s)"
  using lives_step [of es s t "Origin (cls s) (end_cbs s)"] by (simp add: lives_def)

interpretation life_steps: step_invariant ua_initial "ua_step es" life
proof
  show "ua_initial s \<Longrightarrow> life s" for s
    by (simp add: ua_initial_def life_def cls_def cls_ended_def end_cbs_def cb_batch_def)
qed (simp add: life_step)

lemma reach_path: "reach ua_initial (ua_step es) s \<Longrightarrow> fsm\<^sup>*\<^sup>* None (cls s)"
proof (induction rule: reach.induct)
  case (reach_init s)
  then show ?case by (simp add: ua_initial_def cls_def)
next
  case (reach_step s t)
  then show ?case using life_step [of es s t] life_steps.reach_inv [of es s] by auto
qed

end
