(* ===== verification/Wire_Props.thy ===== *)
theory Wire_Props
  imports CC_Events
begin

text \<open>
  What the parsers and printers of the SIP headers, the SDP bodies and the digest headers
  promise to the rest of the program: round trips, the framing of a message, the key by which
  a response finds its transaction, and that credentials made for a challenge verify.
\<close>

section \<open>Headers\<close>

text \<open>
  (C24) A SIP URL that is printed is read back: every part of a well-formed URL (user name with
  percent encoding, user parameters, password, host, port, parameters, headers) survives
  \<^verbatim>\<open>SipURL.localStr\<close> followed by the parser, in every mode of the parser.
\<close>

theorem sip_url_roundtrip:
  assumes "wf_url u"
  shows "SipURL_parse tel relaxed (SipURL_localStr my None u) = Inr u"
  using assms by (rule url_codec.parse_print)

definition url1 :: sip_url where
  "url1 = (SipURL (Some ''a b@c'') (Some (Host ''example.org'', Some (Port 5062), Some (Transport ''tcp''))))
     \<lparr>password := Some ''secret'', ttl := Some 3, other := [''x=y''], lr := True, uheaders := Some [(''subject'', ''a&b'')]\<rparr>"

theorem sip_url_roundtrip_witness: "SipURL_parse False False (SipURL_localStr ''192.0.2.1'' None url1) = Inr url1"
proof -
  have "wf_url url1"
    by (simp add: wf_url_def url1_def SipURL_def wf_user_def wf_host_def wf_params_def wf_uheaders_def wf_other_def
        known_params_def free_of_def SipURL_getParams_def)
  then show ?thesis by (rule sip_url_roundtrip)
qed


definition via1 :: sip_via where
  "via1 = \<lparr>sipver = ''SIP/2.0'', vtransport = Transport ''UDP'', hostname = Host ''192.0.2.7'', vport = Some (Port 5070),
     vparams = [(''branch'', Some ''z9hG4bK77''), (''rport'', None)]\<rparr>"


text \<open>
  (C26) A Reason header (RFC 3326) that is printed is read back, with its cause and its quoted
  text; the loop of the parser over the parameters ends on every text.
\<close>

theorem sip_reason_roundtrip:
  assumes "wf_reason r"
  shows "SipReason_parse (SipReason_str r) = Inr r"
  using assms by (rule reason_codec.parse_print)

theorem sip_reason_roundtrip_witness:
  "SipReason_parse (SipReason_str (SipReason ''SIP'' 487 ''Gone; away'')) = Inr (SipReason ''SIP'' 487 ''Gone; away'')"
proof -
  have "wf_reason (SipReason ''SIP'' 487 ''Gone; away'')"
    by (simp add: wf_reason_def SipReason_def dquote_def strip_def lstrip_def rstrip_def is_space_def)
  then show ?thesis by (rule sip_reason_roundtrip)
qed


section \<open>Bodies\<close>

text \<open>
  (C23) A session description that is printed is read back, both through \<^verbatim>\<open>__str__\<close> and through
  \<^verbatim>\<open>localStr\<close>, which does not raise on it: the order of the lines, a connection line shared by
  all media sections and the attributes of each section are restored.
\<close>

theorem sdp_roundtrip:
  assumes "wf_sdp b"
  shows "SdpBody_parse (SdpBody_str my b) = Inr b \<and>
    (\<exists>t. SdpBody_localStr my la b = Inr t \<and> SdpBody_parse t = Inr b)"
  using sdp_codec.parse_print [OF assms] SdpBody_parse_localStr [OF assms, of my la] by blast

definition sdp1 :: sdp_body where
  "sdp1 = (let c = \<lparr>ntype = ''IN'', atype = ''IP4'', caddr = ''192.0.2.7''\<rparr>;
      sec = (\<lambda>p. \<lparr>m_header = Some \<lparr>mtype = MTAudio, stype = ''audio'', m_port = p, m_transport = ''RTP/AVP'', m_formats = IntFormats [0, 101]\<rparr>,
        c_header = Some c, sect_headers = Map.empty,
        a_headers = [\<lparr>a_name = ''rtpmap'', a_value = Some ''101 telephone-event/8000''\<rparr>, \<lparr>a_name = ''sendrecv'', a_value = None\<rparr>]\<rparr>) in
    \<lparr>o_header = Some \<lparr>o_username = ''-'', session_id = ''1'', o_version = ''2'', network_type = ''IN'', address_type = ''IP4'',
       o_address = Host ''192.0.2.7''\<rparr>, sc_header = None, top_headers = [''v'' \<mapsto> ''0'', ''s'' \<mapsto> ''-'', ''t'' \<mapsto> ''0 0''],
     sa_headers = [], sections = [sec 4000, sec 4002]\<rparr>)"

lemma lower_audio: "lower ''audio'' = ''audio''"
  by code_simp

lemma wf_sdp1: "wf_sdp sdp1"
  by (auto simp: lower_audio wf_sdp_def sdp1_def Let_def wf_origin_def wf_section_def wf_media_def wf_conn_def wf_a_def word_def no_space_def
      is_space_def good_text_def is_linebreak_def media_type_of_def a_header_str_def generic_names_def ran_def)

theorem sdp_roundtrip_witness: "SdpBody_parse (SdpBody_str ''192.0.2.1'' sdp1) = Inr sdp1"
  using sdp_roundtrip [OF wf_sdp1, of "''192.0.2.1''" None] by simp

section \<open>Messages\<close>

text \<open>
  (C27) Framing. The body of a message is what its Content-Length header announces: text after
  that many characters is cut off, and a message that is accepted has all the mandatory
  headers.
\<close>

theorem message_framing:
  assumes "SipMsg_read buf = Inr m" and "rm_clen m = Some (SipNumericHF_str (int (length b)))"
    and "rm_body m = Some (b @ rest)" and "b \<noteq> []"
  shows "init_body m = Inr (Some b) \<and> set mandatory \<subseteq> set (map fst (rm_headers m))"
  using init_body_exact [of m b rest] SipMsg_read_mandatory [OF assms(1)] assms(2-4)
  by (simp add: SipNumericHF_str_def)

definition wire1 :: string where
  "wire1 = ''INFO sip:b SIP/2.0'' @ CRLF @ ''Via: SIP/2.0/UDP h'' @ CRLF @ ''From: <sip:a@h>'' @ CRLF @ ''To: <sip:b@h>'' @ CRLF @
     ''CSeq: 1 INFO'' @ CRLF @ ''l: 3'' @ CRLF @ CRLF @ ''abcdef''"

theorem message_framing_witness:
  "\<exists>m. SipMsg_read wire1 = Inr m \<and> init_body m = Inr (Some ''abc'')"
proof -
  have "case SipMsg_read wire1 of Inl _ \<Rightarrow> False
    | Inr m \<Rightarrow> rm_clen m = Some (SipNumericHF_str (int (length ''abc''))) \<and> rm_body m = Some (''abc'' @ ''def'')"
    by code_simp
  then obtain m where m: "SipMsg_read wire1 = Inr m" "rm_clen m = Some (SipNumericHF_str (int (length ''abc'')))"
      "rm_body m = Some (''abc'' @ ''def'')"
    by (auto split: sum.splits)
  show ?thesis using message_framing [OF m] m(1) by blast
qed

text \<open>
  The key of a transaction is made of the last From, Call-ID and CSeq header and the first
  Via header; a message with one of each gives the key to every message that copies them.
\<close>

lemma one_header: "countHFs n m = 1 \<Longrightarrow> \<exists>h. getHFs n m = [h]"
  by (auto simp: countHFs_def length_Suc_conv)

lemma hf_copy_reads:
  "and_then (getBody (SipHeader n (hf_copy b))) as_cseq = and_then (getBody (SipHeader n b)) as_cseq"
  "and_then (getBody (SipHeader n (hf_copy b))) as_str = and_then (getBody (SipHeader n b)) as_str"
  "and_then (getBody (SipHeader n (hf_copy b))) as_via = and_then (getBody (SipHeader n b)) as_via"
  by (cases b; simp add: getBody_def)+

lemma hf_copy_addr:
  "and_then (and_then (getBody (SipHeader n (hf_copy b))) as_addr) (\<lambda>a. f (getTag a)) =
     and_then (and_then (getBody (SipHeader n b)) as_addr) (\<lambda>a. f (getTag a))"
  by (cases b) (simp_all add: getBody_def getTag_def SipAddress_getCopy_def SipAddress_getParam_def)

lemma getBody_hbody: "getBody h = getBody (SipHeader n (hbody h))"
  by (simp add: getBody_def)

text \<open>The responses \<open>r\<close> that keep the four headers of \<open>m\<close>, up to copying.\<close>

definition keeps_key :: "'a sip_msg_scheme \<Rightarrow> 'b sip_msg_scheme \<Rightarrow> bool" where
  "keeps_key m r \<longleftrightarrow>
     (\<forall>n \<in> {''cseq'', ''call-id'', ''from''}. \<exists>b. map hbody (getHFs n m) = [b] \<and> map hbody (getHFs n r) = [hf_copy b]) \<and>
     map hbody (getHFs ''via'' r) = map hf_copy (map hbody (getHFs ''via'' m))"

lemma last_hf_one: "map hbody (getHFs n m) = [b] \<Longrightarrow> last_hf n m = getBody (SipHeader n b)"
  by (auto simp: last_hf_def getBody_def map_eq_Cons_conv)

lemma first_hf_list: "getHFBody n m = (case map hbody (getHFs n m) of [] \<Rightarrow> Inl IndexError | b # _ \<Rightarrow> getBody (SipHeader n b))"
  by (auto simp: getHFBody_def getHF_def getBody_def split: list.split)

lemma getTId_key:
  assumes "keeps_key m r"
  shows "getTId wCSM wBRN False r = getTId wCSM wBRN False m"
proof -
  obtain c i f where h: "map hbody (getHFs ''cseq'' m) = [c]" "map hbody (getHFs ''cseq'' r) = [hf_copy c]"
    "map hbody (getHFs ''call-id'' m) = [i]" "map hbody (getHFs ''call-id'' r) = [hf_copy i]"
    "map hbody (getHFs ''from'' m) = [f]" "map hbody (getHFs ''from'' r) = [hf_copy f]"
    using assms by (auto simp: keeps_key_def)
  have via: "and_then (getHFBody ''via'' r) as_via = and_then (getHFBody ''via'' m) as_via"
    using assms by (cases "map hbody (getHFs ''via'' m)") (auto simp: keeps_key_def first_hf_list hf_copy_reads)
  show ?thesis unfolding getTId_def last_hf_one [OF h(1)] last_hf_one [OF h(2)] last_hf_one [OF h(3)] last_hf_one [OF h(4)]
      last_hf_one [OF h(5)] last_hf_one [OF h(6)] hf_copy_reads via
    by (subst hf_copy_addr) simp
qed

lemma filter_named: "filter (\<lambda>h. hname h = n) (map (SipHeader k) bs) = (if n = k then map (SipHeader k) bs else [])"
  by (induction bs) auto

lemma genResponse_headers:
  assumes "genResponse sc rs bd sv ext req = Inr r"
  obtains fr ci tt cs where "getHFBCopy ''from'' req = Inr fr" "getHFBCopy ''call-id'' req = Inr ci"
    "getHFBCopy ''to'' req = Inr tt" "getHFBCopy ''cseq'' req = Inr cs"
    "headers r = map (SipHeader ''via'') (getHFBCopys ''via'' req) @
       map (SipHeader ''record-route'') (getHFBCopys ''record-route'' req) @
       [SipHeader ''from'' fr, SipHeader ''to'' tt, SipHeader ''call-id'' ci, SipHeader ''cseq'' cs] @
       (case sv of None \<Rightarrow> [] | Some s \<Rightarrow> [SipHeader ''server'' (HF_Str s)]) @
       (case ext of None \<Rightarrow> [] | Some r \<Rightarrow> [SipHeader ''reason'' (HF_Reason r)])"
  using assms unfolding genResponse_def and_then_Inr by (metis (no_types, lifting) Inr_inject sip_msg.select_convs(1))

lemma getHFBCopy_one: "getHFs n m = [h] \<Longrightarrow> getHFBCopy n m = Inr x \<Longrightarrow> x = hf_copy (hbody h)"
  by (simp add: getHFBCopy_def getHF_def)

lemma genResponse_keeps_key:
  assumes "genResponse sc rs bd sv ext req = Inr r"
    and "countHFs ''cseq'' req = 1" "countHFs ''call-id'' req = 1" "countHFs ''from'' req = 1"
  shows "keeps_key req r"
proof -
  obtain c i f where h: "getHFs ''cseq'' req = [c]" "getHFs ''call-id'' req = [i]" "getHFs ''from'' req = [f]"
    using assms(2-4) one_header by metis
  from assms(1) obtain fr ci tt cs where g: "getHFBCopy ''from'' req = Inr fr" "getHFBCopy ''call-id'' req = Inr ci"
    "getHFBCopy ''to'' req = Inr tt" "getHFBCopy ''cseq'' req = Inr cs"
    and hs: "headers r = map (SipHeader ''via'') (getHFBCopys ''via'' req) @
       map (SipHeader ''record-route'') (getHFBCopys ''record-route'' req) @
       [SipHeader ''from'' fr, SipHeader ''to'' tt, SipHeader ''call-id'' ci, SipHeader ''cseq'' cs] @
       (case sv of None \<Rightarrow> [] | Some s \<Rightarrow> [SipHeader ''server'' (HF_Str s)]) @
       (case ext of None \<Rightarrow> [] | Some r \<Rightarrow> [SipHeader ''reason'' (HF_Reason r)])"
    by (rule genResponse_headers)
  have "getHFs ''cseq'' r = [SipHeader ''cseq'' cs]" "getHFs ''call-id'' r = [SipHeader ''call-id'' ci]"
    "getHFs ''from'' r = [SipHeader ''from'' fr]" "getHFs ''via'' r = map (SipHeader ''via'') (getHFBCopys ''via'' req)"
    by (simp_all add: getHFs_def hs filter_named split: option.split)
  then show ?thesis
    using h g(1,2,4) getHFBCopy_one [OF h(1)] getHFBCopy_one [OF h(2)] getHFBCopy_one [OF h(3)]
    by (simp add: keeps_key_def getHFBCopys_def comp_def)
qed


text \<open>A caller, a callee and a request between them.\<close>

definition alice :: sip_address where
  "alice = setTag (Some ''at'') (SipAddress None (SipURL (Some ''alice'') (Some (Host ''192.0.2.7'', None, None))))"

definition bob :: sip_address where
  "bob = SipAddress None (SipURL (Some ''bob'') (Some (Host ''192.0.2.1'', None, None)))"

definition call_req :: "string \<Rightarrow> int \<Rightarrow> real \<Rightarrow> sip_req" where
  "call_req meth n t = \<lparr>headers = [SipHeader ''via'' (HF_Via (SipVia_genBranch ''b1'' SipVia)),
     SipHeader ''from'' (HF_Addr alice), SipHeader ''to'' (HF_Addr bob), SipHeader ''call-id'' (HF_Str ''c1''),
     SipHeader ''cseq'' (HF_CSeq (n, meth)), SipHeader ''contact'' (HF_Addr alice)],
     body = None, target = None, msource = Some (''192.0.2.7'', 5060), nated = False, rtime = t,
     rmethod = meth, ruri = aurl bob, rsipver = ''SIP/2.0'', user_agent = None\<rparr>"


section \<open>Digest authentication\<close>

text \<open>
  (C21) Challenge and answer. For a challenge with a realm and a nonce that \<^verbatim>\<open>supportedAlgorithm\<close>
  accepts, \<^verbatim>\<open>genAuthHF\<close> makes credentials without an exception; printed into a header and read
  back on the other side they verify against the same password, method and body, exactly when
  the nonce is valid for the algorithm of the challenge. (The texts of the credentials must
  not hold the delimiters of the header.)
\<close>

theorem challenge_answer_verifies:
  assumes "supportedAlgorithm c = (True, q)" and "ch_realm c = Some r" and "ch_nonce c = Some n"
  shows "\<exists>a hf m. genAuthHF h tok (Some u) (Some p) meth uri bd q c = Inr a \<and> HASH_FUNC (ch_algorithm c) = Some (hf, m) \<and>
    (wf_auth (ch_proxy c) a \<longrightarrow>
      and_then (SipAuthorization_parse (ch_proxy c) (SipAuthorization_str a)) (verify h valid (Some p) meth bd) =
        Inr (valid (Some n) [m]))"
proof -
  obtain a where a: "genAuthHF h tok (Some u) (Some p) meth uri bd q c = Inr a"
    using genAuthHF_total [OF assms] by blast
  obtain hf m where m: "HASH_FUNC (ch_algorithm c) = Some (hf, m)"
    using assms(1) by (cases rule: supportedAlgorithm_cases) auto
  have qop: "q \<in> {None, Some ''auth'', Some ''auth-int''}"
    using assms(1) by (cases rule: supportedAlgorithm_cases) auto
  have "verify h valid (Some p) meth bd a = Inr (valid (Some n) [m])"
    using a verify_genAuthResponse [where a = "\<lparr>auth_proxy = ch_proxy c, auth_username = Some u, auth_uri = Some uri,
        auth_realm = ch_realm c, auth_nonce = ch_nonce c, auth_response = None,
        auth_qop = (if ch_qop c \<noteq> None \<and> q \<noteq> None then q else None),
        auth_cnonce = (if ch_qop c \<noteq> None \<and> q \<noteq> None then Some tok else None),
        auth_nc = (if ch_qop c \<noteq> None \<and> q \<noteq> None then Some ''00000001'' else None),
        auth_algorithm = ch_algorithm c,
        auth_otherparams = (case ch_opaque c of None \<Rightarrow> [] | Some op \<Rightarrow> [(''opaque'', [dquote] @ op @ [dquote])])\<rparr>"]
      m qop assms(3) by (simp add: genAuthHF_def Let_def)
  then show ?thesis using a m auth_codec.parse_print [of "ch_proxy c" a] by auto
qed

definition chal1 :: sip_challenge where
  "chal1 = (chal_blank False)\<lparr>ch_realm := Some ''example.org'', ch_nonce := Some ''n1'', ch_qop := Some [''auth''],
     ch_algorithm := Some ''SHA-256''\<rparr>"

theorem challenge_answer_verifies_witness:
  "\<exists>a. genAuthHF (\<lambda>_ _. ''d16e57'') ''tk'' (Some ''bob'') (Some ''pw'') ''INVITE'' ''sip:example.org'' None (Some ''auth'') chal1 = Inr a \<and>
    and_then (SipAuthorization_parse False (SipAuthorization_str a))
      (verify (\<lambda>_ _. ''d16e57'') (\<lambda>_ _. True) (Some ''pw'') ''INVITE'' None) = Inr True"
proof -
  have s: "supportedAlgorithm chal1 = (True, Some ''auth'')" by code_simp
  have c: "ch_realm chal1 = Some ''example.org''" "ch_nonce chal1 = Some ''n1''" "ch_proxy chal1 = False"
    by (simp_all add: chal1_def chal_blank_def)
  obtain a where a: "genAuthHF (\<lambda>_ _. ''d16e57'') ''tk'' (Some ''bob'') (Some ''pw'') ''INVITE'' ''sip:example.org'' None (Some ''auth'') chal1 = Inr a"
    and v: "wf_auth False a \<longrightarrow> and_then (SipAuthorization_parse False (SipAuthorization_str a))
      (verify (\<lambda>_ _. ''d16e57'') (\<lambda>_ _. True) (Some ''pw'') ''INVITE'' None) = Inr True"
    using challenge_answer_verifies [OF s c(1,2), of "\<lambda>_ _. ''d16e57''" "''tk''" "''bob''" "''pw''" "''INVITE''" "''sip:example.org''" None
        "\<lambda>_ _. True"] c(3) by auto
  have "case genAuthHF (\<lambda>_ _. ''d16e57'') ''tk'' (Some ''bob'') (Some ''pw'') ''INVITE'' ''sip:example.org'' None (Some ''auth'') chal1 of
      Inl _ \<Rightarrow> False | Inr a \<Rightarrow> wf_auth False a"
    by code_simp
  then show ?thesis using a v by simp
qed

end
