(* ===== verification/UA_Props.thy ===== *)
theory UA_Props
  imports UA_Fsm Wire_Props
begin

text \<open>
  What the user agent promises to the call controller, stated over its entry points and over
  every sequence of them, with a concrete run for each statement that has hypotheses.
\<close>

section \<open>A concrete user agent\<close>

definition no_str :: "exn \<Rightarrow> string" where
  "no_str x = []"

definition host0 :: ua where
  "host0 = \<lparr>state = None, event_cb = True, uasResp = None, ua_username = None, ua_password = None, auth_enalgs = None,
     equeue = [], credit_time = None, credit_times = [], credit_timer = None, conn_cbs = [], disc_cbs = [], fail_cbs = [],
     ring_cbs = [], dead_cbs = [], rCSeq = None, lTag = [], lUri = None, rUri = None, cId = None, lCSeq = None,
     lContact = None, rAddr = (None, my_transport), rAddr0 = (None, my_transport), routes = None, rTarget = None,
     lSDP = None, rSDP = None, kaInterval = 0, branch = None, reqs = Some [], ua_extra_headers = None, useRefer = True,
     expire_time = None, expire_timer = None, expire_mtime = None, no_progress_time = None, no_progress_timer = None,
     no_progress_mtime = None, no_reply_time = None, no_reply_timer = None, on_local_sdp_change = None,
     on_remote_sdp_change = None, last_scode = 100, setup_ts = None, p100_ts = None, p1xx_ts = None, connect_ts = None,
     disconnect_ts = None, local_ua = None, remote_ua = None, elast_seq = None, origin = None, outbound_proxy = None,
     pass_auth = False, pending_tr = None, tr = None, late_media = False, godead_timeout = 32,
     my_address = ''192.0.2.1'', token = (\<lambda>n. ''t'' @ show_nat n), rnd = (\<lambda>_. 7), hash = (\<lambda>_ x. x), now = 0,
     ntok = 0, nid = 0, cc_seq = 1, tr_extra = (\<lambda>_. None), timers = [], trace = []\<rparr>"

definition args0 :: ua_args where
  "args0 = \<lparr>ua_event_cb = True, arg_username = None, arg_password = None,
     nh_address = Some (Host ''192.0.2.9'', Port 5060), nh_transport = my_transport, arg_credit_time = None,
     arg_conn_cbs = None, arg_disc_cbs = Some [''rDisc''], arg_fail_cbs = None, arg_ring_cbs = None, arg_dead_cbs = Some [''rDead''],
     ltag = Some ''lt'', arg_extra_headers = None, arg_expire_time = None, arg_no_progress_time = None\<rparr>"

definition ua0 :: ua where
  "ua0 = UA_init args0 host0"

text \<open>The controller takes back a call before it was placed.\<close>

definition ua_gone :: ua where
  "ua_gone = out_state (UA_recvEvent no_str (CCEvent CCEventDisconnect D_None 5 (Some ''switch'') 0) ua0)"

lemma reach_ua0: "reach ua_initial (ua_step es) ua0"
  unfolding ua0_def by (rule reach_init) (rule UA_init_initial)

lemma step_gone: "ua_step no_str ua0 ua_gone"
  unfolding ua_gone_def by (rule step_event)

lemma reach_gone: "reach ua_initial (ua_step no_str) ua_gone"
  using reach_ua0 step_gone by (rule reach_step)

lemmas ua_eval = ua_gone_def ua0_def UA_init_def args0_def host0_def UA_recvEvent_def state_recvEvent_def UacStateIdle_recvEvent_def
  changeState_def enterState_def initDead_def onStateChange_def new_state_def change_if_def disc_state_def emitPendingEvents_def
  CCEvent_def stmt_defs act_def new_id_def set_disconnect_ts_def end_ts_def run_cbs_def attr_def or_empty_def

lemma gone_facts: "cls ua_gone = Some UaStateDead" "trace ua_gone = [A_Callback CbDead ''rDead'' CbUa, A_Callback CbDisc ''rDisc'' (CbArgs 5 (Some ''switch'') None)]"
  "disconnect_ts ua_gone = Some 5"
  by (simp_all add: ua_eval cls_def)

section \<open>A concrete incoming call\<close>

definition ua_called :: ua where
  "ua_called = out_state (UA_recvRequest no_str (call_req ''INVITE'' 10 1) ua0)"

definition ua_up :: ua where
  "ua_up = out_state (UA_recvEvent no_str (CCEvent CCEventConnect (D_Scode (Code 200) ''OK'' None) 4 (Some ''callee'') 50) ua_called)"

definition ua_over :: ua where
  "ua_over = out_state (UA_recvRequest no_str (call_req ''BYE'' 11 9) ua_up)"

lemma reach_called: "reach ua_initial (ua_step no_str) ua_called"
  unfolding ua_called_def by (rule reach_step [OF reach_ua0]) (rule step_request)

lemma reach_up: "reach ua_initial (ua_step no_str) ua_up"
  unfolding ua_up_def by (rule reach_step [OF reach_called]) (rule step_event)

lemma reach_over: "reach ua_initial (ua_step no_str) ua_over"
  unfolding ua_over_def by (rule reach_step [OF reach_up]) (rule step_request)

lemma called_facts: "cls ua_called = Some UasStateTrying" "map ekind (emitted ua_called) = [CCEventTry]"
  by code_simp+

lemma up_facts: "cls ua_up = Some UaStateConnected"
  by code_simp

lemma over_facts: "cls ua_over = Some UaStateDisconnected" "map ekind (emitted ua_over) = [CCEventTry, CCEventDisconnect]"
  "map eseq (emitted ua_over) = [1, 2]"
  by code_simp+

section \<open>The life of a call\<close>

text \<open>
  (C1) Refinement. In every reachable state, one call of any entry point of the user agent (a
  request, a response, an event, an ACK, a CANCEL, a timer, the end of an SDP hook), to its
  end or to the exception it raises, moves the state along edges of the abstract state
  machine \<open>fsm\<close> only.
\<close>

theorem ua_refines_fsm:
  assumes "reach ua_initial (ua_step es) s" and "ua_step es s t"
  shows "fsm\<^sup>*\<^sup>* (cls s) (cls t)"
  using life_step [OF assms(2)] life_steps.reach_inv [OF assms(1)] by simp

theorem ua_refines_fsm_witness: "fsm\<^sup>*\<^sup>* (cls ua0) (Some UaStateDead)"
  using ua_refines_fsm [OF reach_ua0 step_gone] by (simp add: gone_facts)

text \<open>
  (C2) The end of a call is final and is reported once. When the call has ended, no entry point
  leaves the ended states, clears the time of disconnection, or calls a disconnect or fail
  callback again.
\<close>

theorem ua_ends_once:
  assumes "reach ua_initial (ua_step es) s" and "ua_step es s t" and "cls_ended (cls s)"
  shows "cls_ended (cls t) \<and> disconnect_ts t \<noteq> None \<and> end_cbs t = end_cbs s"
proof -
  have "life t \<and> fsm\<^sup>*\<^sup>* (cls s) (cls t) \<and> end_cbs t = end_cbs s"
    using life_step [OF assms(2)] life_steps.reach_inv [OF assms(1)] assms(3) by simp
  then show ?thesis using fsm_path_ended [of "cls s" "cls t"] assms(3) by (simp add: life_def disced_def)
qed

definition ua_gone2 :: ua where
  "ua_gone2 = out_state (UA_disconnect no_str None None ua_gone)"

theorem ua_ends_once_witness: "end_cbs ua_gone2 = [A_Callback CbDisc ''rDisc'' (CbArgs 5 (Some ''switch'') None)]"
proof -
  have "ua_step no_str ua_gone ua_gone2" unfolding ua_gone2_def by (rule step_disconnect)
  from ua_ends_once [OF reach_gone this] show ?thesis by (simp add: gone_facts end_cbs_def)
qed

text \<open>
  (C3) Accounting of the end. In every reachable state: an ended call has a time of
  disconnection; a call that has not ended has called no disconnect or fail callback; all
  such callbacks were called with one and the same kind and arguments; and a dead user agent
  has no event callback.
\<close>

theorem ua_end_accounted:
  assumes "reach ua_initial (ua_step es) s"
  shows "(cls_ended (cls s) \<longrightarrow> disconnect_ts s \<noteq> None) \<and> (\<not> cls_ended (cls s) \<longrightarrow> end_cbs s = []) \<and>
    (\<exists>k names x. end_cbs s = map (\<lambda>n. A_Callback k n x) names) \<and> (isDead s \<longrightarrow> \<not> event_cb s)"
proof -
  have "isDead s \<longrightarrow> cls s = Some UaStateDead"
    by (auto simp: isDead_def cls_def split: option.splits elim!: st_dead.elims)
  then show ?thesis
    using life_steps.reach_inv [OF assms] by (simp add: life_def cb_batch_def disced_def)
qed

theorem ua_end_accounted_witness: "disconnect_ts ua_gone \<noteq> None \<and> \<not> event_cb ua_gone"
  using ua_end_accounted [OF reach_gone] by (simp add: isDead_def ua_eval cls_def)

text \<open>
  (C4) A dead user agent stays dead and is silent: from a reachable dead state, no sequence of
  calls leads out of it or emits another event.
\<close>

theorem ua_dead_silent:
  assumes "reach ua_initial (ua_step es) s" and "(ua_step es)\<^sup>*\<^sup>* s t" and "isDead s"
  shows "isDead t \<and> emitted t = emitted s"
proof -
  have dead: "isDead x \<longleftrightarrow> cls x = Some UaStateDead" for x
    by (cases "state x") (auto simp: isDead_def cls_def elim!: st_dead.elims)
  have l: "life s" using life_steps.reach_inv [OF assms(1)] .
  have "life t \<and> fsm\<^sup>*\<^sup>* (cls s) (cls t) \<and> \<not> event_cb t \<and> emitted t = emitted s"
    using assms(2)
  proof (induction rule: rtranclp_induct)
    case base
    then show ?case using l assms(3) by (simp add: dead life_def)
  next
    case (step y z)
    then show ?case using life_step [of es y z] silent.I_step [of es y z "emitted s"] by auto
  qed
  then show ?thesis using fsm_path_dead [of "cls s" "cls t"] assms(3) by (simp add: dead)
qed

theorem ua_dead_silent_witness: "isDead ua_gone2 \<and> emitted ua_gone2 = []"
proof -
  have "(ua_step no_str)\<^sup>*\<^sup>* ua_gone ua_gone2"
    unfolding ua_gone2_def by (rule r_into_rtranclp, rule step_disconnect)
  from ua_dead_silent [OF reach_gone this] show ?thesis
    by (simp add: isDead_def ua_eval emitted_def List.map_filter_def)
qed

text \<open>
  (C5) Events reach the application in the order of their creation, and none twice: in every
  reachable state the serial numbers of the events handed to \<^verbatim>\<open>event_cb\<close> strictly increase.
\<close>

theorem ua_events_in_order:
  assumes "reach ua_initial (ua_step es) s"
  shows "sorted_wrt (<) (map eseq (emitted s)) \<and> distinct (map eseq (emitted s))"
  using emit_steps.reach_inv [OF assms] by (auto simp: emit_ordered_def strict_sorted_iff)

theorem ua_events_in_order_witness: "sorted_wrt (<) (map eseq (emitted ua_over)) \<and> map eseq (emitted ua_over) = [1, 2]"
  using ua_events_in_order [OF reach_over] by (simp add: over_facts)

end
