(* ===== verification/Sip_TM.thy ===== *)
theory Sip_TM
  imports Sip_Msg
begin

text \<open>
  The transaction manager: \<^verbatim>\<open>sippy/SipTransactionManager.py\<close>.

  Transaction objects live in a store (\<open>objs\<close>) and are addressed by \<open>Cl n\<close> (made by
  \<^verbatim>\<open>newTransaction\<close>) and \<open>Sv n\<close> (made by \<^verbatim>\<open>incomingRequest\<close>); the tables \<open>tclient\<close> and \<open>tserver\<close>
  map keys to them. A key is the tuple that \<^verbatim>\<open>getTId\<close> returns. Timers that run are in
  \<open>w_timers\<close>; what the manager sends and whom it calls is recorded in \<open>w_trace\<close>. A packet is the
  message with the local address and the form (compact or not) it is printed for.

  The layer above is a parameter: \<open>react\<close> gives for each callback the operations of the manager
  that the callback performs, in order, each with a flag whether an exception of it is caught,
  and what the callback returns or raises; \<open>isYours\<close> is the method of a consumer. The hooks
  \<^verbatim>\<open>req_out_cb\<close> and \<^verbatim>\<open>res_out_cb\<close>, which nothing in the repository sets, are left out, as are the
  attributes \<^verbatim>\<open>rtime\<close>, \<^verbatim>\<open>fcode\<close> and \<^verbatim>\<open>branch\<close> of a transaction, which nothing reads, and the
  argument \<^verbatim>\<open>t\<close> of \<^verbatim>\<open>newTransaction\<close>, which no caller gives. Datagrams are texts. The digest
  function, the resolver and the creation of a UDP server are functions of the record.
\<close>

section \<open>Private addresses\<close>

text \<open>\<^verbatim>\<open>s.split(c, n)\<close>.\<close>

fun split_n :: "nat \<Rightarrow> char \<Rightarrow> string \<Rightarrow> string list" where
  "split_n 0 c s = [s]"
| "split_n (Suc n) c s = (case split1 c s of [a, r] \<Rightarrow> a # split_n n c r | xs \<Rightarrow> xs)"

text \<open>\<^verbatim>\<open>reduce(lambda x, y: (int(x) << 8) | int(y), ...)\<close>; a single piece stays a string.\<close>

fun reduce_addr :: "int \<Rightarrow> string list \<Rightarrow> int option" where
  "reduce_addr a [] = Some a"
| "reduce_addr a (y # ys) = (case py_int y of None \<Rightarrow> None | Some n \<Rightarrow> reduce_addr (or (push_bit 8 a) n) ys)"

definition addr_num :: "string \<Rightarrow> int option" where
  "addr_num a = (case split_n 4 (CHR ''.'') a of
       x # y # ys \<Rightarrow> (case py_int x of None \<Rightarrow> None | Some n \<Rightarrow> reduce_addr n (y # ys))
     | _ \<Rightarrow> None)"

definition NETS_1918 :: "(int \<times> int) list" where
  "NETS_1918 = [(push_bit 24 10, push_bit 24 0xffffffff), (push_bit 24 172 + push_bit 16 16, push_bit 20 0xffffffff),
     (push_bit 24 192 + push_bit 16 168, push_bit 16 0xffffffff)]"

fun check1918 :: "sip_host option \<Rightarrow> bool" where
  "check1918 (Some (Host a)) =
     (case addr_num a of None \<Rightarrow> False | Some n \<Rightarrow> list_ex (\<lambda>(net, mask). and n mask = net) NETS_1918)"
| "check1918 _ = False"

fun check7118 :: "sip_host \<Rightarrow> exn + bool" where
  "check7118 (Host h) = Inr (endswith ''.invalid'' h)"
| "check7118 MyAddress = Inl AttributeError"

section \<open>State\<close>

text \<open>The tuple that \<^verbatim>\<open>getTId\<close> returns: Call-ID, From tag, CSeq number, and what was asked for.\<close>

datatype tkey = TKey (tk_callid: string) (tk_ftag: "string option") (tk_cseq: int) (tk_rest: "string option list")

definition tkey_of :: "tid \<Rightarrow> tkey" where
  "tkey_of t = TKey (t_callid t) (t_ftag t) (t_cseq t)
     ((case t_method t of None \<Rightarrow> [] | Some m \<Rightarrow> [Some m]) @
     (case t_branch t of None \<Rightarrow> [] | Some b \<Rightarrow> [b]) @
     (case t_ttag t of None \<Rightarrow> [] | Some x \<Rightarrow> [x]))"

text \<open>\<^verbatim>\<open>tid[:-1] + (tag,)\<close>.\<close>

definition retag :: "string option \<Rightarrow> tkey \<Rightarrow> tkey" where
  "retag tag k = TKey (tk_callid k) (tk_ftag k) (tk_cseq k) (butlast (tk_rest k) @ [tag])"

abbreviation msg_key :: "bool \<Rightarrow> bool \<Rightarrow> bool \<Rightarrow> 'a sip_msg_scheme \<Rightarrow> exn + tkey" where
  "msg_key wCSM wBRN wTTG m \<equiv> map_sum id tkey_of (getTId wCSM wBRN wTTG m)"

datatype tx_state = TRYING | RINGING | COMPLETED | CONFIRMED | TERMINATED | UACK

datatype tref = Cl nat | Sv nat

datatype letter = TeA | TeB | TeC | TeD | TeE | TeF | TeG

datatype te_attr = Unset | NoTimer | Running nat
  \<comment> \<open>an attribute that was never assigned, \<^verbatim>\<open>None\<close>, a timer\<close>

type_synonym laddr = "string \<times> int"

record userv =
  u_laddr :: laddr
  u_transport :: string
  u_ipv6 :: bool

type_synonym dest = "(sip_host option \<times> sip_port) option"

datatype packet_msg = P_Req sip_req | P_Resp sip_resp

type_synonym packet = "packet_msg \<times> local_addr \<times> bool"

record transaction =
  tx_state :: tx_state
  tx_method :: string
  tx_tid :: "tkey option"
  tx_tout :: real
  tx_address :: dest
  tx_data :: "packet option"
  tx_checksum :: "string option"
  tx_userv :: "userv option"
  cb_ifver :: int
  uack :: bool
  compact :: bool
  tx_expires :: real
  needack :: bool
  tx_ack :: "sip_req option"
  tx_cancel :: "sip_req option"
  cancelPending :: bool
  resp_cb :: "nat option"
  cancel_cb :: "nat option"
  noack_cb :: "nat option"
  ack_cb :: "nat option"
  r408 :: "sip_resp option"
  r487 :: "sip_resp option"
  ack_rAddr :: "dest option"
  ack_checksum :: "string option"
  te :: "letter \<Rightarrow> te_attr"

definition SipTransaction :: transaction where
  "SipTransaction = \<lparr>tx_state = TRYING, tx_method = [], tx_tid = None, tx_tout = 0, tx_address = None, tx_data = None,
     tx_checksum = None, tx_userv = None, cb_ifver = 1, uack = False, compact = False, tx_expires = 0, needack = False,
     tx_ack = None, tx_cancel = None, cancelPending = False, resp_cb = None, cancel_cb = None, noack_cb = None,
     ack_cb = None, r408 = None, r487 = None, ack_rAddr = None, ack_checksum = None, te = (\<lambda>_. Unset)\<rparr>"

definition tx_cleanup :: "transaction \<Rightarrow> transaction" where
  "tx_cleanup t = t\<lparr>tx_ack := None, tx_cancel := None, resp_cb := None, cancel_cb := None, noack_cb := None, ack_cb := None,
     r487 := None, tx_address := None, te := (\<lambda>_. NoTimer), tx_tid := None, tx_userv := None, r408 := None\<rparr>"

record retransmit =
  rt_userv :: "userv option"
  rt_data :: "packet option"
  rt_address :: dest
  rt_lossemul :: "int option"

definition SipTMRetransmitO :: retransmit where
  "SipTMRetransmitO = \<lparr>rt_userv = None, rt_data = None, rt_address = None, rt_lossemul = None\<rparr>"

record wtimer =
  wt_id :: nat
  wt_letter :: letter
  wt_tx :: tref
  wt_at :: real

record l4r_state =
  l4r_fixed :: bool
  cache_r2l :: "string \<Rightarrow> laddr option"
  cache_r2l_old :: "string \<Rightarrow> laddr option"
  cache_l2s :: "(laddr \<times> userv) list"

datatype tm_event =
    W_Send userv packet dest
  | W_Discard packet dest
  | W_Request "nat option" nat sip_req
    \<comment> \<open>\<^verbatim>\<open>recvRequest\<close> of a consumer, or \<^verbatim>\<open>req_cb\<close>\<close>
  | W_Response nat nat sip_resp
    \<comment> \<open>the callback, the transaction\<close>
  | W_Ack nat nat sip_req
  | W_Cancel nat nat real "sip_req option"
  | W_NoAck nat nat

record tman =
  tclient :: "tkey \<Rightarrow> nat option"
  tserver :: "tkey \<Rightarrow> nat option"
  req_cb :: bool
  l1rcache :: "string \<Rightarrow> retransmit option"
  l2rcache :: "string \<Rightarrow> retransmit option"
  nat_traversal :: bool
  req_consumers :: "string \<Rightarrow> (nat \<times> bool) list option"
    \<comment> \<open>the consumers of a Call-ID: object and \<^verbatim>\<open>compact\<close>\<close>
  provisional_retr :: real
  init_time :: real
  l4r :: l4r_state
  objs :: "tref \<Rightarrow> transaction"
  ncl :: nat
  nsv :: nat
  wss_server :: "userv option"
  tel_url :: bool
    \<comment> \<open>\<^verbatim>\<open>SipConf.autoconvert_tel_url\<close>\<close>
  sip_port :: int
    \<comment> \<open>\<^verbatim>\<open>global_config['_sip_port']\<close>\<close>
  md5 :: "string \<Rightarrow> string"
  os_local :: "string \<Rightarrow> exn + string"
    \<comment> \<open>resolve, connect, \<^verbatim>\<open>getsockname()[0]\<close>\<close>
  os_open :: "laddr \<Rightarrow> exn + userv"
  w_token :: "nat \<Rightarrow> string"
  w_ntok :: nat
  w_ntm :: nat
  w_now :: real
  w_timers :: "wtimer list"
  w_trace :: "tm_event list"

section \<open>Basic statements\<close>

definition emit :: "tm_event \<Rightarrow> (tman, 'r) stmt" where
  "emit e = upd (\<lambda>s. s\<lparr>w_trace := w_trace s @ [e]\<rparr>)"

definition with_tx :: "tref \<Rightarrow> (transaction \<Rightarrow> (tman, 'r) stmt) \<Rightarrow> (tman, 'r) stmt" where
  "with_tx r = local (\<lambda>s. objs s r)"

definition tx_upd :: "tref \<Rightarrow> (transaction \<Rightarrow> transaction) \<Rightarrow> tman \<Rightarrow> tman" where
  "tx_upd r f s = s\<lparr>objs := (objs s)(r := f (objs s r))\<rparr>"

definition set_tx :: "tref \<Rightarrow> (transaction \<Rightarrow> transaction) \<Rightarrow> (tman, 'r) stmt" where
  "set_tx r f = upd (tx_upd r f)"

definition tm_token :: "(string \<Rightarrow> (tman, 'r) stmt) \<Rightarrow> (tman, 'r) stmt" where
  "tm_token c s = c (w_token s (w_ntok s)) (s\<lparr>w_ntok := Suc (w_ntok s)\<rparr>)"

text \<open>\<^verbatim>\<open>t.teX = Timeout(self.timerX, ival, 1, t)\<close>.\<close>

definition te_start :: "tref \<Rightarrow> letter \<Rightarrow> real \<Rightarrow> tman \<Rightarrow> tman" where
  "te_start r l ival s = s\<lparr>
     w_timers := w_timers s @ [\<lparr>wt_id = w_ntm s, wt_letter = l, wt_tx = r, wt_at = w_now s + ival\<rparr>],
     objs := (objs s)(r := (objs s r)\<lparr>te := (te (objs s r))(l := Running (w_ntm s))\<rparr>),
     w_ntm := Suc (w_ntm s)\<rparr>"

definition start_te :: "tref \<Rightarrow> letter \<Rightarrow> real \<Rightarrow> (tman, 'r) stmt" where
  "start_te r l ival = upd (te_start r l ival)"

definition clear_te :: "tref \<Rightarrow> letter \<Rightarrow> (tman, 'r) stmt" where
  "clear_te r l = set_tx r (\<lambda>t. t\<lparr>te := (te t)(l := NoTimer)\<rparr>)"

text \<open>\<^verbatim>\<open>t.teX.cancel()\<close>.\<close>

definition te_cancel :: "nat \<Rightarrow> tman \<Rightarrow> tman" where
  "te_cancel i s = s\<lparr>w_timers := filter (\<lambda>w. wt_id w \<noteq> i) (w_timers s)\<rparr>"

definition cancel_te :: "tref \<Rightarrow> letter \<Rightarrow> (tman, 'r) stmt" where
  "cancel_te r l = with_tx r (\<lambda>t. case te t l of
       Running i \<Rightarrow> upd (te_cancel i)
     | _ \<Rightarrow> raise AttributeError)"

text \<open>\<^verbatim>\<open>if t.teX != None: t.teX.cancel(); t.teX = None\<close>.\<close>

definition stop_te :: "tref \<Rightarrow> letter \<Rightarrow> (tman, 'r) stmt" where
  "stop_te r l = with_tx r (\<lambda>t.
     if te t l = NoTimer then skip else block [cancel_te r l, clear_te r l])"

text \<open>Assignments to the tables, and new objects.\<close>

definition set_client :: "tkey \<Rightarrow> nat option \<Rightarrow> tman \<Rightarrow> tman" where
  "set_client k v s = s\<lparr>tclient := (tclient s)(k := v)\<rparr>"

definition set_server :: "tkey \<Rightarrow> nat option \<Rightarrow> tman \<Rightarrow> tman" where
  "set_server k v s = s\<lparr>tserver := (tserver s)(k := v)\<rparr>"

definition new_client :: "transaction \<Rightarrow> tman \<Rightarrow> tman" where
  "new_client t s = s\<lparr>ncl := Suc (ncl s), objs := (objs s)(Cl (ncl s) := t)\<rparr>"

definition new_server :: "transaction \<Rightarrow> tman \<Rightarrow> tman" where
  "new_server t s = s\<lparr>nsv := Suc (nsv s), objs := (objs s)(Sv (nsv s) := t)\<rparr>"

definition del_client :: "tkey option \<Rightarrow> (tman, 'r) stmt" where
  "del_client k = (case k of
       None \<Rightarrow> raise KeyError
     | Some x \<Rightarrow> if_else (\<lambda>s. tclient s x = None) (raise KeyError) (upd (set_client x None)))"

definition del_server :: "tkey option \<Rightarrow> (tman, 'r) stmt" where
  "del_server k = (case k of
       None \<Rightarrow> raise KeyError
     | Some x \<Rightarrow> if_else (\<lambda>s. tserver s x = None) (raise KeyError) (upd (set_server x None)))"

text \<open>\<^verbatim>\<open>del self.tclient[t.tid]; t.cleanup()\<close>, and the same for the server table.\<close>

definition drop_client :: "nat \<Rightarrow> (tman, 'r) stmt" where
  "drop_client n = block [with_tx (Cl n) (\<lambda>t. del_client (tx_tid t)), set_tx (Cl n) tx_cleanup]"

definition drop_server :: "nat \<Rightarrow> (tman, 'r) stmt" where
  "drop_server n = block [with_tx (Sv n) (\<lambda>t. del_server (tx_tid t)), set_tx (Sv n) tx_cleanup]"

definition cache_drop :: "string \<Rightarrow> (tman, 'r) stmt" where
  "cache_drop csum = upd (\<lambda>s. s\<lparr>l1rcache := (l1rcache s)(csum \<mapsto> SipTMRetransmitO)\<rparr>)"

text \<open>An object that is needed and is \<^verbatim>\<open>None\<close>.\<close>

definition some_or :: "exn \<Rightarrow> 'a option \<Rightarrow> exn + 'a" where
  "some_or e x = (case x of None \<Rightarrow> Inl e | Some v \<Rightarrow> Inr v)"

section \<open>local4remote\<close>

definition initServer :: "laddr \<Rightarrow> (userv \<Rightarrow> (tman, 'r) stmt) \<Rightarrow> (tman, 'r) stmt" where
  "initServer la c = fetch (\<lambda>s. os_open s la) (\<lambda>u. block [
     upd (\<lambda>s. s\<lparr>l4r := (l4r s)\<lparr>cache_l2s := dict_set la u (cache_l2s (l4r s))\<rparr>\<rparr>),
     c u])"

definition server_for :: "laddr \<Rightarrow> (userv \<Rightarrow> (tman, 'r) stmt) \<Rightarrow> (tman, 'r) stmt" where
  "server_for la c = local (\<lambda>s. map_of (cache_l2s (l4r s)) la) (\<lambda>x. case x of None \<Rightarrow> initServer la c | Some u \<Rightarrow> c u)"

definition set_r2l :: "string \<Rightarrow> laddr \<Rightarrow> (tman, 'r) stmt" where
  "set_r2l a la = upd (\<lambda>s. s\<lparr>l4r := (l4r s)\<lparr>cache_r2l := (cache_r2l (l4r s))(a \<mapsto> la)\<rparr>\<rparr>)"

text \<open>The local address for a remote one, from the caches or from the system.\<close>

definition getServer_remote :: "string \<Rightarrow> (userv \<Rightarrow> (tman, 'r) stmt) \<Rightarrow> (tman, 'r) stmt" where
  "getServer_remote a c = block [
     if_then (\<lambda>s. cache_r2l (l4r s) a = None)
       (local (\<lambda>s. cache_r2l_old (l4r s) a) (\<lambda>x. case x of None \<Rightarrow> skip | Some la \<Rightarrow> set_r2l a la)),
     local (\<lambda>s. cache_r2l (l4r s) a) (\<lambda>x. case x of
         Some la \<Rightarrow> fetch (\<lambda>s. some_or KeyError (map_of (cache_l2s (l4r s)) la)) c
       | None \<Rightarrow>
           fetch (\<lambda>s. os_local s (if startswith ''['' a then butlast (tl a) else a)) (\<lambda>ip.
           local (\<lambda>s. (if startswith ''['' a then ''['' @ ip @ '']'' else ip, sip_port s)) (\<lambda>la. block [
             set_r2l a la,
             server_for la c])))]"

definition getServer :: "(sip_host option \<times> sip_port) option \<Rightarrow> (userv \<Rightarrow> (tman, 'r) stmt) \<Rightarrow> (tman, 'r) stmt" where
  "getServer addr c = if_else (\<lambda>s. l4r_fixed (l4r s))
     (fetch (\<lambda>s. case cache_l2s (l4r s) of [] \<Rightarrow> Inl IndexError | (_, u) # _ \<Rightarrow> Inr u) c)
     (case addr of
        None \<Rightarrow> raise TypeError
      | Some (Some (Host a), _) \<Rightarrow> getServer_remote a c
      | _ \<Rightarrow> raise AttributeError)"

text \<open>\<^verbatim>\<open>getServer(laddress, is_local = True)\<close>.\<close>

definition getServer_local :: "laddr \<Rightarrow> (userv \<Rightarrow> (tman, 'r) stmt) \<Rightarrow> (tman, 'r) stmt" where
  "getServer_local la c = if_else (\<lambda>s. l4r_fixed (l4r s))
     (fetch (\<lambda>s. case cache_l2s (l4r s) of [] \<Rightarrow> Inl IndexError | (_, u) # _ \<Rightarrow> Inr u) c)
     (server_for la c)"

definition rotateCache :: "(tman, 'r) stmt" where
  "rotateCache = upd (\<lambda>s. s\<lparr>l4r := (l4r s)\<lparr>cache_r2l_old := cache_r2l (l4r s), cache_r2l := Map.empty\<rparr>\<rparr>)"

definition rCachePurge :: "(tman, 'r) stmt" where
  "rCachePurge = block [
     upd (\<lambda>s. s\<lparr>l2rcache := l1rcache s\<rparr>),
     upd (\<lambda>s. s\<lparr>l1rcache := Map.empty\<rparr>),
     rotateCache]"

section \<open>Sending\<close>

definition getSIPaddr :: "userv \<Rightarrow> local_addr" where
  "getSIPaddr u = ((if u_ipv6 u then ''['' @ fst (u_laddr u) @ '']'' else fst (u_laddr u), snd (u_laddr u)), u_transport u)"

definition isWildCard :: "userv \<Rightarrow> bool" where
  "isWildCard u = (u_transport u = ''udp'' \<and> fst (u_laddr u) = (if u_ipv6 u then ''::'' else ''0.0.0.0''))"

text \<open>\<^verbatim>\<open>send_to\<close> and \<^verbatim>\<open>addr2str\<close>: the exception for an address that is no address.\<close>

definition bad_dest :: "userv \<Rightarrow> dest \<Rightarrow> exn option" where
  "bad_dest u d = (case d of
       None \<Rightarrow> Some (if u_transport u = ''udp'' then OtherError ''Invalid address'' else TypeError)
     | Some (h, _) \<Rightarrow>
         if u_transport u = ''udp'' \<and> u_ipv6 u then
           (case h of
              Some (Host a) \<Rightarrow> if startswith ''['' a then None else Some (OtherError ''Invalid IPv6 address'')
            | _ \<Rightarrow> Some AttributeError)
         else None)"

definition send_to :: "userv \<Rightarrow> packet \<Rightarrow> dest \<Rightarrow> (tman, 'r) stmt" where
  "send_to u p d = (case bad_dest u d of None \<Rightarrow> emit (W_Send u p d) | Some e \<Rightarrow> raise e)"

text \<open>A cache entry of \<^verbatim>\<open>None\<close> for \<^verbatim>\<open>lossemul\<close> is not 0, and \<^verbatim>\<open>None > 0\<close> is not evaluated without \<^verbatim>\<open>cachesum\<close>.\<close>

definition transmitData :: "userv option \<Rightarrow> packet \<Rightarrow> dest \<Rightarrow> string option \<Rightarrow> int option \<Rightarrow> (tman, 'r) stmt" where
  "transmitData uo p d csum loss =
     fetch (\<lambda>_. some_or AttributeError uo) (\<lambda>u. block [
       if_else (\<lambda>_. loss = Some 0) (send_to u p d)
         (case d of None \<Rightarrow> raise TypeError | Some _ \<Rightarrow> emit (W_Discard p d)),
       (case csum of
          None \<Rightarrow> skip
        | Some c \<Rightarrow> upd (\<lambda>s. s\<lparr>l1rcache := (l1rcache s)(c \<mapsto>
            \<lparr>rt_userv = Some u, rt_data = Some p, rt_address = d,
             rt_lossemul = map_option (\<lambda>n. if n > 0 then n - 1 else n) loss\<rparr>)\<rparr>))])"

definition packet_of :: "userv option \<Rightarrow> packet_msg \<Rightarrow> bool \<Rightarrow> exn + packet" where
  "packet_of uo m c = (case uo of
       None \<Rightarrow> Inl AttributeError
     | Some u \<Rightarrow>
         if (case m of P_Req q \<Rightarrow> printable q | P_Resp r \<Rightarrow> printable r) then Inr (m, getSIPaddr u, c)
         else Inl AttributeError)"

definition transmitMsg :: "userv option \<Rightarrow> packet_msg \<Rightarrow> dest \<Rightarrow> string \<Rightarrow> bool \<Rightarrow> (tman, 'r) stmt" where
  "transmitMsg uo m d csum c =
     fetch (\<lambda>_. packet_of uo m c) (\<lambda>p. transmitData uo p d (Some csum) (Some 0))"

text \<open>\<^verbatim>\<open>resp.getHFBody('via').getTAddr()\<close>.\<close>

definition via_dest :: "'a sip_msg_scheme \<Rightarrow> exn + dest" where
  "via_dest m = and_then (and_then (getHFBody ''via'' m) as_via) (\<lambda>v. map_sum id Some (SipVia_getTAddr v))"

fun set_first_in :: "string \<Rightarrow> (hf_body \<Rightarrow> hf_body) \<Rightarrow> sip_header list \<Rightarrow> sip_header list" where
  "set_first_in n f [] = []"
| "set_first_in n f (h # hs) = (if hname h = n then SipHeader n (f (hbody h)) # hs else h # set_first_in n f hs)"

text \<open>A change of the object that \<^verbatim>\<open>getHFBody(name)\<close> returns.\<close>

definition set_first :: "string \<Rightarrow> (hf_body \<Rightarrow> hf_body) \<Rightarrow> 'a sip_msg_scheme \<Rightarrow> 'a sip_msg_scheme" where
  "set_first n f m = m\<lparr>headers := set_first_in n f (headers m)\<rparr>"

fun addr_upd :: "(sip_address \<Rightarrow> sip_address) \<Rightarrow> hf_body \<Rightarrow> hf_body" where
  "addr_upd f (HF_Addr a) = HF_Addr (f a)"
| "addr_upd f b = b"

fun via_upd :: "(sip_via \<Rightarrow> sip_via) \<Rightarrow> hf_body \<Rightarrow> hf_body" where
  "via_upd f (HF_Via a) = HF_Via (f a)"
| "via_upd f b = b"

section \<open>Client transactions\<close>

definition expires_of :: "'a sip_msg_scheme \<Rightarrow> exn + real" where
  "expires_of m = (case and_then (getHFBody ''expires'' m) as_num of
       Inl e \<Rightarrow> if e = IndexError then Inr 300 else Inl e
     | Inr n \<Rightarrow> Inr (if n \<le> 0 then 300 else of_int n))"

definition to_dest :: "hostport option \<Rightarrow> dest" where
  "to_dest a = map_option (\<lambda>(h, p). (Some h, p)) a"

definition client_server :: "sip_transport \<Rightarrow> dest \<Rightarrow> laddr option \<Rightarrow> (userv \<Rightarrow> (tman, 'r) stmt) \<Rightarrow> (tman, 'r) stmt" where
  "client_server tr addr la c =
     (if show_transport tr = ''udp'' then (case la of None \<Rightarrow> getServer addr c | Some l \<Rightarrow> getServer_local l c)
      else if show_transport tr = ''ws'' \<or> show_transport tr = ''wss'' then fetch (\<lambda>s. some_or KeyError (wss_server s)) c
      else raise RuntimeError)"

text \<open>The attributes of the transaction object that depend on the method.\<close>

definition client_invite :: "tref \<Rightarrow> sip_req \<Rightarrow> (tman, 'r) stmt" where
  "client_invite r msg =
     (if rmethod msg = ''INVITE'' then
        fetch (\<lambda>_. expires_of msg) (\<lambda>e. block [
          set_tx r (\<lambda>t. t\<lparr>tx_expires := e, needack := True\<rparr>),
          fetch (\<lambda>_. genACK None msg) (\<lambda>a. set_tx r (\<lambda>t. t\<lparr>tx_ack := Some a\<rparr>)),
          fetch (\<lambda>_. genCANCEL msg) (\<lambda>c. set_tx r (\<lambda>t. t\<lparr>tx_cancel := Some c\<rparr>))])
      else set_tx r (\<lambda>t. t\<lparr>tx_expires := 32, needack := False, tx_ack := None, tx_cancel := None\<rparr>))"

text \<open>The address, the server and the text of the request.\<close>

definition client_setup :: "tref \<Rightarrow> sip_req \<Rightarrow> laddr option \<Rightarrow> userv option \<Rightarrow> bool \<Rightarrow> (tman, 'r) stmt" where
  "client_setup r msg la us cmp = block [
     set_tx r (\<lambda>t. t\<lparr>tx_tout := 1 / 2\<rparr>),
     fetch (\<lambda>_. some_or TypeError (target msg)) (\<lambda>(a, tr). block [
       set_tx r (\<lambda>t. t\<lparr>tx_address := to_dest a\<rparr>),
       (case us of
          Some u \<Rightarrow> set_tx r (\<lambda>t. t\<lparr>tx_userv := Some u\<rparr>)
        | None \<Rightarrow> client_server tr (to_dest a) la (\<lambda>u. set_tx r (\<lambda>t. t\<lparr>tx_userv := Some u\<rparr>)))]),
     with_tx r (\<lambda>t. fetch (\<lambda>_. packet_of (tx_userv t) (P_Req msg) cmp) (\<lambda>p. set_tx r (\<lambda>t. t\<lparr>tx_data := Some p\<rparr>)))]"

text \<open>The timers, the table, the first transmission.\<close>

definition client_start :: "nat \<Rightarrow> tkey \<Rightarrow> sip_req \<Rightarrow> nat option \<Rightarrow> (tman, 'r) stmt" where
  "client_start n k msg rcb = (let r = Cl n in block [
     set_tx r (\<lambda>t. t\<lparr>cancelPending := False, resp_cb := rcb\<rparr>),
     start_te r TeA (1 / 2),
     (case rcb of
        None \<Rightarrow> skip
      | Some _ \<Rightarrow> fetch (\<lambda>_. genResponse 408 ''Request Timeout'' None None None msg) (\<lambda>x. set_tx r (\<lambda>t. t\<lparr>r408 := Some x\<rparr>))),
     start_te r TeB 32,
     clear_te r TeC,
     set_tx r (\<lambda>t. t\<lparr>tx_state := TRYING\<rparr>),
     upd (set_client k (Some n)),
     with_tx r (\<lambda>t. fetch (\<lambda>_. some_or AttributeError (tx_data t)) (\<lambda>p.
       transmitData (tx_userv t) p (tx_address t) None (Some 0)))])"

definition TM_newTransaction :: "sip_req \<Rightarrow> nat option \<Rightarrow> laddr option \<Rightarrow> userv option \<Rightarrow> int \<Rightarrow> bool \<Rightarrow> (tman, nat) stmt" where
  "TM_newTransaction msg rcb la us ifver cmp =
     local ncl (\<lambda>n. let r = Cl n in block [
       upd (new_client SipTransaction),
       set_tx r (\<lambda>t. t\<lparr>compact := cmp, tx_method := rmethod msg, cb_ifver := ifver\<rparr>),
       fetch (\<lambda>_. msg_key True True False msg) (\<lambda>k. block [
         set_tx r (\<lambda>t. t\<lparr>tx_tid := Some k\<rparr>),
         if_then (\<lambda>s. tclient s k \<noteq> None) (raise ValueError),
         client_setup r msg la us cmp,
         client_invite r msg,
         client_start n k msg rcb,
         ret n])])"

text \<open>The CANCEL of an INVITE: \<^verbatim>\<open>self.newTransaction(t.cancel, userv = t.userv)\<close>.\<close>

definition send_cancel :: "nat \<Rightarrow> (tman, 'r) stmt" where
  "send_cancel n = with_tx (Cl n) (\<lambda>t.
     fetch (\<lambda>_. some_or AttributeError (tx_cancel t)) (\<lambda>c.
       call 0 (TM_newTransaction c None None (tx_userv t) 1 False) (\<lambda>_. skip)))"

definition TM_cancelTransaction :: "nat \<Rightarrow> sip_header list option \<Rightarrow> (tman, unit) stmt" where
  "TM_cancelTransaction n eh = with_tx (Cl n) (\<lambda>t.
     if tx_state t \<noteq> RINGING then set_tx (Cl n) (\<lambda>t. t\<lparr>cancelPending := True\<rparr>)
     else block [
       (case eh of
          None \<Rightarrow> skip
        | Some hs \<Rightarrow> fetch (\<lambda>_. some_or AttributeError (tx_cancel t)) (\<lambda>c.
            set_tx (Cl n) (\<lambda>t. t\<lparr>tx_cancel := Some (appendHeaders hs c)\<rparr>))),
       send_cancel n])"

definition TM_sendACK :: "nat \<Rightarrow> (tman, unit) stmt" where
  "TM_sendACK n = block [
     stop_te (Cl n) TeG,
     with_tx (Cl n) (\<lambda>t.
       fetch (\<lambda>_. some_or AttributeError (ack_rAddr t)) (\<lambda>d.
       fetch (\<lambda>_. some_or AttributeError (tx_ack t)) (\<lambda>a.
       fetch (\<lambda>_. some_or AttributeError (ack_checksum t)) (\<lambda>c.
         transmitMsg (tx_userv t) (P_Req a) d c (compact t))))),
     drop_client n]"

section \<open>Consumers\<close>

definition TM_regConsumer :: "nat \<Rightarrow> string \<Rightarrow> bool \<Rightarrow> (tman, unit) stmt" where
  "TM_regConsumer c ci cmp = upd (\<lambda>s. s\<lparr>req_consumers := (req_consumers s)(ci \<mapsto>
     (case req_consumers s ci of None \<Rightarrow> [] | Some cs \<Rightarrow> cs) @ [(c, cmp)])\<rparr>)"

fun remove_consumer :: "nat \<Rightarrow> (nat \<times> bool) list \<Rightarrow> (nat \<times> bool) list" where
  "remove_consumer c [] = []"
| "remove_consumer c (x # xs) = (if fst x = c then xs else x # remove_consumer c xs)"

definition TM_unregConsumer :: "nat \<Rightarrow> string \<Rightarrow> (tman, unit) stmt" where
  "TM_unregConsumer c ci =
     fetch (\<lambda>s. some_or KeyError (req_consumers s ci)) (\<lambda>cs.
       if c \<in> fst ` set cs then
         upd (\<lambda>s. s\<lparr>req_consumers := (req_consumers s)(ci :=
           (if remove_consumer c cs = [] then None else Some (remove_consumer c cs)))\<rparr>)
       else raise IndexError)"

section \<open>Responses to the network\<close>

definition server_final :: "nat \<Rightarrow> sip_resp \<Rightarrow> nat option \<Rightarrow> (tman, 'r) stmt" where
  "server_final n resp acb = (let r = Sv n in block [
     set_tx r (\<lambda>t. t\<lparr>tx_state := COMPLETED\<rparr>),
     stop_te r TeE,
     stop_te r TeF,
     with_tx r (\<lambda>t. if needack t then block [
         set_tx r (\<lambda>t. t\<lparr>ack_cb := acb\<rparr>),
         start_te r TeD 32,
         del_server (tx_tid t),
         fetch (\<lambda>_. and_then (getAddrHF ''to'' resp) (\<lambda>a. Inr (getTag a))) (\<lambda>tag.
         fetch (\<lambda>_. some_or TypeError (tx_tid t)) (\<lambda>k. block [
           set_tx r (\<lambda>t. t\<lparr>tx_tid := Some (retag tag k)\<rparr>),
           upd (set_server (retag tag k) (Some n))])),
         set_tx r (\<lambda>t. t\<lparr>tx_tout := 1 / 2\<rparr>),
         start_te r TeA (1 / 2)]
       else drop_server n)])"

text \<open>The answer goes out; it is kept for retransmissions.\<close>

definition server_send :: "nat \<Rightarrow> packet \<Rightarrow> sip_resp \<Rightarrow> int \<Rightarrow> (tman, 'r) stmt" where
  "server_send n p resp loss = (let r = Sv n in block [
     set_tx r (\<lambda>t. t\<lparr>tx_data := Some p\<rparr>),
     fetch (\<lambda>_. via_dest resp) (\<lambda>d. block [
       set_tx r (\<lambda>t. t\<lparr>tx_address := d\<rparr>),
       with_tx r (\<lambda>t. transmitData (tx_userv t) p d (tx_checksum t) (Some loss))])])"

text \<open>The new state; a provisional answer is repeated by timer F.\<close>

definition server_answered :: "nat \<Rightarrow> sip_resp \<Rightarrow> nat option \<Rightarrow> (tman, 'r) stmt" where
  "server_answered n resp acb = (let r = Sv n in
     if scode resp < 200 then block [
       set_tx r (\<lambda>t. t\<lparr>tx_state := RINGING\<rparr>),
       if_then (\<lambda>s. provisional_retr s > 0 \<and> scode resp > 100) (block [
         with_tx r (\<lambda>t. if te t TeF = NoTimer then skip else cancel_te r TeF),
         local provisional_retr (\<lambda>p. start_te r TeF p)])]
     else server_final n resp acb)"

text \<open>
  \<^verbatim>\<open>sendResponse\<close> with the transaction given; the \<^verbatim>\<open>To\<close> header of a response above 100 gets a
  tag if it has none.
\<close>

definition sendResponse_on :: "nat \<Rightarrow> sip_resp \<Rightarrow> bool \<Rightarrow> nat option \<Rightarrow> int \<Rightarrow> (tman, unit) stmt" where
  "sendResponse_on n resp0 retrans acb loss = with_tx (Sv n) (\<lambda>t. block [
     if_then (\<lambda>_. tx_state t \<notin> {TRYING, RINGING} \<and> \<not> retrans) (raise ValueError),
     fetch (\<lambda>_. getAddrHF ''to'' resp0) (\<lambda>a.
     tm_token (\<lambda>tok.
     local (\<lambda>_. if scode resp0 > 100 \<and> getTag a = None then set_first ''to'' (addr_upd (setTag (Some tok))) resp0 else resp0) (\<lambda>resp.
     fetch (\<lambda>_. packet_of (tx_userv t) (P_Resp resp) (compact t)) (\<lambda>p. block [
       server_send n p resp loss,
       server_answered n resp acb]))))])"

definition TM_sendResponse :: "sip_resp \<Rightarrow> nat option \<Rightarrow> nat option \<Rightarrow> int \<Rightarrow> (tman, unit) stmt" where
  "TM_sendResponse resp t acb loss = (case t of
       Some n \<Rightarrow> sendResponse_on n resp False acb loss
     | None \<Rightarrow>
         fetch (\<lambda>_. msg_key False True False resp) (\<lambda>k.
         fetch (\<lambda>s. some_or KeyError (tserver s k)) (\<lambda>n. sendResponse_on n resp False acb loss)))"

section \<open>The layer above\<close>

datatype tm_op =
    Op_newTransaction sip_req "nat option" "laddr option" int bool
  | Op_cancelTransaction nat "sip_header list option"
  | Op_sendACK nat
  | Op_setAckBody nat "msg_body option"
  | Op_setUack nat
  | Op_clearRespCb nat
  | Op_sendResponse sip_resp "nat option" "nat option" int
  | Op_regConsumer nat string bool
  | Op_unregConsumer nat string

definition TM_setAckBody :: "nat \<Rightarrow> msg_body option \<Rightarrow> (tman, unit) stmt" where
  "TM_setAckBody n b = with_tx (Cl n) (\<lambda>t.
     fetch (\<lambda>_. some_or AttributeError (tx_ack t)) (\<lambda>a. set_tx (Cl n) (\<lambda>t. t\<lparr>tx_ack := Some (a\<lparr>body := b\<rparr>)\<rparr>)))"

fun run_op :: "tm_op \<Rightarrow> (tman, unit) stmt" where
  "run_op (Op_newTransaction m rcb la v c) = call 0 (TM_newTransaction m rcb la None v c) (\<lambda>_. skip)"
| "run_op (Op_cancelTransaction n eh) = TM_cancelTransaction n eh"
| "run_op (Op_sendACK n) = TM_sendACK n"
| "run_op (Op_setAckBody n b) = TM_setAckBody n b"
| "run_op (Op_setUack n) = set_tx (Cl n) (\<lambda>t. t\<lparr>uack := True\<rparr>)"
| "run_op (Op_clearRespCb n) = set_tx (Cl n) (\<lambda>t. t\<lparr>resp_cb := None\<rparr>)"
| "run_op (Op_sendResponse x t acb loss) = TM_sendResponse x t acb loss"
| "run_op (Op_regConsumer c ci cmp) = TM_regConsumer c ci cmp"
| "run_op (Op_unregConsumer c ci) = TM_unregConsumer c ci"

text \<open>What a request callback returns when it is not \<^verbatim>\<open>None\<close>: response, its \<^verbatim>\<open>lossemul\<close>, \<^verbatim>\<open>cancel_cb\<close>, \<^verbatim>\<open>noack_cb\<close>.\<close>

type_synonym rval = "((sip_resp \<times> int) option \<times> nat option \<times> nat option) option"

record reaction =
  re_ops :: "(tm_op \<times> bool) list"
  re_end :: "exn + rval"

record upper =
  react :: "tm_event \<Rightarrow> reaction"
  isYours :: "nat \<Rightarrow> sip_req \<Rightarrow> exn + nat option"

definition up_op :: "tm_op \<times> bool \<Rightarrow> (tman, 'r) stmt" where
  "up_op x = call () (if snd x then try_catch (run_op (fst x)) (\<lambda>_. skip) else run_op (fst x)) (\<lambda>_. skip)"

definition up_call :: "upper \<Rightarrow> tm_event \<Rightarrow> (rval \<Rightarrow> (tman, 'r) stmt) \<Rightarrow> (tman, 'r) stmt" where
  "up_call up e c = block [
     emit e,
     foreach (re_ops (react up e)) up_op,
     fetch (\<lambda>_. re_end (react up e)) c]"

section \<open>Responses from the network\<close>

definition call_resp_cb :: "upper \<Rightarrow> nat \<Rightarrow> sip_resp \<Rightarrow> (tman, 'r) stmt" where
  "call_resp_cb up n msg = with_tx (Cl n) (\<lambda>t. case resp_cb t of
       None \<Rightarrow> skip
     | Some cb \<Rightarrow> up_call up (W_Response cb n msg) (\<lambda>_. skip))"

text \<open>
  Where the ACK of a 2xx goes and by which route: its target URI, the next hop and the route
  set. A strict router as the first hop takes the place of the target.
\<close>

definition ack_route :: "sip_resp \<Rightarrow> exn + (sip_url option \<times> taddr option \<times> sip_address list)" where
  "ack_route msg =
     and_then (if countHFs ''contact'' msg > 0 then map_sum id (\<lambda>a. Some (SipURL_getCopy (aurl a))) (getAddrHF ''contact'' msg)
               else Inr None) (\<lambda>rTarget.
     and_then (and_then (getHFBodys ''record-route'' msg) (\<lambda>bs. map_sum id (map SipAddress_getCopy) (sequence_sum (map as_addr bs)))) (\<lambda>rts.
       Inr (case rev rts of
          [] \<Rightarrow> (rTarget, map_option SipURL_getTAddr rTarget, [])
        | x # xs \<Rightarrow>
            if \<not> lr (aurl x) then
              (Some (aurl x), Some (SipURL_getTAddr (aurl x)),
               xs @ (case rTarget of None \<Rightarrow> [] | Some u \<Rightarrow> [SipAddress None u]))
            else (rTarget, Some (SipURL_getTAddr (aurl x)), x # xs))))"

definition ack_2xx :: "sip_url option \<Rightarrow> taddr option \<Rightarrow> sip_address list \<Rightarrow> sip_req \<Rightarrow> sip_req" where
  "ack_2xx rTarget ra rts a = appendHeaders (map (\<lambda>x. SipHeader ''route'' (HF_Addr x)) rts)
     (delHFs ''route'' (a\<lparr>ruri := (case rTarget of None \<Rightarrow> ruri a | Some u \<Rightarrow> u),
       target := (case ra of None \<Rightarrow> target a | Some x \<Rightarrow> Some (some_addr x))\<rparr>))"

text \<open>
  The part of \<^verbatim>\<open>incomingResponse\<close> that prepares the ACK (the tag of the peer, the route of a
  2xx, a branch of its own) and sends it or leaves it to the user.
\<close>

definition ack_tag :: "nat \<Rightarrow> sip_resp \<Rightarrow> (tman, 'r) stmt" where
  "ack_tag n msg =
     fetch (\<lambda>_. and_then (getAddrHF ''to'' msg) (\<lambda>a. Inr (getTag a))) (\<lambda>tag. case tag of
         None \<Rightarrow> skip
       | Some x \<Rightarrow> with_tx (Cl n) (\<lambda>t.
           fetch (\<lambda>_. and_then (some_or AttributeError (tx_ack t)) (\<lambda>a. and_then (getAddrHF ''to'' a) (\<lambda>_. Inr a))) (\<lambda>a.
             set_tx (Cl n) (\<lambda>t. t\<lparr>tx_ack := Some (set_first ''to'' (addr_upd (setTag (Some x))) a)\<rparr>))))"

type_synonym ack_target = "sip_url option \<times> taddr option \<times> sip_address list"

definition ack_set_route :: "nat \<Rightarrow> ack_target option \<Rightarrow> (tman, 'r) stmt" where
  "ack_set_route n route = (case route of
       None \<Rightarrow> skip
     | Some (rTarget, ra, rts) \<Rightarrow> with_tx (Cl n) (\<lambda>t.
         fetch (\<lambda>_. some_or AttributeError (tx_ack t)) (\<lambda>a. block [
           set_tx (Cl n) (\<lambda>t. t\<lparr>tx_ack := Some (ack_2xx rTarget ra rts a)\<rparr>),
           fetch (\<lambda>_. and_then (getHFBody ''via'' a) as_via) (\<lambda>_.
           tm_token (\<lambda>tok.
             set_tx (Cl n) (\<lambda>t. t\<lparr>tx_ack := map_option (set_first ''via'' (via_upd (SipVia_genBranch tok))) (tx_ack t)\<rparr>)))])))"

definition ack_dest :: "ack_target option \<Rightarrow> dest \<Rightarrow> dest" where
  "ack_dest route d = (case route of Some (_, Some (hp, _), _) \<Rightarrow> to_dest (Some hp) | _ \<Rightarrow> d)"

definition ack_send :: "nat \<Rightarrow> dest \<Rightarrow> string \<Rightarrow> (tman, 'r) stmt" where
  "ack_send n d csum = with_tx (Cl n) (\<lambda>t.
     if \<not> uack t then
       fetch (\<lambda>_. some_or AttributeError (tx_ack t)) (\<lambda>a. transmitMsg (tx_userv t) (P_Req a) d csum (compact t))
     else block [
       set_tx (Cl n) (\<lambda>t. t\<lparr>tx_state := UACK\<rparr>),
       set_tx (Cl n) (\<lambda>t. t\<lparr>ack_rAddr := Some d, ack_checksum := Some csum\<rparr>),
       cache_drop csum,
       start_te (Cl n) TeG 64])"

definition client_ack :: "nat \<Rightarrow> sip_resp \<Rightarrow> string \<Rightarrow> (tman, 'r) stmt" where
  "client_ack n msg csum = block [
     ack_tag n msg,
     fetch (\<lambda>_. if 200 \<le> scode msg \<and> scode msg < 300 then map_sum id Some (ack_route msg) else Inr None) (\<lambda>route. block [
       ack_set_route n route,
       with_tx (Cl n) (\<lambda>t. ack_send n (ack_dest route (tx_address t)) csum)])]"

text \<open>A provisional response: the deferred CANCEL is sent, the timeout starts anew.\<close>

definition client_provisional :: "upper \<Rightarrow> sip_resp \<Rightarrow> nat \<Rightarrow> string \<Rightarrow> (tman, unit) stmt" where
  "client_provisional up msg n csum = (let r = Cl n in block [
     with_tx r (\<lambda>t. if tx_state t = TRYING then block [
         set_tx r (\<lambda>t. t\<lparr>tx_state := RINGING\<rparr>),
         if cancelPending t then block [
           send_cancel n,
           set_tx r (\<lambda>t. t\<lparr>cancelPending := False\<rparr>)]
         else skip]
       else skip),
     with_tx r (\<lambda>t. start_te r TeB (tx_expires t)),
     cache_drop csum,
     call_resp_cb up n msg])"

text \<open>A final response: the ACK, the upper layer, the end of the transaction.\<close>

definition client_final :: "upper \<Rightarrow> sip_resp \<Rightarrow> nat \<Rightarrow> string \<Rightarrow> (tman, unit) stmt" where
  "client_final up msg n csum = (let r = Cl n in block [
     with_tx r (\<lambda>t. if needack t then client_ack n msg csum else cache_drop csum),
     call_resp_cb up n msg,
     with_tx r (\<lambda>t. if tx_state t = UACK then ret () else skip),
     drop_client n])"

definition incomingResponse :: "upper \<Rightarrow> sip_resp \<Rightarrow> nat \<Rightarrow> string \<Rightarrow> (tman, unit) stmt" where
  "incomingResponse up msg n csum = (let r = Cl n in block [
     with_tx r (\<lambda>t. if tx_state t = TERMINATED then ret () else skip),
     with_tx r (\<lambda>t. if tx_state t = TRYING then stop_te r TeA else skip),
     with_tx r (\<lambda>t. if tx_state t \<in> {TRYING, RINGING} then block [
         stop_te r TeB,
         if scode msg < 200 then client_provisional up msg n csum else client_final up msg n csum]
       else skip)])"

section \<open>Timers\<close>

definition timerA :: "tref \<Rightarrow> (tman, unit) stmt" where
  "timerA r = block [
     with_tx r (\<lambda>t. fetch (\<lambda>_. some_or AttributeError (tx_data t)) (\<lambda>p. transmitData (tx_userv t) p (tx_address t) None (Some 0))),
     set_tx r (\<lambda>t. t\<lparr>tx_tout := tx_tout t * 2\<rparr>),
     with_tx r (\<lambda>t. start_te r TeA (tx_tout t))]"

definition timerB :: "upper \<Rightarrow> nat \<Rightarrow> (tman, unit) stmt" where
  "timerB up n = (let r = Cl n in block [
     clear_te r TeB,
     stop_te r TeA,
     set_tx r (\<lambda>t. t\<lparr>tx_state := TERMINATED\<rparr>),
     start_te r TeC 32,
     with_tx r (\<lambda>t. if resp_cb t = None then ret ()
       else fetch (\<lambda>_. some_or AttributeError (r408 t)) (\<lambda>x.
         local w_now (\<lambda>now. call_resp_cb up n (x\<lparr>rtime := now\<rparr>))))])"

definition timerC :: "nat \<Rightarrow> (tman, unit) stmt" where
  "timerC n = (let r = Cl n in block [
     clear_te r TeC,
     drop_client n])"

definition call_cancel_cb :: "upper \<Rightarrow> nat \<Rightarrow> real \<Rightarrow> sip_req option \<Rightarrow> (tman, unit) stmt" where
  "call_cancel_cb up n tm req = with_tx (Sv n) (\<lambda>t. case cancel_cb t of
       None \<Rightarrow> skip
     | Some cb \<Rightarrow> up_call up (W_Cancel cb n tm req) (\<lambda>_. skip))"

definition call_noack_cb :: "upper \<Rightarrow> nat \<Rightarrow> (tman, unit) stmt" where
  "call_noack_cb up n = with_tx (Sv n) (\<lambda>t. case noack_cb t of
       None \<Rightarrow> skip
     | Some cb \<Rightarrow> if tx_state t \<noteq> CONFIRMED then up_call up (W_NoAck cb n) (\<lambda>_. skip) else skip)"

definition doCancel :: "upper \<Rightarrow> nat \<Rightarrow> real option \<Rightarrow> sip_req option \<Rightarrow> (tman, unit) stmt" where
  "doCancel up n rt req =
     local (\<lambda>s. case rt of None \<Rightarrow> w_now s | Some x \<Rightarrow> x) (\<lambda>tm. block [
       with_tx (Sv n) (\<lambda>t. case r487 t of
           None \<Rightarrow> skip
         | Some x \<Rightarrow> sendResponse_on n x True None 0),
       call_cancel_cb up n tm req])"

definition timerD :: "upper \<Rightarrow> nat \<Rightarrow> (tman, unit) stmt" where
  "timerD up n = (let r = Sv n in block [
     clear_te r TeD,
     stop_te r TeA,
     call_noack_cb up n,
     drop_server n])"

definition timerE :: "upper \<Rightarrow> nat \<Rightarrow> (tman, unit) stmt" where
  "timerE up n = (let r = Sv n in block [
     clear_te r TeE,
     stop_te r TeF,
     with_tx r (\<lambda>t. if tx_state t \<in> {TRYING, RINGING} then block [
         set_tx r (\<lambda>t. t\<lparr>r487 := map_option (\<lambda>x. x\<lparr>reason := ''Request Expired''\<rparr>) (r487 t)\<rparr>),
         doCancel up n None None]
       else skip)])"

definition timerF :: "nat \<Rightarrow> (tman, unit) stmt" where
  "timerF n = (let r = Sv n in block [
     clear_te r TeF,
     with_tx r (\<lambda>t. if_then (\<lambda>s. tx_state t = RINGING \<and> provisional_retr s > 0) (block [
       fetch (\<lambda>_. some_or AttributeError (tx_data t)) (\<lambda>p. transmitData (tx_userv t) p (tx_address t) None (Some 0)),
       local provisional_retr (\<lambda>p. start_te r TeF p)]))])"

definition timerG :: "nat \<Rightarrow> (tman, unit) stmt" where
  "timerG n = clear_te (Cl n) TeG"

section \<open>Requests from the network\<close>

definition answer_to :: "userv option \<Rightarrow> int \<Rightarrow> string \<Rightarrow> sip_req \<Rightarrow> string \<Rightarrow> bool \<Rightarrow> (tman, 'r) stmt" where
  "answer_to u code rs msg csum c =
     fetch (\<lambda>_. genResponse code rs None None None msg) (\<lambda>resp.
     fetch (\<lambda>_. via_dest resp) (\<lambda>d. transmitMsg u (P_Resp resp) d csum c))"

definition call_ack_cb :: "upper \<Rightarrow> nat \<Rightarrow> sip_req \<Rightarrow> (tman, unit) stmt" where
  "call_ack_cb up n msg = with_tx (Sv n) (\<lambda>t. case ack_cb t of
       None \<Rightarrow> skip
     | Some cb \<Rightarrow> up_call up (W_Ack cb n msg) (\<lambda>_. skip))"

text \<open>The ACK of the final answer ends the transaction.\<close>

definition server_confirmed :: "upper \<Rightarrow> sip_req \<Rightarrow> string \<Rightarrow> nat \<Rightarrow> (tman, unit) stmt" where
  "server_confirmed up msg csum n = (let r = Sv n in block [
     set_tx r (\<lambda>t. t\<lparr>tx_state := CONFIRMED\<rparr>),
     stop_te r TeA,
     cancel_te r TeD,
     with_tx r (\<lambda>t. del_server (tx_tid t)),
     call_ack_cb up n msg,
     set_tx r tx_cleanup,
     cache_drop csum])"

text \<open>A request that matches the server transaction \<open>n\<close>.\<close>

definition matched_request :: "upper \<Rightarrow> sip_req \<Rightarrow> string \<Rightarrow> nat \<Rightarrow> (tman, unit) stmt" where
  "matched_request up msg csum n = (let r = Sv n in with_tx r (\<lambda>t.
     if rmethod msg = tx_method t then
       (case tx_data t of None \<Rightarrow> ret () | Some p \<Rightarrow> transmitData (tx_userv t) p (tx_address t) (Some csum) (Some 0))
     else if rmethod msg = ''CANCEL'' then block [
       answer_to (tx_userv t) 200 ''OK'' msg csum (compact t),
       if tx_state t \<in> {TRYING, RINGING} then doCancel up n (Some (rtime msg)) (Some msg) else skip]
     else if rmethod msg = ''ACK'' \<and> tx_state t = COMPLETED then server_confirmed up msg csum n
     else skip))"

fun first_consumer :: "upper \<Rightarrow> sip_req \<Rightarrow> (nat \<times> bool) list \<Rightarrow> exn + (nat \<times> bool) option" where
  "first_consumer up msg [] = Inr None"
| "first_consumer up msg ((c, cmp) # cs) =
     (case isYours up c msg of
        Inl e \<Rightarrow> Inl e
      | Inr (Some x) \<Rightarrow> Inr (Some (x, cmp))
      | Inr None \<Rightarrow> first_consumer up msg cs)"

text \<open>The object of a new server transaction.\<close>

definition new_server_tx :: "tkey \<Rightarrow> sip_req \<Rightarrow> string \<Rightarrow> transaction" where
  "new_server_tx k msg csum = SipTransaction\<lparr>tx_tid := Some k, tx_method := rmethod msg, tx_checksum := Some csum,
     te := (\<lambda>l. if l \<in> {TeB, TeC} then Unset else NoTimer)\<rparr>"

definition setup_server :: "nat \<Rightarrow> sip_req \<Rightarrow> userv \<Rightarrow> (tman, 'r) stmt" where
  "setup_server n msg server = (let r = Sv n in block [
     if \<not> isWildCard server then set_tx r (\<lambda>t. t\<lparr>tx_userv := Some server\<rparr>)
     else getServer (map_option (\<lambda>(h, p). (Some (Host h), Port p)) (msource msg)) (\<lambda>u. set_tx r (\<lambda>t. t\<lparr>tx_userv := Some u\<rparr>)),
     if rmethod msg = ''INVITE'' then block [
       fetch (\<lambda>_. genResponse 487 ''Request Terminated'' None None None msg) (\<lambda>x. set_tx r (\<lambda>t. t\<lparr>r487 := Some x, needack := True\<rparr>)),
       fetch (\<lambda>_. and_then (getHFBody ''via'' msg) as_via) (\<lambda>_. skip),
       fetch (\<lambda>_. expires_of msg) (\<lambda>e. start_te r TeE e)]
     else set_tx r (\<lambda>t. t\<lparr>r487 := None, needack := False\<rparr>)])"

text \<open>What is done with the value that the callback returns.\<close>

definition after_request :: "nat \<Rightarrow> rval \<Rightarrow> (tman, unit) stmt" where
  "after_request n rv = (let r = Sv n in (case rv of
       None \<Rightarrow> with_tx r (\<lambda>t. if \<exists>l \<in> {TeA, TeD, TeE, TeF}. te t l \<noteq> NoTimer then ret ()
           else block [
             (case tx_tid t of None \<Rightarrow> skip | Some k \<Rightarrow> upd (set_server k None)),
             set_tx r tx_cleanup])
     | Some (resp, ccb, ncb) \<Rightarrow> block [
         set_tx r (\<lambda>t. t\<lparr>cancel_cb := ccb, noack_cb := ncb\<rparr>),
         (case resp of None \<Rightarrow> skip | Some (x, loss) \<Rightarrow> sendResponse_on n x False None loss)]))"

definition new_request :: "upper \<Rightarrow> sip_req \<Rightarrow> string \<Rightarrow> tkey \<Rightarrow> userv \<Rightarrow> (tman, unit) stmt" where
  "new_request up msg csum k server = local nsv (\<lambda>n. let r = Sv n in block [
     upd (new_server (new_server_tx k msg csum)),
     setup_server n msg server,
     upd (set_server k (Some n)),
     fetch (\<lambda>s. first_consumer up msg (case req_consumers s (tk_callid k) of None \<Rightarrow> [] | Some cs \<Rightarrow> cs)) (\<lambda>x. case x of
         Some (c, cmp) \<Rightarrow> block [
           set_tx r (\<lambda>t. t\<lparr>compact := cmp\<rparr>),
           up_call up (W_Request (Some c) n msg) (after_request n)]
       | None \<Rightarrow> if_else req_cb (up_call up (W_Request None n msg) (after_request n)) (cache_drop csum))])"

definition incomingRequest :: "upper \<Rightarrow> sip_req \<Rightarrow> string \<Rightarrow> tkey list \<Rightarrow> userv \<Rightarrow> (tman, unit) stmt" where
  "incomingRequest up msg csum tids server =
     local (\<lambda>s. List.map_filter (tclient s) tids) (\<lambda>loops. case loops of
         n # _ \<Rightarrow> with_tx (Cl n) (\<lambda>t. answer_to (Some server) 482 ''Loop Detected'' msg csum (compact t))
       | [] \<Rightarrow>
           fetch (\<lambda>_. if rmethod msg \<noteq> ''ACK'' then msg_key False True False msg else msg_key False False True msg) (\<lambda>k.
           local (\<lambda>s. tserver s k) (\<lambda>x. case x of
               Some n \<Rightarrow> matched_request up msg csum n
             | None \<Rightarrow>
                 if rmethod msg = ''ACK'' then cache_drop csum
                 else if rmethod msg = ''CANCEL'' then
                   answer_to (Some server) 481 ''Call Leg/Transaction Does Not Exist'' msg csum False
                 else new_request up msg csum k server)))"

section \<open>Datagrams\<close>

record remote_address =
  ra_host :: string
  ra_port :: int
  ra_transport :: string
  ra_received :: string

definition Remote_address :: "string \<times> int \<Rightarrow> string \<Rightarrow> remote_address" where
  "Remote_address a tr = \<lparr>ra_host = fst a, ra_port = snd a, ra_transport = tr, ra_received = fst a\<rparr>"

text \<open>The rewriting of the Contact URL: nothing for \<^verbatim>\<open>*\<close>.\<close>

definition contact_url :: "hf_body \<Rightarrow> exn + sip_url option" where
  "contact_url b = (case b of HF_Star \<Rightarrow> Inr None | HF_Addr a \<Rightarrow> Inr (Some (aurl a)) | _ \<Rightarrow> Inl AttributeError)"

definition set_contact :: "(sip_url \<Rightarrow> sip_url) \<Rightarrow> 'a sip_msg_scheme \<Rightarrow> 'a sip_msg_scheme" where
  "set_contact f = set_first ''contact'' (addr_upd (\<lambda>a. a\<lparr>aurl := f (aurl a)\<rparr>))"

definition at_source :: "remote_address \<Rightarrow> sip_url \<Rightarrow> sip_url" where
  "at_source ra u = u\<lparr>host := Host (ra_host ra), port := Some (Port (ra_port ra))\<rparr>"

definition at_received :: "remote_address \<Rightarrow> sip_url \<Rightarrow> sip_url" where
  "at_received ra u = u\<lparr>host := Host (ra_received ra)\<rparr>"

definition fix_response :: "bool \<Rightarrow> dest \<Rightarrow> remote_address \<Rightarrow> sip_resp \<Rightarrow> exn + sip_resp" where
  "fix_response natt addr ra resp =
     and_then (
       if natt \<and> countHFs ''contact'' resp > 0 then
         (case addr of
            None \<Rightarrow> Inl TypeError
          | Some (h, _) \<Rightarrow>
              if check1918 h then Inr resp
              else and_then (and_then (getHFBody ''contact'' resp) contact_url) (\<lambda>u. Inr (case u of
                  Some x \<Rightarrow> if check1918 (Some (host x)) then set_contact (at_source ra) resp else resp
                | None \<Rightarrow> resp)))
       else Inr resp) (\<lambda>resp1.
     and_then (
       if ra_transport ra = ''wss'' \<and> countHFs ''contact'' resp1 > 0 then
         map_sum id (\<lambda>_. set_contact (at_received ra) resp1) (and_then (getHFBody ''contact'' resp1) contact_url)
       else Inr resp1) (\<lambda>resp2.
       Inr (resp2\<lparr>msource := Some (ra_host ra, ra_port ra)\<rparr>)))"

definition response_datagram :: "upper \<Rightarrow> string \<Rightarrow> string \<Rightarrow> remote_address \<Rightarrow> real \<Rightarrow> (tman, unit) stmt" where
  "response_datagram up csum data ra rt =
     local (\<lambda>s. and_then (SipResponse_read (tel_url s) rt data) (\<lambda>m. map_sum id (\<lambda>k. (m, k)) (msg_key True True False m))) (\<lambda>x. case x of
         Inl _ \<Rightarrow> cache_drop csum
       | Inr (resp, k) \<Rightarrow>
           if scode resp < 100 \<or> scode resp > 999 then cache_drop csum
           else local (\<lambda>s. tclient s k) (\<lambda>y. case y of
               None \<Rightarrow> cache_drop csum
             | Some n \<Rightarrow>
                 fetch (\<lambda>s. fix_response (nat_traversal s) (tx_address (objs s (Cl n))) ra resp) (\<lambda>resp'.
                   incomingResponse up resp' n csum)))"

text \<open>The topmost Via: \<^verbatim>\<open>received\<close> and \<^verbatim>\<open>rport\<close>, and whether the sender is behind a NAT.\<close>

definition via_nated :: "bool \<Rightarrow> remote_address \<Rightarrow> sip_via \<Rightarrow> exn + bool" where
  "via_nated natt ra v =
     (if ra_transport ra \<noteq> ''wss'' \<and> natt \<and> map_option port_int (snd (SipVia_getAddr v)) \<noteq> Some (ra_port ra) then
        (if check1918 (Some (fst (SipVia_getAddr v))) then Inr True else check7118 (fst (SipVia_getAddr v)))
      else Inr False)"

definition fix_via :: "bool \<Rightarrow> remote_address \<Rightarrow> sip_via \<Rightarrow> sip_via" where
  "fix_via nt ra v =
     (let v1 = (if fst (SipVia_getAddr v) \<noteq> Host (ra_host ra) then SipVia_setParam ''received'' (Some (ra_received ra)) v else v)
      in if map_of (vparams v1) ''rport'' \<noteq> None \<or> nt then SipVia_setParam ''rport'' (Some (show_int (ra_port ra))) v1 else v1)"

definition usable_contact :: "sip_req \<Rightarrow> bool" where
  "usable_contact req \<longleftrightarrow> countHFs ''contact'' req > 0 \<and> countHFs ''via'' req = 1"

text \<open>
  The rewriting of the Contact of a request. \<open>None\<close>: the Contact cannot be parsed, the
  datagram is dropped.
\<close>

definition fix_contact :: "bool \<Rightarrow> remote_address \<Rightarrow> sip_req \<Rightarrow> exn + sip_req option" where
  "fix_contact natt ra req =
     and_then (
       if natt \<and> usable_contact req then
         (case getHFBody ''contact'' req of
            Inl _ \<Rightarrow> Inr None
          | Inr b \<Rightarrow> and_then (contact_url b) (\<lambda>u. Inr (Some (case u of
                None \<Rightarrow> req
              | Some x \<Rightarrow>
                  if check1918 (Some (host x)) \<or> map_option port_int (port x) = Some 0 \<or> host x = Host ''255.255.255.255''
                  then (set_contact (at_source ra) req)\<lparr>nated := True\<rparr> else req))))
       else Inr (Some req)) (\<lambda>r1. case r1 of
         None \<Rightarrow> Inr None
       | Some req1 \<Rightarrow>
           if ra_transport ra = ''wss'' \<and> usable_contact req1 then
             (case getHFBody ''contact'' req1 of
                Inl _ \<Rightarrow> Inr None
              | Inr b \<Rightarrow> map_sum id (\<lambda>_. Some (set_contact (at_received ra) req1)) (contact_url b))
           else Inr (Some req1))"

text \<open>The errors that a request handler may raise and that are answered.\<close>

definition exn_response :: "int \<Rightarrow> string \<Rightarrow> string option \<Rightarrow> sip_req \<Rightarrow> exn + sip_resp" where
  "exn_response code msg arg req = genResponse code msg None None
     (case arg of None \<Rightarrow> None | Some a \<Rightarrow> if a = [] then None else Some (SipReason ''SIP'' code a)) req"

abbreviation SipParseError :: exn where
  "SipParseError \<equiv> OtherError ''SipParseError''"

definition handle_request_error :: "sip_req \<Rightarrow> exn \<Rightarrow> (tman, unit) stmt" where
  "handle_request_error req x = (case x of
       SdpHandlingErrors code msg arg \<Rightarrow> fetch (\<lambda>_. exn_response code msg arg req) (\<lambda>resp. block [
         call () (TM_sendResponse resp None None 0) (\<lambda>_. skip),
         if_then (\<lambda>s. code = 502 \<and> w_now s - init_time s > 5) (raise x)])
     | _ \<Rightarrow> if x = SipParseError then raise AttributeError \<comment> \<open>the class has no \<^verbatim>\<open>code\<close>\<close> else raise x)"

definition request_datagram :: "upper \<Rightarrow> string \<Rightarrow> string \<Rightarrow> remote_address \<Rightarrow> userv \<Rightarrow> real \<Rightarrow> (tman, unit) stmt" where
  "request_datagram up csum data ra server rt =
     local (\<lambda>s. and_then (SipRequest_read (tel_url s) rt data) (\<lambda>m. map_sum id (\<lambda>ks. (m, map tkey_of ks)) (getTIds m))) (\<lambda>x. case x of
         Inl e \<Rightarrow>
           if e = SipParseError then raise TypeError \<comment> \<open>\<^verbatim>\<open>getResponse\<close> without its argument\<close>
           else cache_drop csum
       | Inr (req0, tids) \<Rightarrow>
           fetch (\<lambda>_. if tids = [] then Inl IndexError else and_then (getHFBody ''via'' req0) as_via) (\<lambda>v.
           fetch (\<lambda>s. via_nated (nat_traversal s) ra v) (\<lambda>nt.
           local (\<lambda>_. (set_first ''via'' (via_upd (fix_via nt ra)) req0)\<lparr>nated := nt\<rparr>) (\<lambda>req1.
           fetch (\<lambda>s. fix_contact (nat_traversal s) ra req1) (\<lambda>y. case y of
               None \<Rightarrow> cache_drop csum
             | Some req2 \<Rightarrow> local (\<lambda>_. req2\<lparr>msource := Some (ra_host ra, ra_port ra)\<rparr>) (\<lambda>req.
                 try_catch (incomingRequest up req csum tids server) (handle_request_error req)))))))"

definition cache_lookup :: "string \<Rightarrow> tman \<Rightarrow> retransmit option" where
  "cache_lookup csum s = (case l1rcache s csum of None \<Rightarrow> l2rcache s csum | Some x \<Rightarrow> Some x)"

definition handleIncoming :: "upper \<Rightarrow> string \<Rightarrow> remote_address \<Rightarrow> userv \<Rightarrow> real \<Rightarrow> (tman, unit) stmt" where
  "handleIncoming up data ra server rt =
     (if length data < 32 then ret ()
      else local (\<lambda>s. md5 s data) (\<lambda>csum.
        local (cache_lookup csum) (\<lambda>x. case x of
            Some q \<Rightarrow> (case rt_data q of
                None \<Rightarrow> ret ()
              | Some p \<Rightarrow> transmitData (rt_userv q) p (rt_address q) None (rt_lossemul q))
          | None \<Rightarrow>
              if startswith ''SIP/2.0 '' data then response_datagram up csum data ra rt
              else request_datagram up csum data ra server rt)))"

section \<open>The manager as a transition system\<close>

definition run_timer :: "upper \<Rightarrow> letter \<Rightarrow> tref \<Rightarrow> (tman, unit) stmt" where
  "run_timer up l r = (case (l, r) of
       (TeA, _) \<Rightarrow> timerA r
     | (TeB, Cl n) \<Rightarrow> timerB up n
     | (TeC, Cl n) \<Rightarrow> timerC n
     | (TeG, Cl n) \<Rightarrow> timerG n
     | (TeD, Sv n) \<Rightarrow> timerD up n
     | (TeE, Sv n) \<Rightarrow> timerE up n
     | (TeF, Sv n) \<Rightarrow> timerF n
     | _ \<Rightarrow> skip)"

text \<open>A timer that has fired is no longer running when its function is called.\<close>

definition fire :: "upper \<Rightarrow> wtimer \<Rightarrow> (tman, unit) stmt" where
  "fire up w = block [
     upd (te_cancel (wt_id w)),
     run_timer up (wt_letter w) (wt_tx w)]"

inductive tm_step :: "upper \<Rightarrow> tman \<Rightarrow> tman \<Rightarrow> bool" for up where
  tm_datagram: "tm_step up s (out_state (handleIncoming up data ra server rt s))"
| tm_operation: "tm_step up s (out_state (run_op p s))"
| tm_timer: "w \<in> set (w_timers s) \<Longrightarrow> wt_at w \<le> w_now s \<Longrightarrow> tm_step up s (out_state (fire up w s))"
| tm_purge: "tm_step up s (out_state ((rCachePurge :: (tman, unit) stmt) s))"
| tm_time: "0 \<le> d \<Longrightarrow> tm_step up s (s\<lparr>w_now := w_now s + d\<rparr>)"

definition tm_initial :: "tman \<Rightarrow> bool" where
  "tm_initial s \<longleftrightarrow> tclient s = Map.empty \<and> tserver s = Map.empty \<and> l1rcache s = Map.empty \<and> l2rcache s = Map.empty \<and>
     req_consumers s = Map.empty \<and> w_timers s = [] \<and> w_trace s = [] \<and> objs s = (\<lambda>_. SipTransaction) \<and> ncl s = 0 \<and> nsv s = 0"

end
