(* ===== verification/Sip_TM_Inv.thy ===== *)
theory Sip_TM_Inv
  imports Sip_TM
begin

text \<open>
  The invariant of the transaction manager: the tables lead to objects that carry their key
  (\<open>keyed\<close>), every running timer is the one its transaction knows and that transaction has not
  been cleaned up (\<open>timed\<close>), which timers may run in which state (\<open>staged\<close>), and what holds of
  objects that exist (\<open>alloc\<close>). It is kept by every operation, whatever the layer above does in
  its callbacks and wherever an exception ends the operation.
\<close>

declare split_paired_All [simp del] split_paired_Ex [simp del]

section \<open>Projections\<close>

lemma tx_upd_simps [simp]:
  "objs (tx_upd r f s) = (objs s)(r := f (objs s r))" "tclient (tx_upd r f s) = tclient s" "tserver (tx_upd r f s) = tserver s"
  "w_timers (tx_upd r f s) = w_timers s" "w_ntm (tx_upd r f s) = w_ntm s" "ncl (tx_upd r f s) = ncl s" "nsv (tx_upd r f s) = nsv s"
  "w_trace (tx_upd r f s) = w_trace s"
  by (simp_all add: tx_upd_def)

lemma te_start_simps [simp]:
  "objs (te_start r l d s) = (objs s)(r := (objs s r)\<lparr>te := (te (objs s r))(l := Running (w_ntm s))\<rparr>)"
  "tclient (te_start r l d s) = tclient s" "tserver (te_start r l d s) = tserver s"
  "ncl (te_start r l d s) = ncl s" "nsv (te_start r l d s) = nsv s" "w_ntm (te_start r l d s) = Suc (w_ntm s)"
  "w_trace (te_start r l d s) = w_trace s"
  "w_timers (te_start r l d s) = w_timers s @ [\<lparr>wt_id = w_ntm s, wt_letter = l, wt_tx = r, wt_at = w_now s + d\<rparr>]"
  by (simp_all add: te_start_def)

lemma te_cancel_simps [simp]:
  "objs (te_cancel i s) = objs s" "tclient (te_cancel i s) = tclient s" "tserver (te_cancel i s) = tserver s"
  "ncl (te_cancel i s) = ncl s" "nsv (te_cancel i s) = nsv s" "w_ntm (te_cancel i s) = w_ntm s"
  "w_timers (te_cancel i s) = filter (\<lambda>w. wt_id w \<noteq> i) (w_timers s)" "w_trace (te_cancel i s) = w_trace s"
  by (simp_all add: te_cancel_def)

lemma set_table_simps [simp]:
  "objs (set_client k v s) = objs s" "tclient (set_client k v s) = (tclient s)(k := v)" "tserver (set_client k v s) = tserver s"
  "ncl (set_client k v s) = ncl s" "nsv (set_client k v s) = nsv s" "w_ntm (set_client k v s) = w_ntm s" "w_timers (set_client k v s) = w_timers s"
  "objs (set_server k v s) = objs s" "tclient (set_server k v s) = tclient s" "tserver (set_server k v s) = (tserver s)(k := v)"
  "ncl (set_server k v s) = ncl s" "nsv (set_server k v s) = nsv s" "w_ntm (set_server k v s) = w_ntm s" "w_timers (set_server k v s) = w_timers s"
  "w_trace (set_client k v s) = w_trace s" "w_trace (set_server k v s) = w_trace s"
  by (simp_all add: set_client_def set_server_def)

lemma new_obj_simps [simp]:
  "objs (new_client t s) = (objs s)(Cl (ncl s) := t)" "tclient (new_client t s) = tclient s" "tserver (new_client t s) = tserver s"
  "ncl (new_client t s) = Suc (ncl s)" "nsv (new_client t s) = nsv s" "w_ntm (new_client t s) = w_ntm s" "w_timers (new_client t s) = w_timers s"
  "objs (new_server t s) = (objs s)(Sv (nsv s) := t)" "tclient (new_server t s) = tclient s" "tserver (new_server t s) = tserver s"
  "ncl (new_server t s) = ncl s" "nsv (new_server t s) = Suc (nsv s)" "w_ntm (new_server t s) = w_ntm s" "w_timers (new_server t s) = w_timers s"
  "w_trace (new_client t s) = w_trace s" "w_trace (new_server t s) = w_trace s"
  by (simp_all add: new_client_def new_server_def)

section \<open>The invariant\<close>

definition allowed :: "tref \<Rightarrow> tx_state \<Rightarrow> letter set" where
  "allowed r q = (case r of
       Cl _ \<Rightarrow> (case q of TRYING \<Rightarrow> {TeA, TeB} | RINGING \<Rightarrow> {TeB} | UACK \<Rightarrow> {TeG} | TERMINATED \<Rightarrow> {TeC} | _ \<Rightarrow> {})
     | Sv _ \<Rightarrow> (case q of TRYING \<Rightarrow> {TeE, TeF} | RINGING \<Rightarrow> {TeE, TeF} | COMPLETED \<Rightarrow> {TeA, TeD} | CONFIRMED \<Rightarrow> {TeA, TeD} | _ \<Rightarrow> {}))"

definition keyed :: "tman \<Rightarrow> bool" where
  "keyed s \<longleftrightarrow> (\<forall>k n. tclient s k = Some n \<longrightarrow> n < ncl s \<and> tx_tid (objs s (Cl n)) = Some k) \<and>
     (\<forall>k n. tserver s k = Some n \<longrightarrow> n < nsv s \<and> tx_tid (objs s (Sv n)) = Some k)"

fun exists_tx :: "tref \<Rightarrow> tman \<Rightarrow> bool" where
  "exists_tx (Cl n) s = (n < ncl s)"
| "exists_tx (Sv n) s = (n < nsv s)"

definition timed :: "tman \<Rightarrow> bool" where
  "timed s \<longleftrightarrow> distinct (map wt_id (w_timers s)) \<and> (\<forall>w \<in> set (w_timers s). wt_id w < w_ntm s \<and>
     te (objs s (wt_tx w)) (wt_letter w) = Running (wt_id w) \<and> tx_tid (objs s (wt_tx w)) \<noteq> None \<and> exists_tx (wt_tx w) s)"

definition staged :: "tref set \<Rightarrow> tman \<Rightarrow> bool" where
  "staged X s \<longleftrightarrow> (\<forall>r l i. r \<notin> X \<longrightarrow> te (objs s r) l = Running i \<longrightarrow> l \<in> allowed r (tx_state (objs s r)))"

definition alloc :: "tman \<Rightarrow> bool" where
  "alloc s \<longleftrightarrow> (\<forall>n. nsv s \<le> n \<longrightarrow> objs s (Sv n) = SipTransaction) \<and>
     (\<forall>n l. n < nsv s \<longrightarrow> l \<notin> {TeB, TeC} \<longrightarrow> te (objs s (Sv n)) l \<noteq> Unset) \<and>
     (\<forall>n. tx_userv (objs s (Sv n)) \<noteq> None \<longrightarrow> tx_tid (objs s (Sv n)) \<noteq> None) \<and>
     (\<forall>n. te (objs s (Cl n)) TeG \<noteq> Unset \<longrightarrow> tx_state (objs s (Cl n)) = UACK \<or> tx_tid (objs s (Cl n)) = None)"

text \<open>The attribute \<^verbatim>\<open>teG\<close> of a client transaction is first assigned in the state UACK.\<close>

fun no_teG :: "tref \<Rightarrow> tman \<Rightarrow> bool" where
  "no_teG (Cl n) s = (te (objs s (Cl n)) TeG = Unset)"
| "no_teG (Sv n) s = True"

definition tinv :: "tref set \<Rightarrow> tman \<Rightarrow> bool" where
  "tinv X s \<longleftrightarrow> keyed s \<and> timed s \<and> staged X s \<and> alloc s"

abbreviation tm_inv :: "tman \<Rightarrow> bool" where
  "tm_inv \<equiv> tinv {}"

definition quiet :: "tref \<Rightarrow> tman \<Rightarrow> bool" where
  "quiet r s \<longleftrightarrow> (\<forall>w \<in> set (w_timers s). wt_tx w \<noteq> r)"

lemmas tinv_parts = tinv_def keyed_def timed_def staged_def alloc_def

lemma keyed_cong:
  "tclient t = tclient s \<Longrightarrow> tserver t = tserver s \<Longrightarrow> ncl t = ncl s \<Longrightarrow> nsv t = nsv s \<Longrightarrow> objs t = objs s \<Longrightarrow> keyed t = keyed s"
  by (simp add: keyed_def)

lemma exists_tx_cong: "ncl t = ncl s \<Longrightarrow> nsv t = nsv s \<Longrightarrow> exists_tx r t = exists_tx r s"
  by (cases r) simp_all

lemma exists_tx_simps [simp]:
  "exists_tx r (tx_upd r' f s) = exists_tx r s" "exists_tx r (te_start r' l d s) = exists_tx r s" "exists_tx r (te_cancel i s) = exists_tx r s"
  "exists_tx r (set_client k v s) = exists_tx r s" "exists_tx r (set_server k v s) = exists_tx r s"
  by (simp_all cong: exists_tx_cong add: exists_tx_cong [of "tx_upd r' f s" s] exists_tx_cong [of "te_start r' l d s" s]
    exists_tx_cong [of "te_cancel i s" s] exists_tx_cong [of "set_client k v s" s] exists_tx_cong [of "set_server k v s" s])

text \<open>Fields that the invariant does not look at.\<close>

definition same_core :: "tman \<Rightarrow> tman \<Rightarrow> bool" where
  "same_core s t \<longleftrightarrow> tclient t = tclient s \<and> tserver t = tserver s \<and> ncl t = ncl s \<and> nsv t = nsv s \<and> objs t = objs s \<and>
     w_timers t = w_timers s \<and> w_ntm t = w_ntm s"

lemma tinv_core: "same_core s t \<Longrightarrow> tinv X t = tinv X s"
  by (simp add: same_core_def tinv_parts exists_tx_cong [of t s])

lemma tinv_other [simp]:
  "tinv X (s\<lparr>w_trace := a\<rparr>) = tinv X s" "tinv X (s\<lparr>w_ntok := b\<rparr>) = tinv X s" "tinv X (s\<lparr>l1rcache := c\<rparr>) = tinv X s"
  "tinv X (s\<lparr>l2rcache := c\<rparr>) = tinv X s" "tinv X (s\<lparr>l4r := d\<rparr>) = tinv X s" "tinv X (s\<lparr>req_consumers := e\<rparr>) = tinv X s"
  "tinv X (s\<lparr>w_now := f\<rparr>) = tinv X s"
  by (rule tinv_core, simp add: same_core_def)+

lemma tinv_tx:
  assumes "tinv X s" "exists_tx r s" "\<And>t. tx_tid (f t) = tx_tid t" "\<And>t. tx_state (f t) = tx_state t" "\<And>t. te (f t) = te t"
    "tx_tid (objs s r) \<noteq> None"
  shows "tinv X (tx_upd r f s)"
  using assms by (cases r) (auto simp: tinv_parts)

lemma tinv_tx_client:
  assumes "tinv X s" "\<And>t. tx_tid (f t) = tx_tid t" "\<And>t. tx_state (f t) = tx_state t" "\<And>t. te (f t) = te t"
  shows "tinv X (tx_upd (Cl n) f s)"
  using assms by (auto simp: tinv_parts)

lemma tinv_tid:
  assumes "tinv X s" "\<forall>k. tclient s k \<noteq> Some n" "no_teG (Cl n) s"
  shows "tinv X (tx_upd (Cl n) (\<lambda>t. t\<lparr>tx_tid := Some k\<rparr>) s)"
  using assms by (auto simp: tinv_parts)

lemma tinv_tid_server:
  assumes "tinv X s" "\<forall>k. tserver s k \<noteq> Some n" "n < nsv s"
  shows "tinv X (tx_upd (Sv n) (\<lambda>t. t\<lparr>tx_tid := Some k\<rparr>) s)"
  using assms by (auto simp: tinv_parts)

lemma tinv_state:
  assumes "tinv X s" "exists_tx r s" "r \<in> X \<or> (\<forall>l i. te (objs s r) l = Running i \<longrightarrow> l \<in> allowed r q)"
    "q = UACK \<or> no_teG r s"
  shows "tinv X (tx_upd r (\<lambda>t. t\<lparr>tx_state := q\<rparr>) s)"
  using assms by (cases r) (auto simp: tinv_parts)

lemma tinv_start':
  assumes "tinv X s" "\<forall>w \<in> set (w_timers s). (wt_tx w, wt_letter w) \<noteq> (r, l)" "exists_tx r s" "tx_tid (objs s r) \<noteq> None"
    "l \<in> allowed r (tx_state (objs s r))"
  shows "tinv X (te_start r l d s)"
proof -
  have t: "timed s" using assms(1) by (simp add: tinv_def)
  have "timed (te_start r l d s)"
    using t assms(2-4) by (auto simp: timed_def less_Suc_eq)
  moreover have "r = Cl n \<Longrightarrow> l = TeG \<Longrightarrow> tx_state (objs s (Cl n)) = UACK" for n
    using assms(5) by (auto simp: allowed_def split: tx_state.splits)
  ultimately show ?thesis
    using assms by (cases r) (auto simp: tinv_def keyed_def staged_def alloc_def)
qed

lemma tinv_start:
  assumes "tinv X s" "\<And>i. te (objs s r) l \<noteq> Running i" "exists_tx r s" "tx_tid (objs s r) \<noteq> None"
    "l \<in> allowed r (tx_state (objs s r))"
  shows "tinv X (te_start r l d s)"
  using assms by (intro tinv_start') (force simp: tinv_def timed_def)+

lemma tinv_clear:
  assumes "tinv X s" "exists_tx r s \<or> (\<exists>n. r = Cl n)" "\<And>w. w \<in> set (w_timers s) \<Longrightarrow> (wt_tx w, wt_letter w) \<noteq> (r, l)"
    "l = TeG \<Longrightarrow> tx_state (objs s r) = UACK \<or> (\<exists>n. r = Sv n)"
  shows "tinv X (tx_upd r (\<lambda>t. t\<lparr>te := (te t)(l := NoTimer)\<rparr>) s)"
  using assms by (cases r) (auto simp: tinv_parts)

lemma tinv_cancel: "tinv X s \<Longrightarrow> tinv X (te_cancel i s)"
  by (auto simp: tinv_parts distinct_map_filter)

lemma tinv_client_None: "tinv X s \<Longrightarrow> tinv X (set_client k None s)"
  by (auto simp: tinv_parts)

lemma tinv_server_None: "tinv X s \<Longrightarrow> tinv X (set_server k None s)"
  by (auto simp: tinv_parts)

lemma tinv_client_Some:
  "tinv X s \<Longrightarrow> n < ncl s \<Longrightarrow> tx_tid (objs s (Cl n)) = Some k \<Longrightarrow> tinv X (set_client k (Some n) s)"
  by (auto simp: tinv_parts)

lemma tinv_server_Some:
  "tinv X s \<Longrightarrow> n < nsv s \<Longrightarrow> tx_tid (objs s (Sv n)) = Some k \<Longrightarrow> tinv X (set_server k (Some n) s)"
  by (auto simp: tinv_parts)

lemma not_running_quiet: "tinv X s \<Longrightarrow> \<forall>l i. te (objs s r) l \<noteq> Running i \<Longrightarrow> quiet r s"
  by (force simp: tinv_def timed_def quiet_def)

lemma no_timer_letter: "tinv X s \<Longrightarrow> \<forall>i. te (objs s r) l \<noteq> Running i \<Longrightarrow> w \<in> set (w_timers s) \<Longrightarrow> (wt_tx w, wt_letter w) \<noteq> (r, l)"
  by (force simp: tinv_def timed_def)

lemma running_allowed: "tinv X s \<Longrightarrow> r \<notin> X \<Longrightarrow> te (objs s r) l = Running i \<Longrightarrow> l \<in> allowed r (tx_state (objs s r))"
  by (auto simp: tinv_def staged_def)

lemma teG_state: "tinv X s \<Longrightarrow> te (objs s (Cl n)) TeG \<noteq> Unset \<Longrightarrow> tx_state (objs s (Cl n)) = UACK \<or> tx_tid (objs s (Cl n)) = None"
  by (auto simp: tinv_def alloc_def)

lemma cleanup_simps [simp]:
  "tx_tid (tx_cleanup t) = None" "tx_state (tx_cleanup t) = tx_state t" "te (tx_cleanup t) = (\<lambda>_. NoTimer)" "tx_userv (tx_cleanup t) = None"
  "tx_method (tx_cleanup t) = tx_method t"
  by (simp_all add: tx_cleanup_def)

lemma tinv_cleanup_client: "tinv X s \<Longrightarrow> quiet (Cl n) s \<Longrightarrow> \<forall>k. tclient s k \<noteq> Some n \<Longrightarrow> tinv X (tx_upd (Cl n) tx_cleanup s)"
  by (auto simp: tinv_parts quiet_def)

lemma tinv_cleanup_server:
  "tinv X s \<Longrightarrow> quiet (Sv n) s \<Longrightarrow> \<forall>k. tserver s k \<noteq> Some n \<Longrightarrow> n < nsv s \<Longrightarrow> tinv X (tx_upd (Sv n) tx_cleanup s)"
  by (auto simp: tinv_parts quiet_def)

lemma only_entry_client: "tinv X s \<Longrightarrow> tx_tid (objs s (Cl n)) = Some k \<Longrightarrow> tclient s k' = Some n \<Longrightarrow> k' = k"
  by (auto simp: tinv_parts)

lemma only_entry_server: "tinv X s \<Longrightarrow> tx_tid (objs s (Sv n)) = Some k \<Longrightarrow> tserver s k' = Some n \<Longrightarrow> k' = k"
  by (auto simp: tinv_parts)

lemma client_entry: "tinv X s \<Longrightarrow> tclient s k = Some n \<Longrightarrow> n < ncl s \<and> tx_tid (objs s (Cl n)) = Some k"
  by (auto simp: tinv_parts)

lemma server_entry: "tinv X s \<Longrightarrow> tserver s k = Some n \<Longrightarrow> n < nsv s \<and> tx_tid (objs s (Sv n)) = Some k"
  by (auto simp: tinv_parts)

lemma fresh_client: "tinv X s \<Longrightarrow> tclient s k \<noteq> Some (ncl s)"
  by (force simp: tinv_parts)

lemma fresh_server: "tinv X s \<Longrightarrow> tserver s k \<noteq> Some (nsv s)"
  by (force simp: tinv_parts)

lemma SipTransaction_simps [simp]:
  "tx_tid SipTransaction = None" "tx_state SipTransaction = TRYING" "te SipTransaction l = Unset" "tx_userv SipTransaction = None"
  by (simp_all add: SipTransaction_def)

lemma tinv_new_client: "tinv X s \<Longrightarrow> tinv X (new_client SipTransaction s)"
proof -
  assume i: "tinv X s"
  have "exists_tx r (new_client SipTransaction s)" if "exists_tx r s" for r
    using that by (cases r) simp_all
  moreover have "wt_tx w \<noteq> Cl (ncl s)" if "w \<in> set (w_timers s)" for w
    using i that by (force simp: tinv_parts)
  ultimately show ?thesis using i fresh_client [OF i]
    by (auto simp: tinv_parts less_Suc_eq)
qed

lemma new_server_tx_simps [simp]:
  "tx_tid (new_server_tx k m c) = Some k" "tx_state (new_server_tx k m c) = TRYING" "tx_method (new_server_tx k m c) = rmethod m"
  "te (new_server_tx k m c) = (\<lambda>l. if l \<in> {TeB, TeC} then Unset else NoTimer)" "tx_checksum (new_server_tx k m c) = Some c"
  "tx_data (new_server_tx k m c) = None"
  by (simp_all add: new_server_tx_def SipTransaction_def)

lemma tinv_new_server: "tinv X s \<Longrightarrow> tinv X (new_server (new_server_tx k m c) s)"
proof -
  assume i: "tinv X s"
  have "exists_tx r (new_server (new_server_tx k m c) s)" if "exists_tx r s" for r
    using that by (cases r) simp_all
  moreover have "wt_tx w \<noteq> Sv (nsv s)" if "w \<in> set (w_timers s)" for w
    using i that by (force simp: tinv_parts)
  ultimately show ?thesis using i fresh_server [OF i]
    by (auto simp: tinv_parts less_Suc_eq split: if_splits)
qed

lemma userv_exists: "tinv X s \<Longrightarrow> tx_userv (objs s (Sv n)) \<noteq> None \<Longrightarrow> n < nsv s"
  by (force simp: tinv_parts not_le)

section \<open>Statements\<close>

lemma wpc_block_fun [simp]: "wpc (block []) N R X = N" "wpc (block (c # cs)) N R X = wpc c (wpc (block cs) N R X) R X"
  by (rule ext, simp)+

lemma wpc_tm_basic [simp]:
  "wpc (emit e) N R X s = N (s\<lparr>w_trace := w_trace s @ [e]\<rparr>)"
  "wpc (with_tx r c) N R X s = wpc (c (objs s r)) N R X s"
  "wpc (set_tx r f) N R X s = N (tx_upd r f s)"
  "wpc (start_te r l d) N R X s = N (te_start r l d s)"
  "wpc (clear_te r l) N R X s = N (tx_upd r (\<lambda>t. t\<lparr>te := (te t)(l := NoTimer)\<rparr>) s)"
  "wpc (cache_drop x) N R X s = N (s\<lparr>l1rcache := (l1rcache s)(x \<mapsto> SipTMRetransmitO)\<rparr>)"
  by (simp_all add: emit_def with_tx_def set_tx_def start_te_def clear_te_def cache_drop_def)

lemma wpc_tm_basic_fun [simp]:
  "wpc skip N R X = N" "wpc (ret v) N R X = R v" "wpc (raise x) N R X = X x" "wpc (upd g) N R X = (\<lambda>s. N (g s))"
  "wpc (emit e) N R X = (\<lambda>s. N (s\<lparr>w_trace := w_trace s @ [e]\<rparr>))"
  "wpc (with_tx r c) N R X = (\<lambda>s. wpc (c (objs s r)) N R X s)"
  "wpc (set_tx r f) N R X = (\<lambda>s. N (tx_upd r f s))"
  "wpc (start_te r l d) N R X = (\<lambda>s. N (te_start r l d s))"
  "wpc (clear_te r l) N R X = (\<lambda>s. N (tx_upd r (\<lambda>t. t\<lparr>te := (te t)(l := NoTimer)\<rparr>) s))"
  "wpc (cache_drop y) N R X = (\<lambda>s. N (s\<lparr>l1rcache := (l1rcache s)(y \<mapsto> SipTMRetransmitO)\<rparr>))"
  by (rule ext, simp)+

lemma wpc_tm_token [simp]: "wpc (tm_token c) N R X s = wpc (c (w_token s (w_ntok s))) N R X (s\<lparr>w_ntok := Suc (w_ntok s)\<rparr>)"
  by (simp add: wpc_def tm_token_def)

definition te_stop :: "tref \<Rightarrow> letter \<Rightarrow> nat \<Rightarrow> tman \<Rightarrow> tman" where
  "te_stop r l i s = tx_upd r (\<lambda>t. t\<lparr>te := (te t)(l := NoTimer)\<rparr>) (te_cancel i s)"

lemma te_stop_simps [simp]:
  "objs (te_stop r l i s) = (objs s)(r := (objs s r)\<lparr>te := (te (objs s r))(l := NoTimer)\<rparr>)"
  "tclient (te_stop r l i s) = tclient s" "tserver (te_stop r l i s) = tserver s"
  "ncl (te_stop r l i s) = ncl s" "nsv (te_stop r l i s) = nsv s" "w_trace (te_stop r l i s) = w_trace s" "exists_tx x (te_stop r l i s) = exists_tx x s"
  by (simp_all add: te_stop_def)

lemma tinv_stop: "tinv X s \<Longrightarrow> te (objs s r) l = Running i \<Longrightarrow> exists_tx r s \<or> (\<exists>n. r = Cl n) \<Longrightarrow> r \<notin> X \<or> (\<exists>n. r = Sv n) \<Longrightarrow> tinv X (te_stop r l i s)"
  unfolding te_stop_def
proof (rule tinv_clear)
  assume "tinv X s" "te (objs s r) l = Running i" "r \<notin> X \<or> (\<exists>n. r = Sv n)"
  then show "l = TeG \<Longrightarrow> tx_state (objs (te_cancel i s) r) = UACK \<or> (\<exists>n. r = Sv n)"
    using running_allowed [of X s r l i] by (cases r) (auto simp: allowed_def split: tx_state.splits)
next
  fix w
  assume i: "tinv X s" "te (objs s r) l = Running i" and w: "w \<in> set (w_timers (te_cancel i s))"
  have "te (objs s (wt_tx w)) (wt_letter w) = Running (wt_id w)" "wt_id w \<noteq> i"
    using i w by (auto simp: tinv_def timed_def)
  then show "(wt_tx w, wt_letter w) \<noteq> (r, l)" using i(2) by auto
qed (auto intro: tinv_cancel)

lemma wpc_cancel_te [simp]:
  "wpc (cancel_te r l) N R X s = (case te (objs s r) l of Running i \<Rightarrow> N (te_cancel i s) | _ \<Rightarrow> X AttributeError s)"
  by (simp add: cancel_te_def split: te_attr.split)

lemma wpc_stop_te [simp]:
  "wpc (stop_te r l) N R X s = (case te (objs s r) l of NoTimer \<Rightarrow> N s | Unset \<Rightarrow> X AttributeError s | Running i \<Rightarrow> N (te_stop r l i s))"
  by (simp add: stop_te_def te_stop_def split: te_attr.split)

lemma wpc_del_client [simp]:
  "wpc (del_client k) N R X s = (case k of None \<Rightarrow> X KeyError s
     | Some x \<Rightarrow> if tclient s x = None then X KeyError s else N (set_client x None s))"
  by (cases k) (simp_all add: del_client_def)

lemma wpc_del_server [simp]:
  "wpc (del_server k) N R X s = (case k of None \<Rightarrow> X KeyError s
     | Some x \<Rightarrow> if tserver s x = None then X KeyError s else N (set_server x None s))"
  by (cases k) (simp_all add: del_server_def)

lemmas tinv_steps = tinv_tx tinv_tx_client tinv_tid tinv_state tinv_start tinv_cancel tinv_stop tinv_client_None tinv_server_None
  tinv_client_Some tinv_server_Some tinv_cleanup_client tinv_cleanup_server tinv_new_client tinv_new_server


section \<open>Sending and choosing a server\<close>

text \<open>These statements change no field that the invariant looks at.\<close>

lemma same_core_refl [simp]: "same_core s s"
  by (simp add: same_core_def)

lemma same_core_trans: "same_core s t \<Longrightarrow> same_core t u \<Longrightarrow> same_core s u"
  by (simp add: same_core_def)

lemma same_core_from [simp]: "same_core (s\<lparr>l4r := d\<rparr>) t = same_core s t" "same_core (s\<lparr>w_ntok := b\<rparr>) t = same_core s t"
  by (simp_all add: same_core_def)

lemma same_core_other [simp]:
  "same_core s (t\<lparr>w_trace := a\<rparr>) = same_core s t" "same_core s (t\<lparr>w_ntok := b\<rparr>) = same_core s t" "same_core s (t\<lparr>l1rcache := c\<rparr>) = same_core s t"
  "same_core s (t\<lparr>l4r := d\<rparr>) = same_core s t"
  by (simp_all add: same_core_def)

lemma wpc_transmitData:
  assumes "\<And>t. same_core s t \<Longrightarrow> N t" "\<And>e t. same_core s t \<Longrightarrow> X e t"
  shows "wpc (transmitData u p d c l) N R X s"
  using assms by (simp add: transmitData_def send_to_def some_or_def split: option.split)

lemma wpc_transmitMsg:
  assumes "\<And>t. same_core s t \<Longrightarrow> N t" "\<And>e t. same_core s t \<Longrightarrow> X e t"
  shows "wpc (transmitMsg u m d c l) N R X s"
  using assms by (simp add: transmitMsg_def wpc_transmitData split: sum.split)

lemma wpc_answer_to:
  assumes "\<And>t. same_core s t \<Longrightarrow> N t" "\<And>e t. same_core s t \<Longrightarrow> X e t"
  shows "wpc (answer_to u code rs m c l) N R X s"
  using assms by (simp add: answer_to_def wpc_transmitMsg split: sum.split)

lemma wpc_server_for:
  assumes "\<And>u t. same_core s t \<Longrightarrow> wpc (c u) N R X t" "\<And>e t. same_core s t \<Longrightarrow> X e t"
  shows "wpc (server_for la c) N R X s"
  using assms by (simp add: server_for_def initServer_def split: option.split sum.split)

lemma wpc_getServer_remote:
  assumes "\<And>u t. same_core s t \<Longrightarrow> wpc (c u) N R X t" "\<And>e t. same_core s t \<Longrightarrow> X e t"
  shows "wpc (getServer_remote a c) N R X s"
  unfolding getServer_remote_def set_r2l_def
  by (auto simp: some_or_def split: option.split sum.split intro!: wpc_server_for assms)

lemma wpc_getServer:
  assumes "\<And>u t. same_core s t \<Longrightarrow> wpc (c u) N R X t" "\<And>e t. same_core s t \<Longrightarrow> X e t"
  shows "wpc (getServer a c) N R X s" "wpc (getServer_local la c) N R X s"
  using assms by (auto simp: getServer_def getServer_local_def split: option.split list.split sip_host.split
      intro!: wpc_getServer_remote wpc_server_for)

lemma wpc_client_server:
  assumes "\<And>u t. same_core s t \<Longrightarrow> wpc (c u) N R X t" "\<And>e t. same_core s t \<Longrightarrow> X e t"
  shows "wpc (client_server tr d la c) N R X s"
  using assms by (auto simp: client_server_def some_or_def wpc_getServer split: option.split)


section \<open>Operations of the layer above\<close>

text \<open>What an operation does to the other transactions: nothing but to stop their timers.\<close>

definition frame :: "tref \<Rightarrow> tman \<Rightarrow> tman \<Rightarrow> bool" where
  "frame x s t \<longleftrightarrow> (\<forall>r. r \<noteq> x \<longrightarrow> objs t r = objs s r \<and> (quiet r s \<longrightarrow> quiet r t)) \<and> ncl s \<le> ncl t \<and> nsv s \<le> nsv t"

lemma frame_refl [simp]: "frame x s s"
  by (simp add: frame_def)

lemma frame_core: "same_core s t \<Longrightarrow> frame x s t"
  by (simp add: same_core_def frame_def quiet_def)

lemma frame_trans: "frame x s t \<Longrightarrow> frame x t u \<Longrightarrow> frame x s u"
  by (auto simp: frame_def)

lemma frame_steps [simp]:
  "frame x s (tx_upd x f t) = frame x s t"
  "frame x s (te_start x l d t) = frame x s t"
  "frame x s (set_client k v t) = frame x s t"
  "frame x s (set_server k v t) = frame x s t"
  "frame x s (t\<lparr>w_trace := a\<rparr>) = frame x s t" "frame x s (t\<lparr>w_ntok := b\<rparr>) = frame x s t" "frame x s (t\<lparr>l1rcache := c\<rparr>) = frame x s t"
  by (auto simp: frame_def quiet_def)

lemma frame_stop: "frame x s t \<Longrightarrow> frame x s (te_stop x l i t)" "frame x s t \<Longrightarrow> frame x s (te_cancel i t)"
  by (auto simp: frame_def quiet_def te_stop_def)

text \<open>Neutral updates: the fields the invariant looks at stay.\<close>

definition neutral :: "(transaction \<Rightarrow> transaction) \<Rightarrow> bool" where
  "neutral f \<longleftrightarrow> (\<forall>t. tx_tid (f t) = tx_tid t \<and> tx_state (f t) = tx_state t \<and> te (f t) = te t)"

text \<open>A client transaction in the making.\<close>

definition making :: "tman \<Rightarrow> nat \<Rightarrow> tman \<Rightarrow> bool" where
  "making s n t \<longleftrightarrow> tm_inv t \<and> frame (Cl n) s t \<and> tserver t = tserver s \<and> n < ncl t \<and> (\<forall>k. tclient t k \<noteq> Some n) \<and>
     tx_state (objs t (Cl n)) = TRYING \<and> (\<forall>l. te (objs t (Cl n)) l = Unset)"

lemma making_core: "making s n t \<Longrightarrow> same_core t u \<Longrightarrow> making s n u"
  using tinv_core [of t u] frame_trans [OF _ frame_core] by (auto simp: making_def same_core_def)

lemma making_neutral [simp]: "making s n t \<Longrightarrow> neutral f \<Longrightarrow> making s n (tx_upd (Cl n) f t)"
  by (auto simp: making_def neutral_def tinv_tx_client)

lemma making_tid [simp]: "making s n t \<Longrightarrow> making s n (tx_upd (Cl n) (\<lambda>t. t\<lparr>tx_tid := Some k\<rparr>) t)"
  by (auto simp: making_def tinv_tid)

lemma making_new: "tm_inv s \<Longrightarrow> making s (ncl s) (new_client SipTransaction s)"
  using fresh_client [of "{}" s] by (auto simp: making_def tinv_new_client frame_def quiet_def)

definition core_closed :: "(tman \<Rightarrow> bool) \<Rightarrow> bool" where
  "core_closed I \<longleftrightarrow> (\<forall>s t. same_core s t \<longrightarrow> I s \<longrightarrow> I t)"

lemma keeps_core:
  assumes "core_closed I"
  shows "keeps I (transmitData u p d c l)" "keeps I (transmitMsg u m d x b)" "keeps I (answer_to u code rs q x b)" "keeps I (cache_drop x)" "keeps I (emit e)"
    and "(\<And>u. keeps I (k u)) \<Longrightarrow> keeps I (client_server tr d la k)"
    and "(\<And>u. keeps I (k u)) \<Longrightarrow> keeps I (getServer d k)"
    and "(\<And>tok. keeps I (k' tok)) \<Longrightarrow> keeps I (tm_token k')"
proof -
  have c: "I s \<Longrightarrow> same_core s t \<Longrightarrow> I t" for s t using assms by (auto simp: core_closed_def)
  show "keeps I (transmitData u p d c l)" "keeps I (transmitMsg u m d x b)" "keeps I (answer_to u code rs q x b)"
    unfolding keeps_wpc by (auto intro!: wpc_transmitData wpc_transmitMsg wpc_answer_to intro: c)
  show "keeps I (cache_drop x)" "keeps I (emit e)" unfolding keeps_wpc by (auto intro: c)
  show "(\<And>u. keeps I (k u)) \<Longrightarrow> keeps I (client_server tr d la k)" "(\<And>u. keeps I (k u)) \<Longrightarrow> keeps I (getServer d k)"
    unfolding keeps_wpc by (auto intro!: wpc_client_server wpc_getServer intro: c)
  show "(\<And>tok. keeps I (k' tok)) \<Longrightarrow> keeps I (tm_token k')"
    unfolding keeps_wpc using c [of _ "_\<lparr>w_ntok := _\<rparr>"] by auto
qed

lemma keeps_tx: "keeps I (with_tx r k)" if "\<And>t. keeps I (k t)"
  using that by (simp add: keeps_wpc)

lemma keeps_set_tx: "keeps I (set_tx r f)" if "\<And>s. I s \<Longrightarrow> I (tx_upd r f s)"
  using that by (simp add: keeps_wpc)

definition made :: "tman \<Rightarrow> nat \<Rightarrow> tkey \<Rightarrow> tman \<Rightarrow> bool" where
  "made s n k t \<longleftrightarrow> making s n t \<and> tx_tid (objs t (Cl n)) = Some k"

lemma made_neutral: "neutral f \<Longrightarrow> made s n k t \<Longrightarrow> made s n k (tx_upd (Cl n) f t)"
  by (simp add: made_def, simp add: neutral_def)

lemma made_core: "core_closed (made s n k)"
  using making_core by (auto simp: core_closed_def made_def same_core_def)

lemma keeps_made_tx: "neutral f \<Longrightarrow> keeps (made s n k) (set_tx (Cl n) f)"
  by (rule keeps_set_tx) (rule made_neutral)

lemma client_setup_made: "keeps (made s n k) (client_setup (Cl n) m la us c)"
  unfolding client_setup_def
  by (auto simp: neutral_def split: option.split
      intro!: keeps_intros keeps_tx keeps_made_tx keeps_core(6) made_core)

lemma client_invite_made: "keeps (made s n k) (client_invite (Cl n) m)"
  unfolding client_invite_def by (auto simp: neutral_def intro!: keeps_intros keeps_made_tx)

text \<open>After an operation on the client transaction \<open>n\<close> that began in \<open>s\<close>.\<close>

definition after_c :: "tman \<Rightarrow> nat \<Rightarrow> tman \<Rightarrow> bool" where
  "after_c s n t \<longleftrightarrow> tm_inv t \<and> frame (Cl n) s t \<and> tserver t = tserver s"

lemma after_c_core: "core_closed (after_c s n)"
  unfolding core_closed_def
proof (intro allI impI)
  fix t u
  assume c: "same_core t u" and a: "after_c s n t"
  have "tserver u = tserver t" using c by (simp add: same_core_def)
  then show "after_c s n u"
    using a tinv_core [OF c, of "{}"] frame_trans [OF _ frame_core [OF c], of "Cl n" s] by (simp add: after_c_def)
qed

lemma making_after: "making s n t \<Longrightarrow> after_c s n t"
  by (simp add: making_def after_c_def)

text \<open>Its timers are being started: those in \<open>L\<close> may be set.\<close>

definition timing :: "tman \<Rightarrow> nat \<Rightarrow> tkey \<Rightarrow> letter set \<Rightarrow> tman \<Rightarrow> bool" where
  "timing s n k L t \<longleftrightarrow> after_c s n t \<and> n < ncl t \<and> tx_tid (objs t (Cl n)) = Some k \<and> tx_state (objs t (Cl n)) = TRYING \<and>
     (\<forall>l. l \<notin> L \<longrightarrow> te (objs t (Cl n)) l = Unset) \<and> (\<forall>i. te (objs t (Cl n)) TeC \<noteq> Running i)"

lemma timing_made: "made s n k t \<Longrightarrow> timing s n k {} t"
  by (auto simp: timing_def made_def making_def after_c_def)

lemma timing_start: "timing s n k L t \<Longrightarrow> l \<in> {TeA, TeB} - L \<Longrightarrow> timing s n k (insert l L) (te_start (Cl n) l d t)"
  by (auto simp: timing_def after_c_def allowed_def intro!: tinv_start)

lemma timing_neutral: "timing s n k L t \<Longrightarrow> neutral f \<Longrightarrow> timing s n k L (tx_upd (Cl n) f t)"
  by (auto simp: timing_def after_c_def neutral_def intro!: tinv_tx_client)

lemma timing_clear:
  "timing s n k L t \<Longrightarrow> timing s n k (insert TeC L) (tx_upd (Cl n) (\<lambda>t. t\<lparr>te := (te t)(TeC := NoTimer)\<rparr>) t)"
  using no_timer_letter [of "{}" t "Cl n" TeC] by (auto simp: timing_def after_c_def intro!: tinv_clear)

lemma timing_trying: "timing s n k L t \<Longrightarrow> timing s n k L (tx_upd (Cl n) (\<lambda>t. t\<lparr>tx_state := TRYING\<rparr>) t)"
  using running_allowed [of "{}" t "Cl n"] teG_state [of "{}" t n] by (auto simp: timing_def after_c_def intro!: tinv_state)

lemma timing_listed: "timing s n k L t \<Longrightarrow> after_c s n (set_client k (Some n) t)"
  by (auto simp: timing_def after_c_def intro!: tinv_client_Some)

lemma timing_after: "timing s n k L t \<Longrightarrow> after_c s n t"
  by (simp add: timing_def)

lemma client_start_wpc:
  assumes "made s n k t"
  shows "wpc (client_start n k m rcb) (after_c s n) (\<lambda>_. after_c s n) (\<lambda>_. after_c s n) t"
proof -
  have A: "timing s n k {TeA} (te_start (Cl n) TeA d (tx_upd (Cl n) f t))" if "neutral f" for d f
    using timing_start [OF timing_neutral [OF timing_made [OF assms] that], of TeA] by simp
  have B: "after_c s n (set_client k (Some n) (tx_upd (Cl n) (\<lambda>t. t\<lparr>tx_state := TRYING\<rparr>)
      (tx_upd (Cl n) (\<lambda>t. t\<lparr>te := (te t)(TeC := NoTimer)\<rparr>) (te_start (Cl n) TeB d u))))" if "timing s n k {TeA} u" for u d
    using timing_listed [OF timing_trying [OF timing_clear [OF timing_start [OF that, of TeB]]]] by simp
  have S: "wpc (transmitData x p a c l) (after_c s n) R (\<lambda>_. after_c s n) u" if "after_c s n u" for u x p a c l and R :: "'z \<Rightarrow> tman \<Rightarrow> bool"
    using that after_c_core by (auto simp: core_closed_def intro!: wpc_transmitData)
  show ?thesis unfolding client_start_def Let_def
    by (cases rcb) (auto simp: some_or_def neutral_def split: option.split sum.split
        intro!: S B A timing_neutral timing_after [OF A])
qed


lemma TM_newTransaction_wpc:
  assumes "tm_inv s"
  shows "wpc (TM_newTransaction m rcb la us v c) (after_c s (ncl s)) (\<lambda>_. after_c s (ncl s)) (\<lambda>_. after_c s (ncl s)) s"
proof -
  define n where "n = ncl s"
  have m: "making s n (tx_upd (Cl n) f (new_client SipTransaction s))" if "neutral f" for f
    using making_new [OF assms] that by (simp add: n_def)
  have k: "made s n k (tx_upd (Cl n) (\<lambda>t. t\<lparr>tx_tid := Some k\<rparr>) (tx_upd (Cl n) f (new_client SipTransaction s)))" if "neutral f" for f k
    using m [OF that] by (simp add: made_def)
  have a: "made s n k t \<Longrightarrow> after_c s n t" for k t by (simp add: made_def making_after)
  have i: "wpc (client_invite (Cl n) m) (wpc (block [client_start n k m rcb, ret n]) (after_c s n) (\<lambda>_. after_c s n) (\<lambda>_. after_c s n))
      (\<lambda>_. after_c s n) (\<lambda>_. after_c s n) t" if "made s n k t" for k t
    by (rule wpc_mono [OF keepsW [OF client_invite_made that]]) (auto intro: a wpc_mono [OF client_start_wpc])
  have u: "wpc (client_setup (Cl n) m la us c) (wpc (block [client_invite (Cl n) m, client_start n k m rcb, ret n])
      (after_c s n) (\<lambda>_. after_c s n) (\<lambda>_. after_c s n)) (\<lambda>_. after_c s n) (\<lambda>_. after_c s n) t" if "made s n k t" for k t
    by (rule wpc_mono [OF keepsW [OF client_setup_made that]]) (auto intro: a i [simplified])
  have nt: "neutral (\<lambda>t. t\<lparr>compact := c, tx_method := rmethod m, cb_ifver := v\<rparr>)" by (simp add: neutral_def)
  show ?thesis
    unfolding TM_newTransaction_def wpc_local n_def [symmetric] Let_def
    using m [OF nt] k [OF nt] u [OF k [OF nt]] by (auto simp: making_after a split: sum.split)
qed


section \<open>What the operations of the layer above may do\<close>

text \<open>
  Seen from a transaction that is being finished, the operations that a callback performs do
  nothing: a client transaction keeps its state, a finished server transaction keeps its state
  and stays out of the table, and no timer is started for either.
\<close>

definition finished :: "tx_state \<Rightarrow> bool" where
  "finished q \<longleftrightarrow> q \<in> {COMPLETED, CONFIRMED}"

definition off_s :: "nat \<Rightarrow> tman \<Rightarrow> bool" where
  "off_s n s \<longleftrightarrow> (\<forall>k. tserver s k \<noteq> Some n)"

definition gentle :: "tman \<Rightarrow> tman \<Rightarrow> bool" where
  "gentle s t \<longleftrightarrow> tm_inv t \<and> ncl s \<le> ncl t \<and> nsv s \<le> nsv t \<and>
     (\<forall>n < ncl s. tx_state (objs t (Cl n)) = tx_state (objs s (Cl n)) \<and> (quiet (Cl n) s \<longrightarrow> quiet (Cl n) t)) \<and>
     (\<forall>n < nsv s. finished (tx_state (objs s (Sv n))) \<longrightarrow> tx_state (objs t (Sv n)) = tx_state (objs s (Sv n)) \<and>
        (quiet (Sv n) s \<longrightarrow> quiet (Sv n) t) \<and> (off_s n s \<longrightarrow> off_s n t))"

lemma gentle_refl: "tm_inv s \<Longrightarrow> gentle s s"
  by (simp add: gentle_def)

lemma gentle_inv: "gentle s t \<Longrightarrow> tm_inv t"
  by (simp add: gentle_def)

lemma gentle_trans:
  assumes "gentle s t" "gentle t u"
  shows "gentle s u"
proof -
  have "n < ncl t" if "n < ncl s" for n using assms(1) that by (simp add: gentle_def)
  moreover have "n < nsv t" if "n < nsv s" for n using assms(1) that by (simp add: gentle_def)
  moreover have "ncl s \<le> ncl u" "nsv s \<le> nsv u" using assms by (simp_all add: gentle_def)
  ultimately show ?thesis using assms unfolding gentle_def by simp
qed

lemma quiet_cong: "w_timers t = w_timers s \<Longrightarrow> quiet r t = quiet r s"
  by (simp add: quiet_def)

lemma gentle_core: "core_closed (gentle s)"
  unfolding core_closed_def
proof (intro allI impI)
  fix t u
  assume c: "same_core t u" and g: "gentle s t"
  have "tm_inv u" using g tinv_core [OF c, of "{}"] by (simp add: gentle_def)
  then show "gentle s u" using g c by (simp add: gentle_def same_core_def quiet_def off_s_def)
qed

lemma gentle_after_c: "after_c s (ncl s) t \<Longrightarrow> gentle s t"
  unfolding gentle_def after_c_def frame_def off_s_def by auto

lemma gentle_fresh: "gentle s t \<Longrightarrow> after_c t (ncl t) u \<Longrightarrow> gentle s u"
  using gentle_trans gentle_after_c by blast

lemma gentle_client: "gentle s t \<Longrightarrow> neutral f \<Longrightarrow> gentle s (tx_upd (Cl n) f t)"
  by (auto simp: gentle_def neutral_def quiet_def off_s_def intro!: tinv_tx_client)

lemma keeps_newTransaction: "keeps (gentle s) (TM_newTransaction m rcb la us v c)"
  by (rule keepsI) (auto intro: gentle_fresh intro!: wpc_mono [OF TM_newTransaction_wpc [OF gentle_inv]])

lemma keeps_client_tx: "neutral f \<Longrightarrow> keeps (gentle s) (set_tx (Cl n) f)"
  by (rule keeps_set_tx) (rule gentle_client)

lemma keeps_send_cancel: "keeps (gentle s) (send_cancel n)"
  unfolding send_cancel_def by (intro keeps_intros keeps_tx keeps_newTransaction)

lemma keeps_cancelTransaction: "keeps (gentle s) (TM_cancelTransaction n eh)"
  unfolding TM_cancelTransaction_def
  by (auto simp: neutral_def split: option.split intro!: keeps_intros keeps_tx keeps_client_tx keeps_send_cancel)

lemma keeps_setAckBody: "keeps (gentle s) (TM_setAckBody n b)"
  unfolding TM_setAckBody_def by (auto simp: neutral_def intro!: keeps_intros keeps_tx keeps_client_tx)

lemma keeps_consumers: "keeps (gentle s) (TM_regConsumer c ci x)" "keeps (gentle s) (TM_unregConsumer c ci)"
proof -
  have u: "gentle s (t\<lparr>req_consumers := f\<rparr>)" if "gentle s t" for t f
    using gentle_core that by (auto simp: core_closed_def same_core_def)
  show "keeps (gentle s) (TM_regConsumer c ci x)" "keeps (gentle s) (TM_unregConsumer c ci)"
    unfolding TM_regConsumer_def TM_unregConsumer_def by (auto intro!: keeps_intros keeps_upd u)
qed


lemma gentle_stop: "gentle s t \<Longrightarrow> te (objs t (Cl n)) l = Running i \<Longrightarrow> gentle s (te_stop (Cl n) l i t)"
proof -
  assume g: "gentle s t" and r: "te (objs t (Cl n)) l = Running i"
  have "tm_inv (te_stop (Cl n) l i t)" using g r by (intro tinv_stop) (auto simp: gentle_def)
  then show ?thesis using g by (auto simp: gentle_def quiet_def te_stop_def off_s_def)
qed

lemma gentle_drop:
  assumes "gentle s t" "tx_tid (objs t (Cl n)) = Some k" "quiet (Cl n) t"
  shows "gentle s (tx_upd (Cl n) tx_cleanup (set_client k None t))"
proof -
  have "tm_inv (tx_upd (Cl n) tx_cleanup (set_client k None t))"
    using assms only_entry_client [OF gentle_inv [OF assms(1)] assms(2)]
    by (intro tinv_cleanup_client tinv_client_None) (auto simp: gentle_def quiet_def)
  then show ?thesis using assms(1) by (auto simp: gentle_def quiet_def off_s_def)
qed

text \<open>In the state UACK only timer G may run.\<close>

lemma uack_quiet:
  assumes "tm_inv t" "te (objs t (Cl n)) TeG = NoTimer" "tx_tid (objs t (Cl n)) = Some k"
  shows "quiet (Cl n) t"
proof (rule not_running_quiet [OF assms(1)], intro allI notI)
  fix l i
  assume r: "te (objs t (Cl n)) l = Running i"
  have "tx_state (objs t (Cl n)) = UACK" using teG_state [OF assms(1), of n] assms(2,3) by simp
  then show False using running_allowed [OF assms(1) _ r] r assms(2) by (simp add: allowed_def)
qed

lemma drop_client_gentle:
  assumes "gentle s t" "tx_tid (objs t (Cl n)) \<noteq> None \<Longrightarrow> quiet (Cl n) t"
  shows "wpc (drop_client n) (gentle s) R (\<lambda>_. gentle s) t"
  using assms gentle_drop [OF assms(1)] by (cases "tx_tid (objs t (Cl n))") (simp_all add: drop_client_def)

lemma keeps_sendACK: "keeps (gentle s) (TM_sendACK n)"
proof (rule keepsI)
  fix t
  assume g: "gentle s t"
  define Z where "Z t = (gentle s t \<and> te (objs t (Cl n)) TeG = NoTimer)" for t
  have Zc: "core_closed Z" using gentle_core [of s] by (auto simp: core_closed_def Z_def same_core_def)
  have Zg: "Z t \<Longrightarrow> gentle s t" for t by (simp add: Z_def)
  have d: "Z t \<Longrightarrow> wpc (drop_client n) (gentle s) R (\<lambda>_. gentle s) t" for t and R :: "unit \<Rightarrow> tman \<Rightarrow> bool"
    using uack_quiet [of t n] by (auto simp: Z_def gentle_inv intro: drop_client_gentle)
  have z: "wpc (transmitMsg u x e c b) (wpc (drop_client n) (gentle s) R (\<lambda>_. gentle s)) (\<lambda>_. gentle s) (\<lambda>_. gentle s) t"
    if "Z t" for u x e c b t and R :: "unit \<Rightarrow> tman \<Rightarrow> bool"
    by (rule wpc_mono [OF keepsW [OF keeps_core(2) [OF Zc] that]]) (auto intro: Zg d)
  have y: "wpc (block [with_tx (Cl n) (\<lambda>t.
       fetch (\<lambda>_. some_or AttributeError (ack_rAddr t)) (\<lambda>d.
       fetch (\<lambda>_. some_or AttributeError (tx_ack t)) (\<lambda>a.
       fetch (\<lambda>_. some_or AttributeError (ack_checksum t)) (\<lambda>c.
         transmitMsg (tx_userv t) (P_Req a) d c (compact t))))),
     drop_client n] :: (tman, unit) stmt) (gentle s) (\<lambda>_. gentle s) (\<lambda>_. gentle s) t" if "Z t" for t
    using z [OF that] Zg [OF that] by (auto simp: some_or_def split: option.split)
  show "wpc (TM_sendACK n) (gentle s) (\<lambda>_. gentle s) (\<lambda>_. gentle s) t"
  proof (cases "te (objs t (Cl n)) TeG")
    case NoTimer
    then show ?thesis using g y [of t] unfolding TM_sendACK_def by (subst wpc_block_Cons) (simp add: Z_def)
  next
    case (Running i)
    then show ?thesis using gentle_stop [OF g Running] y [of "te_stop (Cl n) TeG i t"]
      unfolding TM_sendACK_def by (subst wpc_block_Cons) (simp add: Z_def)
  qed (use g in \<open>simp add: TM_sendACK_def\<close>)
qed

section \<open>Responses\<close>

text \<open>A server transaction that an operation begun in \<open>s\<close> may change.\<close>

definition open_s :: "tman \<Rightarrow> nat \<Rightarrow> tman \<Rightarrow> bool" where
  "open_s s n t \<longleftrightarrow> gentle s t \<and> n < nsv t \<and> (n < nsv s \<longrightarrow> \<not> finished (tx_state (objs s (Sv n))))"

lemma open_s_core: "core_closed (open_s s n)"
  using gentle_core [of s] by (auto simp: core_closed_def open_s_def same_core_def)

lemma open_gentle: "open_s s n t \<Longrightarrow> gentle s t"
  by (simp add: open_s_def)

text \<open>Changes of the transaction \<open>n\<close> only need to keep the invariant.\<close>

definition only_s :: "nat \<Rightarrow> tman \<Rightarrow> tman \<Rightarrow> bool" where
  "only_s n t u \<longleftrightarrow> ncl u = ncl t \<and> nsv u = nsv t \<and> (\<forall>r. r \<noteq> Sv n \<longrightarrow> objs u r = objs t r \<and> (quiet r t \<longrightarrow> quiet r u)) \<and>
     (\<forall>m. m \<noteq> n \<longrightarrow> off_s m t \<longrightarrow> off_s m u)"

lemma open_s_step: "open_s s n t \<Longrightarrow> only_s n t u \<Longrightarrow> tm_inv u \<Longrightarrow> open_s s n u"
  unfolding open_s_def gentle_def only_s_def
  by (metis tref.inject(2) tref.distinct(1))

lemma only_s_simps [simp]:
  "only_s n t (tx_upd (Sv n) f t)" "only_s n t (te_start (Sv n) l d t)" "only_s n t (te_stop (Sv n) l i t)"
  "only_s n t (te_cancel i t)" "only_s n t (set_server k None t)" "only_s n t (set_server k (Some n) t)"
  by (auto simp: only_s_def quiet_def off_s_def te_stop_def)


text \<open>The transaction has its final answer; of its timers only those in \<open>L\<close> may run.\<close>

definition closing :: "tman \<Rightarrow> nat \<Rightarrow> letter set \<Rightarrow> tman \<Rightarrow> bool" where
  "closing s n L t \<longleftrightarrow> open_s s n t \<and> tx_tid (objs t (Sv n)) \<noteq> None \<and> tx_state (objs t (Sv n)) = COMPLETED \<and>
     (\<forall>l i. te (objs t (Sv n)) l = Running i \<longrightarrow> l \<in> L)"

lemma server_te: "tinv X t \<Longrightarrow> n < nsv t \<Longrightarrow> l \<notin> {TeB, TeC} \<Longrightarrow> te (objs t (Sv n)) l = NoTimer \<or> (\<exists>i. te (objs t (Sv n)) l = Running i)"
  by (cases "te (objs t (Sv n)) l") (auto simp: tinv_def alloc_def)

lemma staged_back: "tinv {r} t \<Longrightarrow> \<forall>l i. te (objs t r) l \<noteq> Running i \<Longrightarrow> tm_inv t"
  unfolding tinv_def staged_def by (metis singletonD)

lemma staged_more: "tm_inv t \<Longrightarrow> tinv X t"
  by (auto simp: tinv_def staged_def)

lemma only_s_trans: "only_s n t u \<Longrightarrow> only_s n u v \<Longrightarrow> only_s n t v"
  by (simp add: only_s_def)

lemma stop_te_X:
  assumes "tinv {Sv n} t" "n < nsv t" "l \<notin> {TeB, TeC}"
    and "\<And>u. tinv {Sv n} u \<Longrightarrow> only_s n t u \<Longrightarrow> tx_tid (objs u (Sv n)) = tx_tid (objs t (Sv n)) \<Longrightarrow>
      tx_state (objs u (Sv n)) = tx_state (objs t (Sv n)) \<Longrightarrow> te (objs u (Sv n)) = (te (objs t (Sv n)))(l := NoTimer) \<Longrightarrow> N u"
  shows "wpc (stop_te (Sv n) l) N R X t"
  using server_te [OF assms(1-3)]
proof
  assume "te (objs t (Sv n)) l = NoTimer"
  moreover have "only_s n t t" by (simp add: only_s_def)
  ultimately show ?thesis using assms(4) [of t] assms(1) by (simp add: fun_upd_idem)
next
  assume "\<exists>i. te (objs t (Sv n)) l = Running i"
  then obtain i where i: "te (objs t (Sv n)) l = Running i" by blast
  then have "tinv {Sv n} (te_stop (Sv n) l i t)" using assms by (intro tinv_stop) auto
  then show ?thesis using assms(4) [of "te_stop (Sv n) l i t"] i by simp
qed

lemma final_stops:
  assumes "open_s s n t" "tx_state (objs t (Sv n)) \<in> {TRYING, RINGING}" "tx_tid (objs t (Sv n)) \<noteq> None"
    and N: "\<And>u. closing s n {} u \<Longrightarrow> N u"
  shows "wpc (stop_te (Sv n) TeE) (wpc (stop_te (Sv n) TeF) N R X) R X (tx_upd (Sv n) (\<lambda>t. t\<lparr>tx_state := COMPLETED\<rparr>) t)"
proof -
  define t1 where "t1 = tx_upd (Sv n) (\<lambda>t. t\<lparr>tx_state := COMPLETED\<rparr>) t"
  have i: "tm_inv t" "n < nsv t" using assms(1) by (simp_all add: open_s_def gentle_def)
  have t1: "tinv {Sv n} t1" unfolding t1_def using tinv_state [OF staged_more [OF i(1)], of "Sv n" "{Sv n}" COMPLETED] i(2) by simp
  have run: "te (objs t (Sv n)) l = Running j \<Longrightarrow> l = TeE \<or> l = TeF" for l j
    using running_allowed [OF i(1), of "Sv n" l j] assms(2) by (auto simp: allowed_def)
  have "N v" if u: "tinv {Sv n} u" "only_s n t1 u" "tx_tid (objs u (Sv n)) = tx_tid (objs t1 (Sv n))"
      "tx_state (objs u (Sv n)) = tx_state (objs t1 (Sv n))" "te (objs u (Sv n)) = (te (objs t1 (Sv n)))(TeE := NoTimer)"
    and v: "tinv {Sv n} v" "only_s n u v" "tx_tid (objs v (Sv n)) = tx_tid (objs u (Sv n))"
      "tx_state (objs v (Sv n)) = tx_state (objs u (Sv n))" "te (objs v (Sv n)) = (te (objs u (Sv n)))(TeF := NoTimer)" for u v
  proof (rule N)
    have q: "\<forall>l i. te (objs v (Sv n)) l \<noteq> Running i" using u(5) v(5) run by (auto simp: t1_def)
    have "only_s n t v" using only_s_trans [OF _ only_s_trans [OF u(2) v(2)]] by (simp add: t1_def)
    then have "open_s s n v" using open_s_step [OF assms(1)] staged_back [OF v(1) q] by simp
    then show "closing s n {} v" using u(3,4) v(3,4) assms(3) q by (simp add: closing_def t1_def)
  qed
  then have F: "wpc (stop_te (Sv n) TeF) N R X u" if "tinv {Sv n} u" "only_s n t1 u" "tx_tid (objs u (Sv n)) = tx_tid (objs t1 (Sv n))"
      "tx_state (objs u (Sv n)) = tx_state (objs t1 (Sv n))" "te (objs u (Sv n)) = (te (objs t1 (Sv n)))(TeE := NoTimer)" for u
    using that i(2) by (intro stop_te_X) (auto simp: only_s_def t1_def)
  show ?thesis unfolding t1_def [symmetric]
    by (rule stop_te_X [OF t1]) (use i(2) F in \<open>simp_all add: t1_def\<close>)
qed


lemma closing_open: "closing s n L t \<Longrightarrow> open_s s n t"
  by (simp add: closing_def)

lemma closing_inv: "closing s n L t \<Longrightarrow> tm_inv t \<and> n < nsv t"
  by (simp add: closing_def open_s_def gentle_def)

lemma closing_neutral: "closing s n L t \<Longrightarrow> neutral f \<Longrightarrow> closing s n L (tx_upd (Sv n) f t)"
  using open_s_step [of s n t "tx_upd (Sv n) f t"] tinv_tx [of "{}" t "Sv n" f] closing_inv [of s n L t]
  by (auto simp: closing_def neutral_def)

lemma closing_start: "closing s n L t \<Longrightarrow> l \<in> {TeA, TeD} - L \<Longrightarrow> closing s n (insert l L) (te_start (Sv n) l d t)"
  using open_s_step [of s n t "te_start (Sv n) l d t"] tinv_start [of "{}" t "Sv n" l d] closing_inv [of s n L t]
  by (auto simp: closing_def allowed_def)

lemma closing_unlist: "closing s n L t \<Longrightarrow> closing s n L (set_server k None t)"
  using open_s_step [of s n t "set_server k None t"] tinv_server_None [of "{}" t k] closing_inv [of s n L t]
  by (auto simp: closing_def)

lemma unlisted: "closing s n L t \<Longrightarrow> tx_tid (objs t (Sv n)) = Some k \<Longrightarrow> off_s n (set_server k None t)"
  using only_entry_server [of "{}" t n k] closing_inv [of s n L t] by (auto simp: off_s_def)

lemma closing_relist:
  assumes "closing s n L t" "off_s n t"
  shows "closing s n L (set_server k (Some n) (tx_upd (Sv n) (\<lambda>t. t\<lparr>tx_tid := Some k\<rparr>) t))"
proof -
  define u where "u = tx_upd (Sv n) (\<lambda>t. t\<lparr>tx_tid := Some k\<rparr>) t"
  have i: "tm_inv t" "n < nsv t" using closing_inv [OF assms(1)] by simp_all
  have u: "tm_inv u" unfolding u_def using tinv_tid_server [OF i(1) _ i(2)] assms(2) by (simp add: off_s_def)
  have "tm_inv (set_server k (Some n) u)" using u i by (intro tinv_server_Some) (simp_all add: u_def)
  moreover have "only_s n t (set_server k (Some n) u)"
    using only_s_trans [of n t u] by (simp add: u_def)
  ultimately show ?thesis
    using open_s_step [of s n t "set_server k (Some n) u"] assms(1) by (simp add: closing_def u_def)
qed

lemma drop_server_wpc:
  assumes "open_s s n t" "quiet (Sv n) t"
  shows "wpc (drop_server n) (open_s s n) R (\<lambda>_. open_s s n) t"
proof (cases "tx_tid (objs t (Sv n))")
  case None
  then show ?thesis using assms by (simp add: drop_server_def)
next
  case (Some k)
  define u where "u = set_server k None t"
  have i: "tm_inv t" "n < nsv t" using assms(1) by (simp_all add: open_s_def gentle_def)
  have "tm_inv (tx_upd (Sv n) tx_cleanup u)"
    using only_entry_server [OF i(1) Some] i assms(2) unfolding u_def
    by (intro tinv_cleanup_server tinv_server_None) (auto simp: quiet_def)
  moreover have "only_s n t (tx_upd (Sv n) tx_cleanup u)"
    using only_s_trans [of n t u] by (simp add: u_def)
  ultimately have "open_s s n (tx_upd (Sv n) tx_cleanup u)" by (rule open_s_step [OF assms(1), rotated])
  then show ?thesis using assms(1) Some by (simp add: drop_server_def u_def)
qed

lemma server_final_wpc:
  assumes "open_s s n t" "tx_state (objs t (Sv n)) \<in> {TRYING, RINGING}" "tx_tid (objs t (Sv n)) \<noteq> None"
  shows "wpc (server_final n resp acb) (open_s s n) (\<lambda>_. open_s s n) (\<lambda>_. open_s s n) t"
proof -
  have a: "closing s n {TeD} (te_start (Sv n) TeD d (tx_upd (Sv n) (\<lambda>t. t\<lparr>ack_cb := acb\<rparr>) u))" if "closing s n {} u" for u d
    using closing_start [OF closing_neutral [OF that], of "\<lambda>t. t\<lparr>ack_cb := acb\<rparr>" TeD] by (simp add: neutral_def)
  have b: "open_s s n (te_start (Sv n) TeA d (tx_upd (Sv n) (\<lambda>t. t\<lparr>tx_tout := x\<rparr>)
      (set_server k' (Some n) (tx_upd (Sv n) (\<lambda>t. t\<lparr>tx_tid := Some k'\<rparr>) (set_server k None u)))))"
    if "closing s n {TeD} u" "tx_tid (objs u (Sv n)) = Some k" for u k k' d x
    using closing_open [OF closing_start [OF closing_neutral [OF closing_relist [OF closing_unlist [OF that(1)] unlisted [OF that]]],
      of "\<lambda>t. t\<lparr>tx_tout := x\<rparr>" TeA]] by (simp add: neutral_def)
  have q: "closing s n {} u \<Longrightarrow> quiet (Sv n) u" for u
    using not_running_quiet [of "{}" u "Sv n"] by (auto simp: closing_def open_s_def gentle_def)
  have A: "wpc (with_tx (Sv n) (\<lambda>t. if needack t then block [
         set_tx (Sv n) (\<lambda>t. t\<lparr>ack_cb := acb\<rparr>),
         start_te (Sv n) TeD 32,
         del_server (tx_tid t),
         fetch (\<lambda>_. and_then (getAddrHF ''to'' resp) (\<lambda>a. Inr (getTag a))) (\<lambda>tag.
         fetch (\<lambda>_. some_or TypeError (tx_tid t)) (\<lambda>k. block [
           set_tx (Sv n) (\<lambda>t. t\<lparr>tx_tid := Some (retag tag k)\<rparr>),
           upd (set_server (retag tag k) (Some n))])),
         set_tx (Sv n) (\<lambda>t. t\<lparr>tx_tout := 1 / 2\<rparr>),
         start_te (Sv n) TeA (1 / 2)]
       else drop_server n)) (open_s s n) (\<lambda>_. open_s s n) (\<lambda>_. open_s s n) u" if c: "closing s n {} u" for u
  proof -
    obtain k where k: "tx_tid (objs u (Sv n)) = Some k" using c by (auto simp: closing_def)
    show ?thesis
      using k closing_open [OF a [OF c]] closing_open [OF closing_unlist [OF a [OF c]]] b [OF a [OF c]]
        drop_server_wpc [OF closing_open [OF c] q [OF c]]
      by (auto simp: some_or_def split: sum.split)
  qed
  show ?thesis unfolding server_final_def Let_def wpc_block_fun wpc_tm_basic(3) by (rule final_stops [OF assms A])
qed


text \<open>A provisional answer: the timer that repeats it is set anew.\<close>

definition ringing_s :: "tman \<Rightarrow> nat \<Rightarrow> tman \<Rightarrow> bool" where
  "ringing_s s n t \<longleftrightarrow> open_s s n t \<and> tx_state (objs t (Sv n)) \<in> {TRYING, RINGING} \<and> tx_tid (objs t (Sv n)) \<noteq> None"

lemma ringing_core: "core_closed (ringing_s s n)"
  using open_s_core [of s n] by (auto simp: core_closed_def ringing_s_def same_core_def)

lemma ringing_inv: "ringing_s s n t \<Longrightarrow> tm_inv t \<and> n < nsv t"
  by (simp add: ringing_s_def open_s_def gentle_def)

lemma ringing_neutral: "ringing_s s n t \<Longrightarrow> neutral f \<Longrightarrow> ringing_s s n (tx_upd (Sv n) f t)"
  using open_s_step [of s n t "tx_upd (Sv n) f t"] tinv_tx [of "{}" t "Sv n" f] ringing_inv [of s n t]
  by (auto simp: ringing_s_def neutral_def)

lemma ringing_state: "ringing_s s n t \<Longrightarrow> ringing_s s n (tx_upd (Sv n) (\<lambda>t. t\<lparr>tx_state := RINGING\<rparr>) t)"
proof -
  assume r: "ringing_s s n t"
  have "l \<in> allowed (Sv n) RINGING" if "te (objs t (Sv n)) l = Running i" for l i
    using r running_allowed [OF conjunct1 [OF ringing_inv [OF r]] _ that] by (auto simp: ringing_s_def allowed_def)
  then have "tm_inv (tx_upd (Sv n) (\<lambda>t. t\<lparr>tx_state := RINGING\<rparr>) t)"
    using ringing_inv [OF r] by (intro tinv_state) auto
  then show ?thesis using open_s_step [of s n t] r by (simp add: ringing_s_def)
qed

lemma ringing_start:
  assumes "ringing_s s n t" "\<forall>w \<in> set (w_timers t). (wt_tx w, wt_letter w) \<noteq> (Sv n, TeF)"
  shows "ringing_s s n (te_start (Sv n) TeF d t)"
proof -
  have "tm_inv (te_start (Sv n) TeF d t)"
    using assms ringing_inv [OF assms(1)] by (intro tinv_start') (auto simp: ringing_s_def allowed_def)
  then show ?thesis using open_s_step [of s n t] assms(1) by (simp add: ringing_s_def)
qed

lemma ringing_restart: "ringing_s s n t \<Longrightarrow> te (objs t (Sv n)) TeF = Running i \<Longrightarrow> ringing_s s n (te_start (Sv n) TeF d (te_cancel i t))"
proof (rule ringing_start)
  assume r: "ringing_s s n t" and i: "te (objs t (Sv n)) TeF = Running i"
  show "ringing_s s n (te_cancel i t)"
    using r open_s_step [of s n t "te_cancel i t"] tinv_cancel ringing_inv [OF r] by (auto simp: ringing_s_def)
  show "\<forall>w \<in> set (w_timers (te_cancel i t)). (wt_tx w, wt_letter w) \<noteq> (Sv n, TeF)"
  proof
    fix w
    assume w: "w \<in> set (w_timers (te_cancel i t))"
    then have "te (objs t (wt_tx w)) (wt_letter w) = Running (wt_id w)" "wt_id w \<noteq> i"
      using ringing_inv [OF r] by (auto simp: tinv_def timed_def)
    then show "(wt_tx w, wt_letter w) \<noteq> (Sv n, TeF)" using i by auto
  qed
qed

lemma keeps_ringing_tx: "neutral f \<Longrightarrow> keeps (ringing_s s n) (set_tx (Sv n) f)"
  by (rule keeps_set_tx) (rule ringing_neutral)

lemma keeps_server_send: "keeps (ringing_s s n) (server_send n p resp loss)"
  unfolding server_send_def Let_def
  by (auto simp: neutral_def intro!: keeps_intros keeps_tx keeps_ringing_tx keeps_core(1) ringing_core)

lemma server_answered_wpc:
  assumes "ringing_s s n t"
  shows "wpc (server_answered n resp acb) (open_s s n) (\<lambda>_. open_s s n) (\<lambda>_. open_s s n) t"
proof (cases "scode resp < 200")
  case True
  define t1 where "t1 = tx_upd (Sv n) (\<lambda>t. t\<lparr>tx_state := RINGING\<rparr>) t"
  have r: "ringing_s s n t1" unfolding t1_def by (rule ringing_state [OF assms])
  have i: "tm_inv t1" "n < nsv t1" using ringing_inv [OF r] by simp_all
  have o: "open_s s n t1" using r by (simp add: ringing_s_def)
  from server_te [OF i, of TeF] show ?thesis unfolding server_answered_def Let_def
    using True o ringing_restart [OF r] ringing_start [OF r] no_timer_letter [OF i(1), of "Sv n" TeF]
    by (auto simp: t1_def [symmetric] ringing_s_def)
next
  case False
  then show ?thesis
    using server_final_wpc [of s n t resp acb] assms by (simp add: server_answered_def ringing_s_def)
qed

lemma sendResponse_on_wpc:
  assumes "gentle s t" "tx_state (objs t (Sv n)) \<in> {TRYING, RINGING}" "n < nsv s \<longrightarrow> \<not> finished (tx_state (objs s (Sv n)))"
  shows "wpc (sendResponse_on n resp rt acb loss) (gentle s) (\<lambda>_. gentle s) (\<lambda>_. gentle s) t"
proof -
  have g: "gentle s (t\<lparr>w_ntok := x\<rparr>)" for x
    using gentle_core assms(1) by (auto simp: core_closed_def same_core_def)
  have r: "ringing_s s n (t\<lparr>w_ntok := x\<rparr>)" if "tx_userv (objs t (Sv n)) \<noteq> None" for x
    using g [of x] userv_exists [OF gentle_inv [OF assms(1)] that] gentle_inv [OF assms(1)] assms that
    by (auto simp: ringing_s_def open_s_def tinv_def alloc_def)
  have w: "wpc (server_send n p x loss) (wpc (server_answered n x acb) (gentle s) (\<lambda>_. gentle s) (\<lambda>_. gentle s)) (\<lambda>_. gentle s) (\<lambda>_. gentle s) u"
    if "ringing_s s n u" for p x u
    by (rule wpc_mono [OF keepsW [OF keeps_server_send that]])
      (auto simp: ringing_s_def open_gentle intro!: wpc_mono [OF server_answered_wpc])
  have p: "tx_userv (objs t (Sv n)) \<noteq> None" if "packet_of (tx_userv (objs t (Sv n))) x c = Inr y" for x c y
    using that by (cases "tx_userv (objs t (Sv n))") (simp_all add: packet_of_def)
  show ?thesis unfolding sendResponse_on_def
    using assms g by (auto intro!: w r p split: sum.split)
qed


lemma keeps_sendResponse_on: "keeps (gentle s) (sendResponse_on n resp False acb loss)"
proof (rule keepsI)
  fix t
  assume g: "gentle s t"
  show "wpc (sendResponse_on n resp False acb loss) (gentle s) (\<lambda>_. gentle s) (\<lambda>_. gentle s) t"
  proof (cases "tx_state (objs t (Sv n)) \<in> {TRYING, RINGING}")
    case True
    then have "n < nsv s \<longrightarrow> \<not> finished (tx_state (objs s (Sv n)))"
      using g by (auto simp: gentle_def finished_def)
    with g True show ?thesis by (rule sendResponse_on_wpc)
  next
    case False
    then show ?thesis using g by (simp add: sendResponse_on_def)
  qed
qed

lemma keeps_run_op: "keeps (gentle s) (run_op p)"
  by (cases p) (auto simp: TM_sendResponse_def neutral_def split: option.split
      intro!: keeps_intros keeps_newTransaction keeps_cancelTransaction keeps_sendACK keeps_setAckBody keeps_client_tx
        keeps_sendResponse_on keeps_consumers)

section \<open>Callbacks\<close>

lemma wpc_foreach_step:
  assumes "\<And>x s. I s \<Longrightarrow> wpc (bd x) I R X s" "I s"
  shows "wpc (foreach xs bd) I R X s"
  using assms(2) by (induction xs arbitrary: s) (auto intro: wpc_mono [OF assms(1)])

lemma up_ops_gentle:
  fixes ops :: "(tm_op \<times> bool) list"
  assumes "gentle s t"
  shows "wpc (foreach ops up_op) (gentle s) R (\<lambda>_. gentle s) t"
proof (rule wpc_foreach_step)
  fix x :: "tm_op \<times> bool" and t
  assume "gentle s t"
  then have "wpc (run_op (fst x)) (gentle s) (\<lambda>_. gentle s) (\<lambda>_. gentle s) t" by (rule keepsW [OF keeps_run_op])
  then show "wpc (up_op x) (gentle s) R (\<lambda>_. gentle s) t"
    by (cases "run_op (fst x) t") (simp_all add: up_op_def wpc_def call_def try_catch_def skip_def)
qed (rule assms)

lemma wpc_up_call:
  assumes "tm_inv t" "\<And>v u. gentle t u \<Longrightarrow> wpc (c v) N R X u" "\<And>e u. gentle t u \<Longrightarrow> X e u"
  shows "wpc (up_call up e c) N R X t"
proof -
  have g: "gentle t (t\<lparr>w_trace := w_trace t @ [e]\<rparr>)"
    using gentle_refl [OF assms(1)] gentle_core by (auto simp: core_closed_def same_core_def)
  have "wpc (foreach (re_ops (react up e)) up_op) (wpc (fetch (\<lambda>_. re_end (react up e)) c) N R X) R X (t\<lparr>w_trace := w_trace t @ [e]\<rparr>)"
    by (rule wpc_mono [OF up_ops_gentle [OF g]]) (auto simp: assms(2,3) split: sum.split)
  then show ?thesis by (simp add: up_call_def)
qed


lemma tm_inv_core: "core_closed tm_inv"
  using tinv_core by (auto simp: core_closed_def)

lemma tm_inv_up_call: "tm_inv t \<Longrightarrow> (\<And>v. keeps tm_inv (c v)) \<Longrightarrow> wpc (up_call up e c) tm_inv (\<lambda>_. tm_inv) (\<lambda>_. tm_inv) t"
  by (rule wpc_up_call) (auto intro: gentle_inv keepsW)

end
