(* ===== verification/Sip_TM_Steps.thy ===== *)
theory Sip_TM_Steps
  imports Sip_TM_Inv
begin

text \<open>
  The handlers of the transaction manager keep its invariant: responses, requests, timers, and
  so every step of \<open>tm_step\<close>.
\<close>

section \<open>Client handlers\<close>

text \<open>A client transaction for which no timer runs, in the state \<open>q\<close>.\<close>

definition calm_c :: "nat \<Rightarrow> tx_state \<Rightarrow> tman \<Rightarrow> bool" where
  "calm_c n q t \<longleftrightarrow> tm_inv t \<and> n < ncl t \<and> tx_state (objs t (Cl n)) = q \<and> (\<forall>l i. te (objs t (Cl n)) l \<noteq> Running i)"

lemma calm_quiet: "calm_c n q t \<Longrightarrow> quiet (Cl n) t"
  using not_running_quiet [of "{}" t "Cl n"] by (simp add: calm_c_def)

lemma calm_core: "core_closed (calm_c n q)"
  unfolding core_closed_def
proof (intro allI impI)
  fix s t
  assume c: "same_core s t" and q: "calm_c n q s"
  have "tm_inv t" using q tinv_core [OF c, of "{}"] by (simp add: calm_c_def)
  then show "calm_c n q t" using q c by (simp add: calm_c_def same_core_def)
qed

lemma calm_neutral: "calm_c n q t \<Longrightarrow> neutral f \<Longrightarrow> calm_c n q (tx_upd (Cl n) f t)"
  by (auto simp: calm_c_def neutral_def intro!: tinv_tx_client)

lemma keeps_calm_tx: "neutral f \<Longrightarrow> keeps (calm_c n q) (set_tx (Cl n) f)"
  by (rule keeps_set_tx) (rule calm_neutral)

lemma drop_client_inv: "tm_inv t \<Longrightarrow> quiet (Cl n) t \<Longrightarrow> wpc (drop_client n) tm_inv R (\<lambda>_. tm_inv) t"
  by (rule wpc_mono [OF drop_client_gentle [OF gentle_refl]]) (auto simp: gentle_inv)

lemma call_resp_cb_wpc:
  assumes "tm_inv t" "\<And>u. gentle t u \<Longrightarrow> N u" "\<And>e u. gentle t u \<Longrightarrow> X e u"
  shows "wpc (call_resp_cb up n msg) N R X t"
  using assms gentle_refl [OF assms(1)] by (auto simp: call_resp_cb_def split: option.split intro!: wpc_up_call)

text \<open>The preparation of the ACK: afterwards the state is as before or UACK with timer G.\<close>

definition acking :: "nat \<Rightarrow> tx_state \<Rightarrow> tman \<Rightarrow> bool" where
  "acking n q t \<longleftrightarrow> calm_c n q t \<and> tx_tid (objs t (Cl n)) \<noteq> None"

lemma acking_core: "core_closed (acking n q)"
  using calm_core [of n q] by (auto simp: core_closed_def acking_def same_core_def)

lemma keeps_acking_tx: "neutral f \<Longrightarrow> keeps (acking n q) (set_tx (Cl n) f)"
  using calm_neutral by (intro keeps_set_tx) (auto simp: acking_def neutral_def)

lemma keeps_ack_tag: "keeps (acking n q) (ack_tag n msg)"
  unfolding ack_tag_def by (auto simp: neutral_def split: option.split intro!: keeps_intros keeps_tx keeps_acking_tx)

lemma keeps_ack_set_route: "keeps (acking n q) (ack_set_route n route)"
  unfolding ack_set_route_def
  by (auto simp: neutral_def split: option.split intro!: keeps_intros keeps_tx keeps_acking_tx keeps_core(8) acking_core)

lemma uack_start:
  assumes "acking n q t" "neutral f"
  shows "tm_inv (te_start (Cl n) TeG d ((tx_upd (Cl n) f (tx_upd (Cl n) (\<lambda>t. t\<lparr>tx_state := UACK\<rparr>) t))\<lparr>l1rcache := c\<rparr>))"
proof (rule tinv_start)
  have "tm_inv (tx_upd (Cl n) (\<lambda>t. t\<lparr>tx_state := UACK\<rparr>) t)"
    using assms(1) by (intro tinv_state) (auto simp: acking_def calm_c_def)
  then show "tm_inv ((tx_upd (Cl n) f (tx_upd (Cl n) (\<lambda>t. t\<lparr>tx_state := UACK\<rparr>) t))\<lparr>l1rcache := c\<rparr>)"
    using assms(2) by (simp add: tinv_tx_client neutral_def)
qed (use assms in \<open>auto simp: acking_def calm_c_def neutral_def allowed_def\<close>)

lemma ack_send_wpc:
  assumes "acking n q t" "\<And>u. calm_c n q u \<Longrightarrow> N u"
    and "\<And>u. tm_inv u \<Longrightarrow> n < ncl u \<Longrightarrow> tx_state (objs u (Cl n)) = UACK \<Longrightarrow> N u" "\<And>e u. calm_c n q u \<Longrightarrow> X e u"
  shows "wpc (ack_send n d csum) N R X t"
proof -
  have c: "calm_c n q t" using assms(1) by (simp add: acking_def)
  have i: "n < ncl t" using c by (simp add: calm_c_def)
  have "wpc (transmitMsg u m d csum b) N R X t" for u m b
    using c calm_core [of n q] by (intro wpc_transmitMsg assms(2,4)) (auto simp: core_closed_def)
  then show ?thesis unfolding ack_send_def
    using assms(4) c i uack_start [OF assms(1)]
    by (auto simp: some_or_def neutral_def split: option.split intro!: assms(3))
qed

lemma client_ack_wpc:
  assumes "acking n q t" "\<And>u. calm_c n q u \<Longrightarrow> N u"
    and "\<And>u. tm_inv u \<Longrightarrow> n < ncl u \<Longrightarrow> tx_state (objs u (Cl n)) = UACK \<Longrightarrow> N u" "\<And>e u. calm_c n q u \<Longrightarrow> X e u" "\<And>v u. calm_c n q u \<Longrightarrow> R v u"
  shows "wpc (client_ack n msg csum) N R X t"
proof -
  have a: "acking n q u \<Longrightarrow> calm_c n q u" for u by (simp add: acking_def)
  have "wpc (ack_set_route n route) (wpc (with_tx (Cl n) (\<lambda>t. ack_send n (ack_dest route (tx_address t)) csum)) N R X) R X u"
    if "acking n q u" for route u
    by (rule wpc_mono [OF keepsW [OF keeps_ack_set_route that]]) (auto intro: assms(5) [OF a] assms(4) [OF a] ack_send_wpc [OF _ assms(2-4)])
  then show ?thesis unfolding client_ack_def wpc_block_fun
    by (intro wpc_mono [OF keepsW [OF keeps_ack_tag assms(1)]]) (auto intro: assms(4,5) [OF a] split: sum.split)
qed


lemma trying_letters: "tm_inv t \<Longrightarrow> tx_state (objs t (Cl n)) = TRYING \<Longrightarrow> te (objs t (Cl n)) l = Running i \<Longrightarrow> l \<in> {TeA, TeB}"
  using running_allowed [of "{}" t "Cl n" l i] by (simp add: allowed_def)

lemma ringing_letters: "tm_inv t \<Longrightarrow> tx_state (objs t (Cl n)) = RINGING \<Longrightarrow> te (objs t (Cl n)) l = Running i \<Longrightarrow> l = TeB"
  using running_allowed [of "{}" t "Cl n" l i] by (simp add: allowed_def)

text \<open>A client transaction of the table, in a state that awaits responses, with timers in \<open>L\<close>.\<close>

definition waiting :: "nat \<Rightarrow> tx_state \<Rightarrow> letter set \<Rightarrow> tman \<Rightarrow> bool" where
  "waiting n q L t \<longleftrightarrow> tm_inv t \<and> n < ncl t \<and> tx_state (objs t (Cl n)) = q \<and> q \<in> {TRYING, RINGING} \<and> tx_tid (objs t (Cl n)) \<noteq> None \<and>
     (\<forall>l i. te (objs t (Cl n)) l = Running i \<longrightarrow> l \<in> L)"

lemma waiting_entry: "tm_inv t \<Longrightarrow> tclient t k = Some n \<Longrightarrow> tx_state (objs t (Cl n)) = TRYING \<Longrightarrow> waiting n TRYING {TeA, TeB} t"
  "tm_inv t \<Longrightarrow> tclient t k = Some n \<Longrightarrow> tx_state (objs t (Cl n)) = RINGING \<Longrightarrow> waiting n RINGING {TeB} t"
  using client_entry [of "{}" t k n] trying_letters [of t n] ringing_letters [of t n] by (auto simp: waiting_def)

lemma waiting_stop:
  assumes "waiting n q L t" "\<And>u. waiting n q (L - {l}) u \<Longrightarrow> tx_tid (objs u (Cl n)) = tx_tid (objs t (Cl n)) \<Longrightarrow> N u" "\<And>e. X e t"
  shows "wpc (stop_te (Cl n) l) N R X t"
proof (cases "te (objs t (Cl n)) l")
  case NoTimer
  then have "waiting n q (L - {l}) t" using assms(1) by (auto simp: waiting_def)
  then show ?thesis using NoTimer assms(2) by simp
next
  case (Running i)
  have "tm_inv (te_stop (Cl n) l i t)" using assms(1) Running by (intro tinv_stop) (auto simp: waiting_def)
  then have "waiting n q (L - {l}) (te_stop (Cl n) l i t)" using assms(1) by (auto simp: waiting_def)
  then show ?thesis using Running assms(2) by simp
qed (use assms(3) in simp)

lemma waiting_ringing: "waiting n TRYING L t \<Longrightarrow> L \<subseteq> {TeB} \<Longrightarrow> waiting n RINGING L (tx_upd (Cl n) (\<lambda>t. t\<lparr>tx_state := RINGING\<rparr>) t)"
proof -
  assume w: "waiting n TRYING L t" "L \<subseteq> {TeB}"
  have "te (objs t (Cl n)) TeG = Unset" using w teG_state [of "{}" t n] by (fastforce simp: waiting_def)
  then have "tm_inv (tx_upd (Cl n) (\<lambda>t. t\<lparr>tx_state := RINGING\<rparr>) t)"
    using w by (intro tinv_state) (auto simp: waiting_def allowed_def)
  then show ?thesis using w by (auto simp: waiting_def)
qed

lemma waiting_gentle: "waiting n q {} t \<Longrightarrow> gentle t u \<Longrightarrow> tm_inv u \<and> n < ncl u \<and> tx_state (objs u (Cl n)) = q \<and> quiet (Cl n) u"
proof -
  assume w: "waiting n q {} t" and g: "gentle t u"
  have "quiet (Cl n) t" using w not_running_quiet [of "{}" t "Cl n"] by (auto simp: waiting_def)
  then show ?thesis using w g by (auto simp: waiting_def gentle_def)
qed


lemma tm_inv_send_cancel: "keeps tm_inv (send_cancel n)"
  by (rule keepsI) (auto intro: gentle_inv intro!: wpc_mono [OF keepsW [OF keeps_send_cancel gentle_refl]])

text \<open>A provisional response.\<close>

lemma waiting_inv: "waiting n q L t \<Longrightarrow> tm_inv t"
  by (simp add: waiting_def)

lemma waiting_after: "waiting n q {} t \<Longrightarrow> after_c t (ncl t) u \<Longrightarrow> waiting n q {} u"
  by (auto simp: waiting_def after_c_def frame_def)

lemma waiting_send_cancel:
  assumes "waiting n q {} t"
  shows "wpc (send_cancel n) (waiting n q {}) (\<lambda>_. waiting n q {}) (\<lambda>_. waiting n q {}) t"
proof -
  have "wpc (TM_newTransaction c None None u 1 False) (waiting n q {}) (\<lambda>_. waiting n q {}) (\<lambda>_. waiting n q {}) t" for c u
    by (rule wpc_mono [OF TM_newTransaction_wpc [OF waiting_inv [OF assms]]]) (erule waiting_after [OF assms])+
  then show ?thesis using assms by (simp add: send_cancel_def some_or_def split: option.split)
qed

lemma waiting_neutral: "waiting n q L t \<Longrightarrow> neutral f \<Longrightarrow> waiting n q L (tx_upd (Cl n) f t)"
  by (auto simp: waiting_def neutral_def intro!: tinv_tx_client)

lemma start_TeB: "waiting n q {} t \<Longrightarrow> tm_inv (te_start (Cl n) TeB d t)"
  by (rule tinv_start) (auto simp: waiting_def allowed_def)

lemma tm_inv_call_resp_cb: "tm_inv t \<Longrightarrow> wpc (call_resp_cb up n msg) tm_inv R (\<lambda>_. tm_inv) t"
  by (rule call_resp_cb_wpc) (auto intro: gentle_inv)

lemma client_provisional_wpc:
  assumes "waiting n q {} t"
  shows "wpc (client_provisional up msg n csum) tm_inv (\<lambda>_. tm_inv) (\<lambda>_. tm_inv) t"
proof -
  have e: "wpc (with_tx (Cl n) (\<lambda>t. start_te (Cl n) TeB (tx_expires t)) :: (tman, unit) stmt) (wpc (cache_drop csum) (wpc (call_resp_cb up n msg :: (tman, unit) stmt) tm_inv (\<lambda>_. tm_inv) (\<lambda>_. tm_inv))
     (\<lambda>_. tm_inv) (\<lambda>_. tm_inv)) (\<lambda>_. tm_inv) (\<lambda>_. tm_inv) u" if "waiting n q' {} u" for u q'
    using start_TeB [OF that] by (simp add: tm_inv_call_resp_cb)
  have c: "wpc (send_cancel n :: (tman, unit) stmt) (\<lambda>u. wpc (with_tx (Cl n) (\<lambda>t. start_te (Cl n) TeB (tx_expires t)) :: (tman, unit) stmt) (wpc (cache_drop csum) (wpc (call_resp_cb up n msg :: (tman, unit) stmt) tm_inv (\<lambda>_. tm_inv) (\<lambda>_. tm_inv))
     (\<lambda>_. tm_inv) (\<lambda>_. tm_inv)) (\<lambda>_. tm_inv) (\<lambda>_. tm_inv) (tx_upd (Cl n) f u)) (\<lambda>_. tm_inv) (\<lambda>_. tm_inv) u"
    if "waiting n q' {} u" "neutral f" for u q' f
    by (rule wpc_mono [OF waiting_send_cancel [OF that(1)]]) (erule e [OF waiting_neutral [OF _ that(2)]] waiting_inv)+
  have r: "q = TRYING \<Longrightarrow> waiting n RINGING {} (tx_upd (Cl n) (\<lambda>t. t\<lparr>tx_state := RINGING\<rparr>) t)"
    using waiting_ringing [of n "{}" t] assms by simp
  have q: "tx_state (objs t (Cl n)) = q" using assms by (simp add: waiting_def)
  show ?thesis
  proof (cases "q = TRYING")
    case True
    have f: "neutral (\<lambda>t. t\<lparr>cancelPending := False\<rparr>)" by (simp add: neutral_def)
    show ?thesis unfolding client_provisional_def Let_def wpc_block_fun
      using c [OF r [OF True] f] e [OF r [OF True]] q True by (simp del: wpc_stop_te)
  next
    case False
    then show ?thesis unfolding client_provisional_def Let_def wpc_block_fun using e [OF assms] q by simp
  qed
qed

lemma client_final_wpc:
  assumes "waiting n q {} t"
  shows "wpc (client_final up msg n csum) tm_inv (\<lambda>_. tm_inv) (\<lambda>_. tm_inv) t"
proof -
  have rest: "wpc (call_resp_cb up n msg) (wpc (with_tx (Cl n) (\<lambda>t. if tx_state t = UACK then ret () else skip))
      (wpc (drop_client n) tm_inv (\<lambda>_. tm_inv) (\<lambda>_. tm_inv)) (\<lambda>_. tm_inv) (\<lambda>_. tm_inv)) (\<lambda>_. tm_inv) (\<lambda>_. tm_inv) u"
    if "tm_inv u" "n < ncl u" "tx_state (objs u (Cl n)) = UACK \<or> quiet (Cl n) u" for u
  proof (rule call_resp_cb_wpc [OF that(1)])
    fix v
    assume g: "gentle u v"
    then have "tx_state (objs v (Cl n)) = UACK \<or> quiet (Cl n) v" "tm_inv v" using that(2,3) by (auto simp: gentle_def)
    then show "wpc (with_tx (Cl n) (\<lambda>t. if tx_state t = UACK then ret () else skip))
      (wpc (drop_client n) tm_inv (\<lambda>_. tm_inv) (\<lambda>_. tm_inv)) (\<lambda>_. tm_inv) (\<lambda>_. tm_inv) v"
      by (auto simp: drop_client_inv)
  qed (rule gentle_inv)
  have w: "acking n q t" using assms by (auto simp: acking_def calm_c_def waiting_def)
  have c: "calm_c n q u \<Longrightarrow> tm_inv u \<and> n < ncl u \<and> quiet (Cl n) u" for u
    using calm_quiet by (auto simp: calm_c_def)
  have d: "calm_c n q (t\<lparr>l1rcache := x\<rparr>)" for x
    using w calm_core [of n q] by (auto simp: core_closed_def acking_def same_core_def)
  show ?thesis
  proof (cases "needack (objs t (Cl n))")
    case True
    show ?thesis unfolding client_final_def Let_def wpc_block_fun wpc_tm_basic(2) [of "Cl n" "\<lambda>t. if needack t then _ t else _ t"] if_P [OF True]
    proof (rule client_ack_wpc [OF w])
      fix u
      assume "calm_c n q u"
      then show "wpc (call_resp_cb up n msg) (wpc (with_tx (Cl n) (\<lambda>t. if tx_state t = UACK then ret () else skip))
          (wpc (drop_client n) tm_inv (\<lambda>_. tm_inv) (\<lambda>_. tm_inv)) (\<lambda>_. tm_inv) (\<lambda>_. tm_inv)) (\<lambda>_. tm_inv) (\<lambda>_. tm_inv) u"
        using rest c by blast
    qed (use rest c in blast)+
  next
    case False
    show ?thesis
      unfolding client_final_def Let_def wpc_block_fun wpc_tm_basic(2) [of "Cl n" "\<lambda>t. if needack t then _ t else _ t"] if_not_P [OF False] wpc_tm_basic(6)
      by (rule rest) (use c [OF d] in auto)
  qed
qed


lemma incomingResponse_wpc:
  assumes "tm_inv t" "tclient t k = Some n"
  shows "wpc (incomingResponse up msg n csum) tm_inv (\<lambda>_. tm_inv) (\<lambda>_. tm_inv) t"
proof -
  have b: "wpc (stop_te (Cl n) TeB) (wpc D tm_inv (\<lambda>_. tm_inv) (\<lambda>_. tm_inv)) (\<lambda>_. tm_inv) (\<lambda>_. tm_inv) u"
    if w: "waiting n q {TeB} u" and D: "D = client_provisional up msg n csum \<or> D = client_final up msg n csum" for q u D
    by (rule waiting_stop [OF w]) (use D waiting_inv [OF w] in \<open>auto intro!: client_provisional_wpc client_final_wpc\<close>)
  show ?thesis
  proof (cases "tx_state (objs t (Cl n))")
    case TRYING
    have s: "wpc (stop_te (Cl n) TeA) (\<lambda>u. tx_state (objs u (Cl n)) = TRYING \<and> waiting n TRYING {TeB} u) (\<lambda>_. tm_inv) (\<lambda>_. tm_inv) t"
      by (rule waiting_stop [OF waiting_entry(1) [OF assms TRYING]]) (auto simp: waiting_def insert_Diff_if assms(1))
    show ?thesis using TRYING
      by (simp add: incomingResponse_def Let_def del: wpc_stop_te, intro conjI impI wpc_mono [OF s])
        (auto simp del: wpc_stop_te intro: b)
  next
    case RINGING
    show ?thesis using RINGING
      by (simp add: incomingResponse_def Let_def del: wpc_stop_te) (auto simp del: wpc_stop_te intro: b [OF waiting_entry(2) [OF assms RINGING]])
  qed (use assms(1) in \<open>simp_all add: incomingResponse_def Let_def\<close>)
qed

section \<open>Timers\<close>

text \<open>When a timer has fired its entry is gone, and the transaction still names it.\<close>

definition fired :: "tref \<Rightarrow> letter \<Rightarrow> tman \<Rightarrow> bool" where
  "fired r l t \<longleftrightarrow> tm_inv t \<and> exists_tx r t \<and> tx_tid (objs t r) \<noteq> None \<and> l \<in> allowed r (tx_state (objs t r)) \<and>
     (\<forall>w \<in> set (w_timers t). (wt_tx w, wt_letter w) \<noteq> (r, l))"

lemma fired_timer: "tm_inv s \<Longrightarrow> w \<in> set (w_timers s) \<Longrightarrow> fired (wt_tx w) (wt_letter w) (te_cancel (wt_id w) s)"
proof -
  assume i: "tm_inv s" and w: "w \<in> set (w_timers s)"
  have t: "te (objs s (wt_tx w)) (wt_letter w) = Running (wt_id w)" "exists_tx (wt_tx w) s" "tx_tid (objs s (wt_tx w)) \<noteq> None"
    using i w by (auto simp: tinv_def timed_def)
  have o: "(wt_tx x, wt_letter x) \<noteq> (wt_tx w, wt_letter w)" if "x \<in> set (w_timers s)" "wt_id x \<noteq> wt_id w" for x
  proof -
    have "te (objs s (wt_tx x)) (wt_letter x) = Running (wt_id x)" using i that(1) by (auto simp: tinv_def timed_def)
    then show ?thesis using t(1) that(2) by auto
  qed
  show ?thesis using i t tinv_cancel [OF i] running_allowed [OF i _ t(1)] o by (auto simp: fired_def)
qed

lemma fired_core: "core_closed (fired r l)"
  unfolding core_closed_def
proof (intro allI impI)
  fix s t
  assume c: "same_core s t" and f: "fired r l s"
  have "tm_inv t" using f tinv_core [OF c, of "{}"] by (simp add: fired_def)
  moreover have "exists_tx r t = exists_tx r s" using c by (intro exists_tx_cong) (simp_all add: same_core_def)
  ultimately show "fired r l t" using f c by (simp add: fired_def same_core_def)
qed

lemma fired_inv: "fired r l t \<Longrightarrow> tm_inv t"
  by (simp add: fired_def)

lemma fired_neutral: "fired r l t \<Longrightarrow> neutral f \<Longrightarrow> fired r l (tx_upd r f t)"
  by (auto simp: fired_def neutral_def intro!: tinv_tx)

lemma fired_start: "fired r l t \<Longrightarrow> tm_inv (te_start r l d t)"
  by (auto simp: fired_def intro!: tinv_start')

lemma fired_clear: "fired r l t \<Longrightarrow> tm_inv (tx_upd r (\<lambda>t. t\<lparr>te := (te t)(l := NoTimer)\<rparr>) t)"
proof (rule tinv_clear)
  assume f: "fired r l t"
  then show "l = TeG \<Longrightarrow> tx_state (objs t r) = UACK \<or> (\<exists>n. r = Sv n)"
    by (cases r) (auto simp: fired_def allowed_def split: tx_state.splits)
qed (auto simp: fired_def)

lemma wpc_transmit_fired:
  assumes "fired r l t" "\<And>u. fired r l u \<Longrightarrow> N u"
  shows "wpc (transmitData u p d c x) N R (\<lambda>_. tm_inv) t"
  using assms fired_core [of r l] by (intro wpc_transmitData) (auto simp: core_closed_def intro: fired_inv)

lemma timerA_wpc: "fired r TeA t \<Longrightarrow> wpc (timerA r) tm_inv (\<lambda>_. tm_inv) (\<lambda>_. tm_inv) t"
  by (auto simp: timerA_def some_or_def neutral_def fired_inv split: option.split
      intro!: wpc_transmit_fired fired_start [OF fired_neutral])

lemma fired_waiting:
  assumes "fired (Cl n) TeB t"
  shows "\<exists>q. waiting n q {TeA} (tx_upd (Cl n) (\<lambda>t. t\<lparr>te := (te t)(TeB := NoTimer)\<rparr>) t)"
proof -
  have q: "tx_state (objs t (Cl n)) \<in> {TRYING, RINGING}" "tm_inv t"
    using assms by (auto simp: fired_def allowed_def split: tx_state.splits)
  have "l \<in> {TeA, TeB}" if "te (objs t (Cl n)) l = Running i" for l i
    using running_allowed [OF q(2) _ that] q(1) by (auto simp: allowed_def)
  then have "waiting n (tx_state (objs t (Cl n))) {TeA} (tx_upd (Cl n) (\<lambda>t. t\<lparr>te := (te t)(TeB := NoTimer)\<rparr>) t)"
    using fired_clear [OF assms] q(1) assms by (auto simp: waiting_def fired_def)
  then show ?thesis by blast
qed

lemma waiting_terminated:
  assumes "waiting n q {} t"
  shows "tm_inv (te_start (Cl n) TeC d (tx_upd (Cl n) (\<lambda>t. t\<lparr>tx_state := TERMINATED\<rparr>) t))"
proof (rule tinv_start)
  have "te (objs t (Cl n)) TeG = Unset" using assms teG_state [of "{}" t n] by (fastforce simp: waiting_def)
  then show "tm_inv (tx_upd (Cl n) (\<lambda>t. t\<lparr>tx_state := TERMINATED\<rparr>) t)"
    using assms by (intro tinv_state) (auto simp: waiting_def)
qed (use assms in \<open>auto simp: waiting_def allowed_def\<close>)

lemma timerB_wpc:
  assumes "fired (Cl n) TeB t"
  shows "wpc (timerB up n) tm_inv (\<lambda>_. tm_inv) (\<lambda>_. tm_inv) t"
proof -
  obtain q where w: "waiting n q {TeA} (tx_upd (Cl n) (\<lambda>t. t\<lparr>te := (te t)(TeB := NoTimer)\<rparr>) t)" (is "waiting _ _ _ ?t")
    using fired_waiting [OF assms] by blast
  have s: "wpc (stop_te (Cl n) TeA :: (tman, unit) stmt) (waiting n q {}) (\<lambda>_. tm_inv) (\<lambda>_. tm_inv) ?t"
    by (rule waiting_stop [OF w]) (auto intro: waiting_inv [OF w])
  show ?thesis
    by (simp add: timerB_def Let_def del: wpc_stop_te, rule wpc_mono [OF s])
      (auto simp: some_or_def waiting_terminated tm_inv_call_resp_cb split: option.split)
qed

lemma timerC_wpc:
  assumes "fired (Cl n) TeC t"
  shows "wpc (timerC n) tm_inv (\<lambda>_. tm_inv) (\<lambda>_. tm_inv) t"
proof -
  have q: "tx_state (objs t (Cl n)) = TERMINATED" "tm_inv t" using assms by (auto simp: fired_def allowed_def split: tx_state.splits)
  have "l = TeC" if "te (objs t (Cl n)) l = Running i" for l i
    using running_allowed [OF q(2) _ that] q(1) by (simp add: allowed_def)
  then have "quiet (Cl n) (tx_upd (Cl n) (\<lambda>t. t\<lparr>te := (te t)(TeC := NoTimer)\<rparr>) t)"
    by (intro not_running_quiet [OF fired_clear [OF assms]]) auto
  then show ?thesis using fired_clear [OF assms] by (simp add: timerC_def Let_def drop_client_inv)
qed

lemma timerG_wpc: "fired (Cl n) TeG t \<Longrightarrow> wpc (timerG n) tm_inv (\<lambda>_. tm_inv) (\<lambda>_. tm_inv) t"
  by (simp add: timerG_def fired_clear)


section \<open>Server handlers\<close>

lemma gentle_self: "tm_inv t \<Longrightarrow> wpc c (gentle t) (\<lambda>_. gentle t) (\<lambda>_. gentle t) t \<Longrightarrow> wpc c tm_inv (\<lambda>_. tm_inv) (\<lambda>_. tm_inv) t"
  by (erule wpc_mono) (rule gentle_inv, assumption)+

lemma tm_inv_sendResponse_on:
  assumes "tm_inv t" "tx_state (objs t (Sv n)) \<in> {TRYING, RINGING}"
  shows "wpc (sendResponse_on n x b acb loss) tm_inv (\<lambda>_. tm_inv) (\<lambda>_. tm_inv) t"
  by (rule gentle_self [OF assms(1)], rule sendResponse_on_wpc [OF gentle_refl [OF assms(1)] assms(2)])
    (use assms(2) in \<open>auto simp: finished_def\<close>)

lemma call_cancel_cb_wpc: "tm_inv t \<Longrightarrow> wpc (call_cancel_cb up n tm req) tm_inv (\<lambda>_. tm_inv) (\<lambda>_. tm_inv) t"
  by (auto simp: call_cancel_cb_def split: option.split intro!: tm_inv_up_call keeps_intros)

lemma doCancel_wpc:
  assumes "tm_inv t" "tx_state (objs t (Sv n)) \<in> {TRYING, RINGING}"
  shows "wpc (doCancel up n rt req) tm_inv (\<lambda>_. tm_inv) (\<lambda>_. tm_inv) t"
proof -
  have "wpc (sendResponse_on n x True None 0) (wpc (call_cancel_cb up n tm req) tm_inv (\<lambda>_. tm_inv) (\<lambda>_. tm_inv)) (\<lambda>_. tm_inv) (\<lambda>_. tm_inv) t" for x tm
    by (rule wpc_mono [OF tm_inv_sendResponse_on [OF assms]]) (erule call_cancel_cb_wpc | assumption)+
  then show ?thesis using call_cancel_cb_wpc [OF assms(1)]
    by (cases "r487 (objs t (Sv n))") (simp_all add: doCancel_def)
qed

lemma server_letters: "tm_inv t \<Longrightarrow> finished (tx_state (objs t (Sv n))) \<Longrightarrow> te (objs t (Sv n)) l = Running i \<Longrightarrow> l \<in> {TeA, TeD}"
  using running_allowed [of "{}" t "Sv n" l i] by (auto simp: allowed_def finished_def)

lemma wpc_stop_server:
  assumes "tm_inv t" "n < nsv t" "l \<notin> {TeB, TeC}"
    and "\<And>u. tm_inv u \<Longrightarrow> nsv u = nsv t \<Longrightarrow> tx_tid (objs u (Sv n)) = tx_tid (objs t (Sv n)) \<Longrightarrow> tserver u = tserver t \<Longrightarrow>
      tx_state (objs u (Sv n)) = tx_state (objs t (Sv n)) \<Longrightarrow> te (objs u (Sv n)) = (te (objs t (Sv n)))(l := NoTimer) \<Longrightarrow> N u"
  shows "wpc (stop_te (Sv n) l) N R X t"
  using server_te [OF assms(1-3)]
proof
  assume "te (objs t (Sv n)) l = NoTimer"
  then show ?thesis using assms(4) [of t] assms(1) by (simp add: fun_upd_idem)
next
  assume "\<exists>i. te (objs t (Sv n)) l = Running i"
  then obtain i where i: "te (objs t (Sv n)) l = Running i" by blast
  then have "tm_inv (te_stop (Sv n) l i t)" using assms by (intro tinv_stop) auto
  then show ?thesis using assms(4) [of "te_stop (Sv n) l i t"] i by simp
qed

lemma drop_server_inv: "tm_inv t \<Longrightarrow> n < nsv t \<Longrightarrow> quiet (Sv n) t \<Longrightarrow> wpc (drop_server n) tm_inv R (\<lambda>_. tm_inv) t"
proof (cases "tx_tid (objs t (Sv n))")
  case (Some k)
  assume i: "tm_inv t" "n < nsv t" "quiet (Sv n) t"
  have "tm_inv (tx_upd (Sv n) tx_cleanup (set_server k None t))"
    using only_entry_server [OF i(1) Some] i by (intro tinv_cleanup_server tinv_server_None) (auto simp: quiet_def)
  then show ?thesis using Some i(1) by (simp add: drop_server_def)
qed (simp add: drop_server_def)

lemma timerD_wpc:
  assumes "fired (Sv n) TeD t"
  shows "wpc (timerD up n) tm_inv (\<lambda>_. tm_inv) (\<lambda>_. tm_inv) t"
proof -
  define t1 where "t1 = tx_upd (Sv n) (\<lambda>t. t\<lparr>te := (te t)(TeD := NoTimer)\<rparr>) t"
  have f: "finished (tx_state (objs t (Sv n)))" "tm_inv t" "n < nsv t"
    using assms by (auto simp: fired_def allowed_def finished_def split: tx_state.splits)
  have t1: "tm_inv t1" "n < nsv t1" using fired_clear [OF assms] f by (simp_all add: t1_def)
  have e: "wpc (call_noack_cb up n) (wpc (drop_server n :: (tman, unit) stmt) tm_inv (\<lambda>_. tm_inv) (\<lambda>_. tm_inv)) (\<lambda>_. tm_inv) (\<lambda>_. tm_inv) u"
    if u: "tm_inv u" "n < nsv u" "quiet (Sv n) u" "finished (tx_state (objs u (Sv n)))" for u
  proof -
    have d: "wpc (drop_server n :: (tman, unit) stmt) tm_inv (\<lambda>_. tm_inv) (\<lambda>_. tm_inv) v" if "gentle u v" for v
      using that u by (intro drop_server_inv) (auto simp: gentle_def)
    show ?thesis using d [OF gentle_refl [OF u(1)]]
      by (auto simp: call_noack_cb_def split: option.split intro!: wpc_up_call [OF u(1)] intro: gentle_inv d)
  qed
  have "wpc (stop_te (Sv n) TeA) (wpc (call_noack_cb up n) (wpc (drop_server n :: (tman, unit) stmt) tm_inv (\<lambda>_. tm_inv) (\<lambda>_. tm_inv)) (\<lambda>_. tm_inv) (\<lambda>_. tm_inv)) (\<lambda>_. tm_inv) (\<lambda>_. tm_inv) t1"
  proof (rule wpc_stop_server [OF t1])
    fix u
    assume u: "tm_inv u" "nsv u = nsv t1" "tx_state (objs u (Sv n)) = tx_state (objs t1 (Sv n))" "te (objs u (Sv n)) = (te (objs t1 (Sv n)))(TeA := NoTimer)"
    have "\<forall>l i. te (objs u (Sv n)) l \<noteq> Running i"
      using u(4) server_letters [OF f(2,1)] by (auto simp: t1_def)
    then have "quiet (Sv n) u" by (rule not_running_quiet [OF u(1)])
    then show "wpc (call_noack_cb up n) (wpc (drop_server n :: (tman, unit) stmt) tm_inv (\<lambda>_. tm_inv) (\<lambda>_. tm_inv)) (\<lambda>_. tm_inv) (\<lambda>_. tm_inv) u"
      using e u f t1 by (simp add: t1_def)
  qed simp
  then show ?thesis unfolding timerD_def Let_def wpc_block_fun wpc_tm_basic(5) by (simp only: t1_def)
qed

lemma fired_cleared: "fired r l t \<Longrightarrow> fired r l (tx_upd r (\<lambda>t. t\<lparr>te := (te t)(l := NoTimer)\<rparr>) t)"
  using fired_clear [of r l t] by (auto simp: fired_def)

lemma timerF_wpc: "fired (Sv n) TeF t \<Longrightarrow> wpc (timerF n) tm_inv (\<lambda>_. tm_inv) (\<lambda>_. tm_inv) t"
  by (auto simp: timerF_def Let_def some_or_def fired_clear split: option.split
      intro!: wpc_transmit_fired [OF fired_cleared] fired_start)

lemma timerE_wpc:
  assumes "fired (Sv n) TeE t"
  shows "wpc (timerE up n) tm_inv (\<lambda>_. tm_inv) (\<lambda>_. tm_inv) t"
proof -
  define t1 where "t1 = tx_upd (Sv n) (\<lambda>t. t\<lparr>te := (te t)(TeE := NoTimer)\<rparr>) t"
  have f: "tx_state (objs t (Sv n)) \<in> {TRYING, RINGING}" "n < nsv t" "tx_tid (objs t (Sv n)) \<noteq> None"
    using assms by (auto simp: fired_def allowed_def split: tx_state.splits)
  have t1: "tm_inv t1" "n < nsv t1" using fired_clear [OF assms] f by (simp_all add: t1_def)
  have c: "wpc (doCancel up n None None) tm_inv (\<lambda>_. tm_inv) (\<lambda>_. tm_inv) (tx_upd (Sv n) g u)"
    if "tm_inv u" "n < nsv u" "tx_state (objs u (Sv n)) \<in> {TRYING, RINGING}" "tx_tid (objs u (Sv n)) \<noteq> None" "neutral g" for u g
    using that by (intro doCancel_wpc tinv_tx) (auto simp: neutral_def)
  show ?thesis unfolding timerE_def Let_def wpc_block_fun wpc_tm_basic(5) t1_def [symmetric]
    by (rule wpc_stop_server [OF t1]) (use f in \<open>auto simp: t1_def neutral_def intro!: c\<close>)
qed


text \<open>An ACK for the final answer.\<close>

lemma ack_quiet:
  assumes "tm_inv t" "\<forall>l i. te (objs t (Sv n)) l = Running i \<longrightarrow> l = TeD" "te (objs t (Sv n)) TeD = Running i"
  shows "quiet (Sv n) (te_cancel i t)"
proof -
  have "wt_id w = i" if "w \<in> set (w_timers t)" "wt_tx w = Sv n" for w
  proof -
    have "te (objs t (Sv n)) (wt_letter w) = Running (wt_id w)" using assms(1) that by (auto simp: tinv_def timed_def)
    then show ?thesis using assms(2,3) by (metis te_attr.inject)
  qed
  then show ?thesis by (auto simp: quiet_def)
qed

lemma call_ack_cb_wpc:
  assumes "tm_inv u" "n < nsv u" "quiet (Sv n) u" "finished (tx_state (objs u (Sv n)))" "off_s n u"
  shows "wpc (call_ack_cb up n msg) (\<lambda>v. tm_inv (tx_upd (Sv n) tx_cleanup v)) R (\<lambda>_. tm_inv) u"
proof -
  have d: "tm_inv (tx_upd (Sv n) tx_cleanup v)" if "gentle u v" for v
    using that assms by (intro tinv_cleanup_server) (auto simp: gentle_def off_s_def)
  show ?thesis using d [OF gentle_refl [OF assms(1)]]
    by (auto simp: call_ack_cb_def split: option.split intro!: wpc_up_call [OF assms(1)] intro: gentle_inv d)
qed

lemma server_confirmed_wpc:
  assumes "tm_inv t" "n < nsv t" "tx_state (objs t (Sv n)) = COMPLETED"
  shows "wpc (server_confirmed up msg csum n) tm_inv (\<lambda>_. tm_inv) (\<lambda>_. tm_inv) t"
proof -
  define t1 where "t1 = tx_upd (Sv n) (\<lambda>t. t\<lparr>tx_state := CONFIRMED\<rparr>) t"
  have "finished (tx_state (objs t (Sv n)))" using assms(3) by (simp add: finished_def)
  note L = server_letters [OF assms(1) this]
  have t1: "tm_inv t1" unfolding t1_def using L assms by (intro tinv_state) (auto simp: allowed_def)
  have A: "wpc (call_ack_cb up n msg) (\<lambda>v. tm_inv (tx_upd (Sv n) tx_cleanup v)) (\<lambda>_. tm_inv) (\<lambda>_. tm_inv) (set_server k None (te_cancel i u))"
    if u: "tm_inv u" "nsv u = nsv t1" "tx_state (objs u (Sv n)) = tx_state (objs t1 (Sv n))"
      "te (objs u (Sv n)) = (te (objs t1 (Sv n)))(TeA := NoTimer)" and i: "te (objs u (Sv n)) TeD = Running i" and k: "tx_tid (objs u (Sv n)) = Some k" for u i k
  proof (rule call_ack_cb_wpc)
    have "\<forall>l j. te (objs u (Sv n)) l = Running j \<longrightarrow> l = TeD" using L u(4) by (auto simp: t1_def)
    from ack_quiet [OF u(1) this i] show "quiet (Sv n) (set_server k None (te_cancel i u))" by (simp add: quiet_def)
    show "tm_inv (set_server k None (te_cancel i u))" using u(1) by (intro tinv_server_None tinv_cancel)
    show "off_s n (set_server k None (te_cancel i u))"
      using only_entry_server [OF u(1) k] by (auto simp: off_s_def)
  qed (use u assms in \<open>simp_all add: t1_def finished_def\<close>)
  show ?thesis unfolding server_confirmed_def Let_def wpc_block_fun wpc_tm_basic(3) t1_def [symmetric]
  proof (rule wpc_stop_server [OF t1], goal_cases)
    case (3 u)
    show ?case using A [OF 3(1,2,5,6)] 3(1) by (cases "tx_tid (objs u (Sv n))") (auto simp: tinv_cancel split: te_attr.split)
  qed (use assms in \<open>simp_all add: t1_def\<close>)
qed

lemma wpc_transmitData_inv: "tm_inv t \<Longrightarrow> wpc (transmitData u p d c l) tm_inv R (\<lambda>_. tm_inv) t"
  using tm_inv_core by (intro wpc_transmitData) (auto simp: core_closed_def)

lemma matched_request_wpc:
  assumes "tm_inv t" "tserver t k = Some n"
  shows "wpc (matched_request up msg csum n) tm_inv (\<lambda>_. tm_inv) (\<lambda>_. tm_inv) t"
proof -
  have n: "n < nsv t" using server_entry [OF assms] by simp
  have C: "wpc (answer_to u code rs msg csum b) (wpc (if tx_state (objs t (Sv n)) \<in> {TRYING, RINGING} then doCancel up n x y else skip)
      tm_inv (\<lambda>_. tm_inv) (\<lambda>_. tm_inv)) (\<lambda>_. tm_inv) (\<lambda>_. tm_inv) t" for u code rs b x y
  proof (rule wpc_answer_to)
    fix v
    assume c: "same_core t v"
    then have "tm_inv v" "objs v = objs t" using assms(1) tinv_core [OF c, of "{}"] by (simp_all add: same_core_def)
    then show "wpc (if tx_state (objs t (Sv n)) \<in> {TRYING, RINGING} then doCancel up n x y else skip) tm_inv (\<lambda>_. tm_inv) (\<lambda>_. tm_inv) v"
      by (auto intro!: doCancel_wpc)
  next
    fix v
    assume "same_core t v"
    then show "tm_inv v" using assms(1) tinv_core [of t v "{}"] by simp
  qed
  show ?thesis unfolding matched_request_def Let_def wpc_tm_basic(2)
    using assms(1) n C by (auto split: option.split intro!: wpc_transmitData_inv server_confirmed_wpc)
qed


section \<open>New requests\<close>

lemma tinv_tx_userv:
  assumes "tinv X s" "exists_tx r s" "neutral f" "\<And>t. tx_userv (f t) = tx_userv t"
  shows "tinv X (tx_upd r f s)"
  using assms by (cases r) (auto simp: tinv_parts neutral_def)

text \<open>A server transaction that has just been made and is not in the table yet.\<close>

definition begun :: "nat \<Rightarrow> tkey \<Rightarrow> tman \<Rightarrow> bool" where
  "begun n k t \<longleftrightarrow> tm_inv t \<and> n < nsv t \<and> tx_tid (objs t (Sv n)) = Some k \<and> tx_state (objs t (Sv n)) = TRYING \<and>
     te (objs t (Sv n)) TeE = NoTimer"

lemma begun_core: "core_closed (begun n k)"
  unfolding core_closed_def
proof (intro allI impI)
  fix s t
  assume c: "same_core s t" and b: "begun n k s"
  have "tm_inv t" using b tinv_core [OF c, of "{}"] by (simp add: begun_def)
  then show "begun n k t" using b c by (simp add: begun_def same_core_def)
qed

lemma begun_new: "tm_inv t \<Longrightarrow> begun (nsv t) k (new_server (new_server_tx k m c) t)"
  by (simp add: begun_def tinv_new_server)

lemma begun_neutral: "begun n k t \<Longrightarrow> neutral f \<Longrightarrow> begun n k (tx_upd (Sv n) f t)"
  by (auto simp: begun_def neutral_def intro!: tinv_tx)

lemma begun_inv: "begun n k t \<Longrightarrow> tm_inv t"
  by (simp add: begun_def)

definition listed :: "nat \<Rightarrow> tkey \<Rightarrow> tman \<Rightarrow> bool" where
  "listed n k t \<longleftrightarrow> tm_inv t \<and> n < nsv t \<and> tx_tid (objs t (Sv n)) = Some k"

lemma listed_begun: "begun n k t \<Longrightarrow> listed n k t" "begun n k t \<Longrightarrow> listed n k (te_start (Sv n) TeE d t)"
  by (auto simp: begun_def listed_def allowed_def intro!: tinv_start)

lemma keeps_begun_tx: "neutral f \<Longrightarrow> keeps (begun n k) (set_tx (Sv n) f)"
  by (rule keeps_set_tx) (rule begun_neutral)

lemma setup_server_wpc:
  assumes "begun n k t"
  shows "wpc (setup_server n msg server) (listed n k) R (\<lambda>_. tm_inv) t"
proof -
  have i: "wpc (if rmethod msg = ''INVITE'' then block [
       fetch (\<lambda>_. genResponse 487 ''Request Terminated'' None None None msg) (\<lambda>x. set_tx (Sv n) (\<lambda>t. t\<lparr>r487 := Some x, needack := True\<rparr>)),
       fetch (\<lambda>_. and_then (getHFBody ''via'' msg) as_via) (\<lambda>_. skip),
       fetch (\<lambda>_. expires_of msg) (\<lambda>e. start_te (Sv n) TeE e)]
     else set_tx (Sv n) (\<lambda>t. t\<lparr>r487 := None, needack := False\<rparr>)) (listed n k) R (\<lambda>_. tm_inv) u" if "begun n k u" for u
    using that begun_neutral [OF that] begun_inv [OF begun_neutral [OF that]]
    by (auto simp: neutral_def begun_inv listed_begun split: sum.split)
  have "core_closed (begun n k)" by (rule begun_core)
  then have s: "begun n k u" if "same_core t u" for u using that assms by (auto simp: core_closed_def)
  show ?thesis unfolding setup_server_def Let_def wpc_block_fun
    using i begun_neutral [OF assms] begun_neutral [OF s]
    by (auto simp: neutral_def intro!: wpc_getServer i begun_inv [OF s])
qed

lemma after_request_wpc:
  assumes "tm_inv t" "n < nsv t"
  shows "wpc (after_request n rv) tm_inv (\<lambda>_. tm_inv) (\<lambda>_. tm_inv) t"
proof (cases rv)
  case None
  have q: "quiet (Sv n) t" if "\<forall>l \<in> {TeA, TeD, TeE, TeF}. te (objs t (Sv n)) l = NoTimer"
  proof (rule not_running_quiet [OF assms(1)], intro allI notI)
    fix l i
    assume r: "te (objs t (Sv n)) l = Running i"
    then have "l \<in> {TeA, TeD, TeE, TeF}"
      using running_allowed [OF assms(1) _ r] by (auto simp: allowed_def split: tx_state.splits)
    then show False using that r by auto
  qed
  have off: "tx_tid (objs t (Sv n)) = None \<Longrightarrow> \<forall>k. tserver t k \<noteq> Some n"
    "tx_tid (objs t (Sv n)) = Some k \<Longrightarrow> \<forall>k'. tserver (set_server k None t) k' \<noteq> Some n" for k
    using server_entry [OF assms(1)] by auto
  have "tm_inv (tx_upd (Sv n) tx_cleanup t)" if "quiet (Sv n) t" "tx_tid (objs t (Sv n)) = None"
    using that assms off by (intro tinv_cleanup_server) auto
  moreover have "tm_inv (tx_upd (Sv n) tx_cleanup (set_server k None t))" if "quiet (Sv n) t" "tx_tid (objs t (Sv n)) = Some k" for k
    using that assms off by (intro tinv_cleanup_server tinv_server_None) (auto simp: quiet_def)
  ultimately show ?thesis using None assms(1) q
    by (auto simp: after_request_def Let_def split: option.split)
next
  case (Some x)
  obtain resp ccb ncb where x: "x = (resp, ccb, ncb)" by (cases x)
  have "tm_inv (tx_upd (Sv n) (\<lambda>t. t\<lparr>cancel_cb := ccb, noack_cb := ncb\<rparr>) t)" (is "tm_inv ?t")
    using assms by (intro tinv_tx_userv) (auto simp: neutral_def)
  then show ?thesis using Some x gentle_self [OF _ keepsW [OF keeps_sendResponse_on gentle_refl], of ?t]
    by (auto simp: after_request_def Let_def split: option.split)
qed

lemma new_request_wpc:
  assumes "tm_inv t"
  shows "wpc (new_request up msg csum k server) tm_inv (\<lambda>_. tm_inv) (\<lambda>_. tm_inv) t"
proof -
  define n where "n = nsv t"
  have u: "wpc (up_call up e (after_request n)) tm_inv (\<lambda>_. tm_inv) (\<lambda>_. tm_inv) u" if "tm_inv u" "n < nsv u" for u e
    by (rule wpc_up_call [OF that(1)]) (use that in \<open>auto simp: gentle_def intro!: after_request_wpc\<close>)
  have r: "wpc (fetch f (\<lambda>x. case x of
         Some (c, cmp) \<Rightarrow> block [
           set_tx (Sv n) (\<lambda>t. t\<lparr>compact := cmp\<rparr>),
           up_call up (W_Request (Some c) n msg) (after_request n)]
       | None \<Rightarrow> if_else req_cb (up_call up (W_Request None n msg) (after_request n)) (cache_drop csum)))
      tm_inv (\<lambda>_. tm_inv) (\<lambda>_. tm_inv) (set_server k (Some n) u)" if l: "listed n k u" for f u
  proof -
    have s: "tm_inv (set_server k (Some n) u)" "n < nsv (set_server k (Some n) u)"
      using l by (auto simp: listed_def intro!: tinv_server_Some)
    moreover have "tm_inv (tx_upd (Sv n) (\<lambda>t. t\<lparr>compact := c\<rparr>) (set_server k (Some n) u))" for c
      using s by (intro tinv_tx_userv) (auto simp: neutral_def)
    ultimately show ?thesis by (auto split: sum.split option.split intro!: u)
  qed
  show ?thesis unfolding new_request_def wpc_local n_def [symmetric] Let_def wpc_block_fun wpc_upd
    by (rule wpc_mono [OF setup_server_wpc [OF begun_new [OF assms, folded n_def], where R = "\<lambda>_ _. False"]])
      (auto intro: r simp del: wpc_fetch)
qed

section \<open>Datagrams, timers and steps\<close>

lemma wpc_answer_to_inv:
  assumes "tm_inv t"
  shows "wpc (answer_to u code rs msg csum c) tm_inv R (\<lambda>_. tm_inv) t"
  by (rule wpc_answer_to) (drule tinv_core [of t _ "{}"], simp add: assms)+

lemma incomingRequest_wpc:
  assumes "tm_inv t"
  shows "wpc (incomingRequest up msg csum tids server) tm_inv (\<lambda>_. tm_inv) (\<lambda>_. tm_inv) t"
  using assms unfolding incomingRequest_def
  by (auto split: list.split sum.split option.split intro!: wpc_answer_to_inv matched_request_wpc new_request_wpc)

lemma handle_request_error_wpc:
  assumes "tm_inv t"
  shows "wpc (handle_request_error req x) tm_inv (\<lambda>_. tm_inv) (\<lambda>_. tm_inv) t"
proof -
  have s: "wpc (TM_sendResponse resp None None 0 :: (tman, unit) stmt) tm_inv (\<lambda>_. tm_inv) (\<lambda>_. tm_inv) t" for resp
    using gentle_self [OF assms keepsW [OF keeps_run_op gentle_refl [OF assms]], of "Op_sendResponse resp None None 0"] by simp
  show ?thesis using assms unfolding handle_request_error_def
    by (auto split: exn.split sum.split intro!: wpc_mono [OF s])
qed

lemma response_datagram_wpc:
  assumes "tm_inv t"
  shows "wpc (response_datagram up csum data ra rt) tm_inv (\<lambda>_. tm_inv) (\<lambda>_. tm_inv) t"
  using assms unfolding response_datagram_def
  by (auto split: list.split sum.split option.split intro!: incomingResponse_wpc)

lemma request_datagram_wpc:
  assumes "tm_inv t"
  shows "wpc (request_datagram up csum data ra server rt) tm_inv (\<lambda>_. tm_inv) (\<lambda>_. tm_inv) t"
  using assms unfolding request_datagram_def
  by (auto split: list.split sum.split option.split
      intro!: wpc_mono [OF incomingRequest_wpc] handle_request_error_wpc)

lemma handleIncoming_wpc:
  assumes "tm_inv t"
  shows "wpc (handleIncoming up data ra server rt) tm_inv (\<lambda>_. tm_inv) (\<lambda>_. tm_inv) t"
  using assms unfolding handleIncoming_def
  by (auto split: option.split intro!: wpc_transmitData_inv response_datagram_wpc request_datagram_wpc)

lemma fire_wpc:
  assumes "tm_inv t" "w \<in> set (w_timers t)"
  shows "wpc (fire up w) tm_inv (\<lambda>_. tm_inv) (\<lambda>_. tm_inv) t"
proof -
  have f: "fired (wt_tx w) (wt_letter w) (te_cancel (wt_id w) t)" by (rule fired_timer [OF assms])
  have i: "tm_inv (te_cancel (wt_id w) t)" by (rule fired_inv [OF f])
  have "wpc (run_timer up (wt_letter w) (wt_tx w)) tm_inv (\<lambda>_. tm_inv) (\<lambda>_. tm_inv) (te_cancel (wt_id w) t)"
    using f i by (cases "wt_letter w"; cases "wt_tx w")
      (auto simp: run_timer_def intro!: timerA_wpc timerB_wpc timerC_wpc timerD_wpc timerE_wpc timerF_wpc timerG_wpc)
  then show ?thesis by (simp add: fire_def)
qed

lemma tm_step_inv: "tm_step up s t \<Longrightarrow> tm_inv s \<Longrightarrow> tm_inv t"
proof (induction rule: tm_step.induct)
  case (tm_datagram s data ra server rt)
  then show ?case by (simp only: out_state_wpc handleIncoming_wpc)
next
  case (tm_operation s p)
  then show ?case by (simp only: out_state_wpc gentle_self [OF _ keepsW [OF keeps_run_op gentle_refl]])
next
  case (tm_timer w s)
  then show ?case by (simp only: out_state_wpc fire_wpc)
next
  case (tm_purge s)
  then show ?case by (simp add: out_state_wpc rCachePurge_def rotateCache_def)
next
  case (tm_time d s)
  then show ?case by simp
qed

lemma tm_initial_inv: "tm_initial s \<Longrightarrow> tm_inv s"
  by (auto simp: tm_initial_def tinv_def keyed_def timed_def staged_def alloc_def SipTransaction_def)

interpretation tm_steps: step_invariant tm_initial "tm_step up" tm_inv for up
  by unfold_locales (auto intro: tm_initial_inv tm_step_inv)

end
