(* ===== verification/Sip_TM_Kept.thy ===== *)
theory Sip_TM_Kept
  imports Sip_TM_Steps
begin

text \<open>
  Predicates of the manager's state that are kept by the operations of the layer above
  (\<open>op_kept\<close>) and by the steps of the manager (\<open>step_kept\<close>): the locales ask that every
  elementary change keeps the predicate, and conclude that the handlers do. The set \<open>P\<close> holds
  the client transactions that may change freely. Two predicates are shown to be of this kind:
  that a server transaction is finished, and that a client transaction is over once its final
  response was handed up.
\<close>

section \<open>Elementary changes\<close>

fun is_packet :: "tm_event \<Rightarrow> bool" where
  "is_packet (W_Send _ _ _) = True"
| "is_packet (W_Discard _ _) = True"
| "is_packet _ = False"

text \<open>The state of the transaction stays and no timer starts.\<close>

definition mild :: "(transaction \<Rightarrow> transaction) \<Rightarrow> bool" where
  "mild f \<longleftrightarrow> (\<forall>t. tx_state (f t) = tx_state t \<and> (\<forall>l i. te (f t) l = Running i \<longrightarrow> te t l = Running i))"

lemma server_send_state: "keeps (\<lambda>t. tx_state (objs t r) = q) (server_send n p x loss)"
proof -
  have "core_closed (\<lambda>t. tx_state (objs t r) = q)" by (auto simp: core_closed_def same_core_def)
  then show ?thesis unfolding server_send_def Let_def
    by (auto intro!: keeps_intros keeps_tx keeps_set_tx keeps_core(1))
qed

locale op_kept =
  fixes P :: "nat \<Rightarrow> bool" and I :: "tman \<Rightarrow> bool"
  assumes I_other: "I s \<Longrightarrow> same_core s t \<Longrightarrow> w_trace t = w_trace s @ es \<Longrightarrow> \<forall>e \<in> set es. is_packet e \<Longrightarrow> I t"
    and I_mild: "I t \<Longrightarrow> mild f \<Longrightarrow> I (tx_upd r f t)"
    and I_cancel: "I t \<Longrightarrow> I (te_cancel i t)"
    and I_start_server: "I t \<Longrightarrow> I (te_start (Sv n) l d t)"
    and I_server: "I t \<Longrightarrow> tx_state (objs t (Sv n)) \<in> {TRYING, RINGING} \<Longrightarrow> I (tx_upd (Sv n) (\<lambda>t. t\<lparr>tx_state := q\<rparr>) t)"
    and I_tables: "I t \<Longrightarrow> I (set_client k None t)" "I t \<Longrightarrow> I (set_server k v t)"
    and I_new: "I t \<Longrightarrow> I (new_client x t)" "I t \<Longrightarrow> P (ncl t)"
    and I_client: "I t \<Longrightarrow> P n \<Longrightarrow> I (tx_upd (Cl n) f t)" "I t \<Longrightarrow> P n \<Longrightarrow> I (te_start (Cl n) l d t)"
      "I t \<Longrightarrow> P n \<Longrightarrow> I (set_client k (Some n) t)"
begin

lemma I_fields:
  assumes "I t"
  shows "I (t\<lparr>l1rcache := a\<rparr>)" "I (t\<lparr>l4r := b\<rparr>)" "I (t\<lparr>w_ntok := c\<rparr>)" "I (t\<lparr>req_consumers := d\<rparr>)"
    "is_packet e \<Longrightarrow> I (t\<lparr>w_trace := w_trace t @ [e]\<rparr>)"
proof -
  show "I (t\<lparr>l1rcache := a\<rparr>)" "I (t\<lparr>l4r := b\<rparr>)" "I (t\<lparr>w_ntok := c\<rparr>)" "I (t\<lparr>req_consumers := d\<rparr>)"
    by (rule I_other [OF assms, where es = "[]"]; simp add: same_core_def)+
  show "is_packet e \<Longrightarrow> I (t\<lparr>w_trace := w_trace t @ [e]\<rparr>)"
    by (rule I_other [OF assms, where es = "[e]"]; simp add: same_core_def)
qed

lemma keeps_send:
  "keeps I (transmitData u p d c l)" "keeps I (transmitMsg u m d x b)" "keeps I (answer_to u code rs q x b)" "keeps I (cache_drop x)"
proof -
  show d: "keeps I (transmitData u p d c l)" for u p d c l
    unfolding transmitData_def send_to_def emit_def
    by (auto split: option.split intro!: keeps_intros keeps_upd I_fields)
  show m: "keeps I (transmitMsg u m d x b)" for u m d x b
    unfolding transmitMsg_def by (intro keeps_intros d)
  show "keeps I (answer_to u code rs q x b)" "keeps I (cache_drop x)"
    unfolding answer_to_def cache_drop_def by (intro keeps_intros keeps_upd m I_fields; assumption)+
qed

lemma keeps_token: "(\<And>tok. keeps I (k tok)) \<Longrightarrow> keeps I (tm_token k)"
  unfolding keeps_wpc using I_fields by auto

lemma keeps_server_for: "(\<And>u. keeps I (k u)) \<Longrightarrow> keeps I (server_for la k)"
  unfolding server_for_def initServer_def
  by (auto split: option.split intro!: keeps_intros keeps_upd I_fields)

lemma keeps_getServer:
  assumes "\<And>u. keeps I (k u)"
  shows "keeps I (getServer d k)" "keeps I (getServer_local la k)" "keeps I (client_server tr d lo k)"
proof -
  show g: "keeps I (getServer d k)" for d
    unfolding getServer_def getServer_remote_def set_r2l_def
    by (auto split: option.split sip_host.split intro!: keeps_intros keeps_upd I_fields keeps_server_for assms)
  show l: "keeps I (getServer_local la k)" for la
    unfolding getServer_local_def by (intro keeps_intros keeps_server_for assms)
  show "keeps I (client_server tr d lo k)"
    unfolding client_server_def by (auto split: option.split intro!: keeps_intros g l assms)
qed

lemma keeps_mild: "mild f \<Longrightarrow> keeps I (set_tx r f)"
  by (rule keeps_set_tx) (rule I_mild)

lemma mild_clear: "mild (\<lambda>t. t\<lparr>te := (te t)(l := NoTimer)\<rparr>)" "mild tx_cleanup"
  by (auto simp: mild_def)

lemma keeps_timers:
  "keeps I (clear_te r l)" "keeps I (cancel_te r l)" "keeps I (stop_te r l)" "keeps I (start_te (Sv n) l d)"
  unfolding clear_te_def cancel_te_def stop_te_def start_te_def
  by (auto split: te_attr.split intro!: keeps_intros keeps_tx keeps_upd keeps_mild mild_clear I_cancel I_start_server)

lemma keeps_del: "keeps I (del_client k)" "keeps I (del_server k)" "keeps I (drop_client n)" "keeps I (drop_server n)"
  unfolding drop_client_def drop_server_def del_client_def del_server_def
  by (auto split: option.split intro!: keeps_intros keeps_tx keeps_upd keeps_mild mild_clear I_tables)

lemma keeps_free: "P n \<Longrightarrow> keeps I (set_tx (Cl n) f)" "P n \<Longrightarrow> keeps I (start_te (Cl n) l d)"
  unfolding start_te_def by (auto intro!: keeps_set_tx keeps_upd I_client)

lemma keeps_new:
  assumes "P n"
  shows "keeps I (client_setup (Cl n) m la us c)" "keeps I (client_invite (Cl n) m)" "keeps I (client_start n k m rcb)"
  unfolding client_setup_def client_invite_def client_start_def
  using assms by (auto simp: Let_def split: option.split
      intro!: keeps_intros keeps_tx keeps_free keeps_getServer keeps_timers keeps_send keeps_upd I_client)

lemma kept_newTransaction: "keeps I (TM_newTransaction m rcb la us v c)"
proof (rule keepsI)
  fix t
  assume i: "I t"
  define n where "n = ncl t"
  have p: "P n" using I_new(2) [OF i] by (simp add: n_def)
  have "keeps I (block [
       set_tx (Cl n) (\<lambda>t. t\<lparr>compact := c, tx_method := rmethod m, cb_ifver := v\<rparr>),
       fetch (\<lambda>_. msg_key True True False m) (\<lambda>k. block [
         set_tx (Cl n) (\<lambda>t. t\<lparr>tx_tid := Some k\<rparr>),
         if_then (\<lambda>s. tclient s k \<noteq> None) (raise ValueError),
         client_setup (Cl n) m la us c,
         client_invite (Cl n) m,
         client_start n k m rcb,
         ret n])])"
    by (intro keeps_intros keeps_free keeps_new p)
  from keepsW [OF this I_new(1) [OF i]]
  show "wpc (TM_newTransaction m rcb la us v c) I (\<lambda>_. I) (\<lambda>_. I) t"
    unfolding TM_newTransaction_def wpc_local n_def [symmetric] Let_def wpc_block_Cons wpc_upd .
qed

lemma keeps_client_ops:
  "keeps I (send_cancel n)" "keeps I (TM_cancelTransaction n eh)" "keeps I (TM_sendACK n)" "keeps I (TM_setAckBody n b)"
proof -
  show c: "keeps I (send_cancel n)" unfolding send_cancel_def by (intro keeps_intros keeps_tx kept_newTransaction)
  show "keeps I (TM_cancelTransaction n eh)" "keeps I (TM_setAckBody n b)"
    unfolding TM_cancelTransaction_def TM_setAckBody_def
    by (auto simp: mild_def split: option.split intro!: keeps_intros keeps_tx keeps_mild c)
  show "keeps I (TM_sendACK n)" unfolding TM_sendACK_def
    by (intro keeps_intros keeps_tx keeps_timers keeps_send keeps_del)
qed

lemma keeps_consumer_ops: "keeps I (TM_regConsumer c ci x)" "keeps I (TM_unregConsumer c ci)"
  unfolding TM_regConsumer_def TM_unregConsumer_def by (auto intro!: keeps_intros keeps_upd I_fields)

text \<open>An answer is only sent while the transaction is not finished.\<close>

lemma kept_server_send: "keeps I (server_send n p x loss)"
  unfolding server_send_def Let_def by (auto simp: mild_def intro!: keeps_intros keeps_tx keeps_mild keeps_send)

lemma server_final_rest:
  "keeps I (block [stop_te (Sv n) TeE, stop_te (Sv n) TeF,
     with_tx (Sv n) (\<lambda>t. if needack t then block [
         set_tx (Sv n) (\<lambda>t. t\<lparr>ack_cb := acb\<rparr>),
         start_te (Sv n) TeD 32,
         del_server (tx_tid t),
         fetch (\<lambda>_. and_then (getAddrHF ''to'' resp) (\<lambda>a. Inr (getTag a))) (\<lambda>tag.
         fetch (\<lambda>_. some_or TypeError (tx_tid t)) (\<lambda>k. block [
           set_tx (Sv n) (\<lambda>t. t\<lparr>tx_tid := Some (retag tag k)\<rparr>),
           upd (set_server (retag tag k) (Some n))])),
         set_tx (Sv n) (\<lambda>t. t\<lparr>tx_tout := 1 / 2\<rparr>),
         start_te (Sv n) TeA (1 / 2)]
       else drop_server n)])"
  by (auto simp: mild_def intro!: keeps_intros keeps_tx keeps_timers keeps_mild keeps_del keeps_upd I_tables)

lemma server_answered_kept:
  assumes "I t" "tx_state (objs t (Sv n)) \<in> {TRYING, RINGING}"
  shows "wpc (server_answered n x acb) I (\<lambda>_. I) (\<lambda>_. I) t"
proof (cases "scode x < 200")
  case True
  have "keeps I (if_then (\<lambda>s. provisional_retr s > 0 \<and> scode x > 100) (block [
         with_tx (Sv n) (\<lambda>t. if te t TeF = NoTimer then skip else cancel_te (Sv n) TeF),
         local provisional_retr (\<lambda>p. start_te (Sv n) TeF p)]))"
    by (auto intro!: keeps_intros keeps_tx keeps_timers)
  from keepsW [OF this I_server [OF assms]] show ?thesis
    unfolding server_answered_def Let_def if_P [OF True] wpc_block_fun wpc_tm_basic(3) .
next
  case False
  from keepsW [OF server_final_rest I_server [OF assms, of COMPLETED]] show ?thesis
    unfolding server_answered_def server_final_def Let_def if_not_P [OF False] wpc_block_fun wpc_tm_basic(3) .
qed

lemma sendResponse_on_kept:
  assumes "I t" "b \<longrightarrow> tx_state (objs t (Sv n)) \<in> {TRYING, RINGING}"
  shows "wpc (sendResponse_on n x b acb loss) I (\<lambda>_. I) (\<lambda>_. I) t"
proof (cases "tx_state (objs t (Sv n)) \<in> {TRYING, RINGING}")
  case True
  define q where "q = tx_state (objs t (Sv n))"
  have k: "keeps (\<lambda>t. I t \<and> tx_state (objs t (Sv n)) = q) (server_send n p y loss)" for p y
    by (intro keeps_conj kept_server_send server_send_state)
  have s: "wpc (server_send n p y loss) (wpc (server_answered n y acb) I (\<lambda>_. I) (\<lambda>_. I)) (\<lambda>_. I) (\<lambda>_. I) u"
    if "I u" "tx_state (objs u (Sv n)) = q" for p y u
    by (rule wpc_mono [OF keepsW [OF k]]) (use that True in \<open>auto simp: q_def intro: server_answered_kept\<close>)
  show ?thesis unfolding sendResponse_on_def
    using assms(1) True I_fields(3) [OF assms(1)] by (auto simp: q_def split: sum.split intro!: s)
next
  case False
  then show ?thesis using assms by (simp add: sendResponse_on_def)
qed

lemma keeps_sendResponse: "keeps I (sendResponse_on n x False acb loss)" "keeps I (TM_sendResponse x u acb loss)"
proof -
  show s: "keeps I (sendResponse_on n x False acb loss)" for n
    by (rule keepsI) (simp add: sendResponse_on_kept)
  show "keeps I (TM_sendResponse x u acb loss)"
    unfolding TM_sendResponse_def by (auto split: option.split intro!: keeps_intros s)
qed

lemma keeps_client_ack: "P n \<Longrightarrow> keeps I (client_ack n msg csum)"
  unfolding client_ack_def ack_tag_def ack_set_route_def ack_send_def
  by (auto split: option.split intro!: keeps_intros keeps_tx keeps_free keeps_send keeps_token)

lemma keeps_timerA: "P n \<Longrightarrow> keeps I (timerA (Cl n))" "keeps I (timerA (Sv n))"
  unfolding timerA_def by (auto simp: mild_def intro!: keeps_intros keeps_tx keeps_timers keeps_send keeps_mild keeps_free)

lemma kept_run_op: "keeps I (run_op p)"
  by (cases p) (auto simp: mild_def intro!: keeps_intros kept_newTransaction keeps_client_ops keeps_mild keeps_sendResponse keeps_consumer_ops)

lemma keeps_up_op: "keeps I (up_op x)"
  unfolding up_op_def by (auto intro!: keeps_intros kept_run_op)

text \<open>A callback: once the event is recorded, its operations keep the predicate.\<close>

lemma keeps_up_call:
  assumes "\<And>t. I t \<Longrightarrow> I (t\<lparr>w_trace := w_trace t @ [e]\<rparr>)" "\<And>v. keeps I (c v)"
  shows "keeps I (up_call up e c)"
  unfolding up_call_def emit_def by (intro keeps_intros keeps_upd keeps_up_op assms)

lemma keeps_resp_cb:
  assumes "\<And>cb t. I t \<Longrightarrow> I (t\<lparr>w_trace := w_trace t @ [W_Response cb n msg]\<rparr>)"
  shows "keeps I (call_resp_cb up n msg)"
  unfolding call_resp_cb_def by (auto split: option.split intro!: keeps_intros keeps_tx keeps_up_call assms)

lemma keeps_client_provisional:
  assumes "P n" "\<And>cb t. I t \<Longrightarrow> I (t\<lparr>w_trace := w_trace t @ [W_Response cb n msg]\<rparr>)"
  shows "keeps I (client_provisional up msg n csum)"
  using assms unfolding client_provisional_def Let_def
  by (auto intro!: keeps_intros keeps_tx keeps_timers keeps_free keeps_client_ops keeps_resp_cb keeps_send)

end

section \<open>Steps\<close>

text \<open>
  In addition every callback but one for a response to a transaction outside \<open>E\<close> keeps the
  predicate, as do new server transactions and the end of one that was answered.
\<close>

fun may_emit :: "(nat \<Rightarrow> bool) \<Rightarrow> tm_event \<Rightarrow> bool" where
  "may_emit E (W_Response _ n _) = E n"
| "may_emit E _ = True"

locale step_kept = op_kept +
  fixes E :: "nat \<Rightarrow> bool"
  assumes I_emit: "I t \<Longrightarrow> may_emit E e \<Longrightarrow> I (t\<lparr>w_trace := w_trace t @ [e]\<rparr>)"
    and I_new_server: "I t \<Longrightarrow> tx_state x = TRYING \<Longrightarrow> I (new_server x t)"
    and I_confirm: "I t \<Longrightarrow> tx_state (objs t (Sv n)) = COMPLETED \<Longrightarrow> I (tx_upd (Sv n) (\<lambda>t. t\<lparr>tx_state := CONFIRMED\<rparr>) t)"
    and I_time: "I t \<Longrightarrow> I (t\<lparr>w_now := now\<rparr>)" "I t \<Longrightarrow> I (t\<lparr>l2rcache := cache\<rparr>)"
begin

lemma keeps_callbacks:
  "keeps I (call_cancel_cb up n tm req)" "keeps I (call_noack_cb up n)" "keeps I (call_ack_cb up n msg)"
  "E n \<Longrightarrow> keeps I (call_resp_cb up n resp)"
  unfolding call_cancel_cb_def call_noack_cb_def call_ack_cb_def call_resp_cb_def
  by (auto split: option.split intro!: keeps_intros keeps_tx keeps_up_call I_emit)

lemma doCancel_kept:
  assumes "I t" "tx_state (objs t (Sv n)) \<in> {TRYING, RINGING}"
  shows "wpc (doCancel up n rt req) I (\<lambda>_. I) (\<lambda>_. I) t"
proof -
  have c: "keeps I (block [call_cancel_cb up n tm req])" for tm by (intro keeps_intros keeps_callbacks)
  have "wpc (sendResponse_on n x True None 0) (wpc (block [call_cancel_cb up n tm req]) I (\<lambda>_. I) (\<lambda>_. I)) (\<lambda>_. I) (\<lambda>_. I) t" for x tm
    by (rule wpc_mono [OF sendResponse_on_kept]) (use assms keepsW [OF c] in auto)
  then show ?thesis using assms(1) keepsW [OF c] by (simp add: doCancel_def split: option.split)
qed

lemma server_confirmed_kept:
  assumes "I t" "tx_state (objs t (Sv n)) = COMPLETED"
  shows "wpc (server_confirmed up msg csum n) I (\<lambda>_. I) (\<lambda>_. I) t"
proof -
  have "keeps I (block [stop_te (Sv n) TeA, cancel_te (Sv n) TeD, with_tx (Sv n) (\<lambda>t. del_server (tx_tid t)),
     call_ack_cb up n msg, set_tx (Sv n) tx_cleanup, cache_drop csum])"
    by (intro keeps_intros keeps_tx keeps_timers keeps_del keeps_callbacks keeps_mild mild_clear keeps_send)
  from keepsW [OF this I_confirm [OF assms]] show ?thesis
    unfolding server_confirmed_def Let_def wpc_block_fun wpc_tm_basic(3) .
qed

lemma matched_request_kept:
  assumes "I t"
  shows "wpc (matched_request up msg csum n) I (\<lambda>_. I) (\<lambda>_. I) t"
proof -
  define q where "q = tx_state (objs t (Sv n))"
  have k: "keeps (\<lambda>t. I t \<and> tx_state (objs t (Sv n)) = q) (answer_to u 200 ''OK'' msg csum c)" for u c
    by (intro keeps_conj keeps_send keeps_core(3)) (auto simp: core_closed_def same_core_def)
  have c: "wpc (answer_to u 200 ''OK'' msg csum c) (wpc (if q \<in> {TRYING, RINGING} then doCancel up n x y else skip) I (\<lambda>_. I) (\<lambda>_. I))
     (\<lambda>_. I) (\<lambda>_. I) t" for u c x y
    by (rule wpc_mono [OF keepsW [OF k]]) (use assms in \<open>auto simp: q_def intro!: doCancel_kept\<close>)
  show ?thesis unfolding matched_request_def Let_def wpc_tm_basic(2)
    using assms c keepsW [OF keeps_send(1)] by (auto simp: q_def split: option.split intro!: server_confirmed_kept)
qed

lemma keeps_setup_server: "keeps I (setup_server n msg server)"
  unfolding setup_server_def Let_def
  by (auto simp: mild_def intro!: keeps_intros keeps_getServer keeps_mild keeps_timers)

lemma keeps_after_request: "keeps I (after_request n rv)"
  unfolding after_request_def Let_def
  by (auto simp: mild_def split: option.split intro!: keeps_intros keeps_tx keeps_upd I_tables keeps_mild keeps_sendResponse)

lemma keeps_request_cb: "keeps I (up_call up (W_Request c n msg) (after_request n))"
  by (intro keeps_up_call I_emit keeps_after_request) simp_all

lemma new_request_kept:
  assumes "I t"
  shows "wpc (new_request up msg csum k server) I (\<lambda>_. I) (\<lambda>_. I) t"
proof -
  define n where "n = nsv t"
  have "keeps I (block [
     setup_server n msg server,
     upd (set_server k (Some n)),
     fetch (\<lambda>s. first_consumer up msg (case req_consumers s (tk_callid k) of None \<Rightarrow> [] | Some cs \<Rightarrow> cs)) (\<lambda>x. case x of
         Some (c, cmp) \<Rightarrow> block [
           set_tx (Sv n) (\<lambda>t. t\<lparr>compact := cmp\<rparr>),
           up_call up (W_Request (Some c) n msg) (after_request n)]
       | None \<Rightarrow> if_else req_cb (up_call up (W_Request None n msg) (after_request n)) (cache_drop csum))])"
    by (auto simp: mild_def split: option.split intro!: keeps_intros keeps_setup_server keeps_upd I_tables keeps_mild keeps_request_cb keeps_send)
  from keepsW [OF this I_new_server [OF assms, of "new_server_tx k msg csum"]] show ?thesis
    unfolding new_request_def wpc_local n_def [symmetric] Let_def wpc_block_fun wpc_upd by (simp add: new_server_tx_def)
qed

lemma keeps_incomingRequest: "keeps I (incomingRequest up msg csum tids server)"
proof -
  have "keeps I (matched_request up msg csum n)" "keeps I (new_request up msg csum k server)" for n k
    by (rule keepsI, rule matched_request_kept new_request_kept, assumption)+
  then show ?thesis unfolding incomingRequest_def
    by (auto split: list.split option.split intro!: keeps_intros keeps_tx keeps_send)
qed

lemma keeps_request_datagram: "keeps I (request_datagram up csum data ra server rt)"
  unfolding request_datagram_def handle_request_error_def
  by (auto split: sum.split option.split exn.split intro!: keeps_intros keeps_send keeps_incomingRequest keeps_sendResponse)

lemma keeps_server_timers: "keeps I (timerD up n)" "keeps I (timerE up n)" "keeps I (timerF n)" "keeps I (timerC n)" "keeps I (timerG n)"
proof -
  show "keeps I (timerD up n)" "keeps I (timerF n)" "keeps I (timerC n)" "keeps I (timerG n)"
    unfolding timerD_def timerF_def timerC_def timerG_def Let_def
    by (auto simp: mild_def intro!: keeps_intros keeps_tx keeps_timers keeps_callbacks keeps_del keeps_send keeps_mild)
  have "wpc (doCancel up n None None) I (\<lambda>_. I) (\<lambda>_. I) (tx_upd (Sv n) (\<lambda>t. t\<lparr>r487 := f t\<rparr>) t)"
    if "I t" "tx_state (objs t (Sv n)) \<in> {TRYING, RINGING}" for t f
    using that by (intro doCancel_kept I_mild) (auto simp: mild_def)
  then have "keeps I (with_tx (Sv n) (\<lambda>t. if tx_state t \<in> {TRYING, RINGING} then block [
         set_tx (Sv n) (\<lambda>t. t\<lparr>r487 := map_option (\<lambda>x. x\<lparr>reason := ''Request Expired''\<rparr>) (r487 t)\<rparr>),
         doCancel up n None None] else skip))"
    by (intro keepsI) auto
  then show "keeps I (timerE up n)" unfolding timerE_def Let_def by (intro keeps_intros keeps_timers)
qed

text \<open>Responses to a transaction in both sets, and its timers.\<close>

lemma keeps_timerB: "P n \<Longrightarrow> E n \<Longrightarrow> keeps I (timerB up n)"
  unfolding timerB_def Let_def
  by (auto intro!: keeps_intros keeps_tx keeps_timers keeps_callbacks keeps_free)

lemma keeps_incomingResponse: "P n \<Longrightarrow> E n \<Longrightarrow> keeps I (incomingResponse up msg n csum)"
  unfolding incomingResponse_def client_provisional_def client_final_def Let_def
  by (auto intro!: keeps_intros keeps_tx keeps_timers keeps_free keeps_client_ops keeps_callbacks keeps_client_ack keeps_send keeps_del)

text \<open>
  A step keeps the predicate, unless it is a response to, or a timer of, a transaction outside
  one of the sets. What such a step establishes is \<open>J\<close>.
\<close>

lemma step_keeps:
  assumes "tm_step up s t" "I s" "\<And>t. I t \<Longrightarrow> J t"
    and "\<And>k n msg csum. tclient s k = Some n \<Longrightarrow> \<not> (P n \<and> E n) \<Longrightarrow> wpc (incomingResponse up msg n csum) J (\<lambda>_. J) (\<lambda>_. J) s"
    and "\<And>w n. w \<in> set (w_timers s) \<Longrightarrow> wt_tx w = Cl n \<Longrightarrow> \<not> (P n \<and> E n) \<Longrightarrow> wt_letter w \<in> {TeA, TeB} \<Longrightarrow>
      wpc (fire up w) J (\<lambda>_. J) (\<lambda>_. J) s"
  shows "J t"
proof -
  have K: "wpc c J (\<lambda>_. J) (\<lambda>_. J) s" if "keeps I c" for c :: "(tman, unit) stmt"
    by (rule wpc_mono [OF keepsW [OF that assms(2)]]) (rule assms(3), assumption)+
  show ?thesis using assms(1)
  proof cases
    case (tm_datagram data ra server rt)
    have "wpc (incomingResponse up msg n csum) J (\<lambda>_. J) (\<lambda>_. J) s" if "tclient s k = Some n" for k n msg csum
      using assms(4) that K [OF keeps_incomingResponse] by (cases "P n \<and> E n") auto
    then have r: "wpc (response_datagram up csum data ra rt) J (\<lambda>_. J) (\<lambda>_. J) s" for csum
      using assms(2) unfolding response_datagram_def by (auto split: sum.split option.split intro!: assms(3) I_fields)
    show ?thesis unfolding tm_datagram out_state_wpc
      using assms(2,3) r K [OF keeps_request_datagram] K [OF keeps_send(1)]
      unfolding handleIncoming_def by (auto split: option.split)
  next
    case (tm_operation p)
    have "J (out_state (run_op p s))" using K [OF kept_run_op] by (simp only: out_state_wpc)
    then show ?thesis using tm_operation by simp
  next
    case (tm_timer w)
    have "wpc (fire up w) J (\<lambda>_. J) (\<lambda>_. J) s"
    proof (cases "\<exists>n. wt_tx w = Cl n \<and> \<not> (P n \<and> E n) \<and> wt_letter w \<in> {TeA, TeB}")
      case True
      then show ?thesis using assms(5) tm_timer by blast
    next
      case False
      then have "keeps I (run_timer up (wt_letter w) (wt_tx w))"
        by (cases "wt_letter w"; cases "wt_tx w") (auto simp: run_timer_def intro!: keeps_intros keeps_server_timers keeps_timerA keeps_timerB)
      then have "keeps I (fire up w)" unfolding fire_def by (intro keeps_intros keeps_upd I_cancel)
      then show ?thesis by (rule K)
    qed
    then have "J (out_state (fire up w s))" by (simp only: out_state_wpc)
    then show ?thesis using tm_timer by simp
  next
    case tm_purge
    have "keeps I rCachePurge" unfolding rCachePurge_def rotateCache_def
      by (auto intro!: keeps_intros keeps_upd I_fields I_time)
    from keepsD [OF this assms(2)] show ?thesis using tm_purge assms(3) by simp
  next
    case (tm_time d)
    then show ?thesis using I_time assms(2,3) by simp
  qed
qed

end

section \<open>A finished server transaction stays finished\<close>

definition answered :: "nat \<Rightarrow> tman \<Rightarrow> bool" where
  "answered n t \<longleftrightarrow> n < nsv t \<and> finished (tx_state (objs t (Sv n)))"

interpretation answered: step_kept "\<lambda>_. True" "answered n" "\<lambda>_. True" for n
  by unfold_locales (auto simp: answered_def same_core_def mild_def finished_def)

lemma answered_step: "tm_step up s t \<Longrightarrow> answered n s \<Longrightarrow> answered n t"
  by (rule answered.step_keeps) auto

interpretation answered_steps: step_invariant "answered n" "tm_step up" "answered n" for n up
  by unfold_locales (auto intro: answered_step)

section \<open>One final response\<close>

text \<open>The status codes of the responses to the client transaction \<open>n\<close> that were handed up.\<close>

fun resp_code :: "nat \<Rightarrow> tm_event \<Rightarrow> int list" where
  "resp_code n (W_Response _ m msg) = (if m = n then [scode msg] else [])"
| "resp_code n _ = []"

definition responses :: "nat \<Rightarrow> tman \<Rightarrow> int list" where
  "responses n t = concat (map (resp_code n) (w_trace t))"

text \<open>Nothing more can happen to the transaction: it has ended, or it is out of the table with no timer.\<close>

definition over_c :: "nat \<Rightarrow> tman \<Rightarrow> bool" where
  "over_c n t \<longleftrightarrow> tx_state (objs t (Cl n)) \<in> {TERMINATED, UACK} \<or>
     (\<forall>k. tclient t k \<noteq> Some n) \<and> (\<forall>l i. te (objs t (Cl n)) l \<noteq> Running i)"

abbreviation provisional :: "int list \<Rightarrow> bool" where
  "provisional cs \<equiv> \<forall>c \<in> set cs. c < 200"

text \<open>
  No final response yet (and none at all before the transaction exists); or the last response
  may be final and the transaction is over.
\<close>

definition closed_c :: "nat \<Rightarrow> tman \<Rightarrow> bool" where
  "closed_c n t \<longleftrightarrow> n < ncl t \<and> provisional (butlast (responses n t)) \<and> over_c n t"

definition once_c :: "nat \<Rightarrow> tman \<Rightarrow> bool" where
  "once_c n t \<longleftrightarrow> (n < ncl t \<or> responses n t = []) \<and> provisional (responses n t) \<or> closed_c n t"

lemma responses_other: "w_trace t = w_trace s @ es \<Longrightarrow> \<forall>e \<in> set es. is_packet e \<Longrightarrow> responses n t = responses n s"
proof -
  have "\<forall>e \<in> set es. is_packet e \<Longrightarrow> concat (map (resp_code n) es) = []"
  proof (induction es)
    case (Cons e es)
    then show ?case by (cases e) simp_all
  qed simp
  then show "w_trace t = w_trace s @ es \<Longrightarrow> \<forall>e \<in> set es. is_packet e \<Longrightarrow> responses n t = responses n s"
    by (simp add: responses_def)
qed

lemma responses_emit: "responses n (t\<lparr>w_trace := w_trace t @ [e]\<rparr>) = responses n t @ resp_code n e"
  by (simp add: responses_def)

lemma responses_simps [simp]:
  "responses n (tx_upd r f t) = responses n t" "responses n (te_start r l d t) = responses n t" "responses n (te_cancel i t) = responses n t"
  "responses n (set_client k v t) = responses n t" "responses n (set_server k v t) = responses n t"
  "responses n (new_client x t) = responses n t" "responses n (new_server x t) = responses n t"
  "responses n (t\<lparr>w_now := now\<rparr>) = responses n t" "responses n (t\<lparr>l2rcache := cache\<rparr>) = responses n t"
  by (simp_all add: responses_def)

lemma code_other: "may_emit (\<lambda>m. m \<noteq> n) e \<Longrightarrow> resp_code n e = []"
  by (cases e) simp_all

lemma over_c_eqs [simp]:
  "over_c n (te_cancel i t) = over_c n t" "over_c n (te_start (Sv m) l d t) = over_c n t" "over_c n (tx_upd (Sv m) f t) = over_c n t"
  "over_c n (set_server k v t) = over_c n t" "over_c n (new_server x t) = over_c n t" "over_c n (t\<lparr>w_trace := a\<rparr>) = over_c n t"
  "over_c n (t\<lparr>w_now := now\<rparr>) = over_c n t" "over_c n (t\<lparr>l2rcache := cache\<rparr>) = over_c n t"
  "m \<noteq> n \<Longrightarrow> over_c n (tx_upd (Cl m) f t) = over_c n t" "m \<noteq> n \<Longrightarrow> over_c n (te_start (Cl m) l d t) = over_c n t"
  "n < ncl t \<Longrightarrow> over_c n (new_client x t) = over_c n t"
  by (simp_all add: over_c_def)

lemma over_c_steps:
  "over_c n t \<Longrightarrow> mild f \<Longrightarrow> over_c n (tx_upd r f t)"
  "over_c n t \<Longrightarrow> over_c n (set_client k None t)" "over_c n t \<Longrightarrow> m \<noteq> n \<Longrightarrow> over_c n (set_client k (Some m) t)"
proof -
  assume o: "over_c n t"
  show "over_c n (tx_upd r f t)" if m: "mild f"
  proof (cases "r = Cl n")
    case True
    have "tx_state (f (objs t r)) = tx_state (objs t r)" "\<And>l i. te (f (objs t r)) l = Running i \<Longrightarrow> te (objs t r) l = Running i"
      using m unfolding mild_def by blast+
    then show ?thesis using o True by (auto simp: over_c_def)
  qed (use o in \<open>simp add: over_c_def\<close>)
  show "over_c n (set_client k None t)" "m \<noteq> n \<Longrightarrow> over_c n (set_client k (Some m) t)"
    using o by (auto simp: over_c_def)
qed

lemma closed_other:
  assumes "same_core s t" "w_trace t = w_trace s @ es" "\<forall>e \<in> set es. is_packet e"
  shows "closed_c n t = closed_c n s"
proof -
  have "over_c n t = over_c n s" "ncl t = ncl s" using assms(1) by (simp_all add: same_core_def over_c_def)
  then show ?thesis by (simp add: closed_c_def responses_other [OF assms(2,3)])
qed

interpretation exists_c: step_kept "\<lambda>_. True" "\<lambda>t. n < ncl t" "\<lambda>_. True" for n
  by unfold_locales (auto simp: same_core_def)

interpretation told: step_kept "\<lambda>_. True" "\<lambda>t. responses n t = rs" "\<lambda>m. m \<noteq> n" for n rs
  by unfold_locales (simp_all add: responses_other responses_emit code_other)

interpretation closed: step_kept "\<lambda>m. m \<noteq> n" "closed_c n" "\<lambda>m. m \<noteq> n" for n
  by unfold_locales (simp add: closed_other, auto simp: closed_c_def over_c_steps code_other responses_emit)

text \<open>No timer of the transaction is running, or it waits for the user's ACK.\<close>

definition resting_c :: "nat \<Rightarrow> tman \<Rightarrow> bool" where
  "resting_c n t \<longleftrightarrow> n < ncl t \<and> (tx_state (objs t (Cl n)) = UACK \<or> (\<forall>l i. te (objs t (Cl n)) l \<noteq> Running i))"

lemma mildD: "mild f \<Longrightarrow> tx_state (f x) = tx_state x" "mild f \<Longrightarrow> te (f x) l = Running i \<Longrightarrow> te x l = Running i"
  unfolding mild_def by blast+

lemma resting_mild: "resting_c n t \<Longrightarrow> mild f \<Longrightarrow> resting_c n (tx_upd r f t)"
  by (cases "r = Cl n") (auto simp: resting_c_def mildD(1) dest: mildD(2))

interpretation resting: op_kept "\<lambda>m. m \<noteq> n" "resting_c n" for n
  by unfold_locales (auto simp: resting_mild, auto simp: resting_c_def same_core_def)

interpretation cstate: op_kept "\<lambda>m. m \<noteq> n" "\<lambda>t. n < ncl t \<and> tx_state (objs t (Cl n)) = q" for n q
  by unfold_locales (auto simp: same_core_def mildD(1))

text \<open>An upper layer whose response callbacks return, whatever the manager's operations raise.\<close>

definition steady :: "upper \<Rightarrow> bool" where
  "steady up \<longleftrightarrow> (\<forall>cb n msg. (\<forall>x \<in> set (re_ops (react up (W_Response cb n msg))). snd x) \<and>
     (\<exists>v. re_end (react up (W_Response cb n msg)) = Inr v))"

lemma up_ops_caught:
  assumes "\<And>p. keeps I (run_op p)" "\<forall>x \<in> set ops. snd x" "I t"
  shows "wpc (foreach ops up_op) I R X t"
  using assms(2,3)
proof (induction ops arbitrary: t)
  case (Cons x ops)
  have "wpc (up_op x) I R X t"
    using keepsW [OF assms(1) Cons.prems(2), of "fst x"] Cons.prems(1)
    by (cases "run_op (fst x) t") (simp_all add: up_op_def wpc_def call_def try_catch_def skip_def)
  then show ?case unfolding wpc_foreach_Cons by (rule wpc_mono) (use Cons in auto)
qed simp

lemma steady_call:
  assumes "steady up" "\<And>p. keeps I (run_op p)" "I (t\<lparr>w_trace := w_trace t @ [W_Response cb n msg]\<rparr>)"
  shows "wpc (up_call up (W_Response cb n msg) (\<lambda>_. skip)) I R X t"
proof -
  obtain v where v: "re_end (react up (W_Response cb n msg)) = Inr v" using assms(1) unfolding steady_def by blast
  have o: "\<forall>x \<in> set (re_ops (react up (W_Response cb n msg))). snd x" using assms(1) by (auto simp: steady_def)
  show ?thesis unfolding up_call_def wpc_block_fun wpc_tm_basic(1)
    by (rule wpc_mono [OF up_ops_caught [OF assms(2) o assms(3)]]) (simp_all add: v)
qed

lemma once_pending: "n < ncl t \<Longrightarrow> provisional (responses n t) \<Longrightarrow> once_c n t"
  by (simp add: once_c_def)

text \<open>After the callback for a final response the transaction leaves the table.\<close>

lemma drop_client_once:
  assumes "tm_inv t" "resting_c n t" "tx_state (objs t (Cl n)) \<noteq> UACK" "provisional (butlast (responses n t))"
  shows "wpc (drop_client n) (once_c n) R (\<lambda>_. once_c n) t"
proof -
  have i: "n < ncl t" "\<forall>l i. te (objs t (Cl n)) l \<noteq> Running i" using assms(2,3) by (auto simp: resting_c_def)
  have off: "tclient t k \<noteq> Some n" if "tx_tid (objs t (Cl n)) = None \<or> tx_tid (objs t (Cl n)) = Some j \<and> (tclient t j = None \<or> k \<noteq> j)" for j k
    using client_entry [OF assms(1), of k n] that by auto
  show ?thesis
  proof (cases "tx_tid (objs t (Cl n))")
    case None
    then show ?thesis using i off assms(4) by (auto simp: drop_client_def once_c_def closed_c_def over_c_def)
  next
    case (Some j)
    then show ?thesis using i off assms(4) by (auto simp: drop_client_def once_c_def closed_c_def over_c_def)
  qed
qed

lemma final_callback_once:
  assumes "steady up" "tm_inv t" "resting_c n t" "provisional (responses n t)"
  shows "wpc (call_resp_cb up n msg) (wpc (with_tx (Cl n) (\<lambda>t. if tx_state t = UACK then ret () else skip))
      (wpc (drop_client n) (once_c n) (\<lambda>_. once_c n) (\<lambda>_. once_c n)) (\<lambda>_. once_c n) (\<lambda>_. once_c n)) (\<lambda>_. once_c n) (\<lambda>_. once_c n) t"
proof -
  have d: "wpc (with_tx (Cl n) (\<lambda>t. if tx_state t = UACK then ret () else skip))
      (wpc (drop_client n) (once_c n) (\<lambda>_. once_c n) (\<lambda>_. once_c n)) (\<lambda>_. once_c n) (\<lambda>_. once_c n) u"
    if "tm_inv u" "resting_c n u" "provisional (butlast (responses n u))" for u
    using that drop_client_once [OF that(1,2) _ that(3)] by (auto simp: once_c_def closed_c_def over_c_def resting_c_def)
  show ?thesis
  proof (cases "resp_cb (objs t (Cl n))")
    case None
    have "provisional (butlast (responses n t))" using assms(4) by (auto dest: in_set_butlastD)
    then show ?thesis using d [OF assms(2,3)] None by (simp add: call_resp_cb_def del: wpc_tm_basic(2))
  next
    case (Some cb)
    define I where "I = (\<lambda>u. (gentle t u \<and> resting_c n u) \<and> responses n u = responses n t @ [scode msg])"
    have "keeps I (run_op p)" for p
      unfolding I_def by (intro keeps_conj keeps_run_op resting.kept_run_op told.kept_run_op)
    moreover have "I (t\<lparr>w_trace := w_trace t @ [W_Response cb n msg]\<rparr>)"
      using assms(3) gentle_refl [OF assms(2)] gentle_core by (auto simp: I_def responses_emit resting_c_def core_closed_def same_core_def)
    ultimately have "wpc (up_call up (W_Response cb n msg) (\<lambda>_. skip)) I (\<lambda>_. once_c n) (\<lambda>_. once_c n) t"
      by (rule steady_call [OF assms(1)])
    then have "wpc (call_resp_cb up n msg) I (\<lambda>_. once_c n) (\<lambda>_. once_c n) t" using Some by (simp add: call_resp_cb_def)
    then show ?thesis
      by (rule wpc_mono) (use assms(4) in \<open>auto simp: I_def intro!: d gentle_inv simp del: wpc_tm_basic wpc_tm_basic_fun\<close>)
  qed
qed

lemma client_final_once:
  assumes "steady up" "waiting n q {} t" "provisional (responses n t)"
  shows "wpc (client_final up msg n csum) (once_c n) (\<lambda>_. once_c n) (\<lambda>_. once_c n) t"
proof -
  have w: "acking n q t" using assms(2) by (auto simp: acking_def calm_c_def waiting_def)
  have c: "tm_inv u \<and> resting_c n u" if "calm_c n q u" for u using that by (auto simp: calm_c_def resting_c_def)
  have a: "wpc (client_ack n msg csum) (\<lambda>u. (tm_inv u \<and> resting_c n u) \<and> responses n u = responses n t)
      (\<lambda>_ u. (tm_inv u \<and> resting_c n u) \<and> responses n u = responses n t) (\<lambda>_ u. (tm_inv u \<and> resting_c n u) \<and> responses n u = responses n t) t"
    unfolding wpc_conj [of _ "\<lambda>u. tm_inv u \<and> resting_c n u"]
    by (intro conjI client_ack_wpc [OF w] keepsW [OF told.keeps_client_ack]) (use c in \<open>auto simp: resting_c_def\<close>)
  have p: "once_c n u" if "resting_c n u" "responses n u = responses n t" for u
    using that assms(3) by (simp add: once_c_def resting_c_def)
  have b: "tm_inv (t\<lparr>l1rcache := x\<rparr>)" "resting_c n (t\<lparr>l1rcache := x\<rparr>)" "responses n (t\<lparr>l1rcache := x\<rparr>) = responses n t" for x
    using c w by (auto simp: acking_def resting_c_def responses_def)
  note f = final_callback_once [OF assms(1)]
  show ?thesis
  proof (cases "needack (objs t (Cl n))")
    case True
    show ?thesis unfolding client_final_def Let_def wpc_block_fun wpc_tm_basic(2) [of "Cl n" "\<lambda>t. if needack t then _ t else _ t"] if_P [OF True]
      by (rule wpc_mono [OF a]) (use assms(3) in \<open>auto intro!: f p simp del: wpc_tm_basic wpc_tm_basic_fun\<close>)
  next
    case False
    show ?thesis
      unfolding client_final_def Let_def wpc_block_fun wpc_tm_basic(2) [of "Cl n" "\<lambda>t. if needack t then _ t else _ t"] if_not_P [OF False] wpc_tm_basic(6)
      by (rule f) (use b assms(3) in auto)
  qed
qed

interpretation pending: op_kept "\<lambda>_. True" "\<lambda>t. n < ncl t \<and> provisional (responses n t)" for n
proof (unfold_locales, goal_cases)
  case (1 s t es)
  then show ?case using responses_other [OF 1(3,4), of n] by (simp add: same_core_def)
qed auto

lemma incomingResponse_once:
  assumes "steady up" "tm_inv t" "tclient t k = Some n" "once_c n t"
  shows "wpc (incomingResponse up msg n csum) (once_c n) (\<lambda>_. once_c n) (\<lambda>_. once_c n) t"
proof (cases "tx_state (objs t (Cl n)) \<in> {TRYING, RINGING}")
  case False
  then show ?thesis using assms(4) by (cases "tx_state (objs t (Cl n))") (simp_all add: incomingResponse_def Let_def)
next
  case True
  have n: "n < ncl t" using client_entry [OF assms(2,3)] by simp
  have p: "provisional (responses n t)" using assms(3,4) True by (auto simp: once_c_def closed_c_def over_c_def)
  let ?Q = "\<lambda>u. n < ncl u \<and> provisional (responses n u)"
  have o: "?Q u \<Longrightarrow> once_c n u" for u by (simp add: once_c_def)
  have B: "wpc (stop_te (Cl n) TeB) (wpc D (once_c n) (\<lambda>_. once_c n) (\<lambda>_. once_c n)) (\<lambda>_. once_c n) (\<lambda>_. once_c n) u"
    if u: "waiting n q {TeB} u" "?Q u" and D: "D = (if scode msg < 200 then client_provisional up msg n csum else client_final up msg n csum)" for q u D
  proof -
    have "wpc (stop_te (Cl n) TeB) (\<lambda>v. waiting n q {} v \<and> ?Q v) (\<lambda>_ v. True \<and> ?Q v) (\<lambda>_ v. True \<and> ?Q v) u"
      unfolding wpc_conj [of _ "waiting n q {}"] by (intro conjI waiting_stop [OF u(1)] keepsW [OF pending.keeps_timers(3) u(2)]) (simp_all add: u(2))
    then show ?thesis
    proof (rule wpc_mono)
      fix v
      assume v: "waiting n q {} v \<and> ?Q v"
      have "wpc (client_provisional up msg n csum) ?Q (\<lambda>_. ?Q) (\<lambda>_. ?Q) v" if "scode msg < 200"
        using v that by (intro keepsW [OF pending.keeps_client_provisional]) (auto simp: responses_emit)
      then show "wpc D (once_c n) (\<lambda>_. once_c n) (\<lambda>_. once_c n) v"
        using v client_final_once [OF assms(1), of n q v] D by (auto elim!: wpc_mono intro: o)
    qed (use o in auto)
  qed
  show ?thesis
  proof (cases "tx_state (objs t (Cl n)) = TRYING")
    case tr: True
    have "wpc (stop_te (Cl n) TeA) (\<lambda>v. (tx_state (objs v (Cl n)) = TRYING \<and> waiting n TRYING {TeB} v) \<and> ?Q v) (\<lambda>_ v. True \<and> ?Q v) (\<lambda>_ v. True \<and> ?Q v) t"
      unfolding wpc_conj [of _ "\<lambda>v. tx_state (objs v (Cl n)) = TRYING \<and> waiting n TRYING {TeB} v"]
      by (intro conjI waiting_stop [OF waiting_entry(1) [OF assms(2,3) tr]] keepsW [OF pending.keeps_timers(3)])
        (auto simp: waiting_def insert_Diff_if n p)
    note s = wpc_mono [OF this]
    show ?thesis using tr
      by (simp add: incomingResponse_def Let_def del: wpc_stop_te, intro conjI impI s) (auto simp del: wpc_stop_te intro: B o)
  next
    case False
    then have r: "tx_state (objs t (Cl n)) = RINGING" using True by simp
    show ?thesis using r
      by (simp add: incomingResponse_def Let_def del: wpc_stop_te) (auto simp: n p simp del: wpc_stop_te intro!: B [OF waiting_entry(2) [OF assms(2,3) r]])
  qed
qed

lemma timeout_callback_once:
  assumes "n < ncl t" "provisional (responses n t)" "tx_state (objs t (Cl n)) = TERMINATED"
  shows "wpc (call_resp_cb up n msg) (once_c n) (\<lambda>_. once_c n) (\<lambda>_. once_c n) t"
proof (cases "resp_cb (objs t (Cl n))")
  case None
  then show ?thesis using assms by (simp add: call_resp_cb_def once_c_def)
next
  case (Some cb)
  define I where "I = (\<lambda>u. (n < ncl u \<and> tx_state (objs u (Cl n)) = TERMINATED) \<and> responses n u = responses n t @ [scode msg])"
  have "keeps I (up_op x)" for x
    unfolding I_def by (intro keeps_conj cstate.keeps_up_op told.keeps_up_op)
  then have k: "keeps I (block [foreach (re_ops (react up (W_Response cb n msg))) up_op,
      fetch (\<lambda>_. re_end (react up (W_Response cb n msg))) (\<lambda>_. skip)])" by (intro keeps_intros)
  have "I (t\<lparr>w_trace := w_trace t @ [W_Response cb n msg]\<rparr>)" using assms by (simp add: I_def responses_emit)
  from keepsW [OF k this] have "wpc (up_call up (W_Response cb n msg) (\<lambda>_. skip)) I (\<lambda>_. I) (\<lambda>_. I) t"
    unfolding up_call_def wpc_block_fun wpc_tm_basic(1) .
  moreover have "I u \<Longrightarrow> once_c n u" for u using assms(2) by (auto simp: I_def once_c_def closed_c_def over_c_def)
  ultimately show ?thesis using Some by (auto simp: call_resp_cb_def elim!: wpc_mono)
qed

lemma timerB_once:
  assumes "n < ncl t" "provisional (responses n t)"
  shows "wpc (timerB up n) (once_c n) (\<lambda>_. once_c n) (\<lambda>_. once_c n) t"
proof -
  let ?Q = "\<lambda>u. n < ncl u \<and> provisional (responses n u)"
  have o: "?Q u \<Longrightarrow> once_c n u" for u by (simp add: once_c_def)
  have s: "wpc (stop_te (Cl n) TeA) ?Q (\<lambda>_. ?Q) (\<lambda>_. ?Q) (tx_upd (Cl n) f t)" for f
    by (rule keepsW [OF pending.keeps_timers(3)]) (simp add: assms)
  show ?thesis unfolding timerB_def Let_def wpc_block_fun wpc_tm_basic(5)
    by (rule wpc_mono [OF s]) (auto simp: some_or_def split: option.split intro!: o timeout_callback_once)
qed

lemma fire_once:
  assumes "tm_inv t" "w \<in> set (w_timers t)" "wt_tx w = Cl n" "wt_letter w \<in> {TeA, TeB}" "once_c n t"
  shows "wpc (fire up w) (once_c n) (\<lambda>_. once_c n) (\<lambda>_. once_c n) t"
proof -
  have r: "te (objs t (Cl n)) (wt_letter w) = Running (wt_id w)" "n < ncl t"
    using assms(1-3) by (fastforce simp: tinv_def timed_def)+
  then have "tx_state (objs t (Cl n)) \<in> {TRYING, RINGING}"
    using running_allowed [OF assms(1) _ r(1)] assms(4) by (auto simp: allowed_def split: tx_state.splits)
  then have p: "provisional (responses n t)" using assms(5) r(1) by (auto simp: once_c_def closed_c_def over_c_def)
  have "wpc (timerA (Cl n)) (once_c n) (\<lambda>_. once_c n) (\<lambda>_. once_c n) (te_cancel i t)" for i
    by (rule wpc_mono [OF keepsW [OF pending.keeps_timerA(1) [of n]]]) (use r p in \<open>auto simp: once_c_def\<close>)
  then show ?thesis using assms(3,4) r(2) p by (auto simp: fire_def run_timer_def intro!: timerB_once)
qed

lemma once_step:
  assumes "steady up" "tm_step up s t" "tm_inv s" "once_c n s"
  shows "once_c n t"
proof (cases "closed_c n s")
  case True
  show ?thesis
  proof (rule closed.step_keeps [OF assms(2) True])
    show "closed_c n u \<Longrightarrow> once_c n u" for u by (simp add: once_c_def)
  qed (use assms in \<open>auto intro: incomingResponse_once fire_once\<close>)
next
  case False
  then have p: "n < ncl s \<or> responses n s = []" "provisional (responses n s)" using assms(4) by (auto simp: once_c_def)
  show ?thesis
  proof (cases "n < ncl s")
    case True
    have e: "n < ncl t" by (rule exists_c.step_keeps [OF assms(2) True]) auto
    have "responses n t = responses n s \<or> once_c n t"
      by (rule told.step_keeps [OF assms(2) refl]) (use assms in \<open>auto intro: wpc_mono [OF incomingResponse_once] wpc_mono [OF fire_once]\<close>)
    then show ?thesis using e p by (auto simp: once_c_def)
  next
    case False
    have "responses n t = responses n s"
    proof (rule told.step_keeps [OF assms(2) refl])
      fix k m msg csum
      assume "tclient s k = Some m" "\<not> (True \<and> m \<noteq> n)"
      then show "wpc (incomingResponse up msg m csum) (\<lambda>t. responses n t = responses n s) (\<lambda>_ t. responses n t = responses n s) (\<lambda>_ t. responses n t = responses n s) s"
        using client_entry [OF assms(3)] False by auto
    next
      fix w m
      assume "w \<in> set (w_timers s)" "wt_tx w = Cl m" "\<not> (True \<and> m \<noteq> n)"
      then have "exists_tx (Cl n) s" using assms(3) by (fastforce simp: tinv_def timed_def)
      then show "wpc (fire up w) (\<lambda>t. responses n t = responses n s) (\<lambda>_ t. responses n t = responses n s) (\<lambda>_ t. responses n t = responses n s) s"
        using False by simp
    qed
    then show ?thesis using p False by (auto simp: once_c_def)
  qed
qed

lemma once_initial: "tm_initial s \<Longrightarrow> once_c n s"
  by (simp add: once_c_def responses_def tm_initial_def)

interpretation once: step_invariant "\<lambda>s. steady up \<and> tm_initial s" "tm_step up" "\<lambda>s. steady up \<and> tm_inv s \<and> once_c n s" for up n
  by unfold_locales (auto intro: tm_initial_inv once_initial tm_step_inv once_step)

end
