(* ===== verification/TM_Props.thy ===== *)
theory TM_Props
  imports Sip_TM_Kept
begin

text \<open>
  What the transaction manager promises: its tables and timers are consistent in every
  reachable state, a request of its own is answered to the user at most once, a request of the
  peer is answered at most once, retransmissions are absorbed, and what happens on errors.
\<close>

section \<open>A manager for the examples\<close>

definition userv1 :: userv where
  "userv1 = \<lparr>u_laddr = (''192.0.2.1'', 5060), u_transport = ''udp'', u_ipv6 = False\<rparr>"

definition tman1 :: tman where
  "tman1 = \<lparr>tclient = Map.empty, tserver = Map.empty, req_cb = True, l1rcache = Map.empty, l2rcache = Map.empty,
     nat_traversal = False, req_consumers = Map.empty, provisional_retr = 0, init_time = 0,
     l4r = \<lparr>l4r_fixed = True, cache_r2l = Map.empty, cache_r2l_old = Map.empty, cache_l2s = [((''192.0.2.1'', 5060), userv1)]\<rparr>,
     objs = (\<lambda>_. SipTransaction), ncl = 0, nsv = 0, wss_server = None, tel_url = False, sip_port = 5060,
     md5 = (\<lambda>x. x), os_local = (\<lambda>_. Inl KeyError), os_open = (\<lambda>_. Inr userv1), w_token = (\<lambda>n. replicate n (CHR ''a'')),
     w_ntok = 0, w_ntm = 0, w_now = 0, w_timers = [], w_trace = []\<rparr>"

definition up1 :: upper where
  "up1 = \<lparr>react = (\<lambda>_. \<lparr>re_ops = [], re_end = Inr None\<rparr>), isYours = (\<lambda>_ _. Inr None)\<rparr>"

lemma tman1_initial: "tm_initial tman1"
  by (simp add: tm_initial_def tman1_def)

lemma up1_steady: "steady up1"
  by (simp add: steady_def up1_def)

definition addr1 :: "string \<Rightarrow> string option \<Rightarrow> sip_address" where
  "addr1 user tag = setTag tag (SipAddress None (SipURL (Some user) (Some (Host ''192.0.2.9'', None, None))))"

definition inv1 :: sip_req where
  "inv1 = \<lparr>headers = [
       SipHeader ''via'' (HF_Via \<lparr>sipver = ''SIP/2.0'', vtransport = Transport ''UDP'', hostname = Host ''192.0.2.9'', vport = None,
         vparams = [(''branch'', Some ''b1'')]\<rparr>),
       SipHeader ''max-forwards'' (HF_Num 70),
       SipHeader ''from'' (HF_Addr (addr1 ''alice'' (Some ''f1''))),
       SipHeader ''to'' (HF_Addr (addr1 ''bob'' None)),
       SipHeader ''call-id'' (HF_Str ''c1''),
       SipHeader ''cseq'' (HF_CSeq (1, ''INVITE''))],
     body = None, target = Some (Some (Host ''192.0.2.9'', Port 5060), Transport ''udp''), msource = Some (''192.0.2.9'', 5060),
     nated = False, rtime = 0, rmethod = ''INVITE'', ruri = SipURL (Some ''bob'') (Some (Host ''192.0.2.9'', None, None)), rsipver = ''SIP/2.0'',
     user_agent = None\<rparr>"

definition s1 :: tman where
  "s1 = out_state (run_op (Op_newTransaction inv1 (Some 7) None 1 False) tman1)"

lemma s1_reach: "reach tm_initial (tm_step up) s1"
  unfolding s1_def by (rule reach_step, rule reach_init, rule tman1_initial, rule tm_operation)

lemma s1_timers: "w_timers s1 = [\<lparr>wt_id = 0, wt_letter = TeA, wt_tx = Cl 0, wt_at = 1 / 2\<rparr>, \<lparr>wt_id = 1, wt_letter = TeB, wt_tx = Cl 0, wt_at = 32\<rparr>]"
  by code_simp

section \<open>Tables and timers\<close>

text \<open>
  (C12) In every state the manager can reach, an entry of either table leads to a transaction
  that carries the key of the entry, and every running timer belongs to a transaction that was
  not cleaned up, is the timer that the transaction names, and is one that its state allows:
  A and B while a request is unanswered, B after a provisional response, G while the user's ACK
  is awaited, C after a timeout; E and F before the final answer, A and D after it.
\<close>

theorem tm_tables_sound:
  assumes "reach tm_initial (tm_step up) s"
  shows "(\<forall>k n. tclient s k = Some n \<longrightarrow> n < ncl s \<and> tx_tid (objs s (Cl n)) = Some k) \<and>
    (\<forall>k n. tserver s k = Some n \<longrightarrow> n < nsv s \<and> tx_tid (objs s (Sv n)) = Some k) \<and>
    distinct (map wt_id (w_timers s)) \<and>
    (\<forall>w \<in> set (w_timers s). te (objs s (wt_tx w)) (wt_letter w) = Running (wt_id w) \<and> tx_tid (objs s (wt_tx w)) \<noteq> None \<and>
       wt_letter w \<in> allowed (wt_tx w) (tx_state (objs s (wt_tx w))))"
  using tm_steps.reach_inv [OF assms] by (auto simp: tinv_def keyed_def timed_def staged_def)

theorem tm_tables_sound_witness:
  "length (w_timers s1) = 2 \<and> (\<exists>k. tclient s1 k = Some 0 \<and> tx_tid (objs s1 (Cl 0)) = Some k) \<and>
    list_all (\<lambda>w. te (objs s1 (wt_tx w)) (wt_letter w) = Running (wt_id w)) (w_timers s1)"
proof -
  have "tclient s1 (TKey ''c1'' (Some ''f1'') 1 [Some ''INVITE'', Some ''b1'']) = Some 0" by code_simp
  then show ?thesis using tm_tables_sound [OF s1_reach [of up1]] by (auto simp: s1_timers)
qed

section \<open>Responses and answers\<close>

text \<open>
  (C13) A user agent is told the outcome of a request at most once: in every reachable state the
  responses handed to the callback of a client transaction are provisional ones, followed by at
  most one final response, whether it came from the network or is the 408 of a timeout.
  Retransmitted and late final responses are not handed up. The callback is assumed to return:
  one that raises leaves the transaction in the table, open to another final response.
\<close>

theorem one_final_response:
  assumes "steady up" "reach tm_initial (tm_step up) s"
  shows "\<forall>c \<in> set (butlast (responses n s)). c < 200"
proof -
  have "reach (\<lambda>s. steady up \<and> tm_initial s) (tm_step up) s" using assms by simp
  from once.reach_inv [OF this, of n] show ?thesis by (auto simp: once_c_def closed_c_def dest: in_set_butlastD)
qed

definition s2 :: tman where
  "s2 = out_state (fire up1 \<lparr>wt_id = 1, wt_letter = TeB, wt_tx = Cl 0, wt_at = 32\<rparr> (s1\<lparr>w_now := w_now s1 + 32\<rparr>))"

lemma s2_reach: "reach tm_initial (tm_step up1) s2"
proof -
  have "reach tm_initial (tm_step up1) (s1\<lparr>w_now := w_now s1 + 32\<rparr>)" by (rule reach_step, rule s1_reach, rule tm_time) simp
  moreover have "w_now s1 = 0" by code_simp
  ultimately show ?thesis unfolding s2_def by - (rule reach_step, assumption, rule tm_timer, simp_all add: s1_timers)
qed

theorem one_final_response_witness: "responses 0 s2 = [408] \<and> list_all (\<lambda>c. c < 200) (butlast (responses 0 s2))"
proof -
  have "responses 0 s2 = [408]" by code_simp
  then show ?thesis using one_final_response [OF up1_steady s2_reach, of 0] by (simp add: list_all_iff)
qed

lemma server_final_answered:
  assumes "n < nsv t"
  shows "wpc (server_final n x acb) (answered n) (\<lambda>_. answered n) (\<lambda>_. answered n) t"
proof -
  have "answered n (tx_upd (Sv n) (\<lambda>t. t\<lparr>tx_state := COMPLETED\<rparr>) t)" using assms by (simp add: answered_def finished_def)
  from keepsW [OF answered.server_final_rest this] show ?thesis
    unfolding server_final_def Let_def wpc_block_fun wpc_tm_basic(3) .
qed

lemma nsv_server_send: "keeps (\<lambda>t. n < nsv t) (server_send m p x loss)"
proof -
  have "core_closed (\<lambda>t. n < nsv t)" by (simp add: core_closed_def same_core_def)
  then show ?thesis unfolding server_send_def Let_def by (auto intro!: keeps_intros keeps_tx keeps_set_tx keeps_core(1))
qed

lemma final_answered:
  assumes "n < nsv s" "200 \<le> scode x"
  shows "wpc (sendResponse_on n x b acb loss) (answered n) (\<lambda>_ _. True) (\<lambda>_ _. True) s"
proof -
  have w: "wpc (server_send n p y loss) (wpc (server_answered n y acb) (answered n) (\<lambda>_ _. True) (\<lambda>_ _. True)) (\<lambda>_ _. True) (\<lambda>_ _. True) u"
    if "n < nsv u" "200 \<le> scode y" for p y u
    by (rule wpc_mono [OF keepsW [OF nsv_server_send that(1)]])
      (use that(2) in \<open>auto simp: server_answered_def intro: wpc_mono [OF server_final_answered]\<close>)
  show ?thesis using assms unfolding sendResponse_on_def by (auto simp: set_first_def split: sum.split intro!: w)
qed

text \<open>
  (C14) A request of the peer is answered finally at most once: after a final response was sent
  for a server transaction, every later attempt to send a response for it, whatever happened in
  between, raises \<^verbatim>\<open>ValueError\<close> and changes nothing.
\<close>

theorem one_final_answer:
  assumes "sendResponse_on n resp b acb loss s = Next u" "200 \<le> scode resp" "n < nsv s" "(tm_step up)\<^sup>*\<^sup>* u t"
  shows "TM_sendResponse resp' (Some n) acb' loss' t = Raise ValueError t"
proof -
  have "answered n u" using final_answered [OF assms(3,2), of b acb loss] assms(1) by (simp add: wpc_def)
  from answered_steps.steps_inv [OF assms(4) this]
  have "tx_state (objs t (Sv n)) \<notin> {TRYING, RINGING}" by (auto simp: answered_def finished_def)
  then show ?thesis
    by (simp add: TM_sendResponse_def sendResponse_on_def with_tx_def local_def block.simps if_then_def if_else_def raise_def)
qed

definition s3 :: tman where
  "s3 = out_state (incomingRequest up1 inv1 ''x'' [] userv1 tman1)"

definition ok1 :: sip_resp where
  "ok1 = (case genResponse 200 ''OK'' None None None inv1 of Inr x \<Rightarrow> x)"

theorem one_final_answer_witness:
  "TM_sendResponse ok1 (Some 0) None 0 (out_state (sendResponse_on 0 ok1 False None 0 s3)) =
    Raise ValueError (out_state (sendResponse_on 0 ok1 False None 0 s3))"
proof -
  have "(case sendResponse_on 0 ok1 False None 0 s3 of Next _ \<Rightarrow> True | _ \<Rightarrow> False)" by code_simp
  then have "sendResponse_on 0 ok1 False None 0 s3 = Next (out_state (sendResponse_on 0 ok1 False None 0 s3))"
    by (simp split: outcome.splits)
  moreover have "200 \<le> scode ok1" "0 < nsv s3" by code_simp+
  ultimately show ?thesis by (rule one_final_answer [OF _ _ _ rtranclp.rtrancl_refl])
qed

section \<open>Retransmissions\<close>

text \<open>
  (C34) A datagram that was answered before is absorbed: if its checksum is in one of the two
  caches, the recorded answer is sent again to the recorded address, or nothing happens. No
  callback is called and nothing but the record of sent packets changes. What was recorded
  since the last purge is still found after the next one.
\<close>

theorem cached_datagram_absorbed:
  assumes "cache_lookup (md5 s data) s = Some q"
  shows "(\<exists>es. out_state (handleIncoming up data ra server rt s) = s\<lparr>w_trace := w_trace s @ es\<rparr> \<and>
      (es = [] \<or> (\<exists>p. rt_data q = Some p \<and>
        (es = [W_Discard p (rt_address q)] \<or> (\<exists>u. rt_userv q = Some u \<and> es = [W_Send u p (rt_address q)]))))) \<and>
    cache_lookup c (out_state ((rCachePurge :: (tman, unit) stmt) s)) = l1rcache s c"
proof
  define R where "R = (\<lambda>t. \<exists>es. t = s\<lparr>w_trace := w_trace s @ es\<rparr> \<and>
      (es = [] \<or> (\<exists>p. rt_data q = Some p \<and>
        (es = [W_Discard p (rt_address q)] \<or> (\<exists>u. rt_userv q = Some u \<and> es = [W_Send u p (rt_address q)])))))"
  have r: "R s" unfolding R_def by (intro exI [of _ "[]"]) simp
  have d: "R (s\<lparr>w_trace := w_trace s @ [W_Discard p (rt_address q)]\<rparr>)" if "rt_data q = Some p" for p
    unfolding R_def using that by (intro exI [of _ "[W_Discard p (rt_address q)]"]) simp
  have e: "R (s\<lparr>w_trace := w_trace s @ [W_Send u p (rt_address q)]\<rparr>)" if "rt_data q = Some p" "rt_userv q = Some u" for u p
    unfolding R_def using that by (intro exI [of _ "[W_Send u p (rt_address q)]"]) simp
  have w: "wpc (transmitData (rt_userv q) p (rt_address q) None l :: (tman, unit) stmt) R (\<lambda>_. R) (\<lambda>_. R) s" if "rt_data q = Some p" for p l
    using r d [OF that] e [OF that] by (auto simp: transmitData_def send_to_def some_or_def split: option.split)
  have "wpc (handleIncoming up data ra server rt) R (\<lambda>_. R) (\<lambda>_. R) s"
    using assms r by (auto simp: handleIncoming_def split: option.split intro!: w)
  then show "\<exists>es. out_state (handleIncoming up data ra server rt s) = s\<lparr>w_trace := w_trace s @ es\<rparr> \<and>
      (es = [] \<or> (\<exists>p. rt_data q = Some p \<and>
        (es = [W_Discard p (rt_address q)] \<or> (\<exists>u. rt_userv q = Some u \<and> es = [W_Send u p (rt_address q)]))))"
    unfolding out_state_wpc [symmetric] R_def .
  show "cache_lookup c (out_state ((rCachePurge :: (tman, unit) stmt) s)) = l1rcache s c"
    by (simp add: rCachePurge_def rotateCache_def stmt_defs cache_lookup_def split: option.split)
qed

theorem cached_datagram_absorbed_witness:
  "\<exists>es. out_state (handleIncoming up1 (replicate 40 (CHR ''x'')) (Remote_address (''h'', 1) ''udp'') userv1 0
      (tman1\<lparr>l1rcache := [replicate 40 (CHR ''x'') \<mapsto> SipTMRetransmitO]\<rparr>)) =
    (tman1\<lparr>l1rcache := [replicate 40 (CHR ''x'') \<mapsto> SipTMRetransmitO], w_trace := es\<rparr>) \<and> es = []"
  using cached_datagram_absorbed [of "tman1\<lparr>l1rcache := [replicate 40 (CHR ''x'') \<mapsto> SipTMRetransmitO]\<rparr>" "replicate 40 (CHR ''x'')" SipTMRetransmitO]
  by (auto simp: cache_lookup_def tman1_def SipTMRetransmitO_def)

text \<open>
  (C35) A request that repeats one whose transaction exists is not handed up again, even when its
  text differs: if an answer was sent it is sent again, otherwise the request is ignored. Tables,
  transactions and timers stay as they are.
\<close>

theorem duplicate_request_absorbed:
  assumes "List.map_filter (tclient s) tids = []" "rmethod msg \<noteq> ''ACK''" "msg_key False True False msg = Inr k"
    and "tserver s k = Some n" "rmethod msg = tx_method (objs s (Sv n))"
  shows "case tx_data (objs s (Sv n)) of
      None \<Rightarrow> incomingRequest up msg csum tids server s = Return () s
    | Some p \<Rightarrow> wpc (incomingRequest up msg csum tids server)
        (\<lambda>t. same_core s t \<and> (\<exists>u. tx_userv (objs s (Sv n)) = Some u \<and> w_trace t = w_trace s @ [W_Send u p (tx_address (objs s (Sv n)))]))
        (\<lambda>_ _. False) (\<lambda>_ t. t = s) s"
proof -
  have m: "incomingRequest up msg csum tids server s = matched_request up msg csum n s"
    using assms by (auto simp: incomingRequest_def stmt_defs)
  show ?thesis
  proof (cases "tx_data (objs s (Sv n))")
    case None
    then show ?thesis using assms(5) by (simp add: m matched_request_def with_tx_def stmt_defs)
  next
    case (Some p)
    then show ?thesis using assms(5)
      by (simp add: wpc_def m matched_request_def transmitData_def send_to_def emit_def some_or_def with_tx_def stmt_defs same_core_def
          split: option.split)
  qed
qed

theorem duplicate_request_absorbed_witness: "incomingRequest up1 inv1 ''y'' [] userv1 s3 = Return () s3"
proof -
  let ?k = "TKey ''c1'' (Some ''f1'') 1 [Some ''b1'']"
  have "msg_key False True False inv1 = Inr ?k" "tserver s3 ?k = Some 0" "rmethod inv1 = tx_method (objs s3 (Sv 0))"
    "rmethod inv1 \<noteq> ''ACK''" "(case tx_data (objs s3 (Sv 0)) of None \<Rightarrow> True | Some _ \<Rightarrow> False)"
    by code_simp+
  then show ?thesis using duplicate_request_absorbed [of s3 "[]" inv1 ?k 0] by (auto simp: List.map_filter_def split: option.splits)
qed

definition beat :: "tref \<Rightarrow> tman \<Rightarrow> tman" where
  "beat r s = out_state (timerA r (s\<lparr>w_now := w_now s + tx_tout (objs s r)\<rparr>))"

lemma beat_step:
  assumes "tx_data (objs s r) = Some p" "tx_userv (objs s r) = Some u" "bad_dest u (tx_address (objs s r)) = None"
  shows "objs (beat r s) r = (objs s r)\<lparr>tx_tout := 2 * tx_tout (objs s r), te := (te (objs s r))(TeA := Running (w_ntm s))\<rparr>"
    "w_trace (beat r s) = w_trace s @ [W_Send u p (tx_address (objs s r))]" "w_now (beat r s) = w_now s + tx_tout (objs s r)"
  using assms by (simp_all add: beat_def timerA_def transmitData_def send_to_def emit_def some_or_def with_tx_def set_tx_def start_te_def stmt_defs
      te_start_def tx_upd_def)



section \<open>The ACK\<close>

definition ack_sent :: "tm_event list \<Rightarrow> tman \<Rightarrow> bool" where
  "ack_sent tr t \<longleftrightarrow> (\<exists>u a la c d es. w_trace t = tr @ W_Send u (P_Req a, la, c) d # es \<and> rmethod a = ''ACK'')"

definition ack_ready :: "nat \<Rightarrow> tm_event list \<Rightarrow> tman \<Rightarrow> bool" where
  "ack_ready n tr t \<longleftrightarrow> (\<exists>a. tx_ack (objs t (Cl n)) = Some a \<and> rmethod a = ''ACK'') \<and> \<not> uack (objs t (Cl n)) \<and> w_trace t = tr"

lemma ack_ready_set: "ack_ready n tr t \<Longrightarrow> (\<And>a. tx_ack (objs t (Cl n)) = Some a \<Longrightarrow> rmethod (f a) = rmethod a) \<Longrightarrow>
    ack_ready n tr (tx_upd (Cl n) (\<lambda>x. x\<lparr>tx_ack := map_option f (tx_ack x)\<rparr>) t)"
  by (auto simp: ack_ready_def)

lemma ack_ready_keeps: "keeps (ack_ready n tr) (ack_tag n msg)" "keeps (ack_ready n tr) (ack_set_route n route)"
  unfolding ack_tag_def ack_set_route_def
  by (auto simp: keeps_wpc ack_ready_def some_or_def set_first_def ack_2xx_def appendHeaders_def delHFs_def split: sum.split option.split)

lemma ack_send_first: "ack_ready n tr t \<Longrightarrow> wpc (ack_send n d csum) (ack_sent tr) (\<lambda>_ _. False) (\<lambda>_ t. w_trace t = tr) t"
  by (auto simp: ack_ready_def ack_sent_def ack_send_def some_or_def transmitMsg_def packet_of_def transmitData_def send_to_def split: option.split sum.split)

lemma no_return: "wpc (ack_tag n msg) (\<lambda>_. True) (\<lambda>_ _. False) (\<lambda>_ _. True) t" "wpc (ack_set_route n route) (\<lambda>_. True) (\<lambda>_ _. False) (\<lambda>_ _. True) t"
  unfolding ack_tag_def ack_set_route_def by (auto simp: some_or_def split: sum.split option.split)

lemma client_ack_first:
  assumes "ack_ready n tr t"
  shows "wpc (client_ack n msg csum) (ack_sent tr) (\<lambda>_ _. False) (\<lambda>_ t. w_trace t = tr) t"
proof -
  have r: "ack_ready n tr u \<Longrightarrow> w_trace u = tr" for u by (simp add: ack_ready_def)
  have s: "wpc (ack_set_route n route) (wpc (with_tx (Cl n) (\<lambda>t. ack_send n (ack_dest route (tx_address t)) csum)) (ack_sent tr) (\<lambda>_ _. False) (\<lambda>_ t. w_trace t = tr))
      (\<lambda>_ _. False) (\<lambda>_ t. w_trace t = tr) u" if "ack_ready n tr u" for u route
    by (rule wpc_mono [OF wpc_conj [THEN iffD2, OF conjI, OF keepsW [OF ack_ready_keeps(2) that] no_return(2)]]) (auto simp: r ack_send_first)
  show ?thesis unfolding client_ack_def wpc_block_fun
    by (rule wpc_mono [OF wpc_conj [THEN iffD2, OF conjI, OF keepsW [OF ack_ready_keeps(1) assms] no_return(1)]])
      (auto simp: r split: sum.split simp del: wpc_tm_basic wpc_tm_basic_fun intro!: s)
qed

text \<open>Whatever follows is appended to the trace.\<close>

lemma ack_sent_append: "ack_sent tr t \<Longrightarrow> w_trace u = w_trace t @ es \<Longrightarrow> ack_sent tr u"
  by (auto simp: ack_sent_def)

interpretation ack_sent: step_kept "\<lambda>_. True" "ack_sent tr" "\<lambda>_. True" for tr
  by unfold_locales (auto intro: ack_sent_append simp: ack_sent_def)

text \<open>
  (C15) The ACK of a final response goes out before the user is told of the response: unless the
  user asked to send it himself, the first thing that happens is that an ACK request is sent, and
  the callback comes after it. If the ACK cannot be made or sent, the user is not told.
\<close>

theorem ack_before_callback:
  assumes "tx_ack (objs s (Cl n)) = Some a" "rmethod a = ''ACK''" "\<not> uack (objs s (Cl n))" "needack (objs s (Cl n))"
  shows "ack_sent (w_trace s) (out_state (client_final up msg n csum s)) \<or> w_trace (out_state (client_final up msg n csum s)) = w_trace s"
proof -
  let ?G = "\<lambda>t. ack_sent (w_trace s) t \<or> w_trace t = w_trace s"
  have "keeps (ack_sent (w_trace s)) (block [call_resp_cb up n msg,
      with_tx (Cl n) (\<lambda>t. if tx_state t = UACK then ret () else skip), drop_client n])"
    by (auto intro!: keeps_intros keeps_tx ack_sent.keeps_callbacks ack_sent.keeps_del)
  then have k: "wpc (block [call_resp_cb up n msg,
      with_tx (Cl n) (\<lambda>t. if tx_state t = UACK then ret () else skip), drop_client n]) ?G (\<lambda>_. ?G) (\<lambda>_. ?G) t" if "ack_sent (w_trace s) t" for t
    using that by (elim wpc_mono [OF keepsW]) auto
  have "ack_ready n (w_trace s) s" using assms by (simp add: ack_ready_def)
  from client_ack_first [OF this] have "wpc (client_final up msg n csum) ?G (\<lambda>_. ?G) (\<lambda>_. ?G) s"
    unfolding client_final_def Let_def wpc_block_Cons wpc_tm_basic(2) if_P [OF assms(4)]
    by (rule wpc_mono) (use k in auto)
  then show ?thesis unfolding out_state_wpc [of ?G, symmetric] .
qed

theorem ack_before_callback_witness:
  "ack_sent (w_trace s1) (out_state (client_final up1 ok1 0 ''x'' s1)) \<or> w_trace (out_state (client_final up1 ok1 0 ''x'' s1)) = w_trace s1"
proof -
  have "(case tx_ack (objs s1 (Cl 0)) of Some a \<Rightarrow> rmethod a = ''ACK'' | None \<Rightarrow> False)" by code_simp
  then obtain a where a: "tx_ack (objs s1 (Cl 0)) = Some a" "rmethod a = ''ACK''" by (auto split: option.splits)
  have "\<not> uack (objs s1 (Cl 0))" "needack (objs s1 (Cl 0))" by code_simp+
  from ack_before_callback [OF a this] show ?thesis .
qed

text \<open>
  (C37) Once a final response has been processed to the end, the ACK is no longer the user's to
  send: \<^verbatim>\<open>sendACK\<close> raises \<^verbatim>\<open>AttributeError\<close>, and so does an attempt to give the ACK a body, because
  the transaction was cleaned up. This holds also when the callback set \<^verbatim>\<open>uack\<close>, which the user
  agent does for late media only when it is told of the final response.
\<close>

theorem sendACK_after_final:
  assumes "client_final up msg n csum s = Next t"
  shows "TM_sendACK n t = Raise AttributeError t \<and> TM_setAckBody n b t = Raise AttributeError t"
proof -
  have "wpc (client_final up msg n csum) (\<lambda>t. tx_ack (objs t (Cl n)) = None \<and> te (objs t (Cl n)) TeG = NoTimer) (\<lambda>_ _. True) (\<lambda>_ _. True) s"
  proof -
    have d: "wpc (drop_client n) (\<lambda>t. tx_ack (objs t (Cl n)) = None \<and> te (objs t (Cl n)) TeG = NoTimer) (\<lambda>_ _. True) (\<lambda>_ _. True) u" for u
      by (simp add: drop_client_def tx_cleanup_def split: option.split)
    have T: "wpc c (\<lambda>_. True) (\<lambda>_ _. True) (\<lambda>_ _. True) u" for c :: "(tman, unit) stmt" and u
      by (simp add: wpc_def split: outcome.split)
    show ?thesis unfolding client_final_def Let_def wpc_block_fun
      by (rule wpc_mono [OF T]) (auto intro!: wpc_mono [OF T] d)
  qed
  then have "tx_ack (objs t (Cl n)) = None" "te (objs t (Cl n)) TeG = NoTimer" using assms by (simp_all add: wpc_def)
  then show ?thesis
    by (simp add: TM_sendACK_def TM_setAckBody_def stop_te_def some_or_def with_tx_def stmt_defs split: option.split)
qed

definition late1 :: upper where
  "late1 = up1\<lparr>react := (\<lambda>_. \<lparr>re_ops = [(Op_setUack 0, True)], re_end = Inr None\<rparr>)\<rparr>"

theorem sendACK_after_final_witness:
  "\<exists>t. client_final late1 ok1 0 ''x'' s1 = Next t \<and> TM_sendACK 0 t = Raise AttributeError t"
proof -
  have "(case client_final late1 ok1 0 ''x'' s1 of Next _ \<Rightarrow> True | _ \<Rightarrow> False)" by code_simp
  then obtain t where "client_final late1 ok1 0 ''x'' s1 = Next t" by (auto split: outcome.splits)
  then show ?thesis using sendACK_after_final by blast
qed

section \<open>Consumers and errors\<close>

lemma remove_consumer_absent: "c \<notin> fst ` set cs \<Longrightarrow> remove_consumer c (cs @ [(c, x)]) = cs"
  by (induction cs) auto

text \<open>
  (C40) A dialog that is registered for a Call-ID and then unregistered leaves no trace in the
  table of consumers; to unregister one that is not there raises an exception and changes nothing.
\<close>

theorem consumer_roundtrip:
  assumes "case req_consumers s ci of None \<Rightarrow> True | Some cs \<Rightarrow> cs \<noteq> [] \<and> c \<notin> fst ` set cs"
  shows "block [TM_regConsumer c ci cmp, TM_unregConsumer c ci] s = Next s \<and>
    TM_unregConsumer c ci s = Raise (if req_consumers s ci = None then KeyError else IndexError) s"
proof (cases "req_consumers s ci")
  case None
  have "(req_consumers s)(ci := None) = req_consumers s" using None by (simp add: fun_upd_idem)
  then show ?thesis using None by (simp add: TM_regConsumer_def TM_unregConsumer_def some_or_def stmt_defs)
next
  case (Some cs)
  then have "(req_consumers s)(ci \<mapsto> cs) = req_consumers s" "remove_consumer c (cs @ [(c, cmp)]) = cs" "cs \<noteq> []"
    using assms remove_consumer_absent by (auto simp: fun_upd_idem)
  then show ?thesis using Some assms by (simp add: TM_regConsumer_def TM_unregConsumer_def some_or_def stmt_defs)
qed

theorem consumer_roundtrip_witness: "TM_unregConsumer 3 ''c1'' tman1 = Raise KeyError tman1"
  using consumer_roundtrip [where s = tman1 and ci = "''c1''" and c = 3] by (simp add: tman1_def)

text \<open>
  (C39) A request that carries in one of its Via headers the branch of a request this manager
  itself sent has looped: it is answered with 482 and nothing else happens. No transaction is
  made for it, no callback is called.
\<close>

theorem looped_request_refused:
  assumes "tid \<in> set tids" "tclient s tid \<noteq> None"
  shows "wpc (incomingRequest up msg csum tids server)
    (\<lambda>t. same_core s t \<and> (\<exists>x la c d. w_trace t = w_trace s @ [W_Send server (P_Resp x, la, c) d] \<and> scode x = 482))
    (\<lambda>_ _. False) (\<lambda>_ t. t = s) s"
proof -
  have "List.map_filter (tclient s) tids \<noteq> []" using assms by (auto simp: List.map_filter_def filter_empty_conv)
  then obtain m ms where "List.map_filter (tclient s) tids = m # ms" by (cases "List.map_filter (tclient s) tids") auto
  then show ?thesis unfolding incomingRequest_def
    by (auto simp: answer_to_def genResponse_def transmitMsg_def packet_of_def transmitData_def send_to_def some_or_def same_core_def
        split: sum.split option.split)
qed

definition key1 :: tkey where
  "key1 = TKey ''c1'' (Some ''f1'') 1 [Some ''INVITE'', Some ''b1'']"

theorem looped_request_refused_witness:
  "wpc (incomingRequest up1 inv1 ''z'' [key1] userv1)
    (\<lambda>t. same_core s1 t \<and> (\<exists>x la c d. w_trace t = w_trace s1 @ [W_Send userv1 (P_Resp x, la, c) d] \<and> scode x = 482))
    (\<lambda>_ _. False) (\<lambda>_ t. t = s1) s1"
proof -
  have "tclient s1 key1 \<noteq> None" by code_simp
  then show ?thesis by (intro looped_request_refused [of key1]) simp_all
qed


definition short1 :: string where
  "short1 = ''INFO sip:b SIP/2.0'' @ CRLF @ ''Via: SIP/2.0/UDP h'' @ CRLF @ ''From: <sip:a@h>'' @ CRLF @ ''To: <sip:b@h>'' @ CRLF @
     ''CSeq: 1 INFO'' @ CRLF @ ''l: 30'' @ CRLF @ CRLF @ ''abcdef''"


section \<open>Private addresses\<close>

lemma or_byte: "0 \<le> y \<Longrightarrow> y < 256 \<Longrightarrow> or (push_bit 8 x) y = x * 256 + (y :: int)"
proof -
  assume y: "0 \<le> y" "y < 256"
  then have "take_bit 8 y = y" by (simp add: take_bit_int_eq_self)
  then have "and (push_bit 8 x) y = and (push_bit 8 x) (take_bit 8 y)" by simp
  also have "\<dots> = 0" by (rule bit_eqI) (auto simp: bit_simps)
  finally show ?thesis using plus_and_or [of "push_bit 8 x" y] by (simp add: push_bit_eq_mult)
qed

lemma and_net:
  assumes "0 \<le> n" "n < 2 ^ 32"
  shows "and n (push_bit k 0xffffffff) = push_bit k net \<longleftrightarrow> n div 2 ^ k = (net :: int)"
proof -
  have "and n (push_bit k (mask 32)) = push_bit k (take_bit 32 (drop_bit k n))"
    by (rule bit_eqI) (auto simp: bit_simps)
  moreover have "(0xffffffff :: int) = mask 32" by (simp add: mask_eq_exp_minus_1)
  ultimately have "and n (push_bit k 0xffffffff) = push_bit k (take_bit 32 (drop_bit k n))" by (simp only:)
  also have "take_bit 32 (drop_bit k n) = n div 2 ^ k"
  proof -
    have "n div 2 ^ k \<le> n div 1" using assms(1) by (intro zdiv_mono2) simp_all
    then show ?thesis using assms by (simp add: drop_bit_eq_div take_bit_int_eq_self pos_imp_zdiv_nonneg_iff)
  qed
  finally show ?thesis by (simp add: push_bit_eq_mult)
qed

text \<open>
  (C36) On the addresses a.b.c.d the test for a private address decides exactly membership in the
  three networks of RFC 1918, 10.0.0.0/8, 172.16.0.0/12 and 192.168.0.0/16.
\<close>

theorem check1918_networks:
  assumes "\<forall>x \<in> {a, b, c, d}. 0 \<le> x \<and> x \<le> 255"
  shows "check1918 (Some (Host (show_int a @ ''.'' @ show_int b @ ''.'' @ show_int c @ ''.'' @ show_int d))) \<longleftrightarrow>
    a = 10 \<or> a = 172 \<and> 16 \<le> b \<and> b \<le> 31 \<or> a = 192 \<and> b = 168"
proof -
  define n where "n = ((a * 256 + b) * 256 + c) * 256 + d"
  have dot: "CHR ''.'' \<notin> set (show_int x)" for x by (rule show_int_absent) (simp_all add: is_digit_def)
  have "split_n 4 (CHR ''.'') (show_int a @ ''.'' @ show_int b @ ''.'' @ show_int c @ ''.'' @ show_int d) = [show_int a, show_int b, show_int c, show_int d]"
    by (simp add: numeral_eq_Suc dot)
  then have "addr_num (show_int a @ ''.'' @ show_int b @ ''.'' @ show_int c @ ''.'' @ show_int d) = Some n"
    using assms by (simp add: addr_num_def or_byte n_def)
  moreover have r: "0 \<le> n" "n < 2 ^ 32" using assms by (simp_all add: n_def)
  have "push_bit 24 172 + push_bit 16 16 = push_bit 20 (172 * 16 + 1 :: int)" "push_bit 24 192 + push_bit 16 168 = push_bit 16 (192 * 256 + 168 :: int)"
    by (simp_all add: push_bit_eq_mult)
  ultimately have "check1918 (Some (Host (show_int a @ ''.'' @ show_int b @ ''.'' @ show_int c @ ''.'' @ show_int d))) \<longleftrightarrow>
      n div 2 ^ 24 = 10 \<or> n div 2 ^ 20 = 172 * 16 + 1 \<or> n div 2 ^ 16 = 192 * 256 + 168"
    by (simp only: check1918.simps NETS_1918_def list_ex_iff list.set bex_simps ball_simps prod.case option.case and_net [OF r] simp_thms)
  moreover have q: "n div m = k" if "n = k * m + l" "0 \<le> l" "l < m" for k l m :: int using that by simp
  have "n div 2 ^ 24 = a"
    by (rule q [of _ _ "b * 65536 + c * 256 + d"]) (use assms in \<open>simp_all add: n_def\<close>)
  moreover have "n div 2 ^ 16 = a * 256 + b"
    by (rule q [of _ _ "c * 256 + d"]) (use assms in \<open>simp_all add: n_def\<close>)
  moreover have "n div 2 ^ 20 = a * 16 + b div 16"
  proof (rule q [of _ _ "b mod 16 * 65536 + c * 256 + d"])
    show "n = (a * 16 + b div 16) * 2 ^ 20 + (b mod 16 * 65536 + c * 256 + d)" by (simp add: n_def) presburger
    have "b mod 16 \<le> 15" using pos_mod_bound [of 16 b] by simp
    then show "b mod 16 * 65536 + c * 256 + d < 2 ^ 20" using assms by simp
  qed (use assms in simp)
  moreover have b: "0 \<le> b" "b \<le> 255" using assms by simp_all
  have "a * 16 + x = 172 * 16 + 1 \<longleftrightarrow> a = 172 \<and> x = 1" if "0 \<le> x" "x \<le> 15" for x using that by presburger
  from this [of "b div 16"] have "a * 16 + b div 16 = 172 * 16 + 1 \<longleftrightarrow> a = 172 \<and> b div 16 = 1" using b by simp
  moreover have "b div 16 = 1 \<longleftrightarrow> 16 \<le> b \<and> b \<le> 31" by presburger
  moreover have "a * 256 + b = 192 * 256 + 168 \<longleftrightarrow> a = 192 \<and> b = 168"
  proof
    assume e: "a * 256 + b = 192 * 256 + 168"
    then have "a < 193" "191 < a" using b by linarith+
    then show "a = 192 \<and> b = 168" using e by simp
  qed simp
  ultimately show ?thesis by (simp only:)
qed

theorem check1918_networks_witness:
  "check1918 (Some (Host (show_int 172 @ ''.'' @ show_int 31 @ ''.'' @ show_int 255 @ ''.'' @ show_int 1))) \<and>
   \<not> check1918 (Some (Host (show_int 172 @ ''.'' @ show_int 32 @ ''.'' @ show_int 0 @ ''.'' @ show_int 1)))"
  using check1918_networks [of 172 31 255 1] check1918_networks [of 172 32 0 1] by simp

end
