(* ===== verification/Heapq.thy ===== *)
theory Heapq
  imports Py_Prelude "HOL-Library.Multiset"
begin

text \<open>
  The binary heaps of Python's standard module \<^verbatim>\<open>heapq\<close>, on which the event loop keeps
  its timers (\<^verbatim>\<open>heappush\<close>, \<^verbatim>\<open>heappop\<close>, \<^verbatim>\<open>heapify\<close>). A heap is a list; the order is the
  \<^verbatim>\<open>__lt__\<close> of the items, a parameter \<open>lt\<close> here. The functions keep the hole that the
  library moves along a path: the item being placed is written only at the end.

  The locale \<open>keyed_heap\<close> states the order of a class whose \<^verbatim>\<open>__lt__\<close> compares a key, and
  holds the theory of the three operations: the heap property, the multiset of the items and
  that the first item is a minimal one.
\<close>

section \<open>The operations\<close>

definition heap_parent :: "nat \<Rightarrow> nat" where
  "heap_parent i = (i - 1) div 2"

text \<open>\<open>_siftdown\<close>: the hole at \<open>pos\<close> climbs towards \<open>start\<close> until \<open>x\<close> fits.\<close>

function siftdown :: "('a \<Rightarrow> 'a \<Rightarrow> bool) \<Rightarrow> nat \<Rightarrow> 'a \<Rightarrow> 'a list \<Rightarrow> nat \<Rightarrow> 'a list" where
  "siftdown lt start x xs pos =
     (if start < pos \<and> lt x (xs ! heap_parent pos)
      then siftdown lt start x (xs[pos := xs ! heap_parent pos]) (heap_parent pos)
      else xs[pos := x])"
  by pat_completeness auto
termination
  by (relation "measure (\<lambda>(lt, start, x, xs, pos). pos)") (auto simp: heap_parent_def)

text \<open>The smaller child of \<open>pos\<close>, given that \<open>pos\<close> has a child.\<close>

definition small_child :: "('a \<Rightarrow> 'a \<Rightarrow> bool) \<Rightarrow> 'a list \<Rightarrow> nat \<Rightarrow> nat" where
  "small_child lt xs pos =
     (let c = 2 * pos + 1
      in if c + 1 < length xs \<and> \<not> lt (xs ! c) (xs ! (c + 1)) then c + 1 else c)"

text \<open>\<open>_siftup\<close>: the hole at \<open>pos\<close> falls to a leaf, then \<open>x\<close> climbs from there.\<close>

function siftup_leaf :: "('a \<Rightarrow> 'a \<Rightarrow> bool) \<Rightarrow> 'a list \<Rightarrow> nat \<Rightarrow> 'a list \<times> nat" where
  "siftup_leaf lt xs pos =
     (if 2 * pos + 1 < length xs
      then siftup_leaf lt (xs[pos := xs ! small_child lt xs pos]) (small_child lt xs pos)
      else (xs, pos))"
  by pat_completeness auto
termination
  by (relation "measure (\<lambda>(lt, xs, pos). length xs - pos)") (auto simp: small_child_def Let_def)

definition siftup :: "('a \<Rightarrow> 'a \<Rightarrow> bool) \<Rightarrow> 'a list \<Rightarrow> nat \<Rightarrow> 'a list" where
  "siftup lt xs pos = (case siftup_leaf lt xs pos of (ys, p) \<Rightarrow> siftdown lt pos (xs ! pos) ys p)"

definition heappush :: "('a \<Rightarrow> 'a \<Rightarrow> bool) \<Rightarrow> 'a list \<Rightarrow> 'a \<Rightarrow> 'a list" where
  "heappush lt xs x = siftdown lt 0 x (xs @ [x]) (length xs)"

text \<open>\<open>heappop\<close> of a non-empty heap: the item and the heap without it.\<close>

definition heappop :: "('a \<Rightarrow> 'a \<Rightarrow> bool) \<Rightarrow> 'a list \<Rightarrow> 'a \<times> 'a list" where
  "heappop lt xs =
     (if butlast xs = [] then (last xs, [])
      else (hd (butlast xs), siftup lt ((butlast xs)[0 := last xs]) 0))"

fun heapify_from :: "('a \<Rightarrow> 'a \<Rightarrow> bool) \<Rightarrow> nat \<Rightarrow> 'a list \<Rightarrow> 'a list" where
  "heapify_from lt 0 xs = xs"
| "heapify_from lt (Suc i) xs = heapify_from lt i (siftup lt xs i)"

definition heapify :: "('a \<Rightarrow> 'a \<Rightarrow> bool) \<Rightarrow> 'a list \<Rightarrow> 'a list" where
  "heapify lt xs = heapify_from lt (length xs div 2) xs"

declare siftdown.simps [simp del] siftup_leaf.simps [simp del]

section \<open>Positions\<close>

lemma heap_parent_less: "0 < i \<Longrightarrow> heap_parent i < i"
  by (simp add: heap_parent_def)

lemma heap_parent_le [simp]: "heap_parent i \<le> i"
  by (simp add: heap_parent_def)

lemma small_child_parent [simp]: "heap_parent (small_child lt xs p) = p"
  by (simp add: small_child_def heap_parent_def Let_def)

lemma small_child_gt [simp]: "p < small_child lt xs p"
  by (simp add: small_child_def Let_def)

lemma small_child_length: "2 * p + 1 < length xs \<Longrightarrow> small_child lt xs p < length xs"
  by (simp add: small_child_def Let_def)

lemma child_cases: "0 < i \<Longrightarrow> heap_parent i = p \<Longrightarrow> i = 2 * p + 1 \<or> i = 2 * p + 2"
  by (simp add: heap_parent_def) arith

text \<open>The positions below \<open>s\<close> in the tree.\<close>

definition below :: "nat \<Rightarrow> nat \<Rightarrow> bool" where
  "below s p \<longleftrightarrow> (\<exists>k. (heap_parent ^^ k) p = s)"

lemma below_refl [simp]: "below s s"
  unfolding below_def by (rule exI [of _ 0]) simp

lemma below_child: "below s (heap_parent p) \<Longrightarrow> below s p"
  unfolding below_def by (metis funpow_Suc_right comp_apply)

lemma below_parent: "below s p \<Longrightarrow> s < p \<Longrightarrow> below s (heap_parent p)"
  unfolding below_def
proof (elim exE)
  fix k
  assume k: "(heap_parent ^^ k) p = s" and "s < p"
  then obtain j where "k = Suc j" by (cases k) auto
  then show "\<exists>k. (heap_parent ^^ k) (heap_parent p) = s"
    using k by (metis funpow_Suc_right comp_apply)
qed

lemma below_le: "below s p \<Longrightarrow> s \<le> p"
proof -
  have "(heap_parent ^^ k) p \<le> p" for k
    by (induction k) (auto intro: le_trans [OF heap_parent_le])
  then show "below s p \<Longrightarrow> s \<le> p" unfolding below_def by auto
qed

lemma mset_hole: "p < length xs \<Longrightarrow> q < length xs \<Longrightarrow> p \<noteq> q \<Longrightarrow> mset (xs[p := xs ! q, q := x]) = mset (xs[p := x])"
  using mset_swap [of q "xs[p := x]" p] by (simp add: list_update_swap)

section \<open>Heaps whose order compares a key\<close>

locale keyed_heap =
  fixes lt :: "'a \<Rightarrow> 'a \<Rightarrow> bool" and key :: "'a \<Rightarrow> 'k :: linorder"
  assumes lt_key: "lt x y \<longleftrightarrow> key x < key y"
begin

text \<open>
  \<open>heap_from s xs\<close>: every item whose parent is at \<open>s\<close> or after it is not smaller than its
  parent. \<open>holed s p xs\<close>: the same but for the item at \<open>p\<close>, which is about to be overwritten.
\<close>

definition heap_from :: "nat \<Rightarrow> 'a list \<Rightarrow> bool" where
  "heap_from s xs \<longleftrightarrow> (\<forall>i. 0 < i \<longrightarrow> i < length xs \<longrightarrow> s \<le> heap_parent i \<longrightarrow> key (xs ! heap_parent i) \<le> key (xs ! i))"

definition holed :: "nat \<Rightarrow> nat \<Rightarrow> 'a list \<Rightarrow> bool" where
  "holed s p xs \<longleftrightarrow> (\<forall>i. 0 < i \<longrightarrow> i < length xs \<longrightarrow> s \<le> heap_parent i \<longrightarrow> i \<noteq> p \<longrightarrow>
     (if heap_parent i = p then s < p \<longrightarrow> key (xs ! heap_parent p) \<le> key (xs ! i)
      else key (xs ! heap_parent i) \<le> key (xs ! i)))"

abbreviation fits :: "'a \<Rightarrow> nat \<Rightarrow> 'a list \<Rightarrow> bool" where
  "fits x p xs \<equiv> \<forall>i. 0 < i \<longrightarrow> i < length xs \<longrightarrow> heap_parent i = p \<longrightarrow> key x \<le> key (xs ! i)"

lemma siftdown_length [simp]: "length (siftdown lt s x xs p) = length xs"
  by (induction lt s x xs p rule: siftdown.induct) (subst siftdown.simps, simp)

lemma siftdown_mset: "p < length xs \<Longrightarrow> mset (siftdown lt s x xs p) = mset (xs[p := x])"
proof (induction lt s x xs p rule: siftdown.induct)
  case (1 lt s x xs p)
  show ?case
  proof (cases "s < p \<and> lt x (xs ! heap_parent p)")
    case True
    then have p: "heap_parent p < p" by (simp add: heap_parent_less)
    have "mset (siftdown lt s x (xs[p := xs ! heap_parent p]) (heap_parent p)) =
        mset (xs[p := xs ! heap_parent p, heap_parent p := x])"
      using "1.IH" [OF True] "1.prems" p by simp
    also have "\<dots> = mset (xs[p := x])"
      using "1.prems" p by (intro mset_hole) auto
    finally show ?thesis using True by (subst siftdown.simps) simp
  next
    case False
    then show ?thesis by (subst siftdown.simps) auto
  qed
qed

lemma holed_climb:
  assumes h: "holed s p xs" and p: "s < p" "p < length xs" "below s p"
    and lt: "key x < key (xs ! heap_parent p)"
  defines "q \<equiv> heap_parent p" and "ys \<equiv> xs[p := xs ! heap_parent p]"
  shows "holed s q ys" "fits x q ys"
proof -
  have q: "q < p" "s \<le> q"
    using p below_parent [THEN below_le] unfolding q_def by (auto simp: heap_parent_less)
  have sib: "key (xs ! q) \<le> key (xs ! i)" if "0 < i" "i < length xs" "heap_parent i = q" "i \<noteq> p" for i
  proof -
    have "heap_parent i \<noteq> p" using that q by simp
    then show ?thesis using h that q unfolding holed_def by fastforce
  qed
  have up: "key (xs ! heap_parent q) \<le> key (xs ! q)" if "s < q" "s \<le> heap_parent q"
  proof -
    have "heap_parent q \<noteq> p" using q heap_parent_le [of q] by linarith
    then show ?thesis using h that q p unfolding holed_def by (auto split: if_splits)
  qed
  have kids: "key (xs ! q) \<le> key (xs ! i)" if "0 < i" "i < length xs" "heap_parent i = p" for i
  proof -
    have "i \<noteq> p" using heap_parent_less [OF that(1)] that(3) by auto
    then show ?thesis using h that p unfolding holed_def q_def by auto
  qed
  show "fits x q ys"
  proof (intro allI impI)
    fix i assume i: "0 < i" "i < length ys" "heap_parent i = q"
    show "key x \<le> key (ys ! i)"
      using sib [of i] i lt p(2) by (cases "i = p") (auto simp: ys_def q_def)
  qed
  show "holed s q ys"
    unfolding holed_def
  proof (intro allI impI)
    fix i assume i: "0 < i" "i < length ys" "s \<le> heap_parent i" "i \<noteq> q"
    then have il: "i < length xs" by (simp add: ys_def)
    show "if heap_parent i = q then s < q \<longrightarrow> key (ys ! heap_parent q) \<le> key (ys ! i)
       else key (ys ! heap_parent i) \<le> key (ys ! i)"
    proof (cases "heap_parent i = q")
      case True
      have "key (ys ! heap_parent q) \<le> key (ys ! i)" if "s < q"
      proof -
        have qp: "heap_parent q \<noteq> p" "q \<noteq> p" using q heap_parent_le [of q] by linarith+
        have sq: "s \<le> heap_parent q"
          using below_parent [OF below_parent [OF p(3,1)]] that unfolding q_def by (auto intro: below_le)
        show ?thesis using up [OF that sq] sib [OF i(1) il True] True qp p
          by (cases "i = p") (auto simp: ys_def q_def)
      qed
      then show ?thesis using True by simp
    next
      case False
      have ip: "i \<noteq> p" using False by (auto simp: q_def)
      show ?thesis
      proof (cases "heap_parent i = p")
        case True
        then show ?thesis using kids [OF i(1) il True] False ip p il by (simp add: ys_def q_def)
      next
        case False2: False
        then have "key (xs ! heap_parent i) \<le> key (xs ! i)"
          using h i il ip unfolding holed_def by auto
        then show ?thesis using False False2 ip by (simp add: ys_def)
      qed
    qed
  qed
qed

lemma holed_fill:
  assumes h: "holed s p xs" and p: "p < length xs" "below s p" "fits x p xs"
    and stop: "\<not> (s < p \<and> key x < key (xs ! heap_parent p))"
  shows "heap_from s (xs[p := x])"
  unfolding heap_from_def
proof (intro allI impI)
  fix i assume i: "0 < i" "i < length (xs[p := x])" "s \<le> heap_parent i"
  have ne: "heap_parent i \<noteq> i" using heap_parent_less [OF i(1)] by simp
  show "key (xs[p := x] ! heap_parent i) \<le> key (xs[p := x] ! i)"
  proof (cases "i = p")
    case True
    then have "s < p" using i heap_parent_less [OF i(1)] by simp
    then show ?thesis using True stop p ne by simp
  next
    case False
    then show ?thesis using h i p ne unfolding holed_def by (cases "heap_parent i = p") auto
  qed
qed

lemma siftdown_heap:
  "holed s p xs \<Longrightarrow> p < length xs \<Longrightarrow> below s p \<Longrightarrow> fits x p xs \<Longrightarrow> heap_from s (siftdown lt s x xs p)"
proof (induction p arbitrary: xs rule: less_induct)
  case (less p)
  show ?case
  proof (cases "s < p \<and> lt x (xs ! heap_parent p)")
    case True
    then have c: "holed s (heap_parent p) (xs[p := xs ! heap_parent p])" "fits x (heap_parent p) (xs[p := xs ! heap_parent p])"
      using holed_climb [OF less.prems(1) _ less.prems(2,3)] by (auto simp: lt_key)
    show ?thesis
      using True c less.prems by (subst siftdown.simps)
        (simp add: less.IH heap_parent_less below_parent order_le_less_trans [OF heap_parent_le])
  next
    case False
    then have "heap_from s (xs[p := x])"
      using less.prems by (intro holed_fill) (auto simp: lt_key)
    then show ?thesis using False by (subst siftdown.simps) auto
  qed
qed

lemma holed_fall:
  assumes h: "holed s p xs" and p: "2 * p + 1 < length xs" "below s p"
  defines "c \<equiv> small_child lt xs p"
  shows "holed s c (xs[p := xs ! c])"
proof -
  have c: "p < c" "c < length xs" "heap_parent c = p" "s \<le> p"
    using p by (simp_all add: c_def small_child_length below_le)
  have sib: "key (xs ! c) \<le> key (xs ! i)" if "0 < i" "i < length xs" "heap_parent i = p" for i
    using child_cases [OF that(1,3)] that(2) unfolding c_def small_child_def Let_def
    by (auto simp: lt_key)
  have kids: "key (xs ! c) \<le> key (xs ! i)" if "0 < i" "i < length xs" "heap_parent i = c" for i
  proof -
    have "i \<noteq> p" using heap_parent_less [OF that(1)] that(3) c by auto
    then show ?thesis using h that c unfolding holed_def by auto
  qed
  show ?thesis
    unfolding holed_def
  proof (intro allI impI)
    fix i assume i: "0 < i" "i < length (xs[p := xs ! c])" "s \<le> heap_parent i" "i \<noteq> c"
    have ne: "heap_parent i \<noteq> i" using heap_parent_less [OF i(1)] by simp
    show "if heap_parent i = c then s < c \<longrightarrow> key (xs[p := xs ! c] ! heap_parent c) \<le> key (xs[p := xs ! c] ! i)
       else key (xs[p := xs ! c] ! heap_parent i) \<le> key (xs[p := xs ! c] ! i)"
    proof (cases "heap_parent i = c")
      case True
      then have "i \<noteq> p" using heap_parent_less [OF i(1)] c by auto
      then show ?thesis using kids [of i] True i c by simp
    next
      case False
      consider "i = p" | "i \<noteq> p" "heap_parent i = p" | "i \<noteq> p" "heap_parent i \<noteq> p" by blast
      then show ?thesis
      proof cases
        case 1
        then have "s < p" using i heap_parent_less [OF i(1)] by simp
        then show ?thesis using h c 1 False ne unfolding holed_def by auto
      next
        case 2
        then show ?thesis using sib [of i] False i c by simp
      next
        case 3
        then show ?thesis using h False i unfolding holed_def by auto
      qed
    qed
  qed
qed

lemma siftup_leaf_spec:
  assumes "siftup_leaf lt xs p = (ys, q)" "holed s p xs" "p < length xs" "below s p"
  shows "holed s q ys \<and> q < length ys \<and> below s q \<and> length ys = length xs \<and> fits y q ys
    \<and> mset (ys[q := x]) = mset (xs[p := x])"
  using assms
proof (induction "length xs - p" arbitrary: xs p rule: less_induct)
  case less
  show ?case
  proof (cases "2 * p + 1 < length xs")
    case True
    let ?c = "small_child lt xs p"
    have c: "p < ?c" "?c < length xs" "below s ?c"
      using True less.prems below_child [of s ?c] by (simp_all add: small_child_length)
    have r: "siftup_leaf lt (xs[p := xs ! ?c]) ?c = (ys, q)"
      using less.prems(1) True by (subst (asm) siftup_leaf.simps) simp
    have "holed s ?c (xs[p := xs ! ?c])" using True less.prems by (intro holed_fall) auto
    then have "holed s q ys \<and> q < length ys \<and> below s q \<and> length ys = length xs \<and> fits y q ys
        \<and> mset (ys[q := x]) = mset ((xs[p := xs ! ?c])[?c := x])"
      using less.hyps [OF _ r] c by (simp add: diff_less_mono2)
    then show ?thesis using c by (simp add: mset_hole)
  next
    case False
    then have "ys = xs" "q = p" using less.prems(1) by (subst (asm) siftup_leaf.simps; simp)+
    moreover have "fits y p xs"
    proof (intro allI impI)
      fix i assume "0 < i" "i < length xs" "heap_parent i = p"
      then show "key y \<le> key (xs ! i)" using False child_cases [of i p] by simp
    qed
    ultimately show ?thesis using less.prems by simp
  qed
qed

lemma siftup_spec:
  assumes h: "heap_from (Suc p) xs" and p: "p < length xs"
  shows "heap_from p (siftup lt xs p) \<and> mset (siftup lt xs p) = mset xs \<and> length (siftup lt xs p) = length xs"
proof -
  obtain ys q where r: "siftup_leaf lt xs p = (ys, q)" by fastforce
  have "holed p p xs" using h unfolding holed_def heap_from_def by auto
  from siftup_leaf_spec [OF r this p below_refl]
  have "holed p q ys \<and> q < length ys \<and> below p q \<and> length ys = length xs \<and> fits (xs ! p) q ys
    \<and> mset (ys[q := xs ! p]) = mset (xs[p := xs ! p])" .
  then show ?thesis
    unfolding siftup_def r by (auto simp: siftdown_mset intro: siftdown_heap)
qed

subsection \<open>The three operations\<close>

abbreviation heap :: "'a list \<Rightarrow> bool" where
  "heap \<equiv> heap_from 0"

lemma heap_empty [simp]: "heap []"
  by (simp add: heap_from_def)

lemma heappush_mset [simp]: "mset (heappush lt xs x) = add_mset x (mset xs)"
  unfolding heappush_def by (simp add: siftdown_mset)

lemma heappush_set [simp]: "set (heappush lt xs x) = insert x (set xs)"
  using heappush_mset [of xs x, THEN arg_cong [of _ _ set_mset]]
  unfolding set_mset_mset set_mset_add_mset_insert .

lemma heappush_heap: "heap xs \<Longrightarrow> heap (heappush lt xs x)"
  unfolding heappush_def
proof (rule siftdown_heap)
  assume h: "heap xs"
  show "below 0 (length xs)"
  proof (induction "length xs" arbitrary: xs rule: less_induct)
    case less
    show ?case
    proof (cases "length xs")
      case (Suc n)
      then have "heap_parent (length xs) < length xs" by (simp add: heap_parent_less)
      then have "below 0 (heap_parent (length xs))"
        using less [of "take (heap_parent (length xs)) xs"] by simp
      then show ?thesis by (rule below_child)
    qed simp
  qed
  have low: "heap_parent i < length xs" if "0 < i" "i \<le> length xs" for i
    using heap_parent_less [of i] that by simp
  show "holed 0 (length xs) (xs @ [x])"
    unfolding holed_def
  proof (intro allI impI)
    fix i assume i: "0 < i" "i < length (xs @ [x])" "i \<noteq> length xs"
    then have "heap_parent i < length xs" "i < length xs" "key (xs ! heap_parent i) \<le> key (xs ! i)"
      using h low [of i] unfolding heap_from_def by auto
    then show "if heap_parent i = length xs
       then 0 < length xs \<longrightarrow> key ((xs @ [x]) ! heap_parent (length xs)) \<le> key ((xs @ [x]) ! i)
       else key ((xs @ [x]) ! heap_parent i) \<le> key ((xs @ [x]) ! i)"
      by (simp add: nth_append)
  qed
  show "fits x (length xs) (xs @ [x])"
  proof (intro allI impI)
    fix i assume "0 < i" "i < length (xs @ [x])" "heap_parent i = length xs"
    then show "key x \<le> key ((xs @ [x]) ! i)" using low [of i] by simp
  qed
qed simp

lemma heap_first:
  assumes h: "heap xs" and i: "i < length xs"
  shows "key (xs ! 0) \<le> key (xs ! i)"
  using i
proof (induction i rule: less_induct)
  case (less i)
  show ?case
  proof (cases "i = 0")
    case False
    then have "key (xs ! 0) \<le> key (xs ! heap_parent i)"
      using less heap_parent_less [of i] by simp
    also have "\<dots> \<le> key (xs ! i)"
      using h False less.prems unfolding heap_from_def by simp
    finally show ?thesis .
  qed simp
qed

lemma heap_min: "heap xs \<Longrightarrow> x \<in> set xs \<Longrightarrow> key (xs ! 0) \<le> key x"
  by (metis heap_first in_set_conv_nth)

lemma heappop_spec:
  assumes h: "heap xs" and ne: "xs \<noteq> []" and r: "heappop lt xs = (x, ys)"
  shows "x = xs ! 0" "heap ys" "mset xs = add_mset x (mset ys)"
proof -
  obtain zs l where xs: "xs = zs @ [l]" using ne by (metis append_butlast_last_id)
  have *: "x = xs ! 0 \<and> heap ys \<and> mset xs = add_mset x (mset ys)"
  proof (cases zs)
    case Nil
    then show ?thesis using r xs by (simp add: heappop_def)
  next
    case (Cons z ws)
    have "heap_from (Suc 0) (l # ws)"
      unfolding heap_from_def
    proof (intro allI impI)
      fix i assume i: "0 < i" "i < length (l # ws)" "Suc 0 \<le> heap_parent i"
      moreover have "key (xs ! heap_parent i) \<le> key (xs ! i)"
        using h i xs Cons unfolding heap_from_def by (metis (no_types, lifting) length_Cons length_append le0 less_SucI list.size(3) One_nat_def add_Suc_right add_0_right)
      moreover have "(l # ws) ! j = xs ! j" if "0 < j" "j < length (l # ws)" for j
        using that Cons xs by (auto simp: nth_Cons' nth_append)
      ultimately show "key ((l # ws) ! heap_parent i) \<le> key ((l # ws) ! i)"
        using heap_parent_less [OF i(1)] by simp
    qed
    from siftup_spec [OF this]
    show ?thesis using r xs Cons by (auto simp: heappop_def)
  qed
  then show "x = xs ! 0" "heap ys" "mset xs = add_mset x (mset ys)" by auto
qed

lemma heapify_from_spec:
  "heap_from n xs \<Longrightarrow> n \<le> length xs \<Longrightarrow> heap (heapify_from lt n xs) \<and> mset (heapify_from lt n xs) = mset xs"
proof (induction n arbitrary: xs)
  case (Suc n)
  then show ?case using siftup_spec [of n xs] by simp
qed simp

lemma heapify_spec: "heap (heapify lt xs)" "mset (heapify lt xs) = mset xs"
proof -
  have "heap_from (length xs div 2) xs"
    unfolding heap_from_def by (auto simp: heap_parent_def)
  then show "heap (heapify lt xs)" "mset (heapify lt xs) = mset xs"
    using heapify_from_spec [of "length xs div 2" xs] unfolding heapify_def by auto
qed

end

end
