(* ===== verification/Mono_Time.thy ===== *)
theory Mono_Time
  imports Py_Prelude
begin

text \<open>
  The clock values of the program (\<^verbatim>\<open>Time/MonoTime.py\<close>, \<^verbatim>\<open>Math/recfilter.py\<close>): a reading of
  the monotonic clock paired with an estimate of the wall clock, the difference of the two
  being smoothed by a first-order recursive filter. The readings of the two system clocks are
  arguments; Python's floats are modelled by real numbers.
\<close>

section \<open>The recursive filter\<close>

record recfilter =
  lastval :: real
  flt_a :: real
  flt_b :: real

definition recfilter_init :: "real \<Rightarrow> real \<Rightarrow> recfilter" where
  "recfilter_init fcoef initval = \<lparr>lastval = initval, flt_a = 1 - fcoef, flt_b = fcoef\<rparr>"

definition recfilter_apply :: "recfilter \<Rightarrow> real \<Rightarrow> recfilter" where
  "recfilter_apply f x = f\<lparr>lastval := flt_a f * x + flt_b f * lastval f\<rparr>"

text \<open>A filter whose weights are a convex combination stays within the bounds of its inputs.\<close>

definition flt_convex :: "recfilter \<Rightarrow> bool" where
  "flt_convex f \<longleftrightarrow> 0 \<le> flt_a f \<and> 0 \<le> flt_b f \<and> flt_a f + flt_b f = 1"

lemma flt_convex_init: "0 \<le> c \<Longrightarrow> c \<le> 1 \<Longrightarrow> flt_convex (recfilter_init c x)"
  by (simp add: flt_convex_def recfilter_init_def)

lemma flt_convex_apply [simp]: "flt_convex (recfilter_apply f x) = flt_convex f"
  by (simp add: flt_convex_def recfilter_apply_def)

lemma recfilter_apply_bounds:
  assumes c: "flt_convex f" and b: "lo \<le> lastval f" "lastval f \<le> hi" "lo \<le> x" "x \<le> hi"
  shows "lo \<le> lastval (recfilter_apply f x)" "lastval (recfilter_apply f x) \<le> hi"
proof -
  have "flt_a f * lo + flt_b f * lo = lo" "flt_a f * hi + flt_b f * hi = hi"
    using c by (simp_all add: flt_convex_def flip: distrib_right)
  moreover have "flt_a f * lo \<le> flt_a f * x" "flt_b f * lo \<le> flt_b f * lastval f"
    "flt_a f * x \<le> flt_a f * hi" "flt_b f * lastval f \<le> flt_b f * hi"
    using c b by (simp_all add: flt_convex_def mult_left_mono)
  ultimately show "lo \<le> lastval (recfilter_apply f x)" "lastval (recfilter_apply f x) \<le> hi"
    by (simp_all add: recfilter_apply_def)
qed

section \<open>Clock values\<close>

record mono_globals =
  realt_flt :: recfilter
  monot_max :: real

record mono_time =
  monot :: real
  realt :: real

text \<open>\<open>MonoGlobals.__init__\<close>, from readings of the two clocks.\<close>

definition MonoGlobals_init :: "real \<Rightarrow> real \<Rightarrow> mono_globals" where
  "MonoGlobals_init rt mt = \<lparr>realt_flt = recfilter_init (99 / 100) (rt - mt), monot_max = mt\<rparr>"

text \<open>
  The branches of \<open>MonoTime.__init__\<close>: no argument (the current time), a monotonic time with
  or without a wall-clock time, and a wall-clock time alone.
\<close>

definition MonoTime_now :: "real \<Rightarrow> real \<Rightarrow> mono_globals \<Rightarrow> mono_time \<times> mono_globals" where
  "MonoTime_now rt mt g =
     (let f = recfilter_apply (realt_flt g) (rt - mt)
      in (\<lparr>monot = mt, realt = mt + lastval f\<rparr>,
          g\<lparr>realt_flt := f, monot_max := (if monot_max g < mt then mt else monot_max g)\<rparr>))"

definition MonoTime_monot :: "real \<Rightarrow> real option \<Rightarrow> mono_globals \<Rightarrow> mono_time" where
  "MonoTime_monot mt rt g =
     \<lparr>monot = mt, realt = (case rt of Some r \<Rightarrow> r | None \<Rightarrow> mt + lastval (realt_flt g))\<rparr>"

text \<open>\<open>__initFromRealt\<close>; \<open>monot_now\<close> is the clock reading it makes when it needs one.\<close>

definition MonoTime_realt :: "real \<Rightarrow> bool \<Rightarrow> real \<Rightarrow> mono_globals \<Rightarrow> mono_time \<times> mono_globals" where
  "MonoTime_realt rt trust_realt monot_now g =
     (let m = rt - lastval (realt_flt g)
      in if \<not> trust_realt \<and> monot_max g < m
         then let mx = (if monot_max g < monot_now then monot_now else monot_max g)
              in (\<lparr>monot = mx, realt = rt\<rparr>, g\<lparr>monot_max := mx\<rparr>)
         else (\<lparr>monot = m, realt = rt\<rparr>, g))"

definition getdiff :: "mono_time \<Rightarrow> real" where
  "getdiff m = realt m - monot m"

definition mt_lt :: "mono_time \<Rightarrow> mono_time \<Rightarrow> bool" where
  "mt_lt a b \<longleftrightarrow> monot a < monot b"

definition mt_gt :: "mono_time \<Rightarrow> mono_time \<Rightarrow> bool" where
  "mt_gt a b \<longleftrightarrow> monot b < monot a"

definition getOffsetCopy :: "mono_time \<Rightarrow> real \<Rightarrow> mono_time" where
  "getOffsetCopy m offst = \<lparr>monot = monot m + offst, realt = realt m + offst\<rparr>"

definition mt_offset :: "real \<Rightarrow> mono_time \<Rightarrow> mono_time" where
  "mt_offset offst m = m\<lparr>monot := monot m + offst, realt := realt m + offst\<rparr>"

definition offsetFromNow :: "real \<Rightarrow> mono_time \<Rightarrow> real" where
  "offsetFromNow now m = now - monot m"

lemma monot_getOffsetCopy [simp]: "monot (getOffsetCopy m r) = monot m + r"
  by (simp add: getOffsetCopy_def)

lemma monot_mt_offset [simp]: "monot (mt_offset r m) = monot m + r"
  by (simp add: mt_offset_def)

text \<open>Moving a time leaves the distance of its two clocks alone.\<close>

lemma getdiff_moves [simp]: "getdiff (getOffsetCopy m r) = getdiff m" "getdiff (mt_offset r m) = getdiff m"
  by (simp_all add: getdiff_def getOffsetCopy_def mt_offset_def)

text \<open>
  The times a sequence of clock readings gives. \<open>MonoTime_run\<close> makes them one after another.
\<close>

fun MonoTime_run :: "(real \<times> real) list \<Rightarrow> mono_globals \<Rightarrow> mono_time list \<times> mono_globals" where
  "MonoTime_run [] g = ([], g)"
| "MonoTime_run ((rt, mt) # rs) g =
     (let (m, g1) = MonoTime_now rt mt g; (ms, g2) = MonoTime_run rs g1 in (m # ms, g2))"

lemma MonoTime_run_bounds:
  assumes "flt_convex (realt_flt g)" "lo \<le> lastval (realt_flt g)" "lastval (realt_flt g) \<le> hi"
    and "list_all (\<lambda>(rt, mt). lo \<le> rt - mt \<and> rt - mt \<le> hi) rs"
  shows "list_all (\<lambda>m. lo \<le> getdiff m \<and> getdiff m \<le> hi) (fst (MonoTime_run rs g))"
  using assms
proof (induction rs g rule: MonoTime_run.induct)
  case (2 rt mt rs g)
  have b: "lo \<le> lastval (recfilter_apply (realt_flt g) (rt - mt))"
    "lastval (recfilter_apply (realt_flt g) (rt - mt)) \<le> hi"
    using recfilter_apply_bounds [OF "2.prems"(1,2,3), of "rt - mt"] "2.prems"(4) by simp_all
  obtain m g1 where r: "MonoTime_now rt mt g = (m, g1)" by fastforce
  then have g1: "realt_flt g1 = recfilter_apply (realt_flt g) (rt - mt)" and m: "getdiff m = lastval (realt_flt g1)"
    by (auto simp: MonoTime_now_def getdiff_def Let_def)
  have "list_all (\<lambda>m. lo \<le> getdiff m \<and> getdiff m \<le> hi) (fst (MonoTime_run rs g1))"
    using "2.prems" b by (intro "2.IH" [OF r [symmetric] refl]) (simp_all add: g1)
  then show ?case using b by (auto simp: r m g1 split: prod.split)
qed simp

end
