(* ===== verification/Event_Loop.thy ===== *)
theory Event_Loop
  imports Heapq Mono_Time
begin

text \<open>
  The event loop (\<^verbatim>\<open>Core/EventDispatcher.py\<close>) and the timers made on it
  (\<^verbatim>\<open>Time/Timeout.py\<close>). Listener objects live in a store, the list \<open>els\<close>; a listener is
  its index there, so that the heap of timers, the list of signal listeners and the callbacks
  share them. The callbacks are code of the program's other parts: the parameter \<open>run\<close> says
  for each of them, in the dispatcher's state, which calls into the dispatcher it makes and
  how it ends. The field \<open>calls\<close> is a record of the callbacks made, for the statements of the
  theorems; the field \<open>world\<close> is the state of the rest of the program, which only callbacks
  change; \<open>rnds\<close> is the sequence of numbers that \<^verbatim>\<open>random()\<close> will give.
\<close>

section \<open>State\<close>

datatype ed_attr = Ed_Unset | Ed_None | Ed_Self

datatype ival = Secs real | At mono_time

record 'c event_listener =
  etime :: "mono_time option"
  cb_func :: "'c option"
  cb_with_ts :: bool
  randomize_runs :: "real option"
  itime :: "mono_time option"
  el_ival :: "ival option"
  nticks :: "int option"
  abs_time :: bool
  el_ed :: ed_attr
  signum :: "int option"

datatype call = Timer_Call nat mono_time mono_time | Signal_Call nat int | Thread_Call

record ('c, 'w) dispatcher =
  els :: "'c event_listener list"
  tlisteners :: "nat list"
  slisteners :: "nat list"
  endloop :: bool
  el_rval :: "int option"
  signals_pending :: "int list"
  twasted :: int
  last_ts :: mono_time
  handlers :: "int list"
  bands :: "(real \<times> int) list"
  ed_exception :: "exn option"
  world :: 'w
  rnds :: "nat \<Rightarrow> real"
  calls :: "call list"

abbreviation el :: "('c, 'w) dispatcher \<Rightarrow> nat \<Rightarrow> 'c event_listener" where
  "el d i \<equiv> els d ! i"

definition upd_el :: "nat \<Rightarrow> ('c event_listener \<Rightarrow> 'c event_listener) \<Rightarrow> ('c, 'w) dispatcher \<Rightarrow> ('c, 'w) dispatcher" where
  "upd_el i f d = d\<lparr>els := (els d)[i := f (els d ! i)]\<rparr>"

text \<open>A freshly constructed listener: the class attributes and what \<open>regTimer\<close> sets.\<close>

definition EventListener_new :: "'c event_listener" where
  "EventListener_new = \<lparr>etime = None, cb_func = None, cb_with_ts = False, randomize_runs = None,
     itime = None, el_ival = None, nticks = None, abs_time = False, el_ed = Ed_Unset, signum = None\<rparr>"

definition EventDispatcher2_init :: "real \<Rightarrow> mono_time \<Rightarrow> 'w \<Rightarrow> (nat \<Rightarrow> real) \<Rightarrow> ('c, 'w) dispatcher" where
  "EventDispatcher2_init freq now w rs =
     \<lparr>els = [], tlisteners = [], slisteners = [], endloop = False, el_rval = None,
      signals_pending = [], twasted = 0, last_ts = now, handlers = [], bands = [(freq, 0)],
      ed_exception = None, world = w, rnds = rs, calls = []\<rparr>"

section \<open>Listeners\<close>

text \<open>\<open>__lt__\<close> and the heap of timers. Timers in the heap have a time.\<close>

definition el_key :: "('c, 'w) dispatcher \<Rightarrow> nat \<Rightarrow> real" where
  "el_key d i = (case etime (el d i) of Some t \<Rightarrow> monot t | None \<Rightarrow> 0)"

definition el_lt :: "('c, 'w) dispatcher \<Rightarrow> nat \<Rightarrow> nat \<Rightarrow> bool" where
  "el_lt d i j \<longleftrightarrow> el_key d i < el_key d j"

definition el_cleanup :: "nat \<Rightarrow> ('c, 'w) dispatcher \<Rightarrow> ('c, 'w) dispatcher" where
  "el_cleanup i = upd_el i (\<lambda>e. e\<lparr>cb_func := None, el_ed := Ed_None, randomize_runs := None\<rparr>)"

definition el_cancel :: "nat \<Rightarrow> (('c, 'w) dispatcher, 'r) stmt" where
  "el_cancel i d =
     (case el_ed (el d i) of
        Ed_Unset \<Rightarrow> Raise AttributeError d
      | Ed_Self \<Rightarrow> Next (el_cleanup i (d\<lparr>twasted := twasted d + 1\<rparr>))
      | Ed_None \<Rightarrow> Next (el_cleanup i d))"

text \<open>\<open>get_randomizer\<close>: \<open>x * (1 + p * (1 - 2 * random()))\<close>; \<open>spread_runs\<close> keeps \<open>p\<close>.\<close>

definition randomizer :: "real \<Rightarrow> real \<Rightarrow> real \<Rightarrow> real" where
  "randomizer p x r = x * (1 + p * (1 - 2 * r))"

definition spread_runs :: "nat \<Rightarrow> real \<Rightarrow> ('c, 'w) dispatcher \<Rightarrow> ('c, 'w) dispatcher" where
  "spread_runs i p = upd_el i (\<lambda>e. e\<lparr>randomize_runs := Some p\<rparr>)"

text \<open>
  The interval to the next run: randomised when the listener has a randomiser. A time in the
  place of an interval is added by its monotonic part, but cannot be randomised.
\<close>

definition next_ival :: "nat \<Rightarrow> ('c, 'w) dispatcher \<Rightarrow> exn + real \<times> ('c, 'w) dispatcher" where
  "next_ival i d =
     (case el_ival (el d i) of
        None \<Rightarrow> Inl TypeError
      | Some (At t) \<Rightarrow> if randomize_runs (el d i) = None then Inr (monot t, d) else Inl TypeError
      | Some (Secs x) \<Rightarrow>
          (case randomize_runs (el d i) of
             None \<Rightarrow> Inr (x, d)
           | Some p \<Rightarrow> Inr (randomizer p x (rnds d 0), d\<lparr>rnds := \<lambda>n. rnds d (Suc n)\<rparr>)))"

definition push_timer :: "nat \<Rightarrow> ('c, 'w) dispatcher \<Rightarrow> ('c, 'w) dispatcher" where
  "push_timer i d = d\<lparr>tlisteners := heappush (el_lt d) (tlisteners d) i\<rparr>"

text \<open>
  \<open>go\<close> (the message it prints when called from another thread is left out). A second \<open>go\<close> of a
  timer with an absolute time has no time left to queue it by and fails in the comparison of
  the heap.
\<close>

definition el_go :: "nat \<Rightarrow> (('c, 'w) dispatcher, 'r) stmt" where
  "el_go i d =
     (if el_ed (el d i) \<noteq> Ed_Self then Raise AttributeError d
      else if \<not> abs_time (el d i) then
        (case itime (el d i) of
           None \<Rightarrow> Raise AttributeError d
         | Some t \<Rightarrow>
             (case next_ival i d of
                Inl x \<Rightarrow> Raise x d
              | Inr (v, d1) \<Rightarrow> Next (push_timer i (upd_el i (\<lambda>e. e\<lparr>etime := Some (getOffsetCopy t v)\<rparr>) d1))))
      else
        (case el_ival (el d i) of
           Some (At t) \<Rightarrow>
             Next (push_timer i (upd_el i (\<lambda>e. e\<lparr>etime := Some t, el_ival := None, nticks := Some 1\<rparr>) d))
         | _ \<Rightarrow> Raise AttributeError d))"

section \<open>Registration\<close>

text \<open>\<open>regTimer\<close>; the first argument is the reading of the clock that it makes.\<close>

definition regTimer ::
  "mono_time \<Rightarrow> 'c \<Rightarrow> ival \<Rightarrow> int option \<Rightarrow> bool \<Rightarrow> (('c, 'w) dispatcher, nat option) stmt" where
  "regTimer now cb iv nt is_abs d0 =
     (let d = d0\<lparr>last_ts := now\<rparr>
      in if nt = Some 0 then Return None d
         else if is_abs \<and> (case iv of At _ \<Rightarrow> False | Secs _ \<Rightarrow> True) then Raise TypeError d
         else Return (Some (length (els d)))
                (d\<lparr>els := els d @ [EventListener_new\<lparr>itime := Some now, cb_func := Some cb,
                     el_ival := Some iv, nticks := nt, abs_time := is_abs, el_ed := Ed_Self\<rparr>]\<rparr>))"

text \<open>\<open>Timeout\<close>, \<open>TimeoutInact\<close>, \<open>TimeoutAbsMono\<close>.\<close>

definition reg_and_go :: "(('c, 'w) dispatcher, nat option) stmt \<Rightarrow> (('c, 'w) dispatcher, nat option) stmt" where
  "reg_and_go reg = call None reg (\<lambda>r. case r of
      None \<Rightarrow> raise AttributeError
    | Some i \<Rightarrow> block [el_go i, ret (Some i)])"

definition Timeout :: "mono_time \<Rightarrow> 'c \<Rightarrow> ival \<Rightarrow> int option \<Rightarrow> (('c, 'w) dispatcher, nat option) stmt" where
  "Timeout now cb iv nt = reg_and_go (regTimer now cb iv nt False)"

definition TimeoutInact :: "mono_time \<Rightarrow> 'c \<Rightarrow> ival \<Rightarrow> int option \<Rightarrow> (('c, 'w) dispatcher, nat option) stmt" where
  "TimeoutInact now cb iv nt = regTimer now cb iv nt False"

definition TimeoutAbsMono :: "mono_time \<Rightarrow> 'c \<Rightarrow> ival \<Rightarrow> (('c, 'w) dispatcher, nat option) stmt" where
  "TimeoutAbsMono now cb mtime =
     (case mtime of Secs _ \<Rightarrow> raise TypeError | At _ \<Rightarrow> reg_and_go (regTimer now cb mtime None True))"

definition sig_listeners :: "('c, 'w) dispatcher \<Rightarrow> int \<Rightarrow> nat list" where
  "sig_listeners d sn = filter (\<lambda>i. signum (el d i) = Some sn) (slisteners d)"

text \<open>\<open>regSignal\<close> and \<open>unregSignal\<close>; \<open>handlers\<close> are the signals whose handler is \<open>signal\<close> below.\<close>

definition regSignal :: "int \<Rightarrow> 'c \<Rightarrow> (('c, 'w) dispatcher, nat option) stmt" where
  "regSignal sn cb d =
     Return (Some (length (els d)))
       (d\<lparr>handlers := (if sig_listeners d sn = [] then List.insert sn (handlers d) else handlers d),
          els := els d @ [EventListener_new\<lparr>signum := Some sn, cb_func := Some cb\<rparr>],
          slisteners := slisteners d @ [length (els d)]\<rparr>)"

definition unregSignal :: "nat \<Rightarrow> (('c, 'w) dispatcher, 'r) stmt" where
  "unregSignal i d =
     (if i \<notin> set (slisteners d) then Raise ValueError d
      else let d1 = d\<lparr>slisteners := remove1 i (slisteners d)\<rparr>;
               sn = the (signum (el d i));
               d2 = (if sig_listeners d1 sn = [] then d1\<lparr>handlers := removeAll sn (handlers d1)\<rparr> else d1)
           in Next (el_cleanup i d2))"

text \<open>\<open>signal\<close>, the handler; a signal with no handler of the dispatcher takes its default action.\<close>

definition ed_signal :: "int \<Rightarrow> ('c, 'w) dispatcher \<Rightarrow> ('c, 'w) dispatcher" where
  "ed_signal sn d = (if sn \<in> set (handlers d) then d\<lparr>signals_pending := signals_pending d @ [sn]\<rparr> else d)"

definition breakLoop :: "int \<Rightarrow> ('c, 'w) dispatcher \<Rightarrow> ('c, 'w) dispatcher" where
  "breakLoop rv d = d\<lparr>endloop := True, el_rval := Some rv\<rparr>"

section \<open>Callbacks\<close>

text \<open>
  What a callback does to the dispatcher: a sequence of calls, one of which may raise, which
  ends the callback. It may also end by an exception of its own, or by an exit
  (\<^verbatim>\<open>SystemExit\<close>, \<^verbatim>\<open>KeyboardInterrupt\<close>), which the loop does not catch.
\<close>

datatype 'c ed_op =
    Op_Timeout mono_time 'c ival "int option"
  | Op_TimeoutInact mono_time 'c ival "int option"
  | Op_TimeoutAbsMono mono_time 'c ival
  | Op_Go nat
  | Op_Cancel nat
  | Op_SpreadRuns nat real
  | Op_WithTs nat
  | Op_RegSignal int 'c
  | Op_UnregSignal nat
  | Op_Signal int
  | Op_BreakLoop int

fun do_op :: "'c ed_op \<Rightarrow> (('c, 'w) dispatcher, nat option) stmt" where
  "do_op (Op_Timeout now cb iv nt) = Timeout now cb iv nt"
| "do_op (Op_TimeoutInact now cb iv nt) = TimeoutInact now cb iv nt"
| "do_op (Op_TimeoutAbsMono now cb mt) = TimeoutAbsMono now cb mt"
| "do_op (Op_Go i) = el_go i"
| "do_op (Op_Cancel i) = el_cancel i"
| "do_op (Op_SpreadRuns i p) = upd (spread_runs i p)"
| "do_op (Op_WithTs i) = upd (upd_el i (\<lambda>e. e\<lparr>cb_with_ts := True\<rparr>))"
| "do_op (Op_RegSignal sn cb) = regSignal sn cb"
| "do_op (Op_UnregSignal i) = unregSignal i"
| "do_op (Op_Signal sn) = upd (ed_signal sn)"
| "do_op (Op_BreakLoop rv) = upd (breakLoop rv)"

datatype cb_end = Cb_Return | Cb_Raise | Cb_Exit exn

type_synonym ('c, 'w) runner = "'c \<Rightarrow> mono_time option \<Rightarrow> ('c, 'w) dispatcher \<Rightarrow> 'w \<times> 'c ed_op list \<times> cb_end"

fun run_ops :: "'c ed_op list \<Rightarrow> ('c, 'w) dispatcher \<Rightarrow> bool \<times> ('c, 'w) dispatcher" where
  "run_ops [] d = (True, d)"
| "run_ops (op # ops) d =
     (case do_op op d of Raise _ d1 \<Rightarrow> (False, d1) | Next d1 \<Rightarrow> run_ops ops d1 | Return _ d1 \<Rightarrow> run_ops ops d1)"

text \<open>One callback, with its entry in \<open>calls\<close>.\<close>

definition invoke :: "('c, 'w) runner \<Rightarrow> call \<Rightarrow> 'c \<Rightarrow> mono_time option \<Rightarrow> ('c, 'w) dispatcher \<Rightarrow> cb_end \<times> ('c, 'w) dispatcher" where
  "invoke run c cb ts d0 =
     (let d = d0\<lparr>calls := calls d0 @ [c]\<rparr>
      in case run cb ts d of (w, ops, e) \<Rightarrow>
           (case run_ops ops d of (ok, d1) \<Rightarrow> (if ok then e else Cb_Raise, d1\<lparr>world := w\<rparr>)))"

section \<open>Dispatch\<close>

text \<open>Re-scheduling of a periodic timer that has been popped; the flag is the local \<open>cleanup\<close>.\<close>

definition rearm :: "nat \<Rightarrow> ('c, 'w) dispatcher \<Rightarrow> (exn \<times> ('c, 'w) dispatcher) + (bool \<times> ('c, 'w) dispatcher)" where
  "rearm i d =
     (case nticks (el d i) of
        None \<Rightarrow> Inl (TypeError, d)
      | Some n \<Rightarrow>
          if n = -1 \<or> 1 < n then
            let d1 = (if 1 < n then upd_el i (\<lambda>e. e\<lparr>nticks := Some (n - 1)\<rparr>) d else d)
            in (case next_ival i d1 of
                  Inl x \<Rightarrow> Inl (x, d1)
                | Inr (v, d2) \<Rightarrow>
                    Inr (False, push_timer i (upd_el i (\<lambda>e. e\<lparr>etime := map_option (mt_offset v) (etime e)\<rparr>) d2)))
          else Inr (True, d))"

datatype ('c, 'w) progress =
    Again "('c, 'w) dispatcher"
  | Done "(('c, 'w) dispatcher, unit) outcome"

text \<open>The body of the loop of \<open>dispatchTimers\<close>.\<close>

definition timer_step :: "('c, 'w) runner \<Rightarrow> ('c, 'w) dispatcher \<Rightarrow> ('c, 'w) progress" where
  "timer_step run d =
     (if tlisteners d = [] then Done (Next d)
      else let top = tlisteners d ! 0
      in if cb_func (el d top) \<noteq> None \<and> monot (last_ts d) < el_key d top then Done (Next d)
      else case heappop (el_lt d) (tlisteners d) of (i, h) \<Rightarrow>
        let d1 = d\<lparr>tlisteners := h\<rparr>
        in case cb_func (el d1 i) of
             None \<Rightarrow> Again (d1\<lparr>twasted := twasted d1 - 1\<rparr>)
           | Some cb \<Rightarrow>
               (case rearm i d1 of
                  Inl (x, d2) \<Rightarrow> Done (Raise x d2)
                | Inr (cleanup, d2) \<Rightarrow>
                    (case invoke run (Timer_Call i (the (etime (el d i))) (last_ts d)) cb
                            (if cb_with_ts (el d2 i) then Some (last_ts d2) else None) d2 of
                       (Cb_Exit x, d3) \<Rightarrow> Done (Raise x d3)
                     | (_, d3) \<Rightarrow>
                         if endloop d3 then Done (Next d3)
                         else Again (if cleanup then el_cleanup i d3 else d3))))"

partial_function (option) dispatchTimers ::
  "('c, 'w) runner \<Rightarrow> ('c, 'w) dispatcher \<Rightarrow> (('c, 'w) dispatcher, unit) outcome option" where
  "dispatchTimers run d = (case timer_step run d of Again d1 \<Rightarrow> dispatchTimers run d1 | Done r \<Rightarrow> Some r)"

text \<open>The listeners of one pending signal; each is called if it is still registered.\<close>

fun signal_calls :: "('c, 'w) runner \<Rightarrow> int \<Rightarrow> nat list \<Rightarrow> ('c, 'w) dispatcher \<Rightarrow> (('c, 'w) dispatcher, unit) outcome" where
  "signal_calls run sn [] d = Next d"
| "signal_calls run sn (i # is) d =
     (if i \<notin> set (slisteners d) then signal_calls run sn is d
      else case cb_func (el d i) of
             None \<Rightarrow> signal_calls run sn is d
           | Some cb \<Rightarrow>
               (case invoke run (Signal_Call i sn) cb None d of
                  (Cb_Exit x, d1) \<Rightarrow> Raise x d1
                | (_, d1) \<Rightarrow> if endloop d1 then Return () d1 else signal_calls run sn is d1))"

partial_function (option) dispatchSignals ::
  "('c, 'w) runner \<Rightarrow> ('c, 'w) dispatcher \<Rightarrow> (('c, 'w) dispatcher, unit) outcome option" where
  "dispatchSignals run d =
     (case signals_pending d of
        [] \<Rightarrow> Some (Next d)
      | sn # rest \<Rightarrow>
          (case signal_calls run sn (sig_listeners d sn) (d\<lparr>signals_pending := rest\<rparr>) of
             Next d1 \<Rightarrow> dispatchSignals run d1
           | Return u d1 \<Rightarrow> Some (Next d1)
           | Raise x d1 \<Rightarrow> Some (Raise x d1)))"

text \<open>\<open>dispatchThreadCallback\<close>.\<close>

definition dispatchThreadCallback :: "('c, 'w) runner \<Rightarrow> 'c \<Rightarrow> ('c, 'w) dispatcher \<Rightarrow> ('c, 'w) dispatcher" where
  "dispatchThreadCallback run cb d =
     (case invoke run Thread_Call cb None d of
        (Cb_Exit x, d1) \<Rightarrow> d1\<lparr>ed_exception := Some x\<rparr>
      | (_, d1) \<Rightarrow> d1)"

section \<open>The loop\<close>

text \<open>The removal of cancelled timers when their share is more than a half.\<close>

definition compact_timers :: "('c, 'w) dispatcher \<Rightarrow> ('c, 'w) dispatcher" where
  "compact_timers d =
     (if int (length (tlisteners d)) < twasted d * 2
      then d\<lparr>tlisteners := heapify (el_lt d) (filter (\<lambda>i. cb_func (el d i) \<noteq> None) (tlisteners d)), twasted := 0\<rparr>
      else d)"

text \<open>
  \<open>useband\<close>: the choice of the loop frequency, where \<open>addband\<close> is the library's, which gives
  the number of a new band.
\<close>

definition useband :: "(real \<Rightarrow> int) \<Rightarrow> real option \<Rightarrow> ('c, 'w) dispatcher \<Rightarrow> ('c, 'w) dispatcher" where
  "useband addband freq d =
     (case freq of
        None \<Rightarrow> d
      | Some f \<Rightarrow>
          if fst (hd (bands d)) = f then d
          else case find (\<lambda>fb. fst fb = f) (bands d) of
                 Some fb \<Rightarrow> d\<lparr>bands := fb # remove1 fb (bands d)\<rparr>
               | None \<Rightarrow> d\<lparr>bands := (f, addband f) # bands d\<rparr>)"

text \<open>
  One sleep of the loop (\<^verbatim>\<open>procrastinate\<close> of the library that paces it): the callbacks that
  other threads have asked for and the signals that arrive run there, and the clock is read.
\<close>

record 'c pause =
  p_calls :: "'c list"
  p_signals :: "int list"
  p_now :: mono_time

definition procrastinate :: "('c, 'w) runner \<Rightarrow> 'c pause \<Rightarrow> ('c, 'w) dispatcher \<Rightarrow> ('c, 'w) dispatcher" where
  "procrastinate run p d =
     (fold ed_signal (p_signals p) (fold (dispatchThreadCallback run) (p_calls p) d))\<lparr>last_ts := p_now p\<rparr>"

definition loop_start :: "(real \<Rightarrow> int) \<Rightarrow> real option \<Rightarrow> mono_time \<Rightarrow> ('c, 'w) dispatcher \<Rightarrow> ('c, 'w) dispatcher" where
  "loop_start addband freq now d = (useband addband freq d)\<lparr>endloop := False, last_ts := now\<rparr>"

text \<open>One turn of \<open>while True\<close> in \<open>loop\<close>, up to the sleep.\<close>

definition loop_turn ::
  "('c, 'w) runner \<Rightarrow> mono_time option \<Rightarrow> ('c, 'w) dispatcher \<Rightarrow> ('c, 'w) progress option" where
  "loop_turn run etm d =
     (case dispatchSignals run d of
        None \<Rightarrow> None
      | Some (Raise x d1) \<Rightarrow> Some (Done (Raise x d1))
      | Some (Return _ d1) \<Rightarrow> None
      | Some (Next d1) \<Rightarrow>
          if endloop d1 then Some (Done (Next d1))
          else
            (case dispatchTimers run d1 of
               None \<Rightarrow> None
             | Some (Raise x d2) \<Rightarrow> Some (Done (Raise x d2))
             | Some (Return _ d2) \<Rightarrow> None
             | Some (Next d2) \<Rightarrow>
                 if endloop d2 then Some (Done (Next d2))
                 else let d3 = compact_timers d2
                      in if (case etm of None \<Rightarrow> False | Some t \<Rightarrow> mt_gt (last_ts d3) t)
                         then Some (Done (Next (d3\<lparr>endloop := False\<rparr>)))
                         else Some (Again d3)))"

text \<open>\<open>loop\<close>, over the sleeps that it makes; a finite list of them stands for a run that goes on.\<close>

fun ed_loop ::
  "('c, 'w) runner \<Rightarrow> mono_time option \<Rightarrow> 'c pause list \<Rightarrow> ('c, 'w) dispatcher \<Rightarrow> ('c, 'w) progress option" where
  "ed_loop run etm ps d =
     (case loop_turn run etm d of
        None \<Rightarrow> None
      | Some (Done r) \<Rightarrow> Some (Done r)
      | Some (Again d1) \<Rightarrow>
          (case ps of
             [] \<Rightarrow> Some (Again d1)
           | p # ps \<Rightarrow>
               let d2 = procrastinate run p d1
               in (case ed_exception d2 of
                     Some x \<Rightarrow> Some (Done (Raise x (d2\<lparr>ed_exception := None\<rparr>)))
                   | None \<Rightarrow> ed_loop run etm ps d2)))"

declare ed_loop.simps [simp del]

end
