(* ===== verification/Event_Inv.thy ===== *)
theory Event_Inv
  imports Event_Loop
begin

text \<open>
  The invariant of the event loop: the heap of timers is a heap without repetitions, the
  counter of cancelled timers is at least the number of them in the heap, and the signal
  handlers installed are those of the registered listeners. Every call into the dispatcher
  keeps it, and so does every step of the dispatch. The theory also says what the callbacks may
  change (\<open>grows\<close>) when they keep to the contract \<open>op_ok\<close>: a timer is started once, in the
  future, and the clock does not go back.
\<close>

interpretation timers: keyed_heap "el_lt d" "el_key d" for d :: "('c, 'w) dispatcher"
  by unfold_locales (simp add: el_lt_def)

abbreviation timer_heap :: "('c, 'w) dispatcher \<Rightarrow> nat list \<Rightarrow> bool" where
  "timer_heap d \<equiv> keyed_heap.heap_from (el_key d) 0"

lemma timer_heap_mono:
  assumes h: "timer_heap d xs" and k: "\<And>i. i \<in> set xs \<Longrightarrow> el_key d i = el_key d' i"
  shows "timer_heap d' xs"
  unfolding timers.heap_from_def
proof (intro allI impI)
  fix i assume i: "0 < i" "i < length xs"
  then have "el_key d' (xs ! heap_parent i) = el_key d (xs ! heap_parent i)" "el_key d' (xs ! i) = el_key d (xs ! i)"
    using k heap_parent_less [OF i(1)] by simp_all
  then show "el_key d' (xs ! heap_parent i) \<le> el_key d' (xs ! i)"
    using h i unfolding timers.heap_from_def by simp
qed

lemma timer_heap_cong: "(\<And>i. i \<in> set xs \<Longrightarrow> el_key d i = el_key d' i) \<Longrightarrow> timer_heap d xs = timer_heap d' xs"
  using timer_heap_mono [of d xs d'] timer_heap_mono [of d' xs d] by (intro iffI) simp_all

section \<open>The invariant\<close>

definition dead_timers :: "('c, 'w) dispatcher \<Rightarrow> nat list" where
  "dead_timers d = filter (\<lambda>i. cb_func (el d i) = None) (tlisteners d)"

definition timers_inv :: "('c, 'w) dispatcher \<Rightarrow> bool" where
  "timers_inv d \<longleftrightarrow> timer_heap d (tlisteners d) \<and> distinct (tlisteners d)
     \<and> (\<forall>i\<in>set (tlisteners d). i < length (els d) \<and> etime (el d i) \<noteq> None \<and> el_ed (el d i) \<noteq> Ed_Unset)
     \<and> int (length (dead_timers d)) \<le> twasted d"

definition listeners_inv :: "('c, 'w) dispatcher \<Rightarrow> bool" where
  "listeners_inv d \<longleftrightarrow> (\<forall>i < length (els d).
     (el_ed (el d i) = Ed_None \<longrightarrow> cb_func (el d i) = None) \<and> (el_ed (el d i) = Ed_Self \<longrightarrow> cb_func (el d i) \<noteq> None \<and> signum (el d i) = None))"

definition signals_inv :: "('c, 'w) dispatcher \<Rightarrow> bool" where
  "signals_inv d \<longleftrightarrow> distinct (slisteners d)
     \<and> (\<forall>i\<in>set (slisteners d). i < length (els d) \<and> signum (el d i) \<noteq> None \<and> etime (el d i) = None
          \<and> el_ed (el d i) = Ed_Unset)
     \<and> set (handlers d) = {sn. sig_listeners d sn \<noteq> []}"

definition ed_inv :: "('c, 'w) dispatcher \<Rightarrow> bool" where
  "ed_inv d \<longleftrightarrow> timers_inv d \<and> listeners_inv d \<and> signals_inv d"

lemma length_dead: "length (dead_timers d) = size (filter_mset (\<lambda>i. cb_func (el d i) = None) (mset (tlisteners d)))"
  unfolding dead_timers_def by (metis mset_filter size_mset)

lemma ed_invD:
  assumes "ed_inv d"
  shows "timers_inv d" "listeners_inv d" "signals_inv d"
  using assms by (simp_all add: ed_inv_def)

subsection \<open>Changes that the invariant does not see\<close>

lemma el_upd [simp]: "el (upd_el i f d) j = (if i = j \<and> j < length (els d) then f (el d j) else el d j)"
  by (cases "i = j"; cases "j < length (els d)") (auto simp: upd_el_def list_update_beyond)

lemma upd_el_fields [simp]:
  "tlisteners (upd_el i f d) = tlisteners d" "slisteners (upd_el i f d) = slisteners d"
  "twasted (upd_el i f d) = twasted d" "handlers (upd_el i f d) = handlers d"
  "length (els (upd_el i f d)) = length (els d)" "last_ts (upd_el i f d) = last_ts d"
  "calls (upd_el i f d) = calls d" "rnds (upd_el i f d) = rnds d" "endloop (upd_el i f d) = endloop d"
  by (simp_all add: upd_el_def)

definition same_shape :: "('c, 'w) dispatcher \<Rightarrow> ('c, 'w) dispatcher \<Rightarrow> bool" where
  "same_shape d d' \<longleftrightarrow> tlisteners d' = tlisteners d \<and> slisteners d' = slisteners d \<and> twasted d' = twasted d
     \<and> handlers d' = handlers d \<and> length (els d') = length (els d)
     \<and> (\<forall>i < length (els d). etime (el d' i) = etime (el d i) \<and> cb_func (el d' i) = cb_func (el d i)
          \<and> el_ed (el d' i) = el_ed (el d i) \<and> signum (el d' i) = signum (el d i))"

lemma sig_listeners_cong:
  "slisteners d' = slisteners d \<Longrightarrow> (\<And>i. i \<in> set (slisteners d) \<Longrightarrow> signum (el d' i) = signum (el d i)) \<Longrightarrow>
   sig_listeners d' = sig_listeners d"
  by (rule ext) (auto simp: sig_listeners_def intro: filter_cong)

lemma same_shape_inv:
  assumes s: "same_shape d d'" and i: "ed_inv d"
  shows "ed_inv d'"
proof -
  have sl: "sig_listeners d' = sig_listeners d"
    using s i by (intro sig_listeners_cong) (auto simp: same_shape_def ed_inv_def signals_inv_def)
  have k: "timer_heap d' (tlisteners d') = timer_heap d (tlisteners d)"
    using s i by (subst timer_heap_cong [of _ d' d])
      (auto simp: same_shape_def el_key_def ed_inv_def timers_inv_def)
  have dd: "dead_timers d' = dead_timers d"
    using s i by (auto simp: same_shape_def dead_timers_def ed_inv_def timers_inv_def intro: filter_cong)
  show ?thesis
    using s i k dd sl unfolding ed_inv_def timers_inv_def listeners_inv_def signals_inv_def same_shape_def
    by auto
qed

subsection \<open>A new listener\<close>

lemma el_append [simp]: "i < length (els d) \<Longrightarrow> (els d @ es) ! i = els d ! i"
  by (simp add: nth_append)

lemma inv_new_timer:
  assumes i: "ed_inv d" and n: "el_ed e = Ed_Self" "cb_func e \<noteq> None" "signum e = None"
  shows "ed_inv (d\<lparr>els := els d @ [e]\<rparr>)"
proof -
  let ?d = "d\<lparr>els := els d @ [e]\<rparr>"
  have sl: "sig_listeners ?d = sig_listeners d"
    using i by (intro sig_listeners_cong) (auto simp: ed_inv_def signals_inv_def)
  have k: "timer_heap ?d (tlisteners d) = timer_heap d (tlisteners d)"
    using i by (intro timer_heap_cong) (auto simp: el_key_def ed_inv_def timers_inv_def)
  have dd: "dead_timers ?d = dead_timers d"
    using i by (auto simp: dead_timers_def ed_inv_def timers_inv_def intro: filter_cong)
  show ?thesis
    using i k dd sl n unfolding ed_inv_def timers_inv_def listeners_inv_def signals_inv_def
    by (auto simp: nth_append less_Suc_eq)
qed

lemma inv_new_signal:
  assumes i: "ed_inv d" and r: "regSignal sn cb d = Return v d'"
  shows "ed_inv d'"
proof -
  let ?e = "EventListener_new\<lparr>signum := Some sn, cb_func := Some cb\<rparr>"
  have d': "els d' = els d @ [?e]" "slisteners d' = slisteners d @ [length (els d)]"
    "tlisteners d' = tlisteners d" "twasted d' = twasted d"
    "set (handlers d') = (if sig_listeners d sn = [] then insert sn (set (handlers d)) else set (handlers d))"
    using r by (auto simp: regSignal_def)
  have sl: "sig_listeners d' n = sig_listeners d n @ (if n = sn then [length (els d)] else [])" for n
  proof -
    have "filter (\<lambda>i. signum (el d' i) = Some n) (slisteners d) = filter (\<lambda>i. signum (el d i) = Some n) (slisteners d)"
      using i by (intro filter_cong) (auto simp: d' ed_inv_def signals_inv_def)
    then show ?thesis by (auto simp: sig_listeners_def d' EventListener_new_def)
  qed
  have k: "timer_heap d' (tlisteners d) = timer_heap d (tlisteners d)"
    using i by (intro timer_heap_cong) (auto simp: el_key_def ed_inv_def timers_inv_def d')
  have dd: "dead_timers d' = dead_timers d"
    using i by (auto simp: dead_timers_def ed_inv_def timers_inv_def d' intro: filter_cong)
  have "timers_inv d'"
    using i k dd unfolding ed_inv_def timers_inv_def by (auto simp: d')
  moreover have "listeners_inv d'"
    using i unfolding ed_inv_def listeners_inv_def by (auto simp: d' nth_append less_Suc_eq EventListener_new_def)
  moreover have "signals_inv d'"
    using i sl unfolding ed_inv_def signals_inv_def by (auto simp: d' nth_append EventListener_new_def)
  ultimately show ?thesis by (simp add: ed_inv_def)
qed

subsection \<open>Starting a timer\<close>

lemma push_timer_fields [simp]:
  "els (push_timer i d) = els d" "slisteners (push_timer i d) = slisteners d"
  "twasted (push_timer i d) = twasted d" "handlers (push_timer i d) = handlers d"
  "last_ts (push_timer i d) = last_ts d" "calls (push_timer i d) = calls d" "rnds (push_timer i d) = rnds d"
  "mset (tlisteners (push_timer i d)) = add_mset i (mset (tlisteners d))" "endloop (push_timer i d) = endloop d"
  by (simp_all add: push_timer_def)

lemma set_push_timer [simp]: "set (tlisteners (push_timer i d)) = insert i (set (tlisteners d))"
  by (simp add: push_timer_def)

lemma el_key_push [simp]: "el_key (push_timer i d) = el_key d"
  by (rule ext) (simp add: el_key_def)

lemma inv_start:
  assumes i: "ed_inv d" and j: "j < length (els d)" "j \<notin> set (tlisteners d)" "el_ed (el d j) = Ed_Self"
    and f: "etime (f (el d j)) \<noteq> None" "cb_func (f (el d j)) = cb_func (el d j)" "el_ed (f (el d j)) = Ed_Self"
      "signum (f (el d j)) = signum (el d j)"
  shows "ed_inv (push_timer j (upd_el j f d))"
proof -
  let ?u = "upd_el j f d" and ?d = "push_timer j (upd_el j f d)"
  have js: "j \<notin> set (slisteners d)" using i j by (auto simp: ed_inv_def signals_inv_def)
  have live: "cb_func (el d j) \<noteq> None" using i j by (auto simp: ed_inv_def listeners_inv_def)
  have "timer_heap ?u (tlisteners d) = timer_heap d (tlisteners d)"
    using i j by (intro timer_heap_cong) (auto simp: el_key_def)
  then have "timer_heap ?u (heappush (el_lt ?u) (tlisteners d) j)"
    using i by (intro timers.heappush_heap) (simp add: ed_inv_def timers_inv_def)
  then have h: "timer_heap ?d (tlisteners ?d)"
    unfolding el_key_push by (simp add: push_timer_def)
  have dist: "distinct (tlisteners ?d)"
    using i j by (metis (no_types, lifting) ed_inv_def timers_inv_def push_timer_fields(8) upd_el_fields(1)
        distinct.simps(2) mset.simps(2) mset_eq_imp_distinct_iff)
  have "filter_mset (\<lambda>i. cb_func (el ?d i) = None) (mset (tlisteners d)) =
      filter_mset (\<lambda>i. cb_func (el d i) = None) (mset (tlisteners d))"
    using f by (intro filter_mset_cong) auto
  then have "length (dead_timers ?d) = length (dead_timers d)"
    using j live f by (simp add: length_dead)
  then have t: "timers_inv ?d"
    using i j h dist f unfolding ed_inv_def timers_inv_def by auto
  have sl: "sig_listeners ?d = sig_listeners d"
    using f by (intro sig_listeners_cong) auto
  have "listeners_inv ?d"
    using i f live j unfolding ed_inv_def listeners_inv_def by auto
  moreover have "signals_inv ?d"
    using i js sl unfolding ed_inv_def signals_inv_def by auto
  ultimately show ?thesis using t by (simp add: ed_inv_def)
qed

subsection \<open>Cancelling\<close>

lemma inv_cleanup:
  assumes i: "ed_inv d" and j: "j < length (els d)" "j \<notin> set (slisteners d)"
    and w: "j \<in> set (tlisteners d) \<Longrightarrow> cb_func (el d j) \<noteq> None \<Longrightarrow> 0 < k" and k: "0 \<le> k"
  shows "ed_inv (el_cleanup j (d\<lparr>twasted := twasted d + k\<rparr>))"
proof -
  let ?d = "el_cleanup j (d\<lparr>twasted := twasted d + k\<rparr>)"
  have e: "el ?d i = (if i = j then (el d j)\<lparr>cb_func := None, el_ed := Ed_None, randomize_runs := None\<rparr> else el d i)"
    for i using j by (simp add: el_cleanup_def)
  have f: "tlisteners ?d = tlisteners d" "slisteners ?d = slisteners d" "handlers ?d = handlers d"
    "length (els ?d) = length (els d)" "twasted ?d = twasted d + k"
    by (simp_all add: el_cleanup_def)
  have h: "timer_heap ?d (tlisteners d) = timer_heap d (tlisteners d)"
    by (intro timer_heap_cong) (simp add: el_key_def e)
  have sl: "sig_listeners ?d = sig_listeners d"
    by (intro sig_listeners_cong) (auto simp: e f)
  have "int (length (dead_timers ?d)) \<le> int (length (dead_timers d)) + k"
  proof (cases "j \<in> set (tlisteners d) \<and> cb_func (el d j) \<noteq> None")
    case True
    have dist: "distinct (tlisteners d)" using i by (simp add: ed_inv_def timers_inv_def)
    have "set (dead_timers ?d) \<subseteq> insert j (set (dead_timers d))"
      by (auto simp: dead_timers_def f e split: if_splits)
    moreover have "distinct (dead_timers ?d)" "distinct (dead_timers d)" using dist by (simp_all add: dead_timers_def f)
    ultimately have "length (dead_timers ?d) \<le> Suc (length (dead_timers d))"
      using card_mono [of "insert j (set (dead_timers d))" "set (dead_timers ?d)"]
        card_insert_le_m1 [of "Suc (length (dead_timers d))" "set (dead_timers d)" j]
      by (simp add: distinct_card card_length)
    then show ?thesis using w True by simp
  next
    case False
    then have "dead_timers ?d = dead_timers d"
      unfolding dead_timers_def f by (intro filter_cong) (auto simp: e)
    then show ?thesis using k by simp
  qed
  then have "timers_inv ?d"
    using i h unfolding ed_inv_def timers_inv_def f by (auto simp: e)
  moreover have "listeners_inv ?d"
    using i unfolding ed_inv_def listeners_inv_def f by (auto simp: e)
  moreover have "signals_inv ?d"
    using i j sl unfolding ed_inv_def signals_inv_def f by (auto simp: e)
  ultimately show ?thesis by (simp add: ed_inv_def)
qed

lemma inv_cancel:
  assumes i: "ed_inv d" and j: "j < length (els d)"
  shows "ed_inv (out_state (el_cancel j d))"
proof (cases "el_ed (el d j)")
  case Ed_Unset
  then show ?thesis using i by (simp add: el_cancel_def)
next
  case Ed_None
  then have "cb_func (el d j) = None" "j \<notin> set (slisteners d)"
    using i j by (auto simp: ed_inv_def listeners_inv_def signals_inv_def)
  then show ?thesis using inv_cleanup [OF i j, of 0] Ed_None by (simp add: el_cancel_def)
next
  case Ed_Self
  then have "j \<notin> set (slisteners d)" using i by (auto simp: ed_inv_def signals_inv_def)
  then show ?thesis using inv_cleanup [OF i j, of 1] Ed_Self by (simp add: el_cancel_def)
qed

lemma inv_unreg:
  assumes i: "ed_inv d" and r: "unregSignal j d = Next d'"
  shows "ed_inv d'"
proof -
  have j: "j \<in> set (slisteners d)" using r by (auto simp: unregSignal_def split: if_splits)
  have jd: "j < length (els d)" "etime (el d j) = None" "j \<notin> set (tlisteners d)" and dist: "distinct (slisteners d)"
    using i j by (auto simp: ed_inv_def signals_inv_def timers_inv_def)
  obtain sn where sn: "signum (el d j) = Some sn" using i j by (auto simp: ed_inv_def signals_inv_def)
  define d1 where "d1 = d\<lparr>slisteners := remove1 j (slisteners d)\<rparr>"
  define d2 where "d2 = (if sig_listeners d1 sn = [] then d1\<lparr>handlers := removeAll sn (handlers d1)\<rparr> else d1)"
  have d': "d' = el_cleanup j d2" using r j sn by (auto simp: unregSignal_def d2_def d1_def Let_def split: if_splits)
  have sl1: "sig_listeners d1 n = remove1 j (sig_listeners d n)" for n
    by (simp add: sig_listeners_def d1_def filter_remove1)
  have sl: "sig_listeners d2 = sig_listeners d1"
    by (rule ext) (simp add: sig_listeners_def d2_def)
  have f: "els d2 = els d" "slisteners d2 = remove1 j (slisteners d)" "tlisteners d2 = tlisteners d" "twasted d2 = twasted d"
    by (simp_all add: d2_def d1_def)
  have "set (handlers d2) = {n. sig_listeners d1 n \<noteq> []}"
  proof -
    have "set (handlers d) = {n. sig_listeners d n \<noteq> []}" using i by (simp add: ed_inv_def signals_inv_def)
    moreover have "sig_listeners d1 n = sig_listeners d n" if "n \<noteq> sn" for n
      unfolding sl1 using that sn by (intro remove1_idem) (auto simp: sig_listeners_def)
    moreover have "sig_listeners d1 sn \<noteq> [] \<Longrightarrow> sig_listeners d sn \<noteq> []" unfolding sl1 by auto
    moreover have "handlers d1 = handlers d" by (simp add: d1_def)
    ultimately have "n \<in> set (handlers d2) \<longleftrightarrow> sig_listeners d1 n \<noteq> []" for n
      unfolding d2_def by (cases "n = sn") auto
    then show ?thesis by auto
  qed
  moreover have "timer_heap d2 = timer_heap d" "dead_timers d2 = dead_timers d"
    by (auto simp: el_key_def [abs_def] dead_timers_def f)
  ultimately have "ed_inv d2"
    using i dist sl f unfolding ed_inv_def timers_inv_def listeners_inv_def signals_inv_def by (auto dest: notin_set_remove1 set_remove1_subset [THEN subsetD])
  then show ?thesis
    using inv_cleanup [of d2 j 0] jd dist unfolding d' by (simp add: f(1,2,3))
qed

section \<open>The contract of the callbacks\<close>

text \<open>
  \<open>paced \<delta> d\<close>: every timer has an interval, which with any random spread is at least \<open>\<delta>\<close>;
  a timer at an absolute time fires once.
\<close>

definition el_paced :: "real \<Rightarrow> 'c event_listener \<Rightarrow> bool" where
  "el_paced \<delta> e \<longleftrightarrow> signum e \<noteq> None \<or>
     (if abs_time e
      then (case etime e of Some _ \<Rightarrow> nticks e = Some 1 | None \<Rightarrow> (\<exists>t. el_ival e = Some (At t)))
      else nticks e \<noteq> None \<and> itime e \<noteq> None
        \<and> (case el_ival e of
             Some (Secs x) \<Rightarrow> \<delta> \<le> x \<and> 0 \<le> x
               \<and> (case randomize_runs e of None \<Rightarrow> True | Some p \<Rightarrow> 0 \<le> p \<and> \<delta> \<le> x * (1 - p))
           | _ \<Rightarrow> False))"

definition paced :: "real \<Rightarrow> ('c, 'w) dispatcher \<Rightarrow> bool" where
  "paced \<delta> d \<longleftrightarrow> (\<forall>i < length (els d). el_paced \<delta> (el d i)) \<and> (\<forall>n. 0 \<le> rnds d n \<and> rnds d n \<le> 1)"

lemma el_paced_upd [simp]:
  "\<not> abs_time e \<Longrightarrow> el_paced \<delta> (e\<lparr>etime := t\<rparr>) = el_paced \<delta> e"
  "\<not> abs_time e \<Longrightarrow> el_paced \<delta> e \<Longrightarrow> el_paced \<delta> (e\<lparr>nticks := Some n\<rparr>)"
  "el_paced \<delta> (e\<lparr>cb_with_ts := b\<rparr>) = el_paced \<delta> e"
  "el_paced \<delta> e \<Longrightarrow> el_paced \<delta> (e\<lparr>cb_func := cb, el_ed := a, randomize_runs := None\<rparr>)"
  by (auto simp: el_paced_def split: option.splits ival.splits if_splits)

lemma el_paced_spread:
  assumes "el_paced \<delta> e" "0 \<le> p" "case el_ival e of Some (Secs x) \<Rightarrow> \<delta> \<le> x * (1 - p) | _ \<Rightarrow> True"
  shows "el_paced \<delta> (e\<lparr>randomize_runs := Some p\<rparr>)"
  using assms by (auto simp: el_paced_def split: option.splits ival.splits if_splits)

text \<open>
  \<open>op_ok \<delta> op d\<close>: the call reads a clock that has not gone back, names a listener that exists
  and starts a timer once, at least \<open>\<delta>\<close> from now. The intervals are at least \<open>\<delta>\<close>.
\<close>

fun start_after :: "real \<Rightarrow> mono_time \<Rightarrow> 'c event_listener \<Rightarrow> bool" where
  "start_after \<delta> now e =
     (if abs_time e then (case el_ival e of Some (At t) \<Rightarrow> monot now + \<delta> \<le> monot t | _ \<Rightarrow> True)
      else (case (itime e, el_ival e) of
          (Some t, Some (Secs x)) \<Rightarrow>
            monot now + \<delta> \<le> monot t + x * (1 - (case randomize_runs e of None \<Rightarrow> 0 | Some p \<Rightarrow> p))
        | _ \<Rightarrow> True))"

fun op_ok :: "real \<Rightarrow> 'c ed_op \<Rightarrow> ('c, 'w) dispatcher \<Rightarrow> bool" where
  "op_ok \<delta> (Op_Timeout now cb iv nt) d \<longleftrightarrow>
     monot (last_ts d) \<le> monot now \<and> nt \<noteq> None \<and> (case iv of Secs x \<Rightarrow> \<delta> \<le> x \<and> 0 \<le> x | At _ \<Rightarrow> False)"
| "op_ok \<delta> (Op_TimeoutInact now cb iv nt) d \<longleftrightarrow>
     monot (last_ts d) \<le> monot now \<and> nt \<noteq> None \<and> (case iv of Secs x \<Rightarrow> \<delta> \<le> x \<and> 0 \<le> x | At _ \<Rightarrow> False)"
| "op_ok \<delta> (Op_TimeoutAbsMono now cb iv) d \<longleftrightarrow>
     monot (last_ts d) \<le> monot now \<and> (case iv of Secs _ \<Rightarrow> True | At t \<Rightarrow> monot now + \<delta> \<le> monot t)"
| "op_ok \<delta> (Op_Go i) d \<longleftrightarrow>
     i < length (els d) \<and> etime (el d i) = None \<and> start_after \<delta> (last_ts d) (el d i)"
| "op_ok \<delta> (Op_Cancel i) d \<longleftrightarrow> i < length (els d)"
| "op_ok \<delta> (Op_SpreadRuns i p) d \<longleftrightarrow>
     i < length (els d) \<and> 0 \<le> p \<and> (case el_ival (el d i) of Some (Secs x) \<Rightarrow> \<delta> \<le> x * (1 - p) | _ \<Rightarrow> True)"
| "op_ok \<delta> (Op_WithTs i) d \<longleftrightarrow> i < length (els d)"
| "op_ok \<delta> _ d \<longleftrightarrow> True"

fun ops_ok :: "real \<Rightarrow> 'c ed_op list \<Rightarrow> ('c, 'w) dispatcher \<Rightarrow> bool" where
  "ops_ok \<delta> [] d \<longleftrightarrow> True"
| "ops_ok \<delta> (op # ops) d \<longleftrightarrow> op_ok \<delta> op d \<and> ops_ok \<delta> ops (out_state (do_op op d))"

definition sane :: "real \<Rightarrow> ('c, 'w) dispatcher \<Rightarrow> bool" where
  "sane \<delta> d \<longleftrightarrow> ed_inv d \<and> paced \<delta> d"

definition run_ok :: "real \<Rightarrow> ('c, 'w) runner \<Rightarrow> bool" where
  "run_ok \<delta> run \<longleftrightarrow> (\<forall>cb ts d. sane \<delta> d \<longrightarrow> ops_ok \<delta> (fst (snd (run cb ts d))) d)"

text \<open>
  What such calls change: the clock may move on, listeners may be added or cancelled, and the
  timers that they start are due \<open>\<delta>\<close> later than the time before the call, or more.
\<close>

definition grows :: "real \<Rightarrow> ('c, 'w) dispatcher \<Rightarrow> ('c, 'w) dispatcher \<Rightarrow> bool" where
  "grows \<delta> d d' \<longleftrightarrow> monot (last_ts d) \<le> monot (last_ts d') \<and> length (els d) \<le> length (els d') \<and> calls d' = calls d
     \<and> (\<forall>i < length (els d). (etime (el d i) \<noteq> None \<longrightarrow> etime (el d' i) = etime (el d i))
          \<and> (cb_func (el d i) = None \<longrightarrow> cb_func (el d' i) = None)
          \<and> (signum (el d' i) = signum (el d i)))
     \<and> (\<exists>N. mset (tlisteners d') = mset (tlisteners d) + N
          \<and> (\<forall>i\<in>#N. monot (last_ts d) + \<delta> \<le> el_key d' i \<and> i < length (els d') \<and> etime (el d' i) \<noteq> None
               \<and> (i < length (els d) \<longrightarrow> etime (el d i) = None)))"

lemma growsI:
  assumes "monot (last_ts d) \<le> monot (last_ts d')" "length (els d) \<le> length (els d')" "calls d' = calls d"
    and "\<And>i. i < length (els d) \<Longrightarrow> etime (el d i) \<noteq> None \<Longrightarrow> etime (el d' i) = etime (el d i)"
    and "\<And>i. i < length (els d) \<Longrightarrow> cb_func (el d i) = None \<Longrightarrow> cb_func (el d' i) = None"
    and "\<And>i. i < length (els d) \<Longrightarrow> signum (el d' i) = signum (el d i)"
    and "mset (tlisteners d') = mset (tlisteners d) + N"
    and "\<And>i. i \<in># N \<Longrightarrow> monot (last_ts d) + \<delta> \<le> el_key d' i \<and> i < length (els d') \<and> etime (el d' i) \<noteq> None
               \<and> (i < length (els d) \<longrightarrow> etime (el d i) = None)"
  shows "grows \<delta> d d'"
  using assms unfolding grows_def by blast

lemma grows_same:
  assumes "monot (last_ts d) \<le> monot (last_ts d')" "length (els d) \<le> length (els d')" "calls d' = calls d"
    and "\<And>i. i < length (els d) \<Longrightarrow> etime (el d' i) = etime (el d i) \<and> signum (el d' i) = signum (el d i)
      \<and> (cb_func (el d i) = None \<longrightarrow> cb_func (el d' i) = None)"
    and "tlisteners d' = tlisteners d"
  shows "grows \<delta> d d'"
  using assms by (intro growsI [where N = "{#}"]) auto

lemma grows_refl [simp]: "grows \<delta> d d"
  by (rule grows_same) auto

lemma grows_trans:
  assumes a: "grows \<delta> d d'" and b: "grows \<delta> d' d''"
  shows "grows \<delta> d d''"
proof -
  obtain N where N: "mset (tlisteners d') = mset (tlisteners d) + N"
    "\<And>i. i \<in># N \<Longrightarrow> monot (last_ts d) + \<delta> \<le> el_key d' i \<and> i < length (els d') \<and> etime (el d' i) \<noteq> None
               \<and> (i < length (els d) \<longrightarrow> etime (el d i) = None)"
    using a unfolding grows_def by blast
  obtain M where M: "mset (tlisteners d'') = mset (tlisteners d') + M"
    "\<And>i. i \<in># M \<Longrightarrow> monot (last_ts d') + \<delta> \<le> el_key d'' i \<and> i < length (els d'') \<and> etime (el d'' i) \<noteq> None
               \<and> (i < length (els d') \<longrightarrow> etime (el d' i) = None)"
    using b unfolding grows_def by blast
  have l: "monot (last_ts d) \<le> monot (last_ts d')" "length (els d) \<le> length (els d')" "length (els d') \<le> length (els d'')"
    using a b by (simp_all add: grows_def)
  show ?thesis
  proof (rule growsI [where N = "N + M"])
    fix i assume "i \<in># N + M"
    then consider "i \<in># N" | "i \<in># M" by auto
    then show "monot (last_ts d) + \<delta> \<le> el_key d'' i \<and> i < length (els d'') \<and> etime (el d'' i) \<noteq> None
               \<and> (i < length (els d) \<longrightarrow> etime (el d i) = None)"
    proof cases
      case 1
      then have "etime (el d'' i) = etime (el d' i)" using N(2) [of i] b by (auto simp: grows_def)
      then show ?thesis using 1 N(2) [of i] l by (simp add: el_key_def)
    next
      case 2
      then show ?thesis using M(2) [of i] a l by (fastforce simp: grows_def)
    qed
  qed (use a b l N M in \<open>auto simp: grows_def\<close>)
qed

section \<open>Each call keeps the contract\<close>

lemma sane_same:
  assumes "sane \<delta> d" "same_shape d d'" "\<And>i. i < length (els d) \<Longrightarrow> el_paced \<delta> (el d' i)" "rnds d' = rnds d"
  shows "sane \<delta> d'"
  using assms same_shape_inv [OF assms(2)] by (auto simp: sane_def paced_def same_shape_def)

lemma sane_fields:
  "sane \<delta> (d\<lparr>last_ts := t\<rparr>) = sane \<delta> d" "sane \<delta> (d\<lparr>signals_pending := sp\<rparr>) = sane \<delta> d"
  "sane \<delta> (d\<lparr>endloop := b, el_rval := v\<rparr>) = sane \<delta> d" "sane \<delta> (d\<lparr>world := w\<rparr>) = sane \<delta> d" "sane \<delta> (d\<lparr>calls := c\<rparr>) = sane \<delta> d"
  "sane \<delta> (d\<lparr>ed_exception := x\<rparr>) = sane \<delta> d" "sane \<delta> (d\<lparr>bands := bs\<rparr>) = sane \<delta> d"
  "sane \<delta> (d\<lparr>endloop := b\<rparr>) = sane \<delta> d"
  by (simp_all add: sane_def paced_def ed_inv_def timers_inv_def listeners_inv_def signals_inv_def
      el_key_def [abs_def] dead_timers_def sig_listeners_def)

lemma next_ival_bound:
  assumes p: "el_paced \<delta> (el d i)" "signum (el d i) = None" "\<not> abs_time (el d i)" and r: "0 \<le> rnds d 0" "rnds d 0 \<le> 1"
  shows "\<exists>v d1. next_ival i d = Inr (v, d1) \<and> \<delta> \<le> v
    \<and> (\<forall>x. el_ival (el d i) = Some (Secs x) \<longrightarrow> x * (1 - (case randomize_runs (el d i) of None \<Rightarrow> 0 | Some p \<Rightarrow> p)) \<le> v)
    \<and> (d1 = d \<or> d1 = d\<lparr>rnds := \<lambda>n. rnds d (Suc n)\<rparr>)"
proof -
  obtain x where x: "el_ival (el d i) = Some (Secs x)" "\<delta> \<le> x" "0 \<le> x"
    and rr: "\<And>p. randomize_runs (el d i) = Some p \<Longrightarrow> 0 \<le> p \<and> \<delta> \<le> x * (1 - p)"
    using p by (auto simp: el_paced_def split: option.splits ival.splits)
  show ?thesis
  proof (cases "randomize_runs (el d i)")
    case None
    then show ?thesis using x by (simp add: next_ival_def)
  next
    case (Some p)
    have "1 - p \<le> 1 + p * (1 - 2 * rnds d 0)"
      using rr [OF Some] r mult_nonneg_nonneg [of p "2 - 2 * rnds d 0"] by (simp add: algebra_simps)
    then have "x * (1 - p) \<le> randomizer p x (rnds d 0)"
      unfolding randomizer_def using x by (intro mult_left_mono) auto
    then show ?thesis using x Some rr [OF Some] by (simp add: next_ival_def)
  qed
qed

lemma sane_rnds: "sane \<delta> d \<Longrightarrow> sane \<delta> (d\<lparr>rnds := \<lambda>n. rnds d (Suc n)\<rparr>)"
  by (simp add: sane_def paced_def ed_inv_def timers_inv_def listeners_inv_def signals_inv_def
      el_key_def [abs_def] dead_timers_def sig_listeners_def)

lemma grows_rnds: "grows \<delta> d (d\<lparr>rnds := r\<rparr>)"
  by (rule grows_same) auto

text \<open>Starting a timer that has not been started.\<close>

lemma start_step:
  assumes s: "sane \<delta> d" and i: "i < length (els d)" "etime (el d i) = None" "el_ed (el d i) = Ed_Self"
    and f: "etime (f (el d i)) = Some t" "cb_func (f (el d i)) = cb_func (el d i)" "el_ed (f (el d i)) = Ed_Self"
      "signum (f (el d i)) = signum (el d i)" "el_paced \<delta> (f (el d i))"
    and t: "monot (last_ts d) + \<delta> \<le> monot t"
  shows "sane \<delta> (push_timer i (upd_el i f d)) \<and> grows \<delta> d (push_timer i (upd_el i f d))"
proof
  have "i \<notin> set (tlisteners d)" using s i by (auto simp: sane_def ed_inv_def timers_inv_def)
  then show "sane \<delta> (push_timer i (upd_el i f d))"
    using s i f inv_start [of d i f] by (auto simp: sane_def paced_def)
  show "grows \<delta> d (push_timer i (upd_el i f d))"
    by (rule growsI [where N = "{#i#}"]) (use i f t in \<open>auto simp: el_key_def\<close>)
qed

lemma go_step:
  assumes s: "sane \<delta> d" and i: "i < length (els d)" "etime (el d i) = None" "start_after \<delta> (last_ts d) (el d i)"
  shows "sane \<delta> (out_state (el_go i d)) \<and> grows \<delta> d (out_state (el_go i d))"
proof (cases "el_ed (el d i) = Ed_Self")
  case True
  have sg: "signum (el d i) = None" using s i True by (simp add: sane_def ed_inv_def listeners_inv_def)
  have p: "el_paced \<delta> (el d i)" and rn: "0 \<le> rnds d 0" "rnds d 0 \<le> 1"
    using s i by (simp_all add: sane_def paced_def)
  show ?thesis
  proof (cases "abs_time (el d i)")
    case abs: True
    show ?thesis
    proof (cases "\<exists>t. el_ival (el d i) = Some (At t)")
      case True
      then obtain t where t: "el_ival (el d i) = Some (At t)" by blast
      show ?thesis
        using start_step [OF s i(1,2) \<open>el_ed (el d i) = Ed_Self\<close>, of "\<lambda>e. e\<lparr>etime := Some t, el_ival := None, nticks := Some 1\<rparr>" t]
          \<open>el_ed (el d i) = Ed_Self\<close> abs t i(3) by (simp add: el_go_def el_paced_def)
    next
      case False
      then show ?thesis using \<open>el_ed (el d i) = Ed_Self\<close> abs s
        by (simp add: el_go_def split: option.split ival.split)
    qed
  next
    case nabs: False
    obtain v d1 where v: "next_ival i d = Inr (v, d1)" "\<delta> \<le> v" "d1 = d \<or> d1 = d\<lparr>rnds := \<lambda>n. rnds d (Suc n)\<rparr>"
      "\<And>x. el_ival (el d i) = Some (Secs x) \<Longrightarrow> x * (1 - (case randomize_runs (el d i) of None \<Rightarrow> 0 | Some p \<Rightarrow> p)) \<le> v"
      using next_ival_bound [OF p sg nabs rn] by blast
    obtain t x where t: "itime (el d i) = Some t" "el_ival (el d i) = Some (Secs x)"
      using p sg nabs by (auto simp: el_paced_def split: option.splits ival.splits)
    have le: "monot (last_ts d) + \<delta> \<le> monot (getOffsetCopy t v)"
      using v(4) [OF t(2)] i(3) nabs t by (auto split: option.splits)
    have d1: "sane \<delta> d1" "grows \<delta> d d1" "els d1 = els d" "last_ts d1 = last_ts d"
      using v(3) s sane_rnds [OF s] grows_rnds by auto
    have "sane \<delta> (push_timer i (upd_el i (\<lambda>e. e\<lparr>etime := Some (getOffsetCopy t v)\<rparr>) d1)) \<and>
      grows \<delta> d1 (push_timer i (upd_el i (\<lambda>e. e\<lparr>etime := Some (getOffsetCopy t v)\<rparr>) d1))"
      using d1 i True p le nabs by (intro start_step) auto
    then show ?thesis using True nabs t v d1 by (auto simp: el_go_def intro: grows_trans)
  qed
qed (use s in \<open>simp add: el_go_def\<close>)

lemma new_timer_step:
  assumes s: "sane \<delta> d" and n: "el_ed e = Ed_Self" "cb_func e \<noteq> None" "signum e = None" "el_paced \<delta> e"
  shows "sane \<delta> (d\<lparr>els := els d @ [e]\<rparr>) \<and> grows \<delta> d (d\<lparr>els := els d @ [e]\<rparr>)"
proof
  show "sane \<delta> (d\<lparr>els := els d @ [e]\<rparr>)"
    using s n inv_new_timer [of d e] by (auto simp: sane_def paced_def nth_append less_Suc_eq)
  show "grows \<delta> d (d\<lparr>els := els d @ [e]\<rparr>)" by (rule grows_same) auto
qed

lemma clock_step: "monot (last_ts d) \<le> monot now \<Longrightarrow> sane \<delta> d \<Longrightarrow> sane \<delta> (d\<lparr>last_ts := now\<rparr>) \<and> grows \<delta> d (d\<lparr>last_ts := now\<rparr>)"
  by (auto simp: sane_fields intro!: grows_same)

lemma grows_sane_trans:
  "sane \<delta> d' \<and> grows \<delta> d d' \<Longrightarrow> (sane \<delta> d' \<Longrightarrow> sane \<delta> d'' \<and> grows \<delta> d' d'') \<Longrightarrow> sane \<delta> d'' \<and> grows \<delta> d d''"
  using grows_trans by blast

text \<open>What \<open>regTimer\<close> returns: nothing new, or a new listener that has not been started.\<close>

lemma regTimer_step:
  assumes s: "sane \<delta> d" and t: "monot (last_ts d) \<le> monot now"
    and iv: "is_abs \<or> (nt \<noteq> None \<and> (case iv of Secs x \<Rightarrow> \<delta> \<le> x \<and> 0 \<le> x | At _ \<Rightarrow> False))"
  shows "sane \<delta> (out_state (regTimer now cb iv nt is_abs d)) \<and> grows \<delta> d (out_state (regTimer now cb iv nt is_abs d))"
proof (cases "nt = Some 0 \<or> (is_abs \<and> (case iv of At _ \<Rightarrow> False | Secs _ \<Rightarrow> True))")
  case True
  then show ?thesis using clock_step [OF t s] by (auto simp: regTimer_def Let_def)
next
  case False
  let ?e = "EventListener_new\<lparr>itime := Some now, cb_func := Some cb, el_ival := Some iv, nticks := nt,
    abs_time := is_abs, el_ed := Ed_Self\<rparr>"
  have p: "el_paced \<delta> ?e"
    using iv False by (auto simp: el_paced_def EventListener_new_def split: ival.splits)
  let ?d = "d\<lparr>last_ts := now\<rparr>"
  have "sane \<delta> (?d\<lparr>els := els ?d @ [?e]\<rparr>) \<and> grows \<delta> d (?d\<lparr>els := els ?d @ [?e]\<rparr>)"
    by (rule grows_sane_trans [OF clock_step [OF t s]], rule new_timer_step)
      (use p in \<open>simp_all add: EventListener_new_def\<close>)
  then show ?thesis using False by (auto simp: regTimer_def Let_def)
qed

lemma regTimer_value:
  assumes "regTimer now cb iv nt is_abs d = o1"
  shows "case o1 of
      Next d1 \<Rightarrow> False
    | Raise x d1 \<Rightarrow> True
    | Return None d1 \<Rightarrow> True
    | Return (Some i) d1 \<Rightarrow> i = length (els d) \<and> last_ts d1 = now \<and> i < length (els d1) \<and> etime (el d1 i) = None
        \<and> itime (el d1 i) = Some now \<and> el_ival (el d1 i) = Some iv \<and> abs_time (el d1 i) = is_abs
        \<and> randomize_runs (el d1 i) = None"
  using assms by (auto simp: regTimer_def EventListener_new_def Let_def split: ival.splits)

lemma reg_and_go_step:
  fixes cb :: 'c
  assumes s: "sane \<delta> d" and t: "monot (last_ts d) \<le> monot now"
    and iv: "if is_abs then (case iv of Secs _ \<Rightarrow> True | At t \<Rightarrow> monot now + \<delta> \<le> monot t)
      else nt \<noteq> None \<and> (case iv of Secs x \<Rightarrow> \<delta> \<le> x \<and> 0 \<le> x | At _ \<Rightarrow> False)"
  defines "reg \<equiv> regTimer now cb iv nt is_abs"
  shows "sane \<delta> (out_state (reg_and_go reg d)) \<and> grows \<delta> d (out_state (reg_and_go reg d))"
proof -
  have r: "sane \<delta> (out_state (reg d)) \<and> grows \<delta> d (out_state (reg d))"
    unfolding reg_def using s t iv by (intro regTimer_step) (auto split: if_splits)
  show ?thesis
  proof (cases "reg d")
    case (Return v d1)
    show ?thesis
    proof (cases v)
      case None
      then show ?thesis using r Return by (simp add: reg_and_go_def call_def raise_def)
    next
      case (Some i)
      have d1: "i < length (els d1)" "etime (el d1 i) = None" "start_after \<delta> (last_ts d1) (el d1 i)"
        using regTimer_value [OF Return [unfolded reg_def]] Some iv by (auto split: ival.splits if_splits)
      have "out_state (reg_and_go reg d) = out_state (el_go i d1 :: (_, nat option) outcome)"
        using Return Some by (simp add: reg_and_go_def call_def block.simps ret_def split: outcome.split)
      then show ?thesis
        using r Return go_step [OF _ d1] by (auto intro: grows_trans)
    qed
  qed (use r in \<open>simp_all add: reg_and_go_def call_def raise_def\<close>)
qed

lemma cleanup_step:
  "sane \<delta> d \<Longrightarrow> ed_inv (el_cleanup i (d\<lparr>twasted := k\<rparr>)) \<Longrightarrow>
   sane \<delta> (el_cleanup i (d\<lparr>twasted := k\<rparr>)) \<and> grows \<delta> d (el_cleanup i (d\<lparr>twasted := k\<rparr>))"
  by (auto simp: sane_def paced_def el_cleanup_def intro!: grows_same)

lemma upd_step:
  assumes s: "sane \<delta> d" and i: "el_paced \<delta> (f (el d i))"
    and f: "etime (f (el d i)) = etime (el d i)" "cb_func (f (el d i)) = cb_func (el d i)"
      "el_ed (f (el d i)) = el_ed (el d i)" "signum (f (el d i)) = signum (el d i)"
  shows "sane \<delta> (upd_el i f d) \<and> grows \<delta> d (upd_el i f d)"
proof
  show "sane \<delta> (upd_el i f d)"
    using s f i by (intro sane_same [OF s]) (auto simp: same_shape_def sane_def paced_def)
  show "grows \<delta> d (upd_el i f d)" by (rule grows_same) (use f in auto)
qed

lemma unreg_step:
  fixes i :: nat
  assumes s: "sane \<delta> d"
  defines "o1 \<equiv> unregSignal i d :: (_, nat option) outcome"
  shows "sane \<delta> (out_state o1) \<and> grows \<delta> d (out_state o1)"
proof (cases o1)
  case (Next d')
  have "ed_inv d'" using inv_unreg [OF _ Next [unfolded o1_def]] s by (simp add: sane_def)
  moreover have "els d' = els (upd_el i (\<lambda>e. e\<lparr>cb_func := None, el_ed := Ed_None, randomize_runs := None\<rparr>) d)"
    "tlisteners d' = tlisteners d" "rnds d' = rnds d" "last_ts d' = last_ts d" "calls d' = calls d"
    using Next by (auto simp: o1_def unregSignal_def el_cleanup_def upd_el_def Let_def split: if_splits)
  moreover from this have "paced \<delta> d'" using s by (auto simp: sane_def paced_def)
  ultimately show ?thesis using Next by (auto simp: sane_def intro!: grows_same)
qed (use s in \<open>auto simp: o1_def unregSignal_def Let_def split: if_splits\<close>)

lemma op_step:
  assumes s: "sane \<delta> d" and o: "op_ok \<delta> op d"
  shows "sane \<delta> (out_state (do_op op d)) \<and> grows \<delta> d (out_state (do_op op d))"
  using o
proof (cases op)
  case (Op_Timeout now cb iv nt)
  then show ?thesis using o reg_and_go_step [OF s, of now False iv nt] by (simp add: Timeout_def)
next
  case (Op_TimeoutInact now cb iv nt)
  then show ?thesis using o regTimer_step [OF s, of now False nt iv] by (simp add: TimeoutInact_def)
next
  case (Op_TimeoutAbsMono now cb iv)
  then show ?thesis using s o reg_and_go_step [OF s, of now True iv None cb]
    by (cases iv) (simp_all add: TimeoutAbsMono_def raise_def)
next
  case (Op_Go i)
  then show ?thesis using o go_step [OF s, of i] by (simp del: start_after.simps)
next
  case (Op_Cancel i)
  then have "ed_inv (out_state (el_cancel i d :: (_, nat option) outcome))" using s o inv_cancel [of d i] by (simp add: sane_def)
  then show ?thesis using Op_Cancel s cleanup_step [OF s, of i "twasted d"] cleanup_step [OF s, of i "twasted d + 1"]
    by (cases "el_ed (el d i)") (simp_all add: el_cancel_def)
next
  case (Op_SpreadRuns i p)
  have "el_paced \<delta> ((el d i)\<lparr>randomize_runs := Some p\<rparr>)"
    using s o Op_SpreadRuns by (intro el_paced_spread) (auto simp: sane_def paced_def)
  then show ?thesis using Op_SpreadRuns upd_step [OF s, of "\<lambda>e. e\<lparr>randomize_runs := Some p\<rparr>" i]
    by (simp add: upd_def spread_runs_def)
next
  case (Op_WithTs i)
  then show ?thesis using s o upd_step [OF s, of "\<lambda>e. e\<lparr>cb_with_ts := True\<rparr>" i]
    by (simp add: upd_def sane_def paced_def)
next
  case (Op_RegSignal sn cb)
  obtain v d' where r: "regSignal sn cb d = Return v d'" by (simp add: regSignal_def)
  then have d': "els d' = els d @ [EventListener_new\<lparr>signum := Some sn, cb_func := Some cb\<rparr>]"
    "tlisteners d' = tlisteners d" "rnds d' = rnds d" "last_ts d' = last_ts d" "calls d' = calls d"
    by (auto simp: regSignal_def)
  have "ed_inv d'" using s r by (auto intro: inv_new_signal simp: sane_def)
  moreover have "paced \<delta> d'"
    using s by (auto simp: sane_def paced_def d' nth_append less_Suc_eq el_paced_def)
  moreover have "grows \<delta> d d'" by (rule grows_same) (auto simp: d')
  ultimately show ?thesis using r Op_RegSignal by (simp add: sane_def)
next
  case (Op_UnregSignal i)
  then show ?thesis using unreg_step [OF s] by simp
next
  case (Op_Signal sn)
  then show ?thesis using s by (auto simp: upd_def ed_signal_def sane_fields intro!: grows_same)
next
  case (Op_BreakLoop rv)
  then show ?thesis using s by (auto simp: upd_def breakLoop_def sane_fields intro!: grows_same)
qed

lemma run_ops_step:
  "sane \<delta> d \<Longrightarrow> ops_ok \<delta> ops d \<Longrightarrow> run_ops ops d = (b, d') \<Longrightarrow> sane \<delta> d' \<and> grows \<delta> d d'"
proof (induction ops arbitrary: d)
  case (Cons op ops)
  have s: "sane \<delta> (out_state (do_op op d))" "grows \<delta> d (out_state (do_op op d))"
    using op_step [OF Cons.prems(1)] Cons.prems(2) by auto
  show ?case
  proof (cases "do_op op d")
    case (Next d1)
    then show ?thesis using Cons s by (auto intro: grows_trans)
  next
    case (Return v d1)
    then show ?thesis using Cons s by (auto intro: grows_trans)
  next
    case (Raise x d1)
    then show ?thesis using Cons s by auto
  qed
qed simp

section \<open>Each step of the dispatch\<close>

lemma grows_calls: "grows \<delta> d d' \<Longrightarrow> grows \<delta> (d\<lparr>calls := c\<rparr>) (d'\<lparr>calls := c\<rparr>)"
  unfolding grows_def by (simp add: el_key_def)

lemma invoke_step:
  assumes s: "sane \<delta> d" and r: "run_ok \<delta> run" and i: "invoke run c cb ts d = (e, d')"
  shows "sane \<delta> d' \<and> grows \<delta> (d\<lparr>calls := calls d @ [c]\<rparr>) d'"
proof -
  let ?d = "d\<lparr>calls := calls d @ [c]\<rparr>"
  obtain w ops e1 where ru: "run cb ts ?d = (w, ops, e1)" by (metis prod_cases3)
  obtain ok d1 where ro: "run_ops ops ?d = (ok, d1)" by fastforce
  have s1: "sane \<delta> ?d" using s by (simp add: sane_fields)
  then have "ops_ok \<delta> ops ?d" using r ru unfolding run_ok_def by (metis fst_conv snd_conv)
  then have "sane \<delta> d1 \<and> grows \<delta> ?d d1" using run_ops_step [OF s1 _ ro] by simp
  moreover have "d' = d1\<lparr>world := w\<rparr>" using i ru ro by (simp add: invoke_def)
  ultimately show ?thesis by (auto simp: sane_fields grows_def el_key_def)
qed

definition fired :: "real \<Rightarrow> ('c, 'w) dispatcher \<Rightarrow> nat \<Rightarrow> mono_time \<Rightarrow> ('c, 'w) dispatcher \<Rightarrow> bool" where
  "fired \<delta> d i t d' \<longleftrightarrow> monot (last_ts d) \<le> monot (last_ts d') \<and> length (els d) \<le> length (els d')
     \<and> calls d' = calls d @ [Timer_Call i t (last_ts d)]
     \<and> (\<forall>j < length (els d). (j \<noteq> i \<longrightarrow> etime (el d j) \<noteq> None \<longrightarrow> etime (el d' j) = etime (el d j))
          \<and> (cb_func (el d j) = None \<longrightarrow> cb_func (el d' j) = None))
     \<and> (\<exists>H N. mset (tlisteners d) = add_mset i H \<and> mset (tlisteners d') = H + N \<and> (\<forall>j\<in>#N. monot t + \<delta> \<le> el_key d' j))"

lemma pop_sane:
  assumes s: "sane \<delta> d" and m: "mset (tlisteners d) = add_mset i (mset h)" "timer_heap d h"
    and k: "if cb_func (el d i) = None then k = 1 else k = 0"
  shows "sane \<delta> (d\<lparr>tlisteners := h, twasted := twasted d - k\<rparr>)"
proof -
  have "set h \<subseteq> set (tlisteners d)" using m(1) by (metis set_mset_mset set_mset_add_mset_insert subset_insertI)
  moreover have "distinct h"
    using s m(1) by (metis distinct.simps(2) ed_inv_def mset.simps(2) mset_eq_imp_distinct_iff sane_def timers_inv_def)
  moreover have "int (length (dead_timers (d\<lparr>tlisteners := h, twasted := twasted d - k\<rparr>))) = int (length (dead_timers d)) - k"
    using k m(1) by (auto simp: length_dead split: if_splits)
  moreover have "timer_heap (d\<lparr>tlisteners := h, twasted := twasted d - k\<rparr>) h"
    using m(2) by (simp add: el_key_def [abs_def])
  ultimately show ?thesis
    using s unfolding sane_def ed_inv_def timers_inv_def listeners_inv_def signals_inv_def paced_def
    by (auto simp: sig_listeners_def)
qed

text \<open>Re-scheduling a live timer that has been popped: it cannot fail, and the timer moves on by \<open>\<delta>\<close> at least.\<close>

lemma rearm_step:
  assumes s: "sane \<delta> d" and i: "i < length (els d)" "i \<notin> set (tlisteners d)" "etime (el d i) = Some t" "cb_func (el d i) \<noteq> None"
    "el_ed (el d i) = Ed_Self"
  shows "\<exists>c d2. rearm i d = Inr (c, d2) \<and> sane \<delta> d2 \<and> last_ts d2 = last_ts d \<and> length (els d2) = length (els d)
    \<and> calls d2 = calls d \<and> (\<forall>j < length (els d). (j \<noteq> i \<longrightarrow> el d2 j = el d j) \<and> cb_func (el d2 j) = cb_func (el d j))
    \<and> etime (el d2 i) \<noteq> None
    \<and> (if c then tlisteners d2 = tlisteners d
       else mset (tlisteners d2) = add_mset i (mset (tlisteners d)) \<and> monot t + \<delta> \<le> el_key d2 i)"
proof -
  have p: "el_paced \<delta> (el d i)" and rn: "0 \<le> rnds d 0" "rnds d 0 \<le> 1"
    using s i by (simp_all add: sane_def paced_def)
  have sg: "signum (el d i) = None" using s i by (simp add: sane_def ed_inv_def listeners_inv_def)
  obtain n where n: "nticks (el d i) = Some n" using p sg i(3) by (auto simp: el_paced_def split: if_splits)
  show ?thesis
  proof (cases "n = -1 \<or> 1 < n")
    case False
    then show ?thesis using s n i by (auto simp: rearm_def)
  next
    case True
    then have nabs: "\<not> abs_time (el d i)" using p sg n i(3) by (auto simp: el_paced_def)
    define d1 where "d1 = (if 1 < n then upd_el i (\<lambda>e. e\<lparr>nticks := Some (n - 1)\<rparr>) d else d)"
    have s1: "sane \<delta> d1"
      using s p nabs upd_step [OF s, of "\<lambda>e. e\<lparr>nticks := Some (n - 1)\<rparr>" i] by (simp add: d1_def)
    have e1: "el d1 i = (if 1 < n then (el d i)\<lparr>nticks := Some (n - 1)\<rparr> else el d i)" "\<And>j. j \<noteq> i \<Longrightarrow> el d1 j = el d j"
      "length (els d1) = length (els d)" "tlisteners d1 = tlisteners d" "last_ts d1 = last_ts d" "calls d1 = calls d" "rnds d1 = rnds d"
      using i by (simp_all add: d1_def)
    obtain v d2 where v: "next_ival i d1 = Inr (v, d2)" "\<delta> \<le> v" "d2 = d1 \<or> d2 = d1\<lparr>rnds := \<lambda>n. rnds d1 (Suc n)\<rparr>"
    proof -
      have "el_paced \<delta> (el d1 i)" "signum (el d1 i) = None" "\<not> abs_time (el d1 i)" "0 \<le> rnds d1 0" "rnds d1 0 \<le> 1"
        using s1 i e1 sg nabs rn by (auto simp: sane_def paced_def)
      from next_ival_bound [OF this] show thesis using that by blast
    qed
    let ?f = "\<lambda>e. e\<lparr>etime := map_option (mt_offset v) (etime e)\<rparr>"
    have s2: "sane \<delta> d2" "els d2 = els d1" "tlisteners d2 = tlisteners d1" "last_ts d2 = last_ts d1" "calls d2 = calls d1"
      using v(3) s1 sane_rnds [OF s1] by auto
    have "ed_inv (push_timer i (upd_el i ?f d2))"
      using s2 e1 i by (intro inv_start) (auto simp: sane_def)
    moreover have "paced \<delta> (push_timer i (upd_el i ?f d2))"
      using s2 e1 i nabs by (auto simp: sane_def paced_def)
    ultimately have "sane \<delta> (push_timer i (upd_el i ?f d2))" by (simp add: sane_def)
    moreover have "rearm i d = Inr (False, push_timer i (upd_el i ?f d2))"
      using n True v by (simp add: rearm_def d1_def [symmetric] Let_def)
    ultimately show ?thesis
      using s2 e1 i v by (auto simp: el_key_def)
  qed
qed

end
