(* ===== verification/Event_Dispatch.thy ===== *)
theory Event_Dispatch
  imports Event_Inv
begin

text \<open>
  What the dispatch of timers and the loop around it do, when the callbacks keep to their
  contract: the invariant is kept, timers fire when they are due and in the order of their
  times, none that is due is left behind, the dispatch ends, and the cancelled timers are
  never more than half of the heap after a turn of the loop.
\<close>

section \<open>One step\<close>

lemma el_key_tl [simp]: "el_key (d\<lparr>tlisteners := h, twasted := k\<rparr>) = el_key d"
  by (rule ext) (simp add: el_key_def)

lemma heap_top_min:
  assumes "sane \<delta> d" "j \<in> set (tlisteners d)"
  shows "el_key d (tlisteners d ! 0) \<le> el_key d j"
  using timers.heap_min assms by (auto simp: sane_def ed_inv_def timers_inv_def)

lemma fired_cleanup:
  assumes s: "sane \<delta> d'" and f: "fired \<delta> d i t d'" and i: "i < length (els d)" "i \<notin> set (tlisteners d')" "i \<notin> set (slisteners d')"
  shows "sane \<delta> (el_cleanup i d') \<and> fired \<delta> d i t (el_cleanup i d')"
proof
  have l: "i < length (els d')" using f i by (simp add: fired_def)
  have "ed_inv (el_cleanup i (d'\<lparr>twasted := twasted d' + 0\<rparr>))"
    using s i l by (intro inv_cleanup) (auto simp: sane_def)
  then show "sane \<delta> (el_cleanup i d')" using cleanup_step [OF s, of i "twasted d'"] by simp
  have "el_key (el_cleanup i d') = el_key d'" by (rule ext) (simp add: el_key_def el_cleanup_def)
  then show "fired \<delta> d i t (el_cleanup i d')" using f by (auto simp: fired_def el_cleanup_def)
qed

lemma fired_step:
  assumes s: "sane \<delta> d" and r: "run_ok \<delta> run" and ne: "tlisteners d \<noteq> []"
    and pop: "heappop (el_lt d) (tlisteners d) = (i, h)" and cb: "cb_func (el d i) = Some cb"
    and due: "el_key d i \<le> monot (last_ts d)" and dl: "0 \<le> \<delta>"
  obtains t c d2 where "etime (el d i) = Some t" "rearm i (d\<lparr>tlisteners := h\<rparr>) = Inr (c, d2)"
    "\<And>ts e d3. invoke run (Timer_Call i t (last_ts d)) cb ts d2 = (e, d3) \<Longrightarrow>
       sane \<delta> d3 \<and> fired \<delta> d i t d3 \<and> (c \<longrightarrow> sane \<delta> (el_cleanup i d3) \<and> fired \<delta> d i t (el_cleanup i d3))"
proof -
  let ?h = "d\<lparr>tlisteners := h\<rparr>"
  have inv: "ed_inv d" using s by (simp add: sane_def)
  then have hp: "timer_heap d (tlisteners d)" by (simp add: ed_inv_def timers_inv_def)
  have m: "mset (tlisteners d) = add_mset i (mset h)" "timer_heap d h" "i = tlisteners d ! 0"
    using timers.heappop_spec [OF hp ne pop] by simp_all
  have il: "i \<in> set (tlisteners d)" using m(3) ne by simp
  then obtain t where t: "etime (el d i) = Some t" and ilen: "i < length (els d)" and eu: "el_ed (el d i) \<noteq> Ed_Unset"
    using inv by (auto simp: ed_inv_def timers_inv_def)
  have "distinct (i # h)"
    using inv m(1) by (metis ed_inv_def mset.simps(2) mset_eq_imp_distinct_iff timers_inv_def)
  then have ih: "i \<notin> set h" by simp
  have ed: "el_ed (el d i) = Ed_Self"
    using inv ilen cb eu by (cases "el_ed (el d i)") (auto simp: ed_inv_def listeners_inv_def)
  have sh: "sane \<delta> ?h" using pop_sane [OF s m(1,2), of 0] cb by simp
  obtain c d2 where d2: "rearm i ?h = Inr (c, d2)" "sane \<delta> d2" "last_ts d2 = last_ts d" "length (els d2) = length (els d)"
    "calls d2 = calls d" "\<And>j. j < length (els d) \<Longrightarrow> (j \<noteq> i \<longrightarrow> el d2 j = el d j) \<and> cb_func (el d2 j) = cb_func (el d j)"
    "etime (el d2 i) \<noteq> None"
    "if c then tlisteners d2 = h else mset (tlisteners d2) = add_mset i (mset h) \<and> monot t + \<delta> \<le> el_key d2 i"
    using rearm_step [OF sh, of i t] ih t ilen cb ed by auto
  have tl: "monot t \<le> monot (last_ts d)" using due t by (simp add: el_key_def)
  show thesis
  proof (rule that [OF t d2(1)])
    fix ts e d3
    let ?c = "Timer_Call i t (last_ts d)"
    assume "invoke run ?c cb ts d2 = (e, d3)"
    then have s3: "sane \<delta> d3" and g: "grows \<delta> (d2\<lparr>calls := calls d2 @ [?c]\<rparr>) d3"
      using invoke_step [OF d2(2) r] by auto
    obtain N where N: "mset (tlisteners d3) = mset (tlisteners d2) + N"
      "\<And>j. j \<in># N \<Longrightarrow> monot (last_ts d) + \<delta> \<le> el_key d3 j \<and> (j < length (els d) \<longrightarrow> etime (el d2 j) = None)"
      using g d2(3,4) unfolding grows_def by auto
    have kk: "el_key d3 i = el_key d2 i" using g d2(4,7) ilen by (simp add: grows_def el_key_def)
    obtain N' where N': "mset (tlisteners d3) = mset h + N'" "\<And>j. j \<in># N' \<Longrightarrow> monot t + \<delta> \<le> el_key d3 j"
    proof (cases c)
      case True
      then show thesis using d2(8) N tl by (intro that [of N]) force+
    next
      case False
      then show thesis using d2(8) N tl kk by (intro that [of "add_mset i N"]) force+
    qed
    have f3: "fired \<delta> d i t d3"
      unfolding fired_def using g d2 m(1) N' by (auto simp: grows_def)
    have "sane \<delta> (el_cleanup i d3) \<and> fired \<delta> d i t (el_cleanup i d3)" if c
    proof (rule fired_cleanup [OF s3 f3 ilen])
      have "i \<notin># N" using N(2) [of i] d2(7) ilen by auto
      then show "i \<notin> set (tlisteners d3)" using N(1) d2(8) that ih
        by (metis set_mset_mset set_mset_union Un_iff)
      have "etime (el d3 i) \<noteq> None" using g d2(4,7) ilen by (simp add: grows_def)
      then show "i \<notin> set (slisteners d3)" using s3 by (auto simp: sane_def ed_inv_def signals_inv_def)
    qed
    then show "sane \<delta> d3 \<and> fired \<delta> d i t d3 \<and> (c \<longrightarrow> sane \<delta> (el_cleanup i d3) \<and> fired \<delta> d i t (el_cleanup i d3))"
      using s3 f3 by simp
  qed
qed

lemma timer_step_cases [consumes 3, case_names idle dead fired]:
  assumes s: "sane \<delta> d" and r: "run_ok \<delta> run" and dl: "0 \<le> \<delta>"
  obtains (idle) "timer_step run d = Done (Next d)"
      "\<And>j. j \<in> set (tlisteners d) \<Longrightarrow> cb_func (el d j) \<noteq> None \<Longrightarrow> monot (last_ts d) < el_key d j"
  | (dead) i h where "timer_step run d = Again (d\<lparr>tlisteners := h, twasted := twasted d - 1\<rparr>)"
      "cb_func (el d i) = None" "mset (tlisteners d) = add_mset i (mset h)"
      "sane \<delta> (d\<lparr>tlisteners := h, twasted := twasted d - 1\<rparr>)"
  | (fired) i t d' where "timer_step run d = Again d' \<or> (timer_step run d = Done (Next d') \<and> endloop d')
        \<or> (\<exists>x. timer_step run d = Done (Raise x d'))"
      "i \<in> set (tlisteners d)" "cb_func (el d i) \<noteq> None" "etime (el d i) = Some t" "monot t \<le> monot (last_ts d)"
      "\<And>j. j \<in> set (tlisteners d) \<Longrightarrow> monot t \<le> el_key d j" "sane \<delta> d'" "fired \<delta> d i t d'"
proof (cases "tlisteners d = [] \<or> (cb_func (el d (tlisteners d ! 0)) \<noteq> None \<and> monot (last_ts d) < el_key d (tlisteners d ! 0))")
  case True
  show thesis
  proof (rule idle)
    show "timer_step run d = Done (Next d)" using True by (auto simp: timer_step_def)
    fix j assume "j \<in> set (tlisteners d)"
    then show "monot (last_ts d) < el_key d j" using True heap_top_min [OF s, of j] by fastforce
  qed
next
  case False
  then have ne: "tlisteners d \<noteq> []" by simp
  obtain i h where pop: "heappop (el_lt d) (tlisteners d) = (i, h)" by fastforce
  have hp: "timer_heap d (tlisteners d)" using s by (simp add: sane_def ed_inv_def timers_inv_def)
  have m: "mset (tlisteners d) = add_mset i (mset h)" "timer_heap d h" "i = tlisteners d ! 0"
    using timers.heappop_spec [OF hp ne pop] by simp_all
  show thesis
  proof (cases "cb_func (el d i)")
    case None
    show thesis
    proof (rule dead [of h i])
      show "timer_step run d = Again (d\<lparr>tlisteners := h, twasted := twasted d - 1\<rparr>)"
        using False pop None m(3) by (simp add: timer_step_def)
      show "sane \<delta> (d\<lparr>tlisteners := h, twasted := twasted d - 1\<rparr>)"
        using pop_sane [OF s m(1,2), of 1] None by simp
    qed (use None m in auto)
  next
    case (Some cb)
    then have due: "el_key d i \<le> monot (last_ts d)" using False m(3) by auto
    obtain t c d2 where f: "etime (el d i) = Some t" "rearm i (d\<lparr>tlisteners := h\<rparr>) = Inr (c, d2)"
      "\<And>ts e d3. invoke run (Timer_Call i t (last_ts d)) cb ts d2 = (e, d3) \<Longrightarrow>
         sane \<delta> d3 \<and> fired \<delta> d i t d3 \<and> (c \<longrightarrow> sane \<delta> (el_cleanup i d3) \<and> fired \<delta> d i t (el_cleanup i d3))"
      using fired_step [OF s r ne pop Some due dl] by metis
    obtain e d3 where inv: "invoke run (Timer_Call i t (last_ts d)) cb
        (if cb_with_ts (el d2 i) then Some (last_ts d2) else None) d2 = (e, d3)" by fastforce
    have st: "timer_step run d = (case e of Cb_Exit x \<Rightarrow> Done (Raise x d3)
      | _ \<Rightarrow> if endloop d3 then Done (Next d3) else Again (if c then el_cleanup i d3 else d3))"
      using False pop Some f inv m(3) by (simp add: timer_step_def Let_def split: cb_end.split)
    show thesis
    proof (rule fired [of "if endloop d3 \<or> (\<exists>x. e = Cb_Exit x) \<or> \<not> c then d3 else el_cleanup i d3" i t])
      show "i \<in> set (tlisteners d)" using m(3) ne by simp
      show "monot t \<le> monot (last_ts d)" using due f(1) by (simp add: el_key_def)
      fix j assume "j \<in> set (tlisteners d)"
      then show "monot t \<le> el_key d j" using heap_top_min [OF s, of j] m(3) f(1) by (simp add: el_key_def)
    qed (use st f inv Some in \<open>auto split: cb_end.split\<close>)
  qed
qed

section \<open>The dispatch of timers\<close>

lemma dispatch_rule:
  assumes r: "dispatchTimers run d = Some o1" and I: "I d"
    and again: "\<And>d d'. I d \<Longrightarrow> timer_step run d = Again d' \<Longrightarrow> I d'"
    and fin: "\<And>d o1. I d \<Longrightarrow> timer_step run d = Done o1 \<Longrightarrow> Q o1"
  shows "Q o1"
proof -
  have "rn = run \<longrightarrow> I d \<longrightarrow> Q o1" if "dispatchTimers rn d = Some o1" for rn
    using that
  proof (rule dispatchTimers.raw_induct [rotated])
    fix f :: "('a, 'b) runner \<Rightarrow> ('a, 'b) dispatcher \<Rightarrow> (('a, 'b) dispatcher, unit) outcome option" and rn d o1
    assume IH: "\<And>rn d o1. f rn d = Some o1 \<Longrightarrow> rn = run \<longrightarrow> I d \<longrightarrow> Q o1"
      and st: "(case timer_step rn d of Again d1 \<Rightarrow> f rn d1 | Done r \<Rightarrow> Some r) = Some o1"
    show "rn = run \<longrightarrow> I d \<longrightarrow> Q o1"
      using IH st again fin by (cases "timer_step rn d") auto
  qed
  then show ?thesis using r I by blast
qed

lemma dispatch_sane:
  assumes "sane \<delta> d" "run_ok \<delta> run" "0 \<le> \<delta>" "dispatchTimers run d = Some o1"
  shows "sane \<delta> (out_state o1)"
  using assms(4)
proof (rule dispatch_rule [where I = "sane \<delta>"])
  fix d d' assume s: "sane \<delta> d" and "timer_step run d = Again d'"
  then show "sane \<delta> d'" by (cases rule: timer_step_cases [OF s assms(2,3)]) auto
next
  fix d o1 assume s: "sane \<delta> d" and "timer_step run d = Done o1"
  then show "sane \<delta> (out_state o1)" by (cases rule: timer_step_cases [OF s assms(2,3)]) auto
qed (use assms in simp)

subsection \<open>Order\<close>

fun call_time :: "call \<Rightarrow> real" where
  "call_time (Timer_Call i t now) = monot t"
| "call_time _ = 0"

fun timely :: "call \<Rightarrow> bool" where
  "timely (Timer_Call i t now) \<longleftrightarrow> monot t \<le> monot now"
| "timely _ \<longleftrightarrow> False"

lemma fired_keys:
  assumes s: "sane \<delta> d" and f: "fired \<delta> d i t d'" and dl: "0 \<le> \<delta>"
    and mn: "\<And>j. j \<in> set (tlisteners d) \<Longrightarrow> monot t \<le> el_key d j" and j: "j \<in> set (tlisteners d')"
  shows "monot t \<le> el_key d' j"
proof -
  obtain H N where H: "mset (tlisteners d) = add_mset i H" "mset (tlisteners d') = H + N" "\<And>j. j \<in># N \<Longrightarrow> monot t + \<delta> \<le> el_key d' j"
    using f unfolding fired_def by blast
  consider "j \<in># N" | "j \<in># H" using j H(2) by (metis set_mset_mset union_iff)
  then show ?thesis
  proof cases
    case 1
    then show ?thesis using H(3) [of j] dl by simp
  next
    case 2
    have js: "j \<in> set (tlisteners d)" using 2 H(1) by (metis insert_DiffM set_mset_mset union_single_eq_member insert_iff set_mset_add_mset_insert)
    have "distinct (tlisteners d)" using s by (simp add: sane_def ed_inv_def timers_inv_def)
    then have "j \<noteq> i" using 2 H(1)
      by (metis add_mset_remove_trivial count_add_mset count_greater_zero_iff distinct_count_atmost_1 nat_less_le one_neq_zero set_mset_mset zero_less_Suc Suc_inject add_mset_commute One_nat_def js)
    then have "el_key d' j = el_key d j"
      using f js s by (auto simp: fired_def el_key_def sane_def ed_inv_def timers_inv_def)
    then show ?thesis using mn [OF js] by simp
  qed
qed

definition ordered_calls :: "('c, 'w) dispatcher \<Rightarrow> ('c, 'w) dispatcher \<Rightarrow> bool" where
  "ordered_calls d0 d \<longleftrightarrow> (\<exists>cs. calls d = calls d0 @ cs \<and> list_all timely cs \<and> sorted (map call_time cs)
     \<and> (\<forall>j\<in>set (tlisteners d). \<forall>c\<in>set cs. call_time c \<le> el_key d j))"

lemma ordered_fired:
  assumes s: "sane \<delta> d" and f: "fired \<delta> d i t d'" and dl: "0 \<le> \<delta>" and o: "ordered_calls d0 d"
    and i: "i \<in> set (tlisteners d)" "etime (el d i) = Some t" "monot t \<le> monot (last_ts d)"
    and mn: "\<And>j. j \<in> set (tlisteners d) \<Longrightarrow> monot t \<le> el_key d j"
  shows "ordered_calls d0 d'"
proof -
  obtain cs where cs: "calls d = calls d0 @ cs" "list_all timely cs" "sorted (map call_time cs)"
    "\<And>j c. j \<in> set (tlisteners d) \<Longrightarrow> c \<in> set cs \<Longrightarrow> call_time c \<le> el_key d j"
    using o unfolding ordered_calls_def by blast
  have ct: "call_time c \<le> monot t" if "c \<in> set cs" for c
    using cs(4) [OF i(1) that] i(2) by (simp add: el_key_def)
  let ?c = "Timer_Call i t (last_ts d)"
  have "calls d' = calls d0 @ (cs @ [?c])" using f cs(1) by (simp add: fired_def)
  moreover have "list_all timely (cs @ [?c])" using cs(2) i(3) by simp
  moreover have "sorted (map call_time (cs @ [?c]))" using cs(3) ct by (simp add: sorted_append)
  moreover have "call_time c \<le> el_key d' j" if "j \<in> set (tlisteners d')" "c \<in> set (cs @ [?c])" for j c
    using fired_keys [OF s f dl mn that(1)] that(2) ct by fastforce
  ultimately show ?thesis unfolding ordered_calls_def by blast
qed

lemma dispatch_ordered:
  assumes "sane \<delta> d0" "run_ok \<delta> run" "0 \<le> \<delta>" "dispatchTimers run d0 = Some o1"
  shows "ordered_calls d0 (out_state o1)"
  using assms(4)
proof (rule dispatch_rule [where I = "\<lambda>d. sane \<delta> d \<and> ordered_calls d0 d"])
  show "sane \<delta> d0 \<and> ordered_calls d0 d0" using assms(1) by (simp add: ordered_calls_def)
next
  fix d d' assume s: "sane \<delta> d \<and> ordered_calls d0 d" and st: "timer_step run d = Again d'"
  show "sane \<delta> d' \<and> ordered_calls d0 d'"
    using conjunct1 [OF s] assms(2,3)
  proof (cases rule: timer_step_cases)
    case idle
    then show ?thesis using st by simp
  next
    case (dead i h)
    have "set h \<subseteq> set (tlisteners d)" using dead(3) by (metis set_mset_mset set_mset_add_mset_insert subset_insertI)
    then show ?thesis using s st dead unfolding ordered_calls_def by (auto simp: subset_iff)
  next
    case (fired i t d1)
    then show ?thesis using s st ordered_fired [of \<delta> d i t d1 d0] assms(3) by auto
  qed
next
  fix d o1 assume s: "sane \<delta> d \<and> ordered_calls d0 d" and st: "timer_step run d = Done o1"
  show "ordered_calls d0 (out_state o1)"
    using conjunct1 [OF s] assms(2,3)
  proof (cases rule: timer_step_cases)
    case (fired i t d1)
    then show ?thesis using s st ordered_fired [of \<delta> d i t d1 d0] assms(3) by auto
  qed (use s st in auto)
qed

subsection \<open>Nothing due is left behind\<close>

definition served :: "nat \<Rightarrow> mono_time \<Rightarrow> ('c, 'w) dispatcher \<Rightarrow> ('c, 'w) dispatcher \<Rightarrow> bool" where
  "served i t d0 d \<longleftrightarrow> monot (last_ts d0) \<le> monot (last_ts d) \<and> i < length (els d)
     \<and> (cb_func (el d i) = None \<or> (\<exists>now cs. calls d = calls d0 @ cs \<and> Timer_Call i t now \<in> set cs)
        \<or> (i \<in> set (tlisteners d) \<and> etime (el d i) = Some t \<and> (\<exists>cs. calls d = calls d0 @ cs)))"

lemma served_fired:
  assumes s: "sane \<delta> d" and f: "fired \<delta> d j u d'" and j: "etime (el d j) = Some u" and v: "served i t d0 d"
  shows "served i t d0 d'"
proof -
  have l: "monot (last_ts d0) \<le> monot (last_ts d')" "i < length (els d')" and c: "calls d' = calls d @ [Timer_Call j u (last_ts d)]"
    using f v by (auto simp: fired_def served_def)
  consider "cb_func (el d i) = None" | now cs where "calls d = calls d0 @ cs" "Timer_Call i t now \<in> set cs"
    | cs where "i \<in> set (tlisteners d)" "etime (el d i) = Some t" "calls d = calls d0 @ cs"
    using v unfolding served_def by (elim conjE disjE exE) auto
  then show ?thesis
  proof cases
    case 1
    then have "cb_func (el d' i) = None" using f v by (auto simp: fired_def served_def)
    then show ?thesis using l by (simp add: served_def)
  next
    case 2
    then show ?thesis using l c unfolding served_def by auto
  next
    case 3
    show ?thesis
    proof (cases "i = j")
      case True
      then show ?thesis using l c 3 j unfolding served_def by auto
    next
      case False
      obtain H N where "mset (tlisteners d) = add_mset j H" "mset (tlisteners d') = H + N"
        using f unfolding fired_def by blast
      then have "i \<in> set (tlisteners d')"
        using 3(1) False by (metis set_mset_mset set_mset_add_mset_insert insert_iff set_mset_union Un_iff)
      moreover have "etime (el d' i) = Some t" using f v 3 False by (auto simp: fired_def served_def)
      ultimately show ?thesis using l c 3 unfolding served_def by auto
    qed
  qed
qed

lemma dispatch_serves:
  assumes "sane \<delta> d0" "run_ok \<delta> run" "0 \<le> \<delta>" "dispatchTimers run d0 = Some (Next d')" "\<not> endloop d'"
    and i: "i \<in> set (tlisteners d0)" "etime (el d0 i) = Some t" "monot t \<le> monot (last_ts d0)"
  shows "cb_func (el d' i) = None \<or> (\<exists>now cs. calls d' = calls d0 @ cs \<and> Timer_Call i t now \<in> set cs)"
proof -
  have "case Next d' :: (_, unit) outcome of Next d \<Rightarrow> \<not> endloop d \<longrightarrow> served i t d0 d
      \<and> (\<forall>j\<in>set (tlisteners d). cb_func (el d j) \<noteq> None \<longrightarrow> monot (last_ts d) < el_key d j) | _ \<Rightarrow> True"
    using assms(4)
  proof (rule dispatch_rule [where I = "\<lambda>d. sane \<delta> d \<and> served i t d0 d"])
    show "sane \<delta> d0 \<and> served i t d0 d0"
      using assms i by (auto simp: served_def sane_def ed_inv_def timers_inv_def)
  next
    fix d d' assume s: "sane \<delta> d \<and> served i t d0 d" and st: "timer_step run d = Again d'"
    show "sane \<delta> d' \<and> served i t d0 d'"
      using conjunct1 [OF s] assms(2,3)
    proof (cases rule: timer_step_cases)
      case (dead j h)
      have "set (tlisteners d) = insert j (set h)"
        using dead(3) by (metis set_mset_mset set_mset_add_mset_insert)
      then show ?thesis using s st dead by (auto simp: served_def)
    next
      case (fired j u d1)
      then show ?thesis using s st served_fired [of \<delta> d j u d1 i t d0] by auto
    qed (use st in simp)
  next
    fix d o1 assume s: "sane \<delta> d \<and> served i t d0 d" and st: "timer_step run d = Done o1"
    show "case o1 of Next d \<Rightarrow> \<not> endloop d \<longrightarrow> served i t d0 d
      \<and> (\<forall>j\<in>set (tlisteners d). cb_func (el d j) \<noteq> None \<longrightarrow> monot (last_ts d) < el_key d j) | _ \<Rightarrow> True"
      using conjunct1 [OF s] assms(2,3)
      by (cases rule: timer_step_cases) (use s st in auto)
  qed
  then have "served i t d0 d'" "\<forall>j\<in>set (tlisteners d'). cb_func (el d' j) \<noteq> None \<longrightarrow> monot (last_ts d') < el_key d' j"
    using assms(5) by auto
  then show ?thesis using i(3) unfolding served_def by (fastforce simp: el_key_def)
qed

lemma dispatch_idle:
  assumes "sane \<delta> d0" "run_ok \<delta> run" "0 \<le> \<delta>" "dispatchTimers run d0 = Some (Next d')" "\<not> endloop d'"
    and "j \<in> set (tlisteners d')" "cb_func (el d' j) \<noteq> None"
  shows "monot (last_ts d') < el_key d' j"
proof -
  have "case Next d' :: (_, unit) outcome of Next d \<Rightarrow> \<not> endloop d \<longrightarrow>
      (\<forall>j\<in>set (tlisteners d). cb_func (el d j) \<noteq> None \<longrightarrow> monot (last_ts d) < el_key d j) | _ \<Rightarrow> True"
    using assms(4)
  proof (rule dispatch_rule [where I = "sane \<delta>"])
    fix d d' assume s: "sane \<delta> d" and st: "timer_step run d = Again d'"
    show "sane \<delta> d'" using s assms(2,3) by (cases rule: timer_step_cases) (use st in auto)
  next
    fix d o1 assume s: "sane \<delta> d" and st: "timer_step run d = Done o1"
    show "case o1 of Next d \<Rightarrow> \<not> endloop d \<longrightarrow>
      (\<forall>j\<in>set (tlisteners d). cb_func (el d j) \<noteq> None \<longrightarrow> monot (last_ts d) < el_key d j) | _ \<Rightarrow> True"
      using s assms(2,3) by (cases rule: timer_step_cases) (use st in auto)
  qed (use assms in simp)
  then show ?thesis using assms by auto
qed

subsection \<open>Termination\<close>

text \<open>
  The clock readings of the callbacks stay below \<open>T\<close> (the dispatch goes on for as long as
  timers become due, so that its end depends on the time the callbacks take).
\<close>

fun op_before :: "real \<Rightarrow> 'c ed_op \<Rightarrow> bool" where
  "op_before T (Op_Timeout now cb iv nt) \<longleftrightarrow> monot now \<le> T"
| "op_before T (Op_TimeoutInact now cb iv nt) \<longleftrightarrow> monot now \<le> T"
| "op_before T (Op_TimeoutAbsMono now cb iv) \<longleftrightarrow> monot now \<le> T"
| "op_before T _ \<longleftrightarrow> True"

definition run_before :: "real \<Rightarrow> ('c, 'w) runner \<Rightarrow> bool" where
  "run_before T run \<longleftrightarrow>
     (\<forall>cb ts d. monot (last_ts d) \<le> T \<longrightarrow> list_all (op_before T) (fst (snd (run cb ts d))))"

lemma last_ts_cleanup [simp]: "last_ts (el_cleanup i d) = last_ts d"
  by (simp add: el_cleanup_def)

lemma last_ts_next_ival: "next_ival i d = Inr (v, d1) \<Longrightarrow> last_ts d1 = last_ts d"
  by (auto simp: next_ival_def split: option.splits ival.splits if_splits)

lemma last_ts_go: "last_ts (out_state (el_go i d)) = last_ts d"
  by (auto simp: el_go_def dest: last_ts_next_ival split: option.splits ival.splits sum.splits)

lemma last_ts_reg: "last_ts (out_state (regTimer now cb iv nt a d)) = now"
  by (simp add: regTimer_def Let_def)

lemma last_ts_reg_and_go: "last_ts (out_state (reg_and_go (regTimer now cb iv nt a) d)) = now"
proof (cases "regTimer now cb iv nt a d")
  case (Return v d1)
  then have "last_ts d1 = now" using last_ts_reg [of now cb iv nt a d] by simp
  moreover have "last_ts (out_state (el_go i d1 :: (_, nat option) outcome)) = last_ts d1" for i by (rule last_ts_go)
  ultimately show ?thesis using Return
    by (auto simp: reg_and_go_def call_def raise_def block.simps ret_def split: option.split outcome.split)
      (metis out_state.simps)+
qed (use last_ts_reg [of now cb iv nt a d] in \<open>auto simp: reg_and_go_def call_def raise_def\<close>)

lemma op_before_ts: "op_before T op \<Longrightarrow> monot (last_ts d) \<le> T \<Longrightarrow> monot (last_ts (out_state (do_op op d))) \<le> T"
proof (cases op)
  case (Op_TimeoutAbsMono now cb iv)
  then show "op_before T op \<Longrightarrow> monot (last_ts d) \<le> T \<Longrightarrow> ?thesis"
    by (cases iv) (simp_all add: TimeoutAbsMono_def raise_def last_ts_reg_and_go)
next
  case (Op_Go i)
  then show "op_before T op \<Longrightarrow> monot (last_ts d) \<le> T \<Longrightarrow> ?thesis" by (simp add: last_ts_go)
qed (auto simp: Timeout_def TimeoutInact_def last_ts_reg_and_go last_ts_reg el_cancel_def upd_def spread_runs_def
    regSignal_def unregSignal_def ed_signal_def breakLoop_def Let_def split: ed_attr.splits)

lemma run_ops_before:
  "list_all (op_before T) ops \<Longrightarrow> monot (last_ts d) \<le> T \<Longrightarrow> run_ops ops d = (b, d') \<Longrightarrow> monot (last_ts d') \<le> T"
proof (induction ops arbitrary: d)
  case (Cons op ops)
  then have "monot (last_ts (out_state (do_op op d))) \<le> T" by (simp add: op_before_ts)
  then show ?case using Cons by (auto split: outcome.splits)
qed simp

lemma invoke_before:
  assumes "run_before T run" "monot (last_ts d) \<le> T" "invoke run c cb ts d = (e, d')"
  shows "monot (last_ts d') \<le> T"
proof -
  obtain w ops e1 where ru: "run cb ts (d\<lparr>calls := calls d @ [c]\<rparr>) = (w, ops, e1)" by (metis prod_cases3)
  then have "list_all (op_before T) ops"
    using assms(1,2) spec [of "\<lambda>d. monot (last_ts d) \<le> T \<longrightarrow> list_all (op_before T) (fst (snd (run cb ts d)))" "d\<lparr>calls := calls d @ [c]\<rparr>"]
    unfolding run_before_def by simp
  then show ?thesis
    using run_ops_before [of T ops "d\<lparr>calls := calls d @ [c]\<rparr>"] assms(2,3) ru
    by (auto simp: invoke_def split: prod.splits)
qed

lemma last_ts_rearm: "rearm i d = Inr (c, d2) \<Longrightarrow> last_ts d2 = last_ts d"
  by (auto simp: rearm_def Let_def dest: last_ts_next_ival split: option.splits sum.splits if_splits)

lemma timer_step_before:
  assumes rb: "run_before T run" and t: "monot (last_ts d) \<le> T" and st: "timer_step run d = Again d'"
  shows "monot (last_ts d') \<le> T"
proof -
  obtain i h where pop: "heappop (el_lt d) (tlisteners d) = (i, h)" by fastforce
  show ?thesis
  proof (cases "cb_func (el d i)")
    case None
    then show ?thesis using st pop t by (auto simp: timer_step_def Let_def split: if_splits)
  next
    case (Some cb)
    then obtain c d2 where re: "rearm i (d\<lparr>tlisteners := h\<rparr>) = Inr (c, d2)"
      using st pop by (auto simp: timer_step_def Let_def split: if_splits sum.splits)
    obtain e d3 where inv: "invoke run (Timer_Call i (the (etime (el d i))) (last_ts d)) cb
        (if cb_with_ts (el d2 i) then Some (last_ts d2) else None) d2 = (e, d3)" by fastforce
    have "monot (last_ts d2) \<le> T" using last_ts_rearm [OF re] t by simp
    then have "monot (last_ts d3) \<le> T" using invoke_before [OF rb _ inv] by simp
    moreover have "last_ts d' = last_ts d3"
      using st pop Some re inv by (auto simp: timer_step_def Let_def split: if_splits cb_end.splits)
    ultimately show ?thesis by simp
  qed
qed

text \<open>
  The measure: for each timer in the heap, how often it can still become due before \<open>T\<close> when it
  moves on by \<open>\<delta>\<close> each time. A step replaces one timer by timers with smaller numbers.
\<close>

definition level :: "real \<Rightarrow> real \<Rightarrow> real \<Rightarrow> nat" where
  "level T \<delta> k = (if T < k then 0 else Suc (nat \<lfloor>(T - k) / \<delta>\<rfloor>))"

definition levels :: "real \<Rightarrow> real \<Rightarrow> ('c, 'w) dispatcher \<Rightarrow> nat multiset" where
  "levels T \<delta> d = image_mset (\<lambda>i. level T \<delta> (el_key d i)) (mset (tlisteners d))"

lemma level_less:
  assumes d: "0 < \<delta>" and t: "k \<le> T" "k + \<delta> \<le> k'"
  shows "level T \<delta> k' < level T \<delta> k"
proof (cases "T < k'")
  case False
  have "(T - k') / \<delta> \<le> (T - k - \<delta>) / \<delta>"
    using d t by (intro divide_right_mono) auto
  then have "(T - k') / \<delta> \<le> (T - k) / \<delta> - 1"
    using d by (simp add: diff_divide_distrib)
  then have "\<lfloor>(T - k') / \<delta>\<rfloor> + 1 \<le> \<lfloor>(T - k) / \<delta>\<rfloor>" by linarith
  moreover have "0 \<le> \<lfloor>(T - k') / \<delta>\<rfloor>" using False d by simp
  ultimately show ?thesis using False t d by (simp add: level_def)
qed (use t in \<open>simp add: level_def\<close>)

lemma fired_levels:
  assumes s: "sane \<delta> d" and f: "fired \<delta> d i t d'" and dl: "0 < \<delta>" and i: "etime (el d i) = Some t" "monot t \<le> T"
  shows "(levels T \<delta> d', levels T \<delta> d) \<in> mult less_than"
proof -
  obtain H N where H: "mset (tlisteners d) = add_mset i H" "mset (tlisteners d') = H + N" "\<And>j. j \<in># N \<Longrightarrow> monot t + \<delta> \<le> el_key d' j"
    using f unfolding fired_def by blast
  have ih: "i \<notin># H"
  proof
    assume "i \<in># H"
    then have "2 \<le> count (mset (tlisteners d)) i" using H(1) by (simp add: Suc_leI)
    moreover have "count (mset (tlisteners d)) i \<le> 1"
      using s by (simp add: sane_def ed_inv_def timers_inv_def distinct_count_atmost_1)
    ultimately show False by simp
  qed
  have k: "el_key d' j = el_key d j" if "j \<in># H" for j
  proof -
    have "j \<in> set (tlisteners d)" using that H(1) by (metis set_mset_mset set_mset_add_mset_insert insertI2)
    moreover have "j \<noteq> i" using that ih by auto
    ultimately show ?thesis using f s by (auto simp: fired_def el_key_def sane_def ed_inv_def timers_inv_def)
  qed
  have "levels T \<delta> d' = image_mset (\<lambda>i. level T \<delta> (el_key d i)) H + image_mset (\<lambda>i. level T \<delta> (el_key d' i)) N"
    unfolding levels_def H(2) using k by (simp cong: image_mset_cong)
  moreover have "levels T \<delta> d = image_mset (\<lambda>i. level T \<delta> (el_key d i)) H + {#level T \<delta> (monot t)#}"
    unfolding levels_def H(1) using i by (simp add: el_key_def)
  moreover have "(image_mset (\<lambda>i. level T \<delta> (el_key d i)) H + image_mset (\<lambda>i. level T \<delta> (el_key d' i)) N,
      image_mset (\<lambda>i. level T \<delta> (el_key d i)) H + {#level T \<delta> (monot t)#}) \<in> mult less_than"
    by (rule one_step_implies_mult) (use level_less [OF dl i(2) H(3)] in auto)
  ultimately show ?thesis by simp
qed

lemma dispatch_ends:
  assumes dl: "0 < \<delta>" and r: "run_ok \<delta> run" "run_before T run"
  shows "sane \<delta> d \<Longrightarrow> monot (last_ts d) \<le> T \<Longrightarrow> \<exists>o1. dispatchTimers run d = Some o1"
proof (induction "levels T \<delta> d" arbitrary: d rule: wf_induct_rule [OF wf_mult [OF wf_less_than]])
  case (1 d)
  have d0: "0 \<le> \<delta>" using dl by simp
  show ?case
  proof (cases "timer_step run d")
    case (Done o1)
    then show ?thesis by (subst dispatchTimers.simps) simp
  next
    case (Again d')
    have t: "monot (last_ts d') \<le> T" using timer_step_before [OF r(2) "1.prems"(2) Again] .
    have "sane \<delta> d' \<and> (levels T \<delta> d', levels T \<delta> d) \<in> mult less_than"
      using "1.prems"(1) r(1) d0
    proof (cases rule: timer_step_cases)
      case (dead i h)
      have "levels T \<delta> d' \<subset># levels T \<delta> d" using dead Again by (simp add: levels_def)
      then show ?thesis using dead Again by (auto intro: subset_implies_mult)
    next
      case (fired i u d1)
      then show ?thesis using Again fired_levels [OF "1.prems"(1) fired(8) dl fired(4)] "1.prems"(2) by auto
    qed (use Again in simp)
    then show ?thesis using "1.hyps" [of d'] t Again by (subst dispatchTimers.simps) simp
  qed
qed

section \<open>Compaction\<close>

lemma compact_sane: "sane \<delta> d \<Longrightarrow> sane \<delta> (compact_timers d)"
proof -
  assume s: "sane \<delta> d"
  let ?h = "heapify (el_lt d) (filter (\<lambda>i. cb_func (el d i) \<noteq> None) (tlisteners d))"
  have m: "mset ?h = filter_mset (\<lambda>i. cb_func (el d i) \<noteq> None) (mset (tlisteners d))" "timer_heap d ?h"
    by (simp_all add: timers.heapify_spec)
  have st: "set ?h = {i \<in> set (tlisteners d). cb_func (el d i) \<noteq> None}"
    using arg_cong [OF m(1), of set_mset] by simp
  have "distinct ?h"
    using s by (subst mset_eq_imp_distinct_iff [OF timers.heapify_spec(2)]) (simp add: sane_def ed_inv_def timers_inv_def)
  moreover have "dead_timers (d\<lparr>tlisteners := ?h, twasted := 0\<rparr>) = []"
    using st by (auto simp: dead_timers_def filter_empty_conv)
  ultimately have "sane \<delta> (d\<lparr>tlisteners := ?h, twasted := 0\<rparr>)"
    using s m(2) st unfolding sane_def ed_inv_def timers_inv_def listeners_inv_def signals_inv_def paced_def
    by (auto simp: sig_listeners_def)
  then show ?thesis using s by (simp add: compact_timers_def)
qed

lemma compact_live:
  "filter_mset (\<lambda>i. cb_func (el d i) \<noteq> None) (mset (tlisteners (compact_timers d))) =
   filter_mset (\<lambda>i. cb_func (el d i) \<noteq> None) (mset (tlisteners d))"
  by (simp add: compact_timers_def timers.heapify_spec filter_filter_mset)

lemma compact_bound:
  assumes s: "sane \<delta> d"
  shows "2 * length (dead_timers (compact_timers d)) \<le> length (tlisteners (compact_timers d))"
proof -
  have "sane \<delta> (compact_timers d)" using s by (rule compact_sane)
  then have "int (length (dead_timers (compact_timers d))) \<le> twasted (compact_timers d)"
    by (simp add: sane_def ed_inv_def timers_inv_def)
  moreover have "twasted (compact_timers d) * 2 \<le> int (length (tlisteners (compact_timers d)))"
    by (auto simp: compact_timers_def)
  ultimately show ?thesis by linarith
qed

section \<open>The loop\<close>

text \<open>
  A predicate of the listeners and of the calls made that callbacks and the firing of timers
  keep is kept by the whole loop.
\<close>

locale loop_kept =
  fixes \<delta> :: real and I :: "('c, 'w) dispatcher \<Rightarrow> bool"
  assumes kept_call: "sane \<delta> d \<Longrightarrow> I d \<Longrightarrow> c = Thread_Call \<or> c = Signal_Call j n \<Longrightarrow>
      grows \<delta> (d\<lparr>calls := calls d @ [c]\<rparr>) d' \<Longrightarrow> I d'"
    and kept_fired: "sane \<delta> d \<Longrightarrow> I d \<Longrightarrow> i \<in> set (tlisteners d) \<Longrightarrow> cb_func (el d i) \<noteq> None \<Longrightarrow>
      etime (el d i) = Some t \<Longrightarrow> monot t \<le> monot (last_ts d) \<Longrightarrow> fired \<delta> d i t d' \<Longrightarrow> I d'"
    and kept_fields: "I d \<Longrightarrow> els d' = els d \<Longrightarrow> calls d' = calls d \<Longrightarrow> I d'"
begin

definition K :: "('c, 'w) dispatcher \<Rightarrow> bool" where
  "K d \<longleftrightarrow> sane \<delta> d \<and> I d"

lemma K_call:
  assumes "K d" "run_ok \<delta> run" "invoke run c cb ts d = (e, d')" "c = Thread_Call \<or> c = Signal_Call j n"
  shows "K d'"
  using assms invoke_step [of \<delta> d run c cb ts e d'] kept_call [of d c j n d'] by (auto simp: K_def)

lemma K_timers:
  assumes "K d" "run_ok \<delta> run" "0 \<le> \<delta>" "dispatchTimers run d = Some o1"
  shows "K (out_state o1)"
  using assms(4)
proof (rule dispatch_rule [where I = K])
  fix d d' assume k: "K d" and st: "timer_step run d = Again d'"
  have s: "sane \<delta> d" using k by (simp add: K_def)
  show "K d'"
    using s assms(2,3)
  proof (cases rule: timer_step_cases)
    case (dead i h)
    have "I (d\<lparr>tlisteners := h, twasted := twasted d - 1\<rparr>)" using k by (auto simp: K_def intro: kept_fields)
    then show ?thesis using dead st by (simp add: K_def)
  next
    case (fired i t d1)
    have "I d1" by (rule kept_fired [OF s _ fired(2,3,4,5,8)]) (use k in \<open>simp add: K_def\<close>)
    then show ?thesis using fired st by (auto simp: K_def)
  qed (use st in simp)
next
  fix d o1 assume k: "K d" and st: "timer_step run d = Done o1"
  have s: "sane \<delta> d" using k by (simp add: K_def)
  show "K (out_state o1)"
    using s assms(2,3)
  proof (cases rule: timer_step_cases)
    case (fired i t d1)
    have "I d1" by (rule kept_fired [OF s _ fired(2,3,4,5,8)]) (use k in \<open>simp add: K_def\<close>)
    then show ?thesis using fired st by (auto simp: K_def)
  qed (use st k in auto)
qed (use assms in simp)

lemma K_signal_calls: "K d \<Longrightarrow> run_ok \<delta> run \<Longrightarrow> K (out_state (signal_calls run sn is d))"
proof (induction "is" arbitrary: d)
  case (Cons i "is")
  show ?case
  proof (cases "cb_func (el d i)")
    case (Some cb)
    obtain e d1 where iv: "invoke run (Signal_Call i sn) cb None d = (e, d1)" by fastforce
    have "K d1" using K_call [OF Cons.prems iv, of i sn] by simp
    then show ?thesis using Cons Some iv by (auto split: cb_end.splits)
  qed (use Cons in auto)
qed simp

lemma K_fields:
  "K d \<Longrightarrow> K (d\<lparr>last_ts := t\<rparr>)" "K d \<Longrightarrow> K (d\<lparr>signals_pending := sp\<rparr>)" "K d \<Longrightarrow> K (d\<lparr>ed_exception := x\<rparr>)"
  "K d \<Longrightarrow> K (d\<lparr>endloop := b\<rparr>)"
  unfolding K_def by (auto simp: sane_fields elim: kept_fields)

lemma K_signals:
  assumes "dispatchSignals run d = Some o1" "K d" "run_ok \<delta> run"
  shows "K (out_state o1)"
proof -
  have "rn = run \<longrightarrow> K d \<longrightarrow> K (out_state o1)" if "dispatchSignals rn d = Some o1" for rn
    using that
  proof (rule dispatchSignals.raw_induct [rotated])
    fix f :: "('c, 'w) runner \<Rightarrow> ('c, 'w) dispatcher \<Rightarrow> (('c, 'w) dispatcher, unit) outcome option" and rn d o1
    assume IH: "\<And>rn d o1. f rn d = Some o1 \<Longrightarrow> rn = run \<longrightarrow> K d \<longrightarrow> K (out_state o1)"
      and st: "(case signals_pending d of [] \<Rightarrow> Some (Next d)
        | sn # rest \<Rightarrow> (case signal_calls rn sn (sig_listeners d sn) (d\<lparr>signals_pending := rest\<rparr>) of
             Next d1 \<Rightarrow> f rn d1 | Return u d1 \<Rightarrow> Some (Next d1) | Raise x d1 \<Rightarrow> Some (Raise x d1))) = Some o1"
    show "rn = run \<longrightarrow> K d \<longrightarrow> K (out_state o1)"
    proof (intro impI)
      assume a: "rn = run" "K d"
      show "K (out_state o1)"
      proof (cases "signals_pending d")
        case (Cons sn rest)
        have "K (out_state (signal_calls run sn (sig_listeners d sn) (d\<lparr>signals_pending := rest\<rparr>)))"
          using K_signal_calls [OF K_fields(2) [OF a(2)] assms(3)] .
        then show ?thesis using IH st a Cons
          by (cases "signal_calls run sn (sig_listeners d sn) (d\<lparr>signals_pending := rest\<rparr>)") auto
      qed (use st a in auto)
    qed
  qed
  then show ?thesis using assms by blast
qed

lemma K_compact: "K d \<Longrightarrow> K (compact_timers d)"
proof -
  assume k: "K d"
  have "I (compact_timers d)" by (rule kept_fields [of d]) (use k in \<open>auto simp: K_def compact_timers_def\<close>)
  then show ?thesis using k by (simp add: K_def compact_sane)
qed

lemma K_bound: "K d \<Longrightarrow> 2 * length (dead_timers (compact_timers d)) \<le> length (tlisteners (compact_timers d))"
  using compact_bound [of \<delta> d] by (simp add: K_def)

lemma K_turn:
  assumes k: "K d" and r: "run_ok \<delta> run" "0 \<le> \<delta>" and t: "loop_turn run etm d = Some p"
  shows "case p of Again d' \<Rightarrow> K d' \<and> 2 * length (dead_timers d') \<le> length (tlisteners d') | Done o1 \<Rightarrow> K (out_state o1)"
proof -
  obtain o1 where s: "dispatchSignals run d = Some o1" using t by (auto simp: loop_turn_def split: option.splits)
  have k1: "K (out_state o1)" using K_signals [OF s k r(1)] .
  show ?thesis
  proof (cases o1)
    case (Next d1)
    show ?thesis
    proof (cases "endloop d1")
      case True
      then show ?thesis using t s Next k1 by (auto simp: loop_turn_def)
    next
      case False
      then obtain o2 where dt: "dispatchTimers run d1 = Some o2" using t s Next by (auto simp: loop_turn_def split: option.splits)
      have k2: "K (out_state o2)" using K_timers [OF _ r dt] k1 Next by simp
      then show ?thesis using t s Next False dt
        by (cases o2) (auto simp: loop_turn_def Let_def K_compact K_fields(4) K_bound split: if_splits)
    qed
  qed (use t s k1 in \<open>auto simp: loop_turn_def\<close>)
qed

lemma K_procrastinate:
  assumes "K d" "run_ok \<delta> run"
  shows "K (procrastinate run p d)"
proof -
  have th: "K (dispatchThreadCallback run cb d)" if k: "K d" for cb d
  proof -
    obtain e d1 where iv: "invoke run Thread_Call cb None d = (e, d1)" by fastforce
    have "K d1" using K_call [OF k assms(2) iv] by simp
    then show ?thesis using iv by (auto simp: dispatchThreadCallback_def intro: K_fields(3) split: cb_end.split)
  qed
  have "K (fold (dispatchThreadCallback run) cbs d)" if "K d" for cbs d
    using that by (induction cbs arbitrary: d) (auto simp: th)
  moreover have "K (fold ed_signal sns d)" if "K d" for sns d
    using that by (induction sns arbitrary: d) (auto simp: ed_signal_def K_fields(2))
  ultimately show ?thesis using assms(1) by (simp add: procrastinate_def K_fields(1))
qed

lemma K_loop:
  "K d \<Longrightarrow> run_ok \<delta> run \<Longrightarrow> 0 \<le> \<delta> \<Longrightarrow> ed_loop run etm ps d = Some p \<Longrightarrow>
   (case p of Again d' \<Rightarrow> K d' \<and> 2 * length (dead_timers d') \<le> length (tlisteners d') | Done o1 \<Rightarrow> K (out_state o1))"
proof (induction ps arbitrary: d)
  case Nil
  then show ?case using K_turn [of d run etm]
    by (subst (asm) ed_loop.simps) (auto split: option.splits progress.splits)
next
  case (Cons q ps)
  obtain p1 where t: "loop_turn run etm d = Some p1" using Cons.prems(4) by (subst (asm) ed_loop.simps) (auto split: option.splits)
  note k1 = K_turn [OF Cons.prems(1,2,3) t]
  show ?case
  proof (cases p1)
    case (Done o1)
    then show ?thesis using Cons.prems(4) t k1 by (subst (asm) ed_loop.simps) auto
  next
    case (Again d1)
    then have k2: "K (procrastinate run q d1)" using k1 K_procrastinate [OF _ Cons.prems(2)] by simp
    then show ?thesis using Cons.prems(4) t Again Cons.IH [OF k2 Cons.prems(2,3)]
      by (subst (asm) ed_loop.simps) (auto simp: Let_def K_fields(3) split: option.splits)
  qed
qed

end

text \<open>The invariant itself, and the silence of a timer that has no callback any more.\<close>

interpretation kept_inv: loop_kept \<delta> "\<lambda>_ :: ('c, 'w) dispatcher. True" for \<delta> :: real
  by unfold_locales simp_all

definition silent :: "nat \<Rightarrow> ('c, 'w) dispatcher \<Rightarrow> ('c, 'w) dispatcher \<Rightarrow> bool" where
  "silent i d0 d \<longleftrightarrow> i < length (els d) \<and> cb_func (el d i) = None
     \<and> (\<exists>cs. calls d = calls d0 @ cs \<and> (\<forall>t now. Timer_Call i t now \<notin> set cs))"

interpretation kept_silent: loop_kept \<delta> "silent i d0" for \<delta> :: real and i and d0 :: "('c, 'w) dispatcher"
proof
  fix d d' :: "('c, 'w) dispatcher" and c j n
  assume "silent i d0 d" "c = Thread_Call \<or> c = Signal_Call j n" "grows \<delta> (d\<lparr>calls := calls d @ [c]\<rparr>) d'"
  then show "silent i d0 d'" by (auto simp: silent_def grows_def)
next
  fix d d' :: "('c, 'w) dispatcher" and j t
  assume "silent i d0 d" "cb_func (el d j) \<noteq> None" "fired \<delta> d j t d'"
  then show "silent i d0 d'" by (auto simp: silent_def fired_def)
qed (auto simp: silent_def)

lemma sane_init: "(\<And>n. 0 \<le> rs n \<and> rs n \<le> 1) \<Longrightarrow> sane \<delta> (EventDispatcher2_init freq now w rs)"
  by (simp add: sane_def ed_inv_def timers_inv_def listeners_inv_def signals_inv_def paced_def
      EventDispatcher2_init_def dead_timers_def sig_listeners_def)

end
