(* ===== verification/Loop_Props.thy ===== *)
theory Loop_Props
  imports Event_Dispatch
begin

text \<open>
  The properties of the event loop and of its clock, with an example: a dispatcher with one
  timer that fires twice, whose callback starts another timer.
\<close>

section \<open>An example\<close>

definition at_time :: "real \<Rightarrow> mono_time" where
  "at_time r = \<lparr>monot = r, realt = r\<rparr>"

definition ex_run :: "(nat, unit) runner" where
  "ex_run cb ts d = ((), (if cb = 0 then [Op_Timeout (last_ts d) 1 (Secs 2) (Some 1)] else []), Cb_Return)"

definition ex_start :: "(nat, unit) dispatcher" where
  "ex_start = EventDispatcher2_init 100 (at_time 0) () (\<lambda>_. 0)"

definition ex_ed :: "(nat, unit) dispatcher" where
  "ex_ed = (out_state (do_op (Op_Timeout (at_time 0) 0 (Secs 1) (Some 2)) ex_start))\<lparr>last_ts := at_time 5\<rparr>"

lemma ex_start_sane: "sane 1 ex_start"
  unfolding ex_start_def by (rule sane_init) simp

lemma ex_ed_sane: "sane 1 ex_ed"
  using op_step [OF ex_start_sane, of "Op_Timeout (at_time 0) 0 (Secs 1) (Some 2)"]
  unfolding ex_ed_def by (simp add: sane_fields ex_start_def EventDispatcher2_init_def)

lemma ex_run_ok: "run_ok 1 ex_run"
  by (simp add: run_ok_def ex_run_def)

lemma ex_run_before: "run_before T ex_run"
  by (simp add: run_before_def ex_run_def)

lemma ex_ed_fields:
  "tlisteners ex_ed = [0]" "last_ts ex_ed = at_time 5" "calls ex_ed = []" "endloop ex_ed = False" "signals_pending ex_ed = []"
  "etime (el ex_ed 0) = Some (at_time 1)" "length (els ex_ed) = 1" "cb_func (el ex_ed 0) = Some 0" "el_ed (el ex_ed 0) = Ed_Self"
  by (simp_all add: ex_ed_def ex_start_def EventDispatcher2_init_def Timeout_def reg_and_go_def call_def regTimer_def Let_def
      block.simps ret_def el_go_def next_ival_def EventListener_new_def push_timer_def upd_el_def heappush_def
      siftdown.simps at_time_def getOffsetCopy_def)

text \<open>A second one, with a timer that fires once and a callback that does nothing.\<close>

definition idle_run :: "(nat, unit) runner" where
  "idle_run cb ts d = ((), [], Cb_Return)"

definition ex_once :: "(nat, unit) dispatcher" where
  "ex_once = (out_state (do_op (Op_Timeout (at_time 0) 0 (Secs 1) (Some 1)) ex_start))\<lparr>last_ts := at_time 5\<rparr>"

lemma ex_once_sane: "sane 1 ex_once"
  using op_step [OF ex_start_sane, of "Op_Timeout (at_time 0) 0 (Secs 1) (Some 1)"]
  unfolding ex_once_def by (simp add: sane_fields ex_start_def EventDispatcher2_init_def)

lemma idle_run_ok: "run_ok 1 idle_run"
  by (simp add: run_ok_def idle_run_def)

lemma ex_once_value:
  "ex_once = ex_start\<lparr>els := [EventListener_new\<lparr>itime := Some (at_time 0), cb_func := Some 0, el_ival := Some (Secs 1),
       nticks := Some 1, el_ed := Ed_Self, etime := Some (at_time 1)\<rparr>],
     tlisteners := [0], last_ts := at_time 5\<rparr>"
  by (simp add: ex_once_def ex_start_def EventDispatcher2_init_def Timeout_def reg_and_go_def call_def regTimer_def Let_def
      block.simps ret_def el_go_def next_ival_def EventListener_new_def push_timer_def upd_el_def heappush_def
      siftdown.simps at_time_def getOffsetCopy_def)

definition ex_after :: "(nat, unit) dispatcher" where
  "ex_after = el_cleanup 0 (ex_once\<lparr>tlisteners := [], calls := [Timer_Call 0 (at_time 1) (at_time 5)]\<rparr>)"

lemma ex_once_dispatch: "dispatchTimers idle_run ex_once = Some (Next ex_after)"
proof -
  have "timer_step idle_run ex_once = Again ex_after"
    by (simp add: ex_once_value ex_after_def timer_step_def el_key_def at_time_def heappop_def rearm_def
        invoke_def idle_run_def ex_start_def EventDispatcher2_init_def EventListener_new_def)
  moreover have "timer_step idle_run ex_after = Done (Next ex_after)"
    by (simp add: timer_step_def ex_after_def el_cleanup_def)
  ultimately show ?thesis by (subst dispatchTimers.simps, simp, subst dispatchTimers.simps, simp)
qed

section \<open>Properties\<close>

text \<open>
  (C16) The event loop keeps its invariant. From a state that satisfies it, with callbacks that
  keep to their contract (a timer is started once, in the future), whatever signals,
  thread calls and clock readings come, at every sleep and at the end of \<open>loop\<close> the timers form
  a heap without repetitions, \<open>twasted\<close> is at least the number of cancelled timers in it, and
  the signal handlers installed are those of the registered listeners. At every sleep at most
  half of the timers in the heap are cancelled ones.
\<close>

theorem loop_keeps_invariant:
  assumes "sane \<delta> d" "run_ok \<delta> run" "0 \<le> \<delta>" "ed_loop run etm ps d = Some p"
  shows "case p of Again d' \<Rightarrow> ed_inv d' \<and> 2 * length (dead_timers d') \<le> length (tlisteners d')
    | Done o1 \<Rightarrow> ed_inv (out_state o1)"
proof -
  have "kept_inv.K \<delta> d" using assms(1) by (simp add: kept_inv.K_def)
  from kept_inv.K_loop [OF this assms(2,3,4)] show ?thesis
    by (auto simp: kept_inv.K_def sane_def split: progress.splits)
qed

theorem loop_keeps_invariant_witness:
  "sane 1 ex_start \<and> run_ok 1 ex_run \<and> ed_loop ex_run None [] ex_start = Some (Again ex_start)
   \<and> ed_inv ex_start \<and> 2 * length (dead_timers ex_start) \<le> length (tlisteners ex_start)"
proof -
  have s: "dispatchSignals ex_run ex_start = Some (Next ex_start)"
    by (subst dispatchSignals.simps) (simp add: ex_start_def EventDispatcher2_init_def)
  have t: "dispatchTimers ex_run ex_start = Some (Next ex_start)"
    by (subst dispatchTimers.simps) (simp add: timer_step_def ex_start_def EventDispatcher2_init_def)
  have l: "ed_loop ex_run None [] ex_start = Some (Again ex_start)"
  proof -
    have "compact_timers ex_start = ex_start" "endloop ex_start = False"
      by (simp_all add: compact_timers_def ex_start_def EventDispatcher2_init_def)
    then show ?thesis by (subst ed_loop.simps) (simp add: loop_turn_def s t)
  qed
  from loop_keeps_invariant [OF ex_start_sane ex_run_ok _ l] show ?thesis
    using l ex_start_sane ex_run_ok by simp
qed

text \<open>
  (C19) \<open>dispatchTimers\<close> calls a timer only when its time has come, and the calls of one
  dispatch are in the order of the timers' times, timers that the callbacks start and periodic
  timers that are due again included.
\<close>

theorem timers_fire_in_order:
  assumes "sane \<delta> d" "run_ok \<delta> run" "0 \<le> \<delta>" "dispatchTimers run d = Some o1"
  shows "\<exists>cs. calls (out_state o1) = calls d @ cs \<and> list_all timely cs \<and> sorted (map call_time cs)"
  using dispatch_ordered [OF assms] unfolding ordered_calls_def by blast

theorem timers_fire_in_order_witness:
  "\<exists>o1 cs. dispatchTimers ex_run ex_ed = Some o1 \<and> calls (out_state o1) = calls ex_ed @ cs
     \<and> list_all timely cs \<and> sorted (map call_time cs)"
proof -
  obtain o1 where r: "dispatchTimers ex_run ex_ed = Some o1"
    using dispatch_ends [OF _ ex_run_ok ex_run_before ex_ed_sane, of 5] by (auto simp: ex_ed_fields at_time_def)
  with timers_fire_in_order [OF ex_ed_sane ex_run_ok _ r] show ?thesis by auto
qed



text \<open>
  (C18) \<open>dispatchTimers\<close> returns: when every interval is at least \<open>\<delta> > 0\<close>, the callbacks start
  timers at least \<open>\<delta>\<close> ahead and the clock readings they make stay below some \<open>T\<close>, its loop
  ends. (A periodic timer whose interval is not positive would keep it going for ever.)
\<close>

theorem dispatch_terminates:
  assumes "0 < \<delta>" "sane \<delta> d" "run_ok \<delta> run" "run_before T run" "monot (last_ts d) \<le> T"
  shows "\<exists>o1. dispatchTimers run d = Some o1"
  using dispatch_ends [OF assms(1,3,4,2,5)] .

theorem dispatch_terminates_witness:
  "sane 1 ex_ed \<and> run_ok 1 ex_run \<and> run_before 5 ex_run \<and> (\<exists>o1. dispatchTimers ex_run ex_ed = Some o1)"
  using dispatch_terminates [OF _ ex_ed_sane ex_run_ok ex_run_before, of 5] ex_ed_sane ex_run_ok ex_run_before [of 5]
  by (simp add: ex_ed_fields at_time_def)

text \<open>
  (C20) A cancelled timer is never called again: after \<open>cancel\<close> no turn of the loop calls it,
  whether it was waiting in the heap, periodic, or not started.
\<close>

theorem cancelled_timer_silent:
  assumes "sane \<delta> d" "i < length (els d)" "el_cancel i d = (Next d1 :: (_, unit) outcome)"
    and "run_ok \<delta> run" "0 \<le> \<delta>" "ed_loop run etm ps d1 = Some p"
  shows "\<exists>cs. calls (case p of Again d' \<Rightarrow> d' | Done o1 \<Rightarrow> out_state o1) = calls d @ cs
    \<and> (\<forall>t now. Timer_Call i t now \<notin> set cs)"
proof -
  have o: "do_op (Op_Cancel i) d = Next d1"
    using assms(3) by (auto simp: el_cancel_def split: ed_attr.splits)
  have "sane \<delta> d1" using op_step [OF assms(1), of "Op_Cancel i"] assms(2) o by simp
  moreover have "silent i d d1"
    using assms(2,3) by (auto simp: silent_def el_cancel_def el_cleanup_def split: ed_attr.splits)
  ultimately have "kept_silent.K \<delta> i d d1" by (simp add: kept_silent.K_def)
  from kept_silent.K_loop [OF this assms(4,5,6)] show ?thesis
    by (auto simp: kept_silent.K_def silent_def split: progress.splits)
qed

definition ex_cancelled :: "(nat, unit) dispatcher" where
  "ex_cancelled = el_cleanup 0 (ex_once\<lparr>twasted := 1\<rparr>)"

definition ex_empty :: "(nat, unit) dispatcher" where
  "ex_empty = ex_cancelled\<lparr>tlisteners := [], twasted := 0\<rparr>"

theorem cancelled_timer_silent_witness:
  "el_cancel 0 ex_once = (Next ex_cancelled :: (_, unit) outcome)
   \<and> ed_loop idle_run None [] ex_cancelled = Some (Again ex_empty)
   \<and> (\<exists>cs. calls ex_empty = calls ex_once @ cs \<and> (\<forall>t now. Timer_Call 0 t now \<notin> set cs))"
proof -
  have c: "el_cancel 0 ex_once = (Next ex_cancelled :: (_, unit) outcome)"
    by (simp add: el_cancel_def ex_cancelled_def ex_once_value ex_start_def EventDispatcher2_init_def EventListener_new_def)
  have s: "dispatchSignals idle_run ex_cancelled = Some (Next ex_cancelled)"
    by (subst dispatchSignals.simps)
      (simp add: ex_cancelled_def el_cleanup_def upd_el_def ex_once_value ex_start_def EventDispatcher2_init_def)
  have e: "timer_step idle_run ex_cancelled = Again ex_empty"
    by (simp add: timer_step_def ex_cancelled_def ex_empty_def el_cleanup_def upd_el_def heappop_def ex_once_value
        ex_start_def EventDispatcher2_init_def EventListener_new_def)
  have e2: "timer_step idle_run ex_empty = Done (Next ex_empty)"
    by (simp add: timer_step_def ex_empty_def)
  have t: "dispatchTimers idle_run ex_cancelled = Some (Next ex_empty)"
    by (subst dispatchTimers.simps, simp add: e, subst dispatchTimers.simps, simp add: e2)
  have l: "ed_loop idle_run None [] ex_cancelled = Some (Again ex_empty)"
  proof -
    have "compact_timers ex_empty = ex_empty" "endloop ex_empty = False" "endloop ex_cancelled = False"
      by (simp_all add: compact_timers_def ex_empty_def ex_cancelled_def el_cleanup_def upd_el_def ex_once_value
          ex_start_def EventDispatcher2_init_def)
    then show ?thesis by (subst ed_loop.simps) (simp add: loop_turn_def s t)
  qed
  have "0 < length (els ex_once)" by (simp add: ex_once_value)
  from cancelled_timer_silent [OF ex_once_sane this c idle_run_ok _ l] c l show ?thesis by simp
qed

text \<open>
  (C33) The estimate of the wall clock follows the system's: if the difference of the two system
  clocks stays between \<open>lo\<close> and \<open>hi\<close> in every reading, the smoothed difference of every
  \<open>MonoTime\<close> made from those readings stays there too.
\<close>

theorem monotime_within_bounds:
  assumes "lo \<le> rt0 - mt0 \<and> rt0 - mt0 \<le> hi"
    and "list_all (\<lambda>(rt, mt). lo \<le> rt - mt \<and> rt - mt \<le> hi) rs"
  shows "list_all (\<lambda>m. lo \<le> getdiff m \<and> getdiff m \<le> hi) (fst (MonoTime_run rs (MonoGlobals_init rt0 mt0)))"
  using assms by (intro MonoTime_run_bounds) (simp_all add: MonoGlobals_init_def recfilter_init_def flt_convex_def)

theorem monotime_within_bounds_witness:
  "list_all (\<lambda>m. 10 \<le> getdiff m \<and> getdiff m \<le> 12) (fst (MonoTime_run [(112, 100), (121, 111)] (MonoGlobals_init 100 90)))"
  using monotime_within_bounds [of 10 100 90 12 "[(112, 100), (121, 111)]"] by simp

end
