(* ===== verification/B2B_Route.thy ===== *)
theory B2B_Route
  imports CC_Events
begin

text \<open>
  Routes of the back-to-back user agent (\<^verbatim>\<open>B2B/Route.py\<close>) and the transformations that a
  route or the configuration may ask for (\<^verbatim>\<open>B2B/Transforms.py\<close>). A route is read from a text
  such as \<^verbatim>\<open>cld@host:port;expires=30;auth=user:pass\<close>, which RADIUS or the configuration
  gives, and then customised for the call. The resolver (\<^verbatim>\<open>getaddrinfo\<close>) is a parameter, and so
  is \<open>ext\<close>, what a name that is not a transformation gives in \<open>getTransProc\<close>.
\<close>

section \<open>Transformations\<close>

datatype trans_proc =
    HDR2Xattrs string
  | VAL2Xattrs bool bool "(string \<times> string) list"
    \<comment> \<open>\<^verbatim>\<open>doO\<close>, \<^verbatim>\<open>doA\<close>, \<^verbatim>\<open>radius_parameters\<close>\<close>
  | Nop

text \<open>\<^verbatim>\<open>s.partition('=')\<close>: the part before the separator and the part after it, which may be missing.\<close>

definition partition_eq :: "string \<Rightarrow> string \<times> string" where
  "partition_eq s = (case split1 (CHR ''='') s of [k, v] \<Rightarrow> (k, v) | _ \<Rightarrow> (s, []))"

fun val2xattrs_pairs :: "string list \<Rightarrow> exn + (string \<times> string) list" where
  "val2xattrs_pairs [] = Inr []"
| "val2xattrs_pairs (p # ps) =
     (case partition_eq p of (k, v) \<Rightarrow>
        if v = [] then Inl ValueError
        else map_sum id (\<lambda>r. (k, v) # r) (val2xattrs_pairs ps))"

definition VAL2Xattrs_init :: "bool \<Rightarrow> bool \<Rightarrow> string \<Rightarrow> exn + trans_proc" where
  "VAL2Xattrs_init doO doA v = map_sum id (VAL2Xattrs doO doA) (val2xattrs_pairs (split_on (CHR '','') v))"

definition getTransProc :: "(string \<Rightarrow> string \<Rightarrow> exn + trans_proc) \<Rightarrow> string \<Rightarrow> exn + trans_proc" where
  "getTransProc ext value =
     (case split1 (CHR ''['') value of
        [fname, r] \<Rightarrow>
          if \<not> endswith '']'' value then Inl ValueError
          else let farg = butlast r
               in if fname = ''HDR2Xattrs'' then Inr (HDR2Xattrs farg)
                  else if fname = ''VAL2Xattrs'' then VAL2Xattrs_init True True farg
                  else if fname = ''VAL2XattrsA'' then VAL2Xattrs_init False True farg
                  else if fname = ''VAL2XattrsO'' then VAL2Xattrs_init True False farg
                  else if fname = ''Nop'' then Inr Nop
                  else ext fname farg
      | _ \<Rightarrow> Inl ValueError)"

text \<open>
  \<open>HDR2Xattrs.__call__\<close>: the attributes that the named headers of a request carry, added to
  those of the call. Only a header without a class of its own keeps a text as \<^verbatim>\<open>body\<close>.
\<close>

fun header_text :: "sip_header \<Rightarrow> exn + string" where
  "header_text h = (case hbody h of HF_Str t \<Rightarrow> Inr t | _ \<Rightarrow> Inl AttributeError)"

fun header_texts :: "sip_header list \<Rightarrow> exn + string list" where
  "header_texts [] = Inr []"
| "header_texts (h # hs) =
     (case header_text h of Inl e \<Rightarrow> Inl e | Inr t \<Rightarrow> map_sum id (\<lambda>ts. t # ts) (header_texts hs))"

definition text_attrs :: "string \<Rightarrow> (string \<times> string) list" where
  "text_attrs t = filter (\<lambda>(k, v). v \<noteq> []) (map partition_eq (split_on (CHR '';'') t))"

definition HDR2Xattrs_call ::
  "string \<Rightarrow> sip_req \<Rightarrow> (string \<times> string) list option \<Rightarrow> exn + (string \<times> string) list option" where
  "HDR2Xattrs_call hdr_name req old =
     map_sum id
       (\<lambda>ts. case concat (map text_attrs ts) of
          [] \<Rightarrow> old
        | new \<Rightarrow> Some (case old of None \<Rightarrow> new | Some l \<Rightarrow> l @ new))
       (header_texts (getHFs hdr_name req))"

section \<open>Routes\<close>

datatype addr_fam = AF_UNSPEC | AF_INET | AF_INET6

type_synonym ainfo = "(addr_fam \<times> (string \<times> int)) list"
  \<comment> \<open>the family and the address of each result of the resolver\<close>

type_synonym resolver = "string \<Rightarrow> int \<Rightarrow> addr_fam \<Rightarrow> exn + ainfo"

datatype param_val =
    P_Codes "int list"
  | P_Name "string option"
  | P_Rtpp bool
  | P_Proxy "string \<times> int"
  | P_Proc trans_proc
  | P_Text string
  | P_Group "int \<times> int"

datatype crt = Crt_Bool bool | Crt_Time "int option"
  \<comment> \<open>\<^verbatim>\<open>customize\<close> stores the default credit time in \<^verbatim>\<open>crt_set\<close>\<close>

record b2b_route =
  rnum :: "int option"
  r_cld :: "string option"
  cld_set :: bool
  r_cli :: "string option"
  cli_set :: bool
  r_hostport :: string
  hostonly :: string
  ainfo :: "ainfo option"
  r_credit_time :: "int option"
  crt_set :: crt
  r_expires :: "int option"
  no_progress_expires :: "int option"
  no_reply_expires :: "int option"
  forward_on_fail :: bool
  r_user :: "string option"
  r_passw :: "string option"
  r_pass_auth :: bool
  r_params :: "(string \<times> param_val) list"
  r_extra_headers :: "sip_header list option"

definition DST_SIP_UA :: string where "DST_SIP_UA = ''sip-ua''"
definition DST_WSS_UA :: string where "DST_WSS_UA = ''wss-ua''"
definition SRC_WSS :: string where "SRC_WSS = ''[[WSS]]''"
definition SRC_PROXY :: string where "SRC_PROXY = ''[[PROXY]]''"

text \<open>The class attributes, with the destination set.\<close>

definition route_blank :: "string \<Rightarrow> b2b_route" where
  "route_blank hp = \<lparr>rnum = None, r_cld = None, cld_set = False, r_cli = None, cli_set = False, r_hostport = hp,
     hostonly = [], ainfo = None, r_credit_time = None, crt_set = Crt_Bool False, r_expires = None,
     no_progress_expires = None, no_reply_expires = None, forward_on_fail = False, r_user = None, r_passw = None,
     r_pass_auth = True, r_params = [], r_extra_headers = None\<rparr>"

text \<open>The properties \<^verbatim>\<open>cld\<close> and \<^verbatim>\<open>cli\<close>.\<close>

definition set_cld :: "string option \<Rightarrow> b2b_route \<Rightarrow> b2b_route" where
  "set_cld v r = r\<lparr>r_cld := v, cld_set := True\<rparr>"

definition set_cli :: "string option \<Rightarrow> b2b_route \<Rightarrow> b2b_route" where
  "set_cli v r = r\<lparr>r_cli := v, cli_set := True\<rparr>"

definition nonempty :: "string \<Rightarrow> string option" where
  "nonempty s = (if s = [] then None else Some s)"

text \<open>The first part: the called number and the destination.\<close>

definition route_dest :: "string \<Rightarrow> b2b_route" where
  "route_dest s =
     (case split1 (CHR ''@'') s of
        [cld, hp] \<Rightarrow> set_cld (nonempty cld) (route_blank hp)
      | _ \<Rightarrow> route_blank s)"

text \<open>Host, port (if one is given), family and \<^verbatim>\<open>hostonly\<close> of the destination.\<close>

definition route_host :: "string \<Rightarrow> string \<times> string option \<times> addr_fam \<times> string" where
  "route_host hp =
     (if \<not> startswith ''['' hp then
        (case split1 (CHR '':'') hp of
           [h, p] \<Rightarrow> (h, Some p, AF_UNSPEC, h)
         | _ \<Rightarrow> (hp, None, AF_UNSPEC, hp))
      else
        (case split1 (CHR '']'') (tl hp) of
           [h, p] \<Rightarrow> (h, if p = [] then None else Some (tl p), AF_INET6, ''['' @ h @ '']'')
         | _ \<Rightarrow> (tl hp, None, AF_INET6, ''['' @ tl hp @ '']'')))"

definition int_arg :: "string \<Rightarrow> exn + int" where
  "int_arg v = (case py_int v of None \<Rightarrow> Inl ValueError | Some n \<Rightarrow> Inr n)"

definition route_resolve :: "resolver \<Rightarrow> b2b_route \<Rightarrow> exn + b2b_route" where
  "route_resolve gai r =
     (case route_host (r_hostport r) of (h, p, af, ho) \<Rightarrow>
        (case (case p of None \<Rightarrow> Inr default_port | Some t \<Rightarrow> int_arg t) of
           Inl e \<Rightarrow> Inl e
         | Inr pn \<Rightarrow>
             if h \<in> {DST_SIP_UA, DST_WSS_UA} then Inr (r\<lparr>hostonly := ho\<rparr>)
             else map_sum id (\<lambda>ai. r\<lparr>hostonly := ho, ainfo := Some ai\<rparr>) (gai h pn af)))"

text \<open>A limit: a negative number takes it away.\<close>

definition limit_arg :: "string \<Rightarrow> exn + int option" where
  "limit_arg v = map_sum id (\<lambda>n. if n < 0 then None else Some n) (int_arg v)"

fun int_args :: "string list \<Rightarrow> exn + int list" where
  "int_args [] = Inr []"
| "int_args (x # xs) =
     (if strip x = [] then int_args xs
      else case int_arg x of Inl e \<Rightarrow> Inl e | Inr n \<Rightarrow> map_sum id (\<lambda>ns. n # ns) (int_args xs))"

text \<open>\<^verbatim>\<open>SipHeader(s)\<close>: a header from its text.\<close>

definition SipHeader_text :: "bool \<Rightarrow> string \<Rightarrow> exn + sip_header" where
  "SipHeader_text tel s =
     (case map strip (split1 (CHR '':'') s) of
        [n, b] \<Rightarrow>
          if header_csvs (lower n) b \<noteq> None then Inl (OtherError ''ESipHeaderCSV'')
          else Inr (SipHeader (lower n) (hf_parse tel (can_name (lower n)) b))
      | _ \<Rightarrow> Inl ValueError)"

definition set_param :: "string \<Rightarrow> param_val \<Rightarrow> b2b_route \<Rightarrow> b2b_route" where
  "set_param k v r = r\<lparr>r_params := dict_set k v (r_params r)\<rparr>"

text \<open>One parameter; the headers collected so far are threaded through.\<close>

definition route_param ::
  "bool \<Rightarrow> (string \<Rightarrow> string \<Rightarrow> exn + trans_proc) \<Rightarrow> string \<Rightarrow> string \<Rightarrow> b2b_route \<times> sip_header list \<Rightarrow>
   exn + b2b_route \<times> sip_header list" where
  "route_param tel ext a v st =
     (case st of (r, hs) \<Rightarrow>
      if a = ''credit-time'' then
        map_sum id (\<lambda>n. (r\<lparr>r_credit_time := n, crt_set := Crt_Bool True\<rparr>, hs)) (limit_arg v)
      else if a = ''expires'' then map_sum id (\<lambda>n. (r\<lparr>r_expires := n\<rparr>, hs)) (limit_arg v)
      else if a = ''hs_scodes'' then
        map_sum id (\<lambda>ns. (set_param ''huntstop_scodes'' (P_Codes ns) r, hs)) (int_args (split_on (CHR '','') v))
      else if a = ''np_expires'' then map_sum id (\<lambda>n. (r\<lparr>no_progress_expires := n\<rparr>, hs)) (limit_arg v)
      else if a = ''nr_expires'' then map_sum id (\<lambda>n. (r\<lparr>no_reply_expires := n\<rparr>, hs)) (limit_arg v)
      else if a = ''forward_on_fail'' then Inr (r\<lparr>forward_on_fail := True\<rparr>, hs)
      else if a = ''auth'' then
        (if v = ''nopass'' then Inr (r\<lparr>r_pass_auth := False\<rparr>, hs)
         else case split1 (CHR '':'') v of
                [u, p] \<Rightarrow> Inr (r\<lparr>r_pass_auth := False, r_user := Some u, r_passw := Some p\<rparr>, hs)
              | _ \<Rightarrow> Inl ValueError)
      else if a = ''cli'' then Inr (set_cli (nonempty v) r, hs)
      else if a = ''cnam'' then
        (case unquote v of
           None \<Rightarrow> Inl (OtherError ''unicode'')
         | Some n \<Rightarrow> Inr (set_param ''caller_name'' (P_Name (nonempty n)) r, hs))
      else if a = ''ash'' then
        (case unquote v of
           None \<Rightarrow> Inl (OtherError ''unicode'')
         | Some t \<Rightarrow> map_sum id (\<lambda>h. (r, hs @ [h])) (SipHeader_text tel t))
      else if a = ''rtpp'' then map_sum id (\<lambda>n. (set_param ''rtpp'' (P_Rtpp (n \<noteq> 0)) r, hs)) (int_arg v)
      else if a = ''op'' then
        (case split1 (CHR '':'') v of
           [h, p] \<Rightarrow> map_sum id (\<lambda>n. (set_param ''outbound_proxy'' (P_Proxy (h, n)) r, hs)) (int_arg p)
         | _ \<Rightarrow> Inr (set_param ''outbound_proxy'' (P_Proxy (v, 5060)) r, hs))
      else if a = ''po_proc'' then map_sum id (\<lambda>f. (set_param ''po_proc'' (P_Proc f) r, hs)) (getTransProc ext v)
      else Inr (set_param a (P_Text v) r, hs))"

fun route_params ::
  "bool \<Rightarrow> (string \<Rightarrow> string \<Rightarrow> exn + trans_proc) \<Rightarrow> string list \<Rightarrow> b2b_route \<times> sip_header list \<Rightarrow>
   exn + b2b_route \<times> sip_header list" where
  "route_params tel ext [] st = Inr st"
| "route_params tel ext (x # xs) st =
     (case split1 (CHR ''='') x of
        [a, v] \<Rightarrow> (case route_param tel ext a v st of Inl e \<Rightarrow> Inl e | Inr st1 \<Rightarrow> route_params tel ext xs st1)
      | _ \<Rightarrow> Inl ValueError)"

definition B2BRoute_parse ::
  "bool \<Rightarrow> (string \<Rightarrow> string \<Rightarrow> exn + trans_proc) \<Rightarrow> resolver \<Rightarrow> string \<Rightarrow> exn + b2b_route" where
  "B2BRoute_parse tel ext gai sroute =
     (case split_on (CHR '';'') sroute of
        [] \<Rightarrow> Inl IndexError
      | d # ps \<Rightarrow>
          (case route_resolve gai (route_dest d) of
             Inl e \<Rightarrow> Inl e
           | Inr r \<Rightarrow>
               map_sum id (\<lambda>(r, hs). if hs = [] then r else r\<lparr>r_extra_headers := Some hs\<rparr>)
                 (route_params tel ext ps (r, []))))"

text \<open>\<open>getCopy\<close>, the copying branch of the constructor.\<close>

definition route_getCopy :: "b2b_route \<Rightarrow> b2b_route" where
  "route_getCopy r = r\<lparr>r_extra_headers := map_option (map header_copy) (r_extra_headers r)\<rparr>"

fun crt_true :: "crt \<Rightarrow> bool" where
  "crt_true (Crt_Bool b) = b"
| "crt_true (Crt_Time None) = False"
| "crt_true (Crt_Time (Some n)) = (n \<noteq> 0)"

definition route_group :: "int \<Rightarrow> b2b_route \<Rightarrow> exn + b2b_route" where
  "route_group n r =
     (case map_of (r_params r) ''gt'' of
        None \<Rightarrow> Inr r
      | Some (P_Text t) \<Rightarrow>
          (case split1 (CHR '','') t of
             [tmo, skp] \<Rightarrow>
               (case int_arg tmo of
                  Inl e \<Rightarrow> Inl e
                | Inr a \<Rightarrow> map_sum id (\<lambda>b. set_param ''group_timeout'' (P_Group (a, n + b)) r) (int_arg skp))
           | _ \<Rightarrow> Inl ValueError)
      | Some _ \<Rightarrow> Inl AttributeError)"

definition customize ::
  "int \<Rightarrow> string option \<Rightarrow> string option \<Rightarrow> int option \<Rightarrow> sip_header list \<Rightarrow> int option \<Rightarrow> b2b_route \<Rightarrow> exn + b2b_route" where
  "customize n default_cld default_cli default_credit_time pass_headers max_credit_time r0 =
     (let r1 = r0\<lparr>rnum := Some n\<rparr>;
          r2 = (if \<not> cld_set r1 then r1\<lparr>r_cld := default_cld\<rparr> else r1);
          r3 = (if \<not> cli_set r2 then r2\<lparr>r_cli := default_cli\<rparr> else r2);
          r4 = (if \<not> crt_true (crt_set r3) then r3\<lparr>crt_set := Crt_Time default_credit_time\<rparr> else r3)
      in map_sum id
           (\<lambda>r5.
              let r6 = r5\<lparr>r_extra_headers :=
                    Some ((case r_extra_headers r5 of None \<Rightarrow> [] | Some hs \<Rightarrow> hs) @ pass_headers)\<rparr>
              in (case max_credit_time of
                    None \<Rightarrow> r6
                  | Some m \<Rightarrow>
                      (case r_credit_time r6 of
                         None \<Rightarrow> r6\<lparr>r_credit_time := Some m\<rparr>
                       | Some c \<Rightarrow> if m < c then r6\<lparr>r_credit_time := Some m\<rparr> else r6)))
           (route_group n r4))"

text \<open>\<open>getNHAddr\<close>: the next hop, preferably of the family of the source, and whether it is.\<close>

definition getNHAddr :: "string \<times> int \<Rightarrow> b2b_route \<Rightarrow> exn + (string \<times> int) \<times> bool" where
  "getNHAddr source r =
     (case ainfo r of
        None \<Rightarrow> Inl TypeError
      | Some ai \<Rightarrow>
          let af = (if startswith ''['' (fst source) then AF_INET6 else AF_INET);
              show_addr = (\<lambda>f (h, p). if f = AF_INET6 then (''['' @ h @ '']'', p) else (h, p))
          in (case filter (\<lambda>x. fst x = af) ai of
                x # _ \<Rightarrow> Inr (show_addr af (snd x), True)
              | [] \<Rightarrow>
                  (case ai of
                     [] \<Rightarrow> Inl IndexError
                   | x # _ \<Rightarrow> Inr (show_addr (fst x) (snd x), False))))"

section \<open>The types of a route\<close>

text \<open>
  Limits are not negative, numbers that are set are not empty, and each parameter that the
  controller reads has the form it expects. The names in \<open>internal_names\<close> are the keys that
  the constructor uses for parsed values; as parameter names they would store plain texts there.
\<close>

fun param_typed :: "string \<times> param_val \<Rightarrow> bool" where
  "param_typed (k, v) \<longleftrightarrow>
     (if k = ''huntstop_scodes'' then (case v of P_Codes _ \<Rightarrow> True | _ \<Rightarrow> False)
      else if k = ''caller_name'' then (case v of P_Name n \<Rightarrow> n \<noteq> Some [] | _ \<Rightarrow> False)
      else if k = ''rtpp'' then (case v of P_Rtpp _ \<Rightarrow> True | _ \<Rightarrow> False)
      else if k = ''outbound_proxy'' then (case v of P_Proxy _ \<Rightarrow> True | _ \<Rightarrow> False)
      else if k = ''po_proc'' then (case v of P_Proc _ \<Rightarrow> True | _ \<Rightarrow> False)
      else if k = ''group_timeout'' then (case v of P_Group _ \<Rightarrow> True | _ \<Rightarrow> False)
      else (case v of P_Text _ \<Rightarrow> True | _ \<Rightarrow> False))"

fun limit_ok :: "int option \<Rightarrow> bool" where
  "limit_ok None = True"
| "limit_ok (Some n) = (0 \<le> n)"

definition route_typed :: "b2b_route \<Rightarrow> bool" where
  "route_typed r \<longleftrightarrow> limit_ok (r_credit_time r) \<and> limit_ok (r_expires r) \<and> limit_ok (no_progress_expires r)
     \<and> limit_ok (no_reply_expires r) \<and> (cld_set r \<longrightarrow> r_cld r \<noteq> Some []) \<and> (cli_set r \<longrightarrow> r_cli r \<noteq> Some [])
     \<and> (r_user r = None \<longleftrightarrow> r_passw r = None) \<and> (r_user r \<noteq> None \<longrightarrow> \<not> r_pass_auth r)
     \<and> list_all param_typed (r_params r)"

definition internal_names :: "string list" where
  "internal_names = [''huntstop_scodes'', ''caller_name'', ''outbound_proxy'', ''group_timeout'']"

lemma limit_arg_ok: "limit_arg v = Inr n \<Longrightarrow> limit_ok n"
  by (cases "int_arg v") (auto simp: limit_arg_def)

lemma nonempty_ne [simp]: "nonempty s \<noteq> Some []"
  by (simp add: nonempty_def)

lemma list_all_dict_set: "list_all P d \<Longrightarrow> P (k, v) \<Longrightarrow> list_all P (dict_set k v d)"
  by (induction d) auto

lemma set_param_typed: "route_typed r \<Longrightarrow> param_typed (k, v) \<Longrightarrow> route_typed (set_param k v r)"
  unfolding route_typed_def set_param_def by (auto simp: list_all_dict_set simp del: param_typed.simps)

lemma route_dest_typed: "route_typed (route_dest d)"
  by (auto simp: route_dest_def route_blank_def route_typed_def set_cld_def split: list.split)

lemma route_resolve_typed:
  assumes "route_resolve gai r = Inr r'" "route_typed r"
  shows "route_typed r'"
proof -
  obtain h p af ho where h: "route_host (r_hostport r) = (h, p, af, ho)" by (metis prod_cases4)
  obtain pn where "(case p of None \<Rightarrow> Inr default_port | Some t \<Rightarrow> int_arg t) = Inr pn"
    using assms(1) h by (auto simp: route_resolve_def split: sum.splits)
  then have "r' = r\<lparr>hostonly := ho\<rparr> \<or> (\<exists>ai. r' = r\<lparr>hostonly := ho, ainfo := Some ai\<rparr>)"
    using assms(1) h by (auto simp: route_resolve_def split: if_splits)
  then show ?thesis using assms(2) by (auto simp: route_typed_def)
qed

lemma route_param_typed:
  assumes "route_param tel ext a v (r, hs) = Inr (r', hs')" "route_typed r" "a \<notin> set internal_names"
  shows "route_typed r'"
proof -
  have typed: "limit_arg v = Inr n \<Longrightarrow> route_typed (r\<lparr>r_credit_time := n, crt_set := c\<rparr>)" for n c
    using assms(2) limit_arg_ok [of v n] by (auto simp: route_typed_def)
  have lims: "limit_arg v = Inr n \<Longrightarrow> route_typed (r\<lparr>r_expires := n\<rparr>)" "limit_arg v = Inr n \<Longrightarrow> route_typed (r\<lparr>no_progress_expires := n\<rparr>)"
    "limit_arg v = Inr n \<Longrightarrow> route_typed (r\<lparr>no_reply_expires := n\<rparr>)" for n
    using assms(2) limit_arg_ok [of v n] by (auto simp: route_typed_def)
  have rest: "route_typed (r\<lparr>forward_on_fail := True\<rparr>)" "route_typed (r\<lparr>r_pass_auth := False\<rparr>)"
    "route_typed (r\<lparr>r_pass_auth := False, r_user := Some u, r_passw := Some w\<rparr>)" "route_typed (set_cli (nonempty v) r)" for u w
    using assms(2) by (auto simp: route_typed_def set_cli_def)
  have ptext: "param_typed (a, P_Text t)" if "a \<noteq> ''rtpp''" "a \<noteq> ''po_proc''" for t
    using assms(3) that by (simp add: internal_names_def)
  show ?thesis
    using assms(1) typed lims rest ptext set_param_typed [OF assms(2)] assms(2)
    unfolding route_param_def prod.case
    by (auto split: if_splits list.splits option.splits)
qed

lemma route_params_typed:
  "route_params tel ext ps (r, hs) = Inr (r', hs') \<Longrightarrow> route_typed r \<Longrightarrow>
   list_all (\<lambda>x. hd (split1 (CHR ''='') x) \<notin> set internal_names) ps \<Longrightarrow> route_typed r'"
proof (induction ps arbitrary: r hs)
  case (Cons x ps)
  obtain a v where x: "split1 (CHR ''='') x = [a, v]"
    using Cons.prems(1) by (auto split: list.splits)
  obtain r1 hs1 where p: "route_param tel ext a v (r, hs) = Inr (r1, hs1)"
    using Cons.prems(1) x by (auto split: sum.splits)
  have "route_typed r1" using route_param_typed [OF p Cons.prems(2)] Cons.prems(3) x by simp
  then show ?case using Cons x p by simp
qed simp

lemma route_group_typed: "route_group n r = Inr r' \<Longrightarrow> route_typed r \<Longrightarrow> route_typed r'"
  by (auto simp: route_group_def intro!: set_param_typed split: option.splits param_val.splits list.splits sum.splits)

text \<open>What \<open>customize\<close> keeps and sets.\<close>

lemma route_group_keeps: "route_group n r = Inr r' \<Longrightarrow>
    r_credit_time r' = r_credit_time r \<and> rnum r' = rnum r \<and> r_hostport r' = r_hostport r \<and> ainfo r' = ainfo r"
  by (auto simp: route_group_def set_param_def split: option.splits param_val.splits list.splits sum.splits)

definition capped :: "int option \<Rightarrow> int option \<Rightarrow> int option" where
  "capped mx t = (case (mx, t) of (None, _) \<Rightarrow> t | (Some m, None) \<Rightarrow> Some m | (Some m, Some n) \<Rightarrow> Some (min m n))"

lemma customize_result:
  assumes "customize n a b ct phs mx r0 = Inr r1"
  shows "rnum r1 = Some n \<and> r_credit_time r1 = capped mx (r_credit_time r0) \<and> r_hostport r1 = r_hostport r0 \<and> ainfo r1 = ainfo r0"
proof -
  define r1' where "r1' = r0\<lparr>rnum := Some n\<rparr>"
  define r2 where "r2 = (if \<not> cld_set r1' then r1'\<lparr>r_cld := a\<rparr> else r1')"
  define r3 where "r3 = (if \<not> cli_set r2 then r2\<lparr>r_cli := b\<rparr> else r2)"
  define r4 where "r4 = (if \<not> crt_true (crt_set r3) then r3\<lparr>crt_set := Crt_Time ct\<rparr> else r3)"
  have r4: "rnum r4 = Some n" "r_credit_time r4 = r_credit_time r0" "r_hostport r4 = r_hostport r0" "ainfo r4 = ainfo r0"
    by (simp_all add: r4_def r3_def r2_def r1'_def)
  obtain r5 where r5: "route_group n r4 = Inr r5"
    using assms unfolding customize_def Let_def r4_def r3_def r2_def r1'_def by (auto simp del: if_split)
  define r6 where "r6 = r5\<lparr>r_extra_headers := Some ((case r_extra_headers r5 of None \<Rightarrow> [] | Some hs \<Rightarrow> hs) @ phs)\<rparr>"
  have "r1 = (case mx of None \<Rightarrow> r6 | Some m \<Rightarrow> (case r_credit_time r6 of
      None \<Rightarrow> r6\<lparr>r_credit_time := Some m\<rparr> | Some c \<Rightarrow> if m < c then r6\<lparr>r_credit_time := Some m\<rparr> else r6))"
    using assms [symmetric]
    unfolding customize_def Let_def r1'_def [symmetric] r2_def [symmetric] r3_def [symmetric] r4_def [symmetric] r5
    by (simp only: map_sum.simps sum.inject r6_def)
  moreover have "rnum r6 = Some n" "r_credit_time r6 = r_credit_time r0" "r_hostport r6 = r_hostport r0" "ainfo r6 = ainfo r0"
    using route_group_keeps [OF r5] r4 by (simp_all add: r6_def)
  ultimately show ?thesis by (auto simp: capped_def min_def split: option.split)
qed

end
