(* ===== verification/Call_Controller.thy ===== *)
theory Call_Controller
  imports B2B_Route UA_Core
begin

text \<open>
  The call controller of the back-to-back user agent (\<^verbatim>\<open>CallController\<close> of \<^verbatim>\<open>b2bua.py\<close>): it
  joins the answering leg \<^verbatim>\<open>uaA\<close> to originating legs \<^verbatim>\<open>uaO\<close>, one per route that is tried.

  The user agents of the two legs are reached through an interface, the record \<open>uas\<close>: what an
  event or a disconnection does to one, and which callbacks it makes on the way, in their order.
  Calls go both ways within one call of an entry point (a failure of \<^verbatim>\<open>uaO\<close> makes the controller
  tell \<^verbatim>\<open>uaA\<close>, whose callbacks come back to the controller), so the handlers take the call of a
  leg as an argument \<open>send\<close>, and \<open>cc_send\<close> ties the knot; its number is the depth of calls left
  of the interpreter's stack, which ends in a \<^verbatim>\<open>RuntimeError\<close> (\<^verbatim>\<open>RecursionError\<close>). The callbacks of
  a leg run after its own work in the model.

  The RTP session is reduced to whether there is one, and the accounting objects to the calls made
  to them. Regular expressions, the RADIUS client, the resolver and the digest of a call-id are
  parameters in the configuration.
\<close>

section \<open>Number translation\<close>

text \<open>
  \<open>re_replace\<close>: substitutions in the manner of \<^verbatim>\<open>s/pattern/replacement/mod\<close>, separated by
  semicolons. \<open>sub\<close> is \<^verbatim>\<open>re.sub\<close>, with a flag for a limit of one replacement.
\<close>

function re_loop :: "(string \<Rightarrow> string \<Rightarrow> string \<Rightarrow> bool \<Rightarrow> string) \<Rightarrow> string list \<Rightarrow> string \<Rightarrow> exn + string" where
  "re_loop sub (op # p # r # m # rest) s =
     (let md = strip m;
          (md1, p3) = (if md \<noteq> [] \<and> hd md \<noteq> CHR '';'' then ([lower_char (hd md)], tl md) else (md, md));
          s1 = sub p r s (CHR ''g'' \<notin> set md1)
      in if rest = [] \<and> p3 = [] then Inr s1 else re_loop sub (p3 # rest) s1)"
| "re_loop sub [] s = Inr s"
| "re_loop sub [a] s = Inl ValueError"
| "re_loop sub [a, b] s = Inl ValueError"
| "re_loop sub [a, b, c] s = Inl ValueError"
  by pat_completeness auto
termination
  by (relation "measure (\<lambda>(sub, ptrn, s). length ptrn)") auto

definition re_replace :: "(string \<Rightarrow> string \<Rightarrow> string \<Rightarrow> bool \<Rightarrow> string) \<Rightarrow> string \<Rightarrow> string \<Rightarrow> exn + string" where
  "re_replace sub ptrn s = re_loop sub (split_on (CHR ''/'') ptrn) (hd (split1 (CHR ''#'') s))"

section \<open>State\<close>

datatype cc_class =
  CCStateIdle | CCStateWaitRoute | CCStateARComplete | CCStateConnected | CCStateDead | CCStateDisconnecting

datatype leg = LegA | LegO nat
  \<comment> \<open>the originating legs are numbered in the order in which they are made\<close>

datatype leg_cb =
    LC_Event cc_event
  | LC_Conn real "string option"
  | LC_End real "string option" "ev_code option"
    \<comment> \<open>the disconnect and the fail callbacks\<close>
  | LC_Dead

text \<open>The arguments and attributes of an originating leg.\<close>

record leg_args =
  la_number :: nat
    \<comment> \<open>how many originating legs there are already\<close>
  la_user :: "string option"
  la_passw :: "string option"
  la_nh :: "hostport"
  la_transport :: "sip_transport option"
  la_credit_time :: "int option"
  la_expire_time :: "int option"
  la_no_progress :: "int option"
  la_no_reply :: "int option"
  la_headers :: "sip_header list option"
  la_pass_auth :: bool
  la_proxy :: "param_val option"
  la_rtpp :: bool
  la_acct :: bool
    \<comment> \<open>whether the disconnect and fail handlers are set\<close>

record 'u uas =
  u_event :: "cc_event \<Rightarrow> 'u \<Rightarrow> 'u \<times> leg_cb list \<times> exn option"
  u_disconnect :: "real option \<Rightarrow> string option \<Rightarrow> 'u \<Rightarrow> 'u \<times> leg_cb list \<times> exn option"
  u_class :: "'u \<Rightarrow> ua_class option"
  u_make :: "leg_args \<Rightarrow> 'u"

datatype acct = Radius_Acct | Fake_Acct

datatype cc_log =
    CL_Auth "string option" "string option" "string option"
    \<comment> \<open>a request to RADIUS: user name, CLI, CLD\<close>
  | CL_Auth_Cancel
  | CL_Place b2b_route
    \<comment> \<open>an originating leg is made for a route\<close>
  | CL_Acct_Params leg param_val param_val param_val sip_host
  | CL_Acct_Credit "int option"
  | CL_Acct_Attrs leg "(string \<times> string) list"
  | CL_Acct_Conn leg
  | CL_Acct_Disc leg
  | CL_Group_Timer int int
  | CL_To leg cc_event
    \<comment> \<open>an event is handed to a leg\<close>
  | CL_Removed

record 'u cc =
  cc_state :: cc_class
  uaA :: 'u
  uaOs :: "('u \<times> bool) list"
    \<comment> \<open>the last one is \<^verbatim>\<open>uaO\<close>; the flag says whether the leg has accounting handlers\<close>
  cc_cId :: "string option"
  cc_cli :: "string option"
  cc_cld :: "string option"
  cc_caller_name :: "string option"
  eTry :: "cc_event option"
  cc_routes :: "b2b_route list"
  cc_remote_ip :: string
  cc_source :: "string \<times> int"
  req_source :: string
  cc_req_target :: sip_url
  cc_pass_headers :: "sip_header list"
  huntstop_scodes :: param_val
  auth_proc :: bool
    \<comment> \<open>whether it is set\<close>
  auth_running :: bool
    \<comment> \<open>whether the request to RADIUS is still to be answered\<close>
  cc_username :: "string option"
  acctA :: "acct option"
  acctOs :: "acct option list"
    \<comment> \<open>one for each originating leg\<close>
  rtp_session :: bool
  proxied :: bool
  cc_challenge :: "sip_header option"
  extra_attributes :: "(string \<times> string) list option"
  in_ccmap :: bool
  cc_now :: real
  ev_seq :: int
  clog :: "cc_log list"

record cc_config =
  auth_enable :: bool
  acct_enable :: bool
  has_rtp_clients :: bool
  cf_static_routes :: "(string \<times> b2b_route) list option"
  cf_max_credit_time :: "int option"
  hide_call_id :: bool
  static_tr_in :: "string option"
  static_tr_out :: "string option"
  cf_sub :: "string \<Rightarrow> string \<Rightarrow> string \<Rightarrow> bool \<Rightarrow> string"
  cf_md5 :: "string \<Rightarrow> string"
  cf_boundary :: string
    \<comment> \<open>the boundary that a copied multipart body gets\<close>
  cf_route :: "string \<Rightarrow> exn + b2b_route"
    \<comment> \<open>\<^verbatim>\<open>B2BRoute(text)\<close>, with the resolver given\<close>

abbreviation cc_log_act :: "cc_log \<Rightarrow> ('u cc, 'r) stmt" where
  "cc_log_act a \<equiv> upd (\<lambda>c. c\<lparr>clog := clog c @ [a]\<rparr>)"

text \<open>The current originating leg.\<close>

definition uaO :: "'u cc \<Rightarrow> 'u option" where
  "uaO c = (if uaOs c = [] then None else Some (fst (last (uaOs c))))"

definition acctO :: "'u cc \<Rightarrow> acct option" where
  "acctO c = (if acctOs c = [] then None else last (acctOs c))"

definition is_uaO :: "nat \<Rightarrow> 'u cc \<Rightarrow> bool" where
  "is_uaO k c \<longleftrightarrow> Suc k = length (uaOs c)"

definition CallController_init ::
  "string \<Rightarrow> string \<times> int \<Rightarrow> string \<Rightarrow> sip_url \<Rightarrow> sip_header list \<Rightarrow> 'u \<Rightarrow> real \<Rightarrow> int \<Rightarrow> 'u cc" where
  "CallController_init rip src rsrc rtarget phs a t n = \<lparr>cc_state = CCStateIdle, uaA = a, uaOs = [], cc_cId = None, cc_cli = None,
     cc_cld = None, cc_caller_name = None, eTry = None, cc_routes = [], cc_remote_ip = rip, cc_source = src, req_source = rsrc,
     cc_req_target = rtarget, cc_pass_headers = phs, huntstop_scodes = P_Codes [], auth_proc = False, auth_running = False, cc_username = None, acctA = None,
     acctOs = [], rtp_session = False, proxied = False, cc_challenge = None, extra_attributes = None, in_ccmap = False,
     cc_now = t, ev_seq = n, clog = []\<rparr>"

text \<open>
  The constructor of an event takes the next number; without a time it reads the clock.
\<close>

definition cc_event_new ::
  "ev_kind \<Rightarrow> ev_data \<Rightarrow> real option \<Rightarrow> (cc_event \<Rightarrow> ('u cc, 'r) stmt) \<Rightarrow> ('u cc, 'r) stmt" where
  "cc_event_new k d rt f = local (\<lambda>c. CCEvent k d (case rt of Some t \<Rightarrow> t | None \<Rightarrow> cc_now c) None (ev_seq c)) (\<lambda>e. block
     [upd (\<lambda>c. c\<lparr>ev_seq := ev_seq c + 1\<rparr>), f e])"

type_synonym 'u sender = "leg \<Rightarrow> cc_event \<Rightarrow> ('u cc, unit) stmt"

section \<open>Callbacks of the legs\<close>

definition oConn :: "('u cc, unit) stmt" where
  "oConn = if_then (\<lambda>c. acctO c \<noteq> None) (local (\<lambda>c. length (uaOs c) - 1) (\<lambda>k. cc_log_act (CL_Acct_Conn (LegO k))))"

definition aConn :: "('u cc, unit) stmt" where
  "aConn = block
     [upd (\<lambda>c. c\<lparr>cc_state := CCStateConnected\<rparr>),
      local acctA (\<lambda>a. if a = None then raise AttributeError else cc_log_act (CL_Acct_Conn LegA))]"

definition aDisc :: "('u cc, unit) stmt" where
  "aDisc = block
     [if_then (\<lambda>c. cc_state c = CCStateWaitRoute \<and> auth_proc c)
        (block [cc_log_act CL_Auth_Cancel, upd (\<lambda>c. c\<lparr>auth_proc := False, auth_running := False\<rparr>)]),
      if_else (\<lambda>c. uaOs c \<noteq> [] \<and> cc_state c \<noteq> CCStateDead)
        (upd (\<lambda>c. c\<lparr>cc_state := CCStateDisconnecting\<rparr>))
        (upd (\<lambda>c. c\<lparr>cc_state := CCStateDead\<rparr>)),
      if_then (\<lambda>c. acctA c \<noteq> None) (cc_log_act (CL_Acct_Disc LegA)),
      upd (\<lambda>c. c\<lparr>rtp_session := False\<rparr>)]"

text \<open>\<^verbatim>\<open>ccmap.remove(self)\<close>, after the accounting is dropped.\<close>

definition cc_remove :: "('u cc, unit) stmt" where
  "cc_remove = block
     [upd (\<lambda>c. c\<lparr>acctA := None, acctOs := (if acctOs c = [] then [] else (acctOs c)[length (acctOs c) - 1 := None])\<rparr>),
      if_then (\<lambda>c. \<not> in_ccmap c) (raise ValueError),
      upd (\<lambda>c. c\<lparr>in_ccmap := False\<rparr>),
      cc_log_act CL_Removed]"

definition aDead :: "'u uas \<Rightarrow> ('u cc, unit) stmt" where
  "aDead U = if_then (\<lambda>c. case uaO c of None \<Rightarrow> True | Some u \<Rightarrow> u_class U u = Some UaStateDead) cc_remove"

definition oDead :: "'u uas \<Rightarrow> nat \<Rightarrow> ('u cc, unit) stmt" where
  "oDead U k = if_then (\<lambda>c. is_uaO k c \<and> u_class U (uaA c) = Some UaStateDead) cc_remove"

text \<open>The disconnect handler of an originating leg: the \<^verbatim>\<open>disc\<close> method of its own accounting object.\<close>

definition oDisc :: "nat \<Rightarrow> ('u cc, unit) stmt" where
  "oDisc k = cc_log_act (CL_Acct_Disc (LegO k))"

section \<open>Placing a call\<close>

definition route_huntstop :: "b2b_route \<Rightarrow> param_val" where
  "route_huntstop r = (case map_of (r_params r) ''huntstop_scodes'' of Some v \<Rightarrow> v | None \<Rightarrow> P_Codes [])"

definition route_text :: "string \<Rightarrow> string option \<Rightarrow> b2b_route \<Rightarrow> param_val" where
  "route_text k d r = (case map_of (r_params r) k of Some v \<Rightarrow> v | None \<Rightarrow> P_Name d)"

definition route_proxy :: "string \<times> int \<Rightarrow> b2b_route \<Rightarrow> param_val option" where
  "route_proxy source r =
     (case map_of (r_params r) ''outbound_proxy'' of
        Some (P_Proxy p) \<Rightarrow> if source \<noteq> p then Some (P_Proxy p) else None
      | v \<Rightarrow> v)"

definition route_rtpp :: "b2b_route \<Rightarrow> bool" where
  "route_rtpp r = (case map_of (r_params r) ''rtpp'' of Some (P_Rtpp b) \<Rightarrow> b | _ \<Rightarrow> True)"

definition route_name :: "string option \<Rightarrow> b2b_route \<Rightarrow> string option" where
  "route_name d r = (case map_of (r_params r) ''caller_name'' of Some (P_Name n) \<Rightarrow> n | Some (P_Text t) \<Rightarrow> Some t | _ \<Rightarrow> d)"

text \<open>
  The destination: host, next hop and transport. (The branch for \<^verbatim>\<open>sip-ua\<close> is followed by an
  \<^verbatim>\<open>if ... else\<close> on \<^verbatim>\<open>wss-ua\<close>, whose \<^verbatim>\<open>else\<close> runs for it as well.)
\<close>

definition route_target :: "'u cc \<Rightarrow> b2b_route \<Rightarrow> exn + (hostport \<times> sip_transport option \<times> sip_host)" where
  "route_target c r =
     (if r_hostport r = DST_WSS_UA
      then case SipURL_getTAddr (cc_req_target c) of (nh, tp) \<Rightarrow> Inr (nh, Some tp, host (cc_req_target c))
      else map_sum id (\<lambda>((h, p), same_af). ((Host h, Port p), None, Host (hostonly r))) (getNHAddr (cc_source c) r))"

definition call_id_for :: "cc_config \<Rightarrow> b2b_route \<Rightarrow> string option \<Rightarrow> exn + string" where
  "call_id_for cf r cid =
     (case rnum r of
        None \<Rightarrow> Inl TypeError
      | Some n \<Rightarrow>
          if hide_call_id cf then Inr (cf_md5 cf (case cid of None \<Rightarrow> ''None'' | Some i \<Rightarrow> i) @ ''-b2b_'' @ show_int n)
          else (case cid of None \<Rightarrow> Inl TypeError | Some i \<Rightarrow> Inr (i @ ''-b2b_'' @ show_int n)))"

text \<open>The post-processing that a route may ask for: it is given the event.\<close>

fun po_call :: "trans_proc \<Rightarrow> ('u cc, unit) stmt" where
  "po_call (HDR2Xattrs h) = raise AttributeError"
| "po_call (VAL2Xattrs doO doA ps) = block
     [if_then (\<lambda>c. doO \<and> acctO c \<noteq> None) (local (\<lambda>c. length (uaOs c) - 1) (\<lambda>k. cc_log_act (CL_Acct_Attrs (LegO k) ps))),
      if_then (\<lambda>c. doA \<and> acctA c = Some Fake_Acct) (raise AttributeError),
      if_then (\<lambda>c. doA \<and> acctA c \<noteq> None) (cc_log_act (CL_Acct_Attrs LegA ps))]"
| "po_call Nop = skip"

definition po_step :: "b2b_route \<Rightarrow> ('u cc, unit) stmt" where
  "po_step r = (case map_of (r_params r) ''po_proc'' of
      None \<Rightarrow> skip
    | Some (P_Proc f) \<Rightarrow> po_call f
    | Some _ \<Rightarrow> raise TypeError)"

definition leg_args_for :: "cc_config \<Rightarrow> 'u cc \<Rightarrow> b2b_route \<Rightarrow> hostport \<Rightarrow> sip_transport option \<Rightarrow> leg_args" where
  "leg_args_for cf c r nh tp = \<lparr>la_number = length (uaOs c), la_user = r_user r, la_passw = r_passw r, la_nh = nh, la_transport = tp,
     la_credit_time = r_credit_time r, la_expire_time = r_expires r, la_no_progress = no_progress_expires r,
     la_no_reply = no_reply_expires r, la_headers = r_extra_headers r, la_pass_auth = r_pass_auth r,
     la_proxy = route_proxy (cc_source c) r,
     la_rtpp = (rtp_session c \<and> route_rtpp r), la_acct = (\<not> forward_on_fail r \<and> acct_enable cf)\<rparr>"

text \<open>The accounting of the new leg.\<close>

definition place_acct :: "cc_config \<Rightarrow> b2b_route \<Rightarrow> string option \<Rightarrow> sip_host \<Rightarrow> ('u cc, unit) stmt" where
  "place_acct cf r cld ho =
     (if \<not> forward_on_fail r \<and> acct_enable cf
      then block
        [upd (\<lambda>c. c\<lparr>acctOs := acctOs c @ [Some Radius_Acct]\<rparr>),
         local (\<lambda>c. CL_Acct_Params (LegO (length (uaOs c))) (route_text ''bill-to'' (cc_username c) r)
             (route_text ''bill-cli'' (r_cli r) r) (route_text ''bill-cld'' cld r) ho) cc_log_act]
      else upd (\<lambda>c. c\<lparr>acctOs := acctOs c @ [None]\<rparr>))"

definition place_credit :: "b2b_route \<Rightarrow> ('u cc, unit) stmt" where
  "place_credit r = block
     [if_then (\<lambda>c. acctA c = None) (raise AttributeError),
      cc_log_act (CL_Acct_Credit (r_credit_time r))]"

text \<open>The new leg; it is the current one from here on.\<close>

definition place_leg :: "'u uas \<Rightarrow> cc_config \<Rightarrow> b2b_route \<Rightarrow> hostport \<Rightarrow> sip_transport option \<Rightarrow> ('u cc, unit) stmt" where
  "place_leg U cf r nh tp = local (\<lambda>c. leg_args_for cf c r nh tp) (\<lambda>la. block
     [upd (\<lambda>c. c\<lparr>uaOs := uaOs c @ [(u_make U la, la_acct la)]\<rparr>),
      if_then (\<lambda>c. la_rtpp la) (upd (\<lambda>c. c\<lparr>proxied := True\<rparr>))])"

definition place_timer :: "b2b_route \<Rightarrow> ('u cc, unit) stmt" where
  "place_timer r = (case map_of (r_params r) ''group_timeout'' of
      None \<Rightarrow> skip
    | Some (P_Group (t, s)) \<Rightarrow> cc_log_act (CL_Group_Timer t s)
    | Some (P_Text t) \<Rightarrow> raise (if length t = 2 then TypeError else ValueError)
    | Some _ \<Rightarrow> raise TypeError)"

text \<open>The event that starts it: the hop counter goes down, and at zero the caller is told.\<close>

definition place_event ::
  "cc_config \<Rightarrow> 'u sender \<Rightarrow> b2b_route \<Rightarrow> cc_event \<Rightarrow> string option \<Rightarrow> string option \<Rightarrow> msg_body option \<Rightarrow> sip_authorization option \<Rightarrow>
   ('u cc, unit) stmt" where
  "place_event cf send r try cid cld bd au =
     fetch (\<lambda>c. call_id_for cf r cid) (\<lambda>cid1.
     local (\<lambda>c. D_Try (Some cid1) (r_cli r) cld bd au (route_name (cc_caller_name c) r)) (\<lambda>d.
     cc_event_new CCEventTry d None (\<lambda>e0.
       if (case max_forwards try of Some m \<Rightarrow> m - 1 \<le> 0 | None \<Rightarrow> False)
       then block
         [cc_event_new CCEventFail (D_Scode2 483 ''Too Many Hops'') None (send LegA),
          upd (\<lambda>c. c\<lparr>cc_state := CCStateDead\<rparr>)]
       else block
         [po_step r,
          local (\<lambda>c. length (uaOs c) - 1) (\<lambda>k. send (LegO k)
            (e0\<lparr>max_forwards := map_option (\<lambda>m. m - 1) (max_forwards try), reason_rfc3326 := reason_rfc3326 try\<rparr>))])))"

text \<open>With a media proxy the body is copied; then the timer of the group and the event.\<close>

definition place_body :: "cc_config \<Rightarrow> 'u cc \<Rightarrow> b2b_route \<Rightarrow> msg_body option \<Rightarrow> exn + msg_body option" where
  "place_body cf c r bd =
     (if rtp_session c \<and> route_rtpp r
      then (case bd of None \<Rightarrow> Inr None | Some b \<Rightarrow> map_sum id Some (MsgBody_getCopy (cf_boundary cf) b))
      else Inr bd)"

definition place_start ::
  "cc_config \<Rightarrow> 'u sender \<Rightarrow> b2b_route \<Rightarrow> cc_event \<Rightarrow> string option \<Rightarrow> string option \<Rightarrow> msg_body option \<Rightarrow> sip_authorization option \<Rightarrow>
   ('u cc, unit) stmt" where
  "place_start cf send r try cid cld bd au = fetch (\<lambda>c. place_body cf c r bd) (\<lambda>bd1. block
     [place_timer r, place_event cf send r try cid cld bd1 au])"

definition try_data :: "cc_event option \<Rightarrow> exn + cc_event \<times> string option \<times> msg_body option \<times> sip_authorization option" where
  "try_data ev = (case ev of
      None \<Rightarrow> Inl AttributeError
    | Some e \<Rightarrow> (case edata e of D_Try i a b bd au nm \<Rightarrow> Inr (e, i, bd, au) | _ \<Rightarrow> Inl ValueError))"

definition translate_out :: "cc_config \<Rightarrow> b2b_route \<Rightarrow> exn + string option" where
  "translate_out cf r = (case static_tr_out cf of
      None \<Rightarrow> Inr (r_cld r)
    | Some t \<Rightarrow> (case r_cld r of None \<Rightarrow> Inl AttributeError | Some n \<Rightarrow> map_sum id Some (re_replace (cf_sub cf) t n)))"

definition placeOriginate :: "'u uas \<Rightarrow> cc_config \<Rightarrow> 'u sender \<Rightarrow> b2b_route \<Rightarrow> ('u cc, unit) stmt" where
  "placeOriginate U cf send r =
     fetch (\<lambda>c. try_data (eTry c)) (\<lambda>(try, cid, bd, au). block
     [upd (\<lambda>c. c\<lparr>huntstop_scodes := route_huntstop r\<rparr>),
      fetch (\<lambda>c. translate_out cf r) (\<lambda>cld. fetch (\<lambda>c. route_target c r) (\<lambda>(nh, tp, ho). block
       [place_acct cf r cld ho,
        place_credit r,
        place_leg U cf r nh tp,
        cc_log_act (CL_Place r),
        place_start cf send r try cid cld bd au]))])"

section \<open>The answer of the authorisation\<close>

text \<open>The values of the attributes \<^verbatim>\<open>h323-ivr-in\<close> that begin with a prefix.\<close>

definition ivr_in :: "string \<Rightarrow> (string \<times> string) list \<Rightarrow> string list" where
  "ivr_in pre attrs =
     map (\<lambda>x. drop (length pre) (snd x)) (filter (\<lambda>x. fst x = ''h323-ivr-in'' \<and> startswith pre (snd x)) attrs)"

definition credit_attr :: "(string \<times> string) list \<Rightarrow> exn + int option" where
  "credit_attr attrs = (case filter (\<lambda>x. fst x = ''h323-credit-time'') attrs of
      [] \<Rightarrow> Inr None
    | x # _ \<Rightarrow> map_sum id Some (int_arg (snd x)))"

fun parse_routes :: "(string \<Rightarrow> exn + b2b_route) \<Rightarrow> string list \<Rightarrow> exn + b2b_route list" where
  "parse_routes f [] = Inr []"
| "parse_routes f (t # ts) =
     (case f t of Inl e \<Rightarrow> Inl e | Inr r \<Rightarrow> map_sum id (\<lambda>rs. r # rs) (parse_routes f ts))"

text \<open>The loop that customises the routes, numbers them and drops those with no time.\<close>

fun add_routes ::
  "cc_config \<Rightarrow> int option \<Rightarrow> int \<Rightarrow> b2b_route list \<Rightarrow> ('u cc, unit) stmt" where
  "add_routes cf ct n [] = skip"
| "add_routes cf ct n (r # rs) =
     fetch (\<lambda>c. customize n (cc_cld c) (cc_cli c) ct (cc_pass_headers c) (cf_max_credit_time cf) r) (\<lambda>r1. block
       [if_then (\<lambda>c. \<not> (r_credit_time r1 = Some 0 \<or> r_expires r1 = Some 0)) (upd (\<lambda>c. c\<lparr>cc_routes := cc_routes c @ [r1]\<rparr>)),
        add_routes cf ct (n + 1) rs])"

definition fail_A :: "'u sender \<Rightarrow> int \<Rightarrow> string \<Rightarrow> ('u cc, unit) stmt" where
  "fail_A send code rsn = block
     [cc_event_new CCEventFail (D_Scode2 code rsn) None (send LegA),
      upd (\<lambda>c. c\<lparr>cc_state := CCStateDead\<rparr>)]"

definition next_route :: "'u uas \<Rightarrow> cc_config \<Rightarrow> 'u sender \<Rightarrow> ('u cc, unit) stmt" where
  "next_route U cf send = fetch (\<lambda>c. case cc_routes c of [] \<Rightarrow> Inl IndexError | r # _ \<Rightarrow> Inr r) (\<lambda>r. block
     [upd (\<lambda>c. c\<lparr>cc_routes := tl (cc_routes c)\<rparr>), placeOriginate U cf send r])"

definition routing_for :: "cc_config \<Rightarrow> 'u cc \<Rightarrow> (string \<times> string) list \<Rightarrow> (exn + b2b_route list) option" where
  "routing_for cf c attrs =
     (case cf_static_routes cf of
        None \<Rightarrow> (case ivr_in ''Routing:'' attrs of [] \<Rightarrow> None | ts \<Rightarrow> Some (parse_routes (cf_route cf) ts))
      | Some rs \<Rightarrow>
          Some (if req_source c = SRC_PROXY \<and> map_of rs SRC_PROXY \<noteq> None
                then Inr [route_getCopy (the (map_of rs SRC_PROXY))]
                else (case map_of rs [] of None \<Rightarrow> Inl KeyError | Some r \<Rightarrow> Inr [route_getCopy r])))"

text \<open>
  An answer that does not accept the call. (The challenge is stored in an attribute
  \<^verbatim>\<open>extra_header\<close> of the event, which nothing reads.)
\<close>

definition rDone_fail :: "'u uas \<Rightarrow> 'u sender \<Rightarrow> ('u cc, unit) stmt" where
  "rDone_fail U send = if_then (\<lambda>c. u_class U (uaA c) = Some UasStateTrying)
     (local cc_challenge (\<lambda>ch. if ch \<noteq> None then fail_A send 401 ''Unauthorized'' else fail_A send 403 ''Auth Failed''))"

text \<open>The accounting of the answering leg.\<close>

definition acct_answer :: "cc_config \<Rightarrow> ('u cc, unit) stmt" where
  "acct_answer cf =
     (if acct_enable cf
      then block
        [upd (\<lambda>c. c\<lparr>acctA := Some Radius_Acct\<rparr>),
         local (\<lambda>c. CL_Acct_Params LegA (P_Name (cc_username c)) (P_Name (cc_cli c)) (P_Name (cc_cld c)) (Host (cc_remote_ip c)))
           cc_log_act]
      else upd (\<lambda>c. c\<lparr>acctA := Some Fake_Acct\<rparr>))"

text \<open>The routes of the answer are taken over, and the first one is tried.\<close>

definition take_routes :: "'u uas \<Rightarrow> cc_config \<Rightarrow> 'u sender \<Rightarrow> int option \<Rightarrow> b2b_route list \<Rightarrow> ('u cc, unit) stmt" where
  "take_routes U cf send ct rs = block
     [add_routes cf ct 1 rs,
      if_else (\<lambda>c. cc_routes c = [])
        (fail_A send 500 ''Internal Server Error (3)'')
        (block [upd (\<lambda>c. c\<lparr>cc_state := CCStateARComplete\<rparr>), next_route U cf send])]"

definition rDone_accept :: "'u uas \<Rightarrow> cc_config \<Rightarrow> 'u sender \<Rightarrow> (string \<times> string) list \<Rightarrow> ('u cc, unit) stmt" where
  "rDone_accept U cf send attrs = block
     [(case ivr_in ''CLI:'' attrs of [] \<Rightarrow> skip | x # _ \<Rightarrow> upd (\<lambda>c. c\<lparr>cc_cli := nonempty x\<rparr>)),
      (case ivr_in ''CNAM:'' attrs of [] \<Rightarrow> skip | x # _ \<Rightarrow> upd (\<lambda>c. c\<lparr>cc_caller_name := nonempty x\<rparr>)),
      fetch (\<lambda>c. credit_attr attrs) (\<lambda>ct. local (\<lambda>c. routing_for cf c attrs) (\<lambda>ro.
        case ro of
          None \<Rightarrow> fail_A send 500 ''Internal Server Error (2)''
        | Some q \<Rightarrow> fetch (\<lambda>c. q) (take_routes U cf send ct)))]"

text \<open>\<open>rDone\<close>; \<open>None\<close> stands for a result that is not a pair.\<close>

definition rDone ::
  "'u uas \<Rightarrow> cc_config \<Rightarrow> 'u sender \<Rightarrow> ((string \<times> string) list \<times> int) option \<Rightarrow> ('u cc, unit) stmt" where
  "rDone U cf send results =
     (case results of
        Some (attrs, rc) \<Rightarrow> if rc \<noteq> 0 then rDone_fail U send else block
          [acct_answer cf,
           if_else (\<lambda>c. u_class U (uaA c) \<noteq> Some UasStateTrying)
             (cc_log_act (CL_Acct_Disc LegA))
             (rDone_accept U cf send attrs)]
      | None \<Rightarrow> rDone_fail U send)"

section \<open>Events of the legs\<close>

text \<open>\<^verbatim>\<open>body.content += 'a=nated:yes\r\n'\<close>.\<close>

definition mark_nated :: "msg_body \<Rightarrow> exn + msg_body" where
  "mark_nated b =
     (case content b of
        CText t \<Rightarrow> Inr (MsgBody (CText (t @ ''a=nated:yes'' @ [CR, LF])) (mb_mtype b) (needs_update b) (parsed b))
      | CSdp sd \<Rightarrow> map_sum id (\<lambda>s1. MsgBody (CSdp s1) (mb_mtype b) (needs_update b) (parsed b))
                  (SdpBody_iadd (''a=nated:yes'' @ [CR, LF]) sd)
      | CMulti _ _ _ \<Rightarrow> Inl TypeError)"

text \<open>The number called, after the mark of a caller behind NAT and the translation.\<close>

definition strip_nat :: "string \<Rightarrow> msg_body option \<Rightarrow> exn + string \<times> msg_body option" where
  "strip_nat cld bd =
     (if startswith ''nat-'' cld
      then (case bd of None \<Rightarrow> Inr (drop 4 cld, None) | Some b \<Rightarrow> map_sum id (\<lambda>b1. (drop 4 cld, Some b1)) (mark_nated b))
      else Inr (cld, bd))"

definition translate_in :: "cc_config \<Rightarrow> string \<Rightarrow> exn + string" where
  "translate_in cf cld = (case static_tr_in cf of None \<Rightarrow> Inr cld | Some t \<Rightarrow> re_replace (cf_sub cf) t cld)"

definition request_auth :: "string option \<Rightarrow> ('u cc, unit) stmt" where
  "request_auth user = block
     [upd (\<lambda>c. c\<lparr>cc_username := user\<rparr>),
      local (\<lambda>c. CL_Auth user (cc_cli c) (cc_cld c)) cc_log_act,
      upd (\<lambda>c. c\<lparr>auth_proc := True, auth_running := True\<rparr>)]"

definition ask_route :: "'u uas \<Rightarrow> cc_config \<Rightarrow> 'u sender \<Rightarrow> sip_authorization option \<Rightarrow> ('u cc, unit) stmt" where
  "ask_route U cf send au =
     (if \<not> auth_enable cf
      then block [upd (\<lambda>c. c\<lparr>cc_username := Some (cc_remote_ip c)\<rparr>), rDone U cf send (Some ([], 0))]
      else case au of
             Some a \<Rightarrow> if auth_username a \<in> {None, Some []} then local (\<lambda>c. Some (cc_remote_ip c)) request_auth
                       else request_auth (auth_username a)
           | None \<Rightarrow> local (\<lambda>c. Some (cc_remote_ip c)) request_auth)"

text \<open>The first event of the answering leg.\<close>

definition recvTry :: "'u uas \<Rightarrow> cc_config \<Rightarrow> 'u sender \<Rightarrow> cc_event \<Rightarrow> ('u cc, unit) stmt" where
  "recvTry U cf send ev =
     (case edata ev of
        D_Try cid cli cld bd au nm \<Rightarrow> block
          [upd (\<lambda>c. c\<lparr>cc_cId := cid, cc_cli := cli, cc_cld := cld, cc_caller_name := nm\<rparr>),
           (case cld of
              None \<Rightarrow> block
                [cc_event_new CCEventFail (D_Scode2 500 ''Internal Server Error (1)'') (Some (ertime ev)) (send LegA),
                 upd (\<lambda>c. c\<lparr>cc_state := CCStateDead\<rparr>)]
            | Some n \<Rightarrow> block
               [upd (\<lambda>c. c\<lparr>cc_cld := Some (if startswith ''nat-'' n then drop 4 n else n)\<rparr>),
                fetch (\<lambda>_. strip_nat n bd) (\<lambda>(n1, bd1).
                fetch (\<lambda>_. translate_in cf n1) (\<lambda>n2. block
                  [upd (\<lambda>c. c\<lparr>cc_cld := Some n2, rtp_session := has_rtp_clients cf,
                       eTry := Some (ev\<lparr>edata := D_Try cid cli (Some n2) bd1 au nm\<rparr>), cc_state := CCStateWaitRoute\<rparr>),
                   ask_route U cf send au]))])]
      | _ \<Rightarrow> raise ValueError)"

definition may_hunt :: "'u uas \<Rightarrow> cc_event \<Rightarrow> 'u cc \<Rightarrow> bool" where
  "may_hunt U ev c \<longleftrightarrow> ekind ev \<in> {CCEventFail, CCEventDisconnect} \<and> cc_state c = CCStateARComplete
     \<and> u_class U (uaA c) \<in> {Some UasStateTrying, Some UasStateRinging} \<and> cc_routes c \<noteq> []"

text \<open>The status code of a failure, \<open>None\<close> for a disconnection.\<close>

definition fail_code :: "cc_event \<Rightarrow> int option" where
  "fail_code ev =
     (if ekind ev = CCEventFail
      then (case edata ev of D_Scode2 n _ \<Rightarrow> Some n | D_Scode (Code n) _ _ \<Rightarrow> Some n | _ \<Rightarrow> None)
      else None)"

text \<open>\<^verbatim>\<open>code == None or code not in self.huntstop_scodes\<close>; a text is no container of numbers.\<close>

fun hunts_on :: "int option \<Rightarrow> param_val \<Rightarrow> exn + bool" where
  "hunts_on None v = Inr True"
| "hunts_on (Some n) (P_Codes cs) = Inr (n \<notin> set cs)"
| "hunts_on (Some n) v = Inl TypeError"

definition cc_recvEvent :: "'u uas \<Rightarrow> cc_config \<Rightarrow> 'u sender \<Rightarrow> leg \<Rightarrow> cc_event \<Rightarrow> ('u cc, unit) stmt" where
  "cc_recvEvent U cf send l ev =
     (case l of
        LegA \<Rightarrow>
          if_else (\<lambda>c. cc_state c = CCStateIdle)
            (if ekind ev \<noteq> CCEventTry
             then cc_event_new CCEventDisconnect D_None (Some (ertime ev)) (send LegA)
             else recvTry U cf send ev)
            (if_then (\<lambda>c. cc_state c \<in> {CCStateARComplete, CCStateConnected, CCStateDisconnecting} \<and> uaOs c \<noteq> [])
               (local (\<lambda>c. length (uaOs c) - 1) (\<lambda>k. send (LegO k) ev)))
      | LegO k \<Rightarrow>
          if_else (may_hunt U ev)
            (fetch (\<lambda>c. hunts_on (fail_code ev) (huntstop_scodes c)) (\<lambda>b. if b then next_route U cf send else send LegA ev))
            (send LegA ev))"

definition leg_callback :: "'u uas \<Rightarrow> cc_config \<Rightarrow> 'u sender \<Rightarrow> leg \<Rightarrow> leg_cb \<Rightarrow> ('u cc, unit) stmt" where
  "leg_callback U cf send l cb =
     (case (l, cb) of
        (_, LC_Event ev) \<Rightarrow> cc_recvEvent U cf send l ev
      | (LegA, LC_Conn _ _) \<Rightarrow> aConn
      | (LegA, LC_End _ _ _) \<Rightarrow> aDisc
      | (LegA, LC_Dead) \<Rightarrow> aDead U
      | (LegO k, LC_Conn _ _) \<Rightarrow> oConn
      | (LegO k, LC_End _ _ _) \<Rightarrow> if_then (\<lambda>c. k < length (uaOs c) \<and> snd (uaOs c ! k)) (oDisc k)
      | (LegO k, LC_Dead) \<Rightarrow> oDead U k)"

definition leg_ua :: "leg \<Rightarrow> 'u cc \<Rightarrow> 'u" where
  "leg_ua l c = (case l of LegA \<Rightarrow> uaA c | LegO k \<Rightarrow> fst (uaOs c ! k))"

definition valid_leg :: "leg \<Rightarrow> 'u cc \<Rightarrow> bool" where
  "valid_leg l c = (case l of LegA \<Rightarrow> True | LegO k \<Rightarrow> k < length (uaOs c))"

definition set_leg :: "leg \<Rightarrow> 'u \<Rightarrow> 'u cc \<Rightarrow> 'u cc" where
  "set_leg l u c =
     (case l of LegA \<Rightarrow> c\<lparr>uaA := u\<rparr> | LegO k \<Rightarrow> c\<lparr>uaOs := (uaOs c)[k := (u, snd (uaOs c ! k))]\<rparr>)"

text \<open>What a leg did: its new state, its callbacks in order, and the exception it ends with, if any.\<close>

definition leg_done ::
  "'u uas \<Rightarrow> cc_config \<Rightarrow> 'u sender \<Rightarrow> leg \<Rightarrow> 'u \<times> leg_cb list \<times> exn option \<Rightarrow> ('u cc, unit) stmt" where
  "leg_done U cf send l r = (case r of (u, cbs, x) \<Rightarrow> block
     [upd (set_leg l u), foreach cbs (leg_callback U cf send l), (case x of None \<Rightarrow> skip | Some e \<Rightarrow> raise e)])"

primrec cc_send :: "nat \<Rightarrow> 'u uas \<Rightarrow> cc_config \<Rightarrow> 'u sender" where
  "cc_send 0 U cf = (\<lambda>l ev. raise RuntimeError)"
| "cc_send (Suc n) U cf = (\<lambda>l ev. block
     [if_then (\<lambda>c. \<not> valid_leg l c) (raise AttributeError),
      cc_log_act (CL_To l ev),
      local (\<lambda>c. u_event U ev (leg_ua l c)) (leg_done U cf (cc_send n U cf) l)])"

section \<open>Entry points\<close>

definition cc_disconnect :: "nat \<Rightarrow> 'u uas \<Rightarrow> cc_config \<Rightarrow> real option \<Rightarrow> string option \<Rightarrow> ('u cc, unit) stmt" where
  "cc_disconnect n U cf rt og =
     local (\<lambda>c. u_disconnect U rt og (uaA c)) (leg_done U cf (cc_send n U cf) LegA)"

text \<open>\<open>group_expires\<close>: the third test indexes a route, which is not a sequence.\<close>

definition group_expires :: "int \<Rightarrow> ('u cc, unit) stmt" where
  "group_expires skipto = if_then (\<lambda>c. \<not> (cc_state c \<noteq> CCStateARComplete \<or> cc_routes c = [])) (raise TypeError)"

text \<open>
  The steps of a controller: one of its legs works on a message or a timer (its new state and its
  callbacks are given), the authorisation answers, the call is disconnected from outside, a group
  timer fires, the controller is entered in the map of calls, time passes.
\<close>

inductive cc_step :: "'u uas \<Rightarrow> cc_config \<Rightarrow> 'u cc \<Rightarrow> 'u cc \<Rightarrow> bool" for U cf where
  step_leg: "l = LegA \<or> l = LegO k \<and> k < length (uaOs c) \<Longrightarrow>
    cc_step U cf c (out_state (leg_done U cf (cc_send n U cf) l r c))"
| step_auth: "auth_running c \<Longrightarrow> cc_step U cf c (out_state (rDone U cf (cc_send n U cf) res (c\<lparr>auth_running := False\<rparr>)))"
| step_disc: "cc_step U cf c (out_state (cc_disconnect n U cf rt og c))"
| step_group: "cc_step U cf c (out_state (group_expires k c))"
| step_append: "cc_step U cf c (c\<lparr>in_ccmap := True\<rparr>)"
| step_time: "cc_step U cf c (c\<lparr>cc_now := t, ev_seq := m\<rparr>)"

end
