(* ===== verification/Call_Inv.thy ===== *)
theory Call_Inv
  imports Call_Controller
begin

text \<open>
  The invariant of the call controller: the routes that have been tried and those that are left
  are in the order in which they were given, each once, and every one of them respects the
  limits. The handlers keep it if the legs that they call do; \<open>cc_send\<close> then keeps it by
  induction on the depth of calls.
\<close>

fun placed_route :: "cc_log \<Rightarrow> b2b_route option" where
  "placed_route (CL_Place r) = Some r"
| "placed_route _ = None"

definition placed :: "'u cc \<Rightarrow> b2b_route list" where
  "placed c = List.map_filter placed_route (clog c)"

definition within_limits :: "cc_config \<Rightarrow> b2b_route \<Rightarrow> bool" where
  "within_limits cf r \<longleftrightarrow> rnum r \<noteq> None \<and> r_credit_time r \<noteq> Some 0 \<and> r_expires r \<noteq> Some 0
     \<and> (case cf_max_credit_time cf of None \<Rightarrow> True | Some m \<Rightarrow> (case r_credit_time r of None \<Rightarrow> False | Some t \<Rightarrow> t \<le> m))"

definition route_number :: "b2b_route \<Rightarrow> int" where
  "route_number r = (case rnum r of Some n \<Rightarrow> n | None \<Rightarrow> 0)"

definition in_order :: "cc_config \<Rightarrow> b2b_route list \<Rightarrow> bool" where
  "in_order cf rs \<longleftrightarrow> sorted_wrt (<) (map route_number rs) \<and> list_all (within_limits cf) rs"

definition unrouted :: "'u cc \<Rightarrow> bool" where
  "unrouted c \<longleftrightarrow> cc_routes c = [] \<and> placed c = []"

definition routes_inv :: "cc_config \<Rightarrow> 'u cc \<Rightarrow> bool" where
  "routes_inv cf c \<longleftrightarrow> in_order cf (placed c @ cc_routes c) \<and> (cc_state c = CCStateIdle \<or> auth_running c \<longrightarrow> unrouted c)
     \<and> (auth_running c \<longrightarrow> cc_state c \<noteq> CCStateIdle)"

lemma map_filter_snoc [simp]:
  "List.map_filter f (xs @ [x]) = List.map_filter f xs @ (case f x of None \<Rightarrow> [] | Some y \<Rightarrow> [y])"
  by (simp add: List.map_filter_def split: option.split)

lemma in_order_drop: "in_order cf (xs @ r # ys) \<Longrightarrow> in_order cf (xs @ ys)"
  by (auto simp: in_order_def sorted_wrt_append)

lemma in_order_Nil [simp]: "in_order cf []"
  by (simp add: in_order_def)

section \<open>Routes are numbered and limited\<close>

lemma customize_spec:
  assumes "customize n a b ct phs (cf_max_credit_time cf) r = Inr r1"
  shows "rnum r1 = Some n \<and> (case cf_max_credit_time cf of None \<Rightarrow> True
      | Some m \<Rightarrow> (case r_credit_time r1 of None \<Rightarrow> False | Some t \<Rightarrow> t \<le> m))"
  using customize_result [OF assms] by (auto simp: capped_def split: option.splits)

definition appends_routes :: "cc_config \<Rightarrow> int \<Rightarrow> 'u cc \<Rightarrow> 'u cc \<Rightarrow> bool" where
  "appends_routes cf n c c' \<longleftrightarrow> (\<exists>rs. c' = c\<lparr>cc_routes := cc_routes c @ rs\<rparr> \<and> in_order cf rs \<and> (\<forall>r\<in>set rs. n \<le> route_number r))"

lemma add_routes_spec: "appends_routes cf n c (out_state (add_routes cf ct n rs c))"
proof (induction rs arbitrary: n c)
  case Nil
  then show ?case by (auto simp: appends_routes_def skip_def intro!: exI [of _ "[]"])
next
  case (Cons r rs)
  show ?case
  proof (cases "customize n (cc_cld c) (cc_cli c) ct (cc_pass_headers c) (cf_max_credit_time cf) r")
    case (Inl e)
    then show ?thesis by (auto simp: appends_routes_def fetch_def intro!: exI [of _ "[]"])
  next
    case (Inr r1)
    note sp = customize_spec [OF Inr]
    show ?thesis
    proof (cases "r_credit_time r1 = Some 0 \<or> r_expires r1 = Some 0")
      case True
      then have "out_state (add_routes cf ct n (r # rs) c) = out_state (add_routes cf ct (n + 1) rs c)"
        using Inr by (auto simp: stmt_defs split: outcome.split)
      then show ?thesis using Cons.IH [of "n + 1" c] by (fastforce simp: appends_routes_def)
    next
      case False
      let ?c = "c\<lparr>cc_routes := cc_routes c @ [r1]\<rparr>"
      have e: "out_state (add_routes cf ct n (r # rs) c) = out_state (add_routes cf ct (n + 1) rs ?c)"
        using Inr False by (auto simp: stmt_defs split: outcome.split)
      obtain qs where q: "out_state (add_routes cf ct (n + 1) rs ?c) = ?c\<lparr>cc_routes := cc_routes ?c @ qs\<rparr>"
        "in_order cf qs" "\<And>r. r \<in> set qs \<Longrightarrow> n + 1 \<le> route_number r"
        using Cons.IH [of "n + 1" ?c] unfolding appends_routes_def by blast
      have "route_number r1 = n" "within_limits cf r1"
        using sp False by (auto simp: route_number_def within_limits_def)
      then have "in_order cf (r1 # qs)" "\<forall>r\<in>set (r1 # qs). n \<le> route_number r"
        using q(2,3) by (fastforce simp: in_order_def)+
      then show ?thesis unfolding appends_routes_def e q(1) by (intro exI [of _ "r1 # qs"]) simp
    qed
  qed
qed

section \<open>Statements that lead into an invariant\<close>

text \<open>
  From a state in \<open>P\<close> the statement ends in a state in \<open>I\<close>, however it ends.
\<close>

definition leads :: "('s \<Rightarrow> bool) \<Rightarrow> ('s \<Rightarrow> bool) \<Rightarrow> ('s, 'r) stmt \<Rightarrow> bool" where
  "leads P I c \<longleftrightarrow> (\<forall>s. P s \<longrightarrow> wpc c I (\<lambda>_. I) (\<lambda>_. I) s)"

lemma leads_self: "leads I I c \<longleftrightarrow> keeps I c"
  by (simp add: leads_def keeps_wpc)

lemma leads_weaken: "leads Q I c \<Longrightarrow> (\<And>s. P s \<Longrightarrow> Q s) \<Longrightarrow> leads P I c"
  by (simp add: leads_def)

lemma leads_keeps: "keeps I c \<Longrightarrow> (\<And>s. P s \<Longrightarrow> I s) \<Longrightarrow> leads P I c"
  by (simp add: leads_def keeps_wpc)

lemma leads_upd: "(\<And>s. P s \<Longrightarrow> I (f s)) \<Longrightarrow> leads P I (upd f)"
  by (simp add: leads_def)

lemma leads_local: "(\<And>v. leads P I (k v)) \<Longrightarrow> leads P I (local e k)"
  by (simp add: leads_def)

lemma leads_local_dep: "(\<And>s. P s \<Longrightarrow> leads (\<lambda>t. t = s) I (k (e s))) \<Longrightarrow> leads P I (local e k)"
  by (simp add: leads_def)

lemma leads_if_else: "leads (\<lambda>s. P s \<and> b s) I c \<Longrightarrow> leads (\<lambda>s. P s \<and> \<not> b s) I d \<Longrightarrow> leads P I (if_else b c d)"
  by (simp add: leads_def)

lemma leads_fetch: "(\<And>s. P s \<Longrightarrow> I s) \<Longrightarrow> (\<And>v. leads P I (k v)) \<Longrightarrow> leads P I (fetch e k)"
  by (simp add: leads_def split: sum.split)

lemma leads_fetch_dep:
  "(\<And>s. P s \<Longrightarrow> I s) \<Longrightarrow> (\<And>s v. P s \<Longrightarrow> e s = Inr v \<Longrightarrow> leads (\<lambda>t. t = s) I (k v)) \<Longrightarrow> leads P I (fetch e k)"
  by (simp add: leads_def split: sum.split)

lemma leads_first: "leads P I c \<Longrightarrow> keeps I (block cs) \<Longrightarrow> leads P I (block (c # cs))"
  unfolding leads_def keeps_wpc by (auto elim!: wpc_mono)

lemma leads_then:
  assumes "leads P Q c" "leads Q I (block cs)" "\<And>s. Q s \<Longrightarrow> I s"
  shows "leads P I (block (c # cs))"
  using assms unfolding leads_def by (auto elim!: wpc_mono)

lemma leads_out: "leads P I c \<Longrightarrow> P s \<Longrightarrow> I (out_state (c s))"
  by (simp add: leads_def out_state_wpc)

section \<open>The handlers\<close>

text \<open>The routes, what has been tried and the state of the controller, all that the invariant reads.\<close>

definition to_place :: "cc_config \<Rightarrow> b2b_route \<Rightarrow> 'u cc \<Rightarrow> bool" where
  "to_place cf r c \<longleftrightarrow> in_order cf (placed c @ r # cc_routes c) \<and> cc_state c \<noteq> CCStateIdle \<and> \<not> auth_running c"

definition routing :: "cc_config \<Rightarrow> 'u cc \<Rightarrow> bool" where
  "routing cf c \<longleftrightarrow> in_order cf (placed c @ cc_routes c) \<and> cc_state c \<noteq> CCStateIdle \<and> \<not> auth_running c"

definition fresh_routing :: "'u cc \<Rightarrow> bool" where
  "fresh_routing c \<longleftrightarrow> unrouted c \<and> cc_state c \<noteq> CCStateIdle \<and> \<not> auth_running c"

definition ready :: "'u cc \<Rightarrow> bool" where
  "ready c \<longleftrightarrow> unrouted c \<and> \<not> auth_running c"

lemmas route_preds = to_place_def ready_def routing_def fresh_routing_def routes_inv_def unrouted_def placed_def

lemma to_place_inv: "to_place cf r c \<Longrightarrow> routes_inv cf c"
  by (auto simp: to_place_def routes_inv_def dest: in_order_drop)

lemma fresh_routing_inv: "fresh_routing c \<Longrightarrow> routes_inv cf c"
  by (auto simp: fresh_routing_def unrouted_def routes_inv_def)

lemma ready_inv: "ready c \<Longrightarrow> routes_inv cf c"
  by (auto simp: ready_def unrouted_def routes_inv_def)

lemma routing_inv: "routing cf c \<Longrightarrow> routes_inv cf c"
  by (simp add: routing_def routes_inv_def)

lemma log_keeps: "placed_route a = None \<Longrightarrow> keeps (routes_inv cf) (cc_log_act a)"
  by (rule keeps_upd) (simp add: route_preds)

lemma log_keeps_to_place: "placed_route a = None \<Longrightarrow> keeps (to_place cf r) (cc_log_act a)"
  by (rule keeps_upd) (simp add: route_preds)

lemma cc_event_new_keeps: "(\<And>e. keeps (routes_inv cf) (f e)) \<Longrightarrow> keeps (routes_inv cf) (cc_event_new k d rt f)"
  unfolding cc_event_new_def by (intro keeps_intros keeps_upd) (auto simp: route_preds)

lemma po_step_keeps: "keeps (routes_inv cf) (po_step r)"
proof -
  have "keeps (routes_inv cf) (po_call f)" for f
    by (cases f) (auto intro!: keeps_intros log_keeps)
  then show ?thesis unfolding po_step_def by (auto intro: keeps_intros split: option.split param_val.split)
qed

lemma aConn_keeps: "keeps (routes_inv cf) aConn"
  unfolding aConn_def by (intro keeps_intros keeps_upd) (auto simp: route_preds intro!: keeps_intros log_keeps)

lemma oConn_keeps: "keeps (routes_inv cf) oConn"
  unfolding oConn_def by (intro keeps_intros log_keeps) simp

lemma aDisc_keeps: "keeps (routes_inv cf) aDisc"
  unfolding aDisc_def by (intro keeps_intros keeps_upd) (auto simp: route_preds)

lemma cc_remove_keeps: "keeps (routes_inv cf) cc_remove"
  unfolding cc_remove_def by (intro keeps_intros keeps_upd) (auto simp: route_preds)

lemma dead_keeps: "keeps (routes_inv cf) (aDead U)" "keeps (routes_inv cf) (oDead U k)" "keeps (routes_inv cf) (oDisc k)"
  unfolding aDead_def oDead_def oDisc_def by (intro keeps_intros cc_remove_keeps log_keeps; simp)+

lemma place_timer_keeps: "keeps (routes_inv cf) (place_timer r)"
  unfolding place_timer_def by (auto intro!: keeps_intros log_keeps split: option.split param_val.split)

lemma place_acct_keeps: "keeps (to_place cf r) (place_acct cf r cld ho)"
  unfolding place_acct_def by (simp add: keeps_wpc route_preds)

lemma place_leg_keeps: "keeps (to_place cf r) (place_leg U cf r nh tp)"
  unfolding place_leg_def by (intro keeps_intros keeps_upd) (auto simp: route_preds)

section \<open>The contract of the calls of legs\<close>

text \<open>
  The handlers rely on one thing of the legs that they call: whatever comes back through their
  callbacks, the invariant of the routes holds afterwards.
\<close>

locale route_keeper =
  fixes send :: "'u sender" and cf :: cc_config
  assumes send_keeps: "keeps (routes_inv cf) (send l ev)"
begin

lemma fail_A_keeps: "keeps (routes_inv cf) (fail_A send code rsn)"
  unfolding fail_A_def by (intro keeps_intros cc_event_new_keeps send_keeps keeps_upd) (auto simp: route_preds)

lemma place_event_keeps: "keeps (routes_inv cf) (place_event cf send r e0 cid cld bd au)"
  unfolding place_event_def
  by (auto intro!: keeps_intros po_step_keeps cc_event_new_keeps send_keeps keeps_upd simp: route_preds)

lemma place_start_keeps: "keeps (routes_inv cf) (place_start cf send r e0 cid cld bd au)"
  unfolding place_start_def by (intro keeps_intros place_timer_keeps place_event_keeps)

lemma placeOriginate_leads: "leads (to_place cf r) (routes_inv cf) (placeOriginate U cf send r)"
proof -
  have mark: "leads (to_place cf r) (routes_inv cf) (block
      [place_credit r, place_leg U cf r nh tp, cc_log_act (CL_Place r), place_start cf send r e0 cid cld bd au])" for nh tp e0 cid cld bd au
  proof (rule leads_then)
    show "leads (to_place cf r) (to_place cf r) (place_credit r)"
      unfolding leads_self place_credit_def by (intro keeps_intros log_keeps_to_place) simp
    have "leads (to_place cf r) (routes_inv cf) (block [cc_log_act (CL_Place r), place_start cf send r e0 cid cld bd au])"
      by (intro leads_first leads_upd keeps_intros place_start_keeps) (simp add: route_preds)
    then show "leads (to_place cf r) (routes_inv cf)
        (block [place_leg U cf r nh tp, cc_log_act (CL_Place r), place_start cf send r e0 cid cld bd au])"
      by (rule leads_then [rotated]) (auto simp: leads_self place_leg_keeps intro: to_place_inv)
  qed (rule to_place_inv)
  have acct: "leads (to_place cf r) (routes_inv cf) (block [place_acct cf r cld ho, place_credit r, place_leg U cf r nh tp, cc_log_act (CL_Place r), place_start cf send r e0 cid cld bd au])" for cld ho nh tp e0 cid bd au
    by (rule leads_then [OF _ mark to_place_inv]) (simp_all add: leads_self place_acct_keeps)
  have body: "leads (to_place cf r) (routes_inv cf)
      (fetch (\<lambda>c. translate_out cf r) (\<lambda>cld. fetch (\<lambda>c. route_target c r) (\<lambda>(nh, tp, ho). block
       [place_acct cf r cld ho, place_credit r, place_leg U cf r nh tp,
        cc_log_act (CL_Place r), place_start cf send r e0 cid cld bd au])))" for e0 cid bd au
    by (intro leads_fetch) (auto intro: to_place_inv acct split: prod.split)
  have hunt: "leads (to_place cf r) (to_place cf r) (upd (\<lambda>c. c\<lparr>huntstop_scodes := h\<rparr>) :: ('u cc, unit) stmt)" for h
    by (rule leads_upd) (simp add: route_preds)
  show ?thesis
    unfolding placeOriginate_def
    by (rule leads_fetch)
      (auto intro: to_place_inv leads_then [OF hunt leads_first [OF body keeps_block_Nil] to_place_inv] split: prod.split)
qed

lemma next_route_keeps: "leads (routing cf) (routes_inv cf) (next_route U cf send)"
proof -
  have "leads (\<lambda>t. t = c) (routes_inv cf) (block [upd (\<lambda>c. c\<lparr>cc_routes := tl (cc_routes c)\<rparr>), placeOriginate U cf send r])"
    if "routing cf c" "cc_routes c = r # rs" for c r rs
  proof (rule leads_then)
    show "leads (\<lambda>t. t = c) (to_place cf r) (upd (\<lambda>c. c\<lparr>cc_routes := tl (cc_routes c)\<rparr>))"
      by (rule leads_upd) (use that in \<open>simp add: route_preds\<close>)
    show "leads (to_place cf r) (routes_inv cf) (block [placeOriginate U cf send r])"
      by (intro leads_first placeOriginate_leads keeps_intros)
  qed (rule to_place_inv)
  then show ?thesis
    unfolding next_route_def by (intro leads_fetch_dep routing_inv) (auto split: list.splits)
qed

lemma rDone_fail_keeps: "keeps (routes_inv cf) (rDone_fail U send)"
  unfolding rDone_fail_def by (auto intro!: keeps_intros fail_A_keeps)

lemma add_routes_leads: "leads fresh_routing (routing cf) (add_routes cf ct n rs :: ('u cc, unit) stmt)"
  unfolding leads_def
proof (intro allI impI)
  fix c :: "'u cc"
  assume c: "fresh_routing c"
  obtain qs where "out_state (add_routes cf ct n rs c) = c\<lparr>cc_routes := cc_routes c @ qs\<rparr>" "in_order cf qs"
    using add_routes_spec [of cf n c ct rs] unfolding appends_routes_def by blast
  then show "wpc (add_routes cf ct n rs) (routing cf) (\<lambda>_. routing cf) (\<lambda>_. routing cf) c"
    unfolding out_state_wpc [symmetric] using c by (simp add: route_preds)
qed

lemma take_routes_leads: "leads fresh_routing (routes_inv cf) (take_routes U cf send ct rs)"
  unfolding take_routes_def
proof (rule leads_then [OF add_routes_leads _ routing_inv], rule leads_first, rule leads_if_else)
  show "leads (\<lambda>s. routing cf s \<and> cc_routes s = []) (routes_inv cf) (fail_A send 500 ''Internal Server Error (3)'')"
    by (rule leads_keeps [OF fail_A_keeps]) (simp add: routing_inv)
  have "leads (\<lambda>s. routing cf s \<and> cc_routes s \<noteq> []) (routing cf) (upd (\<lambda>c. c\<lparr>cc_state := CCStateARComplete\<rparr>) :: ('u cc, unit) stmt)"
    by (rule leads_upd) (simp add: route_preds)
  then show "leads (\<lambda>s. routing cf s \<and> cc_routes s \<noteq> []) (routes_inv cf) (block [upd (\<lambda>c. c\<lparr>cc_state := CCStateARComplete\<rparr>), next_route U cf send])"
    by (rule leads_then) (auto intro: leads_first next_route_keeps keeps_intros routing_inv)
qed (rule keeps_block_Nil)

lemma rDone_accept_leads: "leads fresh_routing (routes_inv cf) (rDone_accept U cf send attrs)"
proof -
  have cli: "leads fresh_routing fresh_routing ((case xs of [] \<Rightarrow> skip | x # _ \<Rightarrow> upd (\<lambda>c. c\<lparr>cc_cli := f x\<rparr>)) :: ('u cc, unit) stmt)"
    and nam: "leads fresh_routing fresh_routing ((case xs of [] \<Rightarrow> skip | x # _ \<Rightarrow> upd (\<lambda>c. c\<lparr>cc_caller_name := f x\<rparr>)) :: ('u cc, unit) stmt)"
    for xs :: "string list" and f
    by (cases xs; auto simp: leads_self route_preds intro!: keeps_intros keeps_upd)+
  have ro: "leads fresh_routing (routes_inv cf)
      (case ro of None \<Rightarrow> fail_A send 500 m | Some q \<Rightarrow> fetch (\<lambda>c. q) (take_routes U cf send ct))"
    for ro :: "(exn + b2b_route list) option" and ct m
    by (cases ro) (auto intro: leads_keeps [OF fail_A_keeps] fresh_routing_inv leads_fetch take_routes_leads)
  show ?thesis
    unfolding rDone_accept_def
    by (intro leads_then [OF cli] leads_then [OF nam] leads_first leads_fetch leads_local ro keeps_intros fresh_routing_inv)
qed

lemma rDone_leads: "leads fresh_routing (routes_inv cf) (rDone U cf send res)"
proof -
  have "leads fresh_routing (routes_inv cf) (block
      [acct_answer cf, if_else (\<lambda>c. u_class U (uaA c) \<noteq> Some UasStateTrying)
         (cc_log_act (CL_Acct_Disc LegA)) (rDone_accept U cf send attrs)])" for attrs
  proof (rule leads_then [OF _ _ fresh_routing_inv])
    show "leads fresh_routing fresh_routing (acct_answer cf :: ('u cc, unit) stmt)"
      unfolding acct_answer_def by (simp add: leads_def route_preds)
    show "leads fresh_routing (routes_inv cf) (block
        [if_else (\<lambda>c. u_class U (uaA c) \<noteq> Some UasStateTrying) (cc_log_act (CL_Acct_Disc LegA)) (rDone_accept U cf send attrs)])"
      by (intro leads_first leads_if_else keeps_intros)
        (auto intro: leads_keeps [OF log_keeps] fresh_routing_inv leads_weaken [OF rDone_accept_leads])
  qed
  then show ?thesis
    using leads_keeps [OF rDone_fail_keeps fresh_routing_inv] by (auto simp: rDone_def split: option.split)
qed

lemma request_auth_leads: "leads fresh_routing (routes_inv cf) (request_auth user :: ('u cc, unit) stmt)"
proof -
  have "wpc (request_auth user) (routes_inv cf) (\<lambda>_. routes_inv cf) (\<lambda>_. routes_inv cf) c" if "fresh_routing c" for c :: "'u cc"
    using that by (simp add: request_auth_def route_preds)
  then show ?thesis by (simp add: leads_def)
qed

lemma ask_route_leads: "leads fresh_routing (routes_inv cf) (ask_route U cf send au)"
proof -
  have "leads fresh_routing fresh_routing (upd (\<lambda>c. c\<lparr>cc_username := Some (cc_remote_ip c)\<rparr>) :: ('u cc, unit) stmt)"
    by (rule leads_upd) (simp add: route_preds)
  then have "leads fresh_routing (routes_inv cf)
      (block [upd (\<lambda>c. c\<lparr>cc_username := Some (cc_remote_ip c)\<rparr>), rDone U cf send (Some ([], 0))])"
    by (rule leads_then) (auto intro: leads_first rDone_leads keeps_intros fresh_routing_inv)
  then show ?thesis
    by (auto simp: ask_route_def intro!: leads_local request_auth_leads split: option.split)
qed

lemma recvTry_number_leads:
  "leads ready (routes_inv cf) (fetch (\<lambda>_. strip_nat n bd) (\<lambda>(n1, bd1). fetch (\<lambda>_. translate_in cf n1) (\<lambda>n2. block
     [upd (\<lambda>c. c\<lparr>cc_cld := Some n2, rtp_session := b, eTry := e n2 bd1, cc_state := CCStateWaitRoute\<rparr>), k])))"
  if "leads fresh_routing (routes_inv cf) k" for k :: "('u cc, unit) stmt"
proof -
  have "leads ready fresh_routing (upd (\<lambda>c. c\<lparr>cc_cld := Some n2, rtp_session := b, eTry := e n2 bd1, cc_state := CCStateWaitRoute\<rparr>) :: ('u cc, unit) stmt)"
    for n2 bd1 by (rule leads_upd) (simp add: route_preds)
  then have "leads ready (routes_inv cf) (block
     [upd (\<lambda>c. c\<lparr>cc_cld := Some n2, rtp_session := b, eTry := e n2 bd1, cc_state := CCStateWaitRoute\<rparr>), k])" for n2 bd1
    by (rule leads_then) (auto intro: leads_first that keeps_intros fresh_routing_inv)
  then show ?thesis by (intro leads_fetch) (auto intro: ready_inv leads_fetch split: prod.split)
qed

lemma recvTry_leads: "leads ready (routes_inv cf) (recvTry U cf send ev)"
proof -
  have num: "leads ready ready (upd (\<lambda>c. c\<lparr>cc_cld := f c\<rparr>) :: ('u cc, unit) stmt)" for f
    by (rule leads_upd) (simp add: route_preds)
  have first: "leads ready ready (upd (\<lambda>c. c\<lparr>cc_cId := i, cc_cli := a, cc_cld := b, cc_caller_name := nm\<rparr>) :: ('u cc, unit) stmt)" for i a b nm
    by (rule leads_upd) (simp add: route_preds)
  have bad: "leads ready (routes_inv cf) (block
      [cc_event_new CCEventFail d t (send LegA), upd (\<lambda>c. c\<lparr>cc_state := CCStateDead\<rparr>)])" for d t
    by (rule leads_keeps [OF _ ready_inv])
      (intro keeps_intros cc_event_new_keeps send_keeps keeps_upd, auto simp: route_preds)
  show ?thesis
    unfolding recvTry_def
    by (cases "edata ev")
      (auto intro!: leads_keeps [OF keeps_raise ready_inv] leads_then [OF first leads_first [OF _ keeps_block_Nil] ready_inv] bad
        leads_then [OF num leads_first [OF _ keeps_block_Nil] ready_inv] recvTry_number_leads ask_route_leads
        simp del: if_split split: option.split)
qed

lemma cc_recvEvent_keeps: "keeps (routes_inv cf) (cc_recvEvent U cf send l ev)"
proof (cases l)
  case LegA
  have first: "leads (\<lambda>c. routes_inv cf c \<and> cc_state c = CCStateIdle) (routes_inv cf) (recvTry U cf send ev)"
    by (rule leads_weaken [OF recvTry_leads]) (auto simp: ready_def routes_inv_def)
  have "leads (routes_inv cf) (routes_inv cf) (cc_recvEvent U cf send LegA ev)"
    unfolding cc_recvEvent_def leg.case
    by (rule leads_if_else)
      (auto intro!: first leads_keeps [OF cc_event_new_keeps] leads_keeps [OF keeps_if_then] keeps_intros send_keeps)
  then show ?thesis using LegA by (simp add: leads_self)
next
  case (LegO k)
  have hunt: "leads (\<lambda>c. routes_inv cf c \<and> may_hunt U ev c) (routes_inv cf) (next_route U cf send)"
    by (rule leads_weaken [OF next_route_keeps]) (auto simp: may_hunt_def route_preds)
  have "leads (routes_inv cf) (routes_inv cf) (cc_recvEvent U cf send (LegO k) ev)"
    unfolding cc_recvEvent_def leg.case
    by (rule leads_if_else) (auto intro!: leads_fetch hunt leads_keeps [OF send_keeps])
  then show ?thesis using LegO by (simp add: leads_self)
qed

lemma leg_callback_keeps: "keeps (routes_inv cf) (leg_callback U cf send l cb)"
  unfolding leg_callback_def
  by (auto intro!: cc_recvEvent_keeps aConn_keeps oConn_keeps aDisc_keeps dead_keeps keeps_if_then split: leg.split leg_cb.split)

lemma leg_done_keeps: "keeps (routes_inv cf) (leg_done U cf send l r)"
proof -
  have "keeps (routes_inv cf) (upd (set_leg l u))" for u :: 'u
    by (rule keeps_upd) (auto simp: set_leg_def route_preds split: leg.split)
  then show ?thesis
    unfolding leg_done_def
    by (auto intro!: keeps_intros leg_callback_keeps split: prod.split option.split)
qed

end

lemma cc_send_keeper: "route_keeper (cc_send n U cf) cf"
proof (induction n)
  case 0
  show ?case by unfold_locales (simp add: keeps_raise)
next
  case (Suc n)
  show ?case
    by unfold_locales (auto intro!: keeps_intros log_keeps route_keeper.leg_done_keeps [OF Suc])
qed

interpretation legs: route_keeper "cc_send n U cf" cf for n U cf
  by (rule cc_send_keeper)

section \<open>Reachable states\<close>

definition cc_init :: "'u cc \<Rightarrow> bool" where
  "cc_init c \<longleftrightarrow> (\<exists>rip src rsrc rt phs a t n ch xa.
     c = (CallController_init rip src rsrc rt phs a t n)\<lparr>cc_challenge := ch, extra_attributes := xa\<rparr>)"

lemma cc_step_inv:
  assumes "cc_step U cf c c'" "routes_inv cf c"
  shows "routes_inv cf c'"
  using assms
proof cases
  case (step_leg l k n r)
  then show ?thesis using keepsD [OF legs.leg_done_keeps assms(2)] by simp
next
  case (step_auth n res)
  then have "fresh_routing (c\<lparr>auth_running := False\<rparr>)" using assms(2) by (auto simp: route_preds)
  then show ?thesis unfolding step_auth(1) by (rule leads_out [OF legs.rDone_leads])
next
  case (step_disc n rt og)
  have "keeps (routes_inv cf) (cc_disconnect n U cf rt og)"
    unfolding cc_disconnect_def by (intro keeps_local legs.leg_done_keeps)
  then show ?thesis using step_disc assms(2) by (simp add: keepsD)
next
  case (step_group k)
  have "keeps (routes_inv cf) (group_expires k :: ('a cc, unit) stmt)"
    unfolding group_expires_def by (intro keeps_intros)
  then show ?thesis using step_group assms(2) by (simp add: keepsD)
qed (use assms(2) in \<open>auto simp: route_preds\<close>)

lemma cc_init_inv: "cc_init c \<Longrightarrow> routes_inv cf c"
  by (auto simp: cc_init_def CallController_init_def route_preds List.map_filter_def)

interpretation controller: step_invariant cc_init "cc_step U cf" "routes_inv cf" for U cf
  by unfold_locales (auto intro: cc_step_inv cc_init_inv)

end
