(* ===== verification/Call_Legs.thy ===== *)
theory Call_Legs
  imports Call_Inv UA_Fsm
begin

text \<open>
  The call controller with the user agents of the development as its legs. \<open>ua_legs\<close> gives the
  interface \<open>uas\<close> its meaning: an event runs \<open>UA_recvEvent\<close>, and the callbacks are those that the
  user agent recorded on the way. In the composed system (\<open>b2b_step\<close>) a leg moves by a step of the
  user agent only. What is proved of each alone then holds of the pair, and the accounting of a leg
  follows the end of its call.
\<close>

section \<open>User agents as legs\<close>

fun leg_cb_of :: "action \<Rightarrow> leg_cb option" where
  "leg_cb_of (A_Emit e) = Some (LC_Event e)"
| "leg_cb_of (A_Callback CbConn n (CbArgs t og code)) = Some (LC_Conn t og)"
| "leg_cb_of (A_Callback CbDisc n (CbArgs t og code)) = Some (LC_End t og code)"
| "leg_cb_of (A_Callback CbFail n (CbArgs t og code)) = Some (LC_End t og code)"
| "leg_cb_of (A_Callback CbDead n a) = Some LC_Dead"
| "leg_cb_of _ = None"

definition leg_cbs :: "ua \<Rightarrow> ua \<Rightarrow> leg_cb list" where
  "leg_cbs u u' = List.map_filter leg_cb_of (drop (length (trace u)) (trace u'))"

fun out_exn :: "('s, 'r) outcome \<Rightarrow> exn option" where
  "out_exn (Raise e s) = Some e"
| "out_exn _ = None"

definition leg_result :: "ua \<Rightarrow> (ua, 'r) outcome \<Rightarrow> ua \<times> leg_cb list \<times> exn option" where
  "leg_result u x = (out_state x, leg_cbs u (out_state x), out_exn x)"

text \<open>
  The constructor call of \<open>placeOriginate\<close> and the attributes set after it. \<open>w\<close> is the rest of the
  system as each new user agent sees it, \<open>hooks\<close> the SDP handlers of the RTP session for it.
\<close>

type_synonym sdp_hooks = "(msg_body \<Rightarrow> exn option) \<times> (msg_body \<Rightarrow> sdp_hook)"

definition leg_ua_args :: "leg_args \<Rightarrow> ua_args" where
  "leg_ua_args la = \<lparr>ua_event_cb = True, arg_username = la_user la, arg_password = la_passw la, nh_address = Some (la_nh la),
     nh_transport = (case la_transport la of Some t \<Rightarrow> t | None \<Rightarrow> my_transport),
     arg_credit_time = map_option real_of_int (la_credit_time la), arg_conn_cbs = Some [''oConn''],
     arg_disc_cbs = Some (if la_acct la then [''disc''] else []), arg_fail_cbs = Some (if la_acct la then [''disc''] else []),
     arg_ring_cbs = None, arg_dead_cbs = Some [''oDead''], ltag = None,
     arg_extra_headers = la_headers la, arg_expire_time = map_option real_of_int (la_expire_time la),
     arg_no_progress_time = map_option real_of_int (la_no_progress la)\<rparr>"

definition leg_make :: "(nat \<Rightarrow> ua) \<Rightarrow> (nat \<Rightarrow> sdp_hooks) \<Rightarrow> real \<Rightarrow> leg_args \<Rightarrow> ua" where
  "leg_make w hooks ka la = (UA_init (leg_ua_args la) (w (la_number la)))\<lparr>
     pass_auth := la_pass_auth la, no_reply_time := map_option real_of_int (la_no_reply la),
     outbound_proxy := (case la_proxy la of Some (P_Proxy (h, p)) \<Rightarrow> Some (Host h, Port p) | _ \<Rightarrow> None),
     on_local_sdp_change := (if la_rtpp la then Some (fst (hooks (la_number la))) else None),
     on_remote_sdp_change := (if la_rtpp la then Some (snd (hooks (la_number la))) else None),
     kaInterval := ka, local_ua := local_ua (w (la_number la))\<rparr>"

definition ua_legs :: "(exn \<Rightarrow> string) \<Rightarrow> (nat \<Rightarrow> ua) \<Rightarrow> (nat \<Rightarrow> sdp_hooks) \<Rightarrow> real \<Rightarrow> ua uas" where
  "ua_legs es w hooks ka = \<lparr>
     u_event = (\<lambda>e u. leg_result u (UA_recvEvent es e u)),
     u_disconnect = (\<lambda>rt og u. leg_result u (UA_disconnect es rt og u)),
     u_class = cls,
     u_make = leg_make w hooks ka\<rparr>"

lemma leg_make_initial: "ua_initial (leg_make w hooks ka la)"
  by (simp add: ua_initial_def leg_make_def UA_init_def)

section \<open>Predicates of the controller that its handlers keep\<close>

text \<open>The stop of the accounting of an originating leg.\<close>

fun is_stop :: "cc_log \<Rightarrow> bool" where
  "is_stop (CL_Acct_Disc (LegO k)) = True"
| "is_stop _ = False"

text \<open>
  A predicate of the legs and of what has been recorded. The locale asks for what the handlers do
  to these two; everything else in the state is free.
\<close>

locale cc_code =
  fixes U :: "'u uas" and I :: "'u cc \<Rightarrow> bool"
  assumes cc_frame: "uaA c = uaA d \<Longrightarrow> uaOs c = uaOs d \<Longrightarrow> clog c = clog d \<Longrightarrow> I c \<Longrightarrow> I d"
    and cc_log: "\<not> is_stop a \<Longrightarrow> I c \<Longrightarrow> I (c\<lparr>clog := clog c @ [a]\<rparr>)"
    and cc_new: "I c \<Longrightarrow> I (c\<lparr>uaOs := uaOs c @ [(u_make U la, b)]\<rparr>)"
begin

lemma cc_upd: "(\<And>c. uaA (f c) = uaA c) \<Longrightarrow> (\<And>c. uaOs (f c) = uaOs c) \<Longrightarrow> (\<And>c. clog (f c) = clog c) \<Longrightarrow> keeps I (upd f)"
  by (rule keeps_upd) (metis cc_frame)

lemma cc_log_act: "\<not> is_stop a \<Longrightarrow> keeps I (cc_log_act a)"
  by (rule keeps_upd) (rule cc_log)

lemma cc_log_local: "(\<And>c. \<not> is_stop (f c)) \<Longrightarrow> keeps I (local f cc_log_act)"
  by (simp add: keeps_wpc cc_log)

lemmas cc_intros = keeps_intros cc_upd cc_log_act

lemma cc_new_event: "(\<And>e. keeps I (f e)) \<Longrightarrow> keeps I (cc_event_new k d rt f)"
  unfolding cc_event_new_def by (intro cc_intros) simp_all

lemma cc_small: "keeps I aConn" "keeps I oConn" "keeps I aDisc" "keeps I (aDead U)" "keeps I (oDead U k)" "keeps I (place_timer r)"
  "keeps I (group_expires g)"
  unfolding aConn_def oConn_def aDisc_def aDead_def oDead_def cc_remove_def place_timer_def group_expires_def
  by (auto intro!: cc_intros split: option.split param_val.split)

lemma cc_request_auth: "keeps I (request_auth user)"
  unfolding request_auth_def by (intro keeps_block_Cons keeps_block_Nil cc_upd cc_log_local) auto

lemma cc_place_acct: "keeps I (place_acct cf r cld ho)"
  unfolding place_acct_def by (auto intro!: keeps_block_Cons keeps_block_Nil cc_upd cc_log_local)

lemma cc_place_credit: "keeps I (place_credit r)"
  unfolding place_credit_def by (intro cc_intros) simp

lemma cc_acct_answer: "keeps I (acct_answer cf)"
  unfolding acct_answer_def by (auto intro!: keeps_block_Cons keeps_block_Nil cc_upd cc_log_local)

lemma cc_place_leg: "keeps I (place_leg U cf r nh tp)"
  unfolding place_leg_def by (intro cc_intros keeps_upd cc_new) auto

lemma cc_po_step: "keeps I (po_step r)"
proof -
  have "keeps I (po_call f)" for f
    by (cases f) (auto intro!: cc_intros)
  then show ?thesis unfolding po_step_def by (auto intro: keeps_intros split: option.split param_val.split)
qed

lemma cc_add_routes: "keeps I (add_routes cf ct n rs)"
  by (induction rs arbitrary: n) (auto intro!: cc_intros)

end

text \<open>The handlers, when what they hand to the legs keeps the predicate.\<close>

locale cc_handlers = cc_code U I for U :: "'u uas" and I :: "'u cc \<Rightarrow> bool" +
  fixes send :: "'u sender"
  assumes cc_send: "keeps I (send l ev)"
begin

lemma cc_fail_A: "keeps I (fail_A send code rsn)"
  unfolding fail_A_def by (intro cc_intros cc_new_event cc_send) auto

lemma cc_place_event: "keeps I (place_event cf send r e cid cld bd au)"
  unfolding place_event_def by (auto intro!: cc_intros cc_new_event cc_send cc_po_step)

lemma cc_place_start: "keeps I (place_start cf send r e cid cld bd au)"
  unfolding place_start_def by (intro keeps_intros cc_small(6) cc_place_event)

lemma cc_placeOriginate: "keeps I (placeOriginate U cf send r)"
  unfolding placeOriginate_def
  by (auto intro!: cc_intros cc_place_acct cc_place_credit cc_place_leg cc_place_start split: prod.split)

lemma cc_next_route: "keeps I (next_route U cf send)"
  unfolding next_route_def by (intro cc_intros cc_placeOriginate) auto

lemma cc_rDone: "keeps I (rDone U cf send res)"
proof -
  have "keeps I (rDone_fail U send)"
    unfolding rDone_fail_def by (auto intro!: cc_intros cc_fail_A)
  moreover have "keeps I (take_routes U cf send ct rs)" for ct rs
    unfolding take_routes_def by (intro cc_intros cc_add_routes cc_fail_A cc_next_route) auto
  then have "keeps I (rDone_accept U cf send attrs)" for attrs
    unfolding rDone_accept_def by (auto intro!: cc_intros cc_fail_A split: list.split option.split)
  ultimately show ?thesis
    unfolding rDone_def by (auto intro!: cc_intros cc_acct_answer split: option.split)
qed

lemma cc_recvTry: "keeps I (recvTry U cf send ev)"
proof -
  have "keeps I (ask_route U cf send au)" for au
    unfolding ask_route_def by (auto intro!: cc_intros cc_rDone cc_request_auth split: option.split)
  then show ?thesis
    unfolding recvTry_def by (auto intro!: cc_intros cc_new_event cc_send split: ev_data.split option.split prod.split)
qed

lemma cc_recv: "keeps I (cc_recvEvent U cf send l ev)"
  unfolding cc_recvEvent_def
  by (auto intro!: cc_intros cc_new_event cc_send cc_recvTry cc_next_route split: leg.split)

text \<open>Every callback but the one that stops the accounting of an originating leg.\<close>

lemma cc_callback: "(\<And>k t og code. (l, cb) \<noteq> (LegO k, LC_End t og code)) \<Longrightarrow> keeps I (leg_callback U cf send l cb)"
  unfolding leg_callback_def
  by (auto intro!: cc_recv cc_small split: leg.split leg_cb.split)

end

section \<open>The steps of the composed system\<close>

text \<open>
  A leg works on a message, a timer or the end of an SDP hook: a step of its user agent, whose
  callbacks the controller then sees. The other steps are those of the controller.
\<close>

inductive b2b_step :: "(exn \<Rightarrow> string) \<Rightarrow> ua uas \<Rightarrow> cc_config \<Rightarrow> ua cc \<Rightarrow> ua cc \<Rightarrow> bool" for es U cf where
  b2b_leg: "l = LegA \<or> l = LegO k \<and> k < length (uaOs c) \<Longrightarrow> ua_step es (leg_ua l c) u \<Longrightarrow>
    b2b_step es U cf c (out_state (leg_done U cf (cc_send n U cf) l (u, leg_cbs (leg_ua l c) u, x) c))"
| b2b_auth: "auth_running c \<Longrightarrow> b2b_step es U cf c (out_state (rDone U cf (cc_send n U cf) res (c\<lparr>auth_running := False\<rparr>)))"
| b2b_disc: "b2b_step es U cf c (out_state (cc_disconnect n U cf rt og c))"
| b2b_group: "b2b_step es U cf c (out_state (group_expires k c))"
| b2b_append: "b2b_step es U cf c (c\<lparr>in_ccmap := True\<rparr>)"
| b2b_time: "b2b_step es U cf c (c\<lparr>cc_now := t, ev_seq := m\<rparr>)"

definition b2b_init :: "ua cc \<Rightarrow> bool" where
  "b2b_init c \<longleftrightarrow> cc_init c \<and> ua_initial (uaA c)"

lemma b2b_step_cc: "b2b_step es U cf c d \<Longrightarrow> cc_step U cf c d"
  by (induction rule: b2b_step.induct) (auto intro: cc_step.intros)

lemma b2b_init_clog: "b2b_init c \<Longrightarrow> clog c = [] \<and> uaOs c = []"
  by (auto simp: b2b_init_def cc_init_def CallController_init_def)

subsection \<open>Every leg is a reachable user agent\<close>

definition legs_all :: "('u \<Rightarrow> bool) \<Rightarrow> 'u cc \<Rightarrow> bool" where
  "legs_all J c \<longleftrightarrow> J (uaA c) \<and> (\<forall>x \<in> set (uaOs c). J (fst x))"

lemma legs_all_set: "legs_all J c \<Longrightarrow> (valid_leg l c \<Longrightarrow> J u) \<Longrightarrow> legs_all J (set_leg l u c)"
proof (cases l)
  case (LegO k)
  assume c: "legs_all J c" and u: "valid_leg l c \<Longrightarrow> J u"
  show ?thesis
  proof (cases "k < length (uaOs c)")
    case True
    have "J (fst x)" if "x \<in> set ((uaOs c)[k := (u, snd (uaOs c ! k))])" for x
      using that c u LegO True set_update_subset_insert [of "uaOs c" k "(u, snd (uaOs c ! k))"]
      by (auto simp: legs_all_def valid_leg_def)
    then show ?thesis using c LegO by (auto simp: legs_all_def set_leg_def)
  qed (use c LegO in \<open>auto simp: legs_all_def set_leg_def list_update_beyond\<close>)
qed (auto simp: legs_all_def set_leg_def valid_leg_def)

lemma legs_all_ua: "legs_all J c \<Longrightarrow> valid_leg l c \<Longrightarrow> J (leg_ua l c)"
  by (auto simp: legs_all_def leg_ua_def valid_leg_def split: leg.splits)

lemma legs_all_code: "(\<And>la. J (u_make U la)) \<Longrightarrow> cc_code U (legs_all J)"
  by unfold_locales (auto simp: legs_all_def)

lemma legs_all_stop: "keeps (legs_all J) (cc_log_act a)"
  by (rule keeps_upd) (simp add: legs_all_def)

text \<open>After the work of a leg its callbacks run.\<close>

lemma leg_done_gen:
  assumes "I (set_leg l u c)" "\<And>cb. keeps I (leg_callback U cf send l cb)"
  shows "I (out_state (leg_done U cf send l (u, cbs, x) c))"
proof -
  have "keeps I (block [foreach cbs (leg_callback U cf send l), case x of None \<Rightarrow> skip | Some e \<Rightarrow> raise e])"
    by (auto intro!: keeps_intros assms(2) split: option.split)
  then show ?thesis
    unfolding leg_done_def prod.case out_state_wpc using assms(1) by (simp add: keeps_wpc)
qed

text \<open>The contract of the legs for a predicate \<open>J\<close> on them.\<close>

locale leg_predicate =
  fixes U :: "'u uas" and J :: "'u \<Rightarrow> bool"
  assumes J_make: "J (u_make U la)"
    and J_event: "J u \<Longrightarrow> J (fst (u_event U e u))"
    and J_disconnect: "J u \<Longrightarrow> J (fst (u_disconnect U rt og u))"
begin

lemma J_code: "cc_code U (legs_all J)"
  by (rule legs_all_code) (rule J_make)

lemma J_handlers: "(\<And>l e. keeps (legs_all J) (send l e)) \<Longrightarrow> cc_handlers U (legs_all J) send"
  by (intro cc_handlers.intro cc_handlers_axioms.intro J_code)

lemma J_callback:
  assumes "\<And>l e. keeps (legs_all J) (send l e)"
  shows "keeps (legs_all J) (leg_callback U cf send l cb)"
proof (cases "\<exists>k t og code. (l, cb) = (LegO k, LC_End t og code)")
  case True
  then show ?thesis
    by (auto simp: leg_callback_def oDisc_def intro!: keeps_if_then legs_all_stop)
next
  case False
  then show ?thesis by (intro cc_handlers.cc_callback [OF J_handlers [OF assms]]) auto
qed

lemma J_leg_done:
  assumes "\<And>l e. keeps (legs_all J) (send l e)" "legs_all J c" "valid_leg l c \<Longrightarrow> J u"
  shows "legs_all J (out_state (leg_done U cf send l (u, cbs, x) c))"
  by (rule leg_done_gen [OF legs_all_set [OF assms(2,3)] J_callback [OF assms(1)]])

lemma J_send: "keeps (legs_all J) (cc_send n U cf l e)"
proof (induction n arbitrary: l e)
  case 0
  show ?case by (simp add: keeps_raise)
next
  case (Suc n)
  have "keeps (legs_all J) (local (\<lambda>c. u_event U e (leg_ua l c)) (leg_done U cf (cc_send n U cf) l))"
    unfolding keeps_def local_def
  proof (intro allI impI)
    fix c
    assume c: "legs_all J c"
    obtain u cbs x where r: "u_event U e (leg_ua l c) = (u, cbs, x)" by (cases "u_event U e (leg_ua l c)")
    have "valid_leg l c \<Longrightarrow> J u" using J_event [OF legs_all_ua [OF c]] r by (metis fst_conv)
    then show "legs_all J (out_state (leg_done U cf (cc_send n U cf) l (u_event U e (leg_ua l c)) c))"
      unfolding r by (rule J_leg_done [OF Suc c])
  qed
  then show ?case by (auto intro!: keeps_intros legs_all_stop)
qed

lemma J_cc_disconnect: "keeps (legs_all J) (cc_disconnect n U cf rt og)"
  unfolding cc_disconnect_def keeps_def local_def
proof (intro allI impI)
  fix c
  assume c: "legs_all J c"
  obtain u cbs x where r: "u_disconnect U rt og (uaA c) = (u, cbs, x)" by (cases "u_disconnect U rt og (uaA c)")
  have "J u" using J_disconnect [of "uaA c" rt og] c r by (auto simp: legs_all_def)
  then show "legs_all J (out_state (leg_done U cf (cc_send n U cf) LegA (u_disconnect U rt og (uaA c)) c))"
    unfolding r by (intro J_leg_done J_send c)
qed

end

lemma reach_legs: "leg_predicate (ua_legs es w hooks ka) (reach ua_initial (ua_step es))"
  by unfold_locales (auto simp: ua_legs_def leg_result_def intro: reach.intros leg_make_initial step_event step_disconnect)

interpretation legs_reach: leg_predicate "ua_legs es w hooks ka" "reach ua_initial (ua_step es)" for es w hooks ka
  by (rule reach_legs)

lemma b2b_legs_step:
  assumes "b2b_step es (ua_legs es w hooks ka) cf c d" "legs_all (reach ua_initial (ua_step es)) c"
  shows "legs_all (reach ua_initial (ua_step es)) d"
  using assms(1)
proof cases
  case (b2b_leg l k u n x)
  have "valid_leg l c" using b2b_leg(2) by (auto simp: valid_leg_def)
  then have "reach ua_initial (ua_step es) u"
    using legs_all_ua [OF assms(2)] b2b_leg(3) by (auto intro: reach_step)
  then show ?thesis unfolding b2b_leg(1) by (intro legs_reach.J_leg_done legs_reach.J_send assms(2))
next
  case (b2b_auth n res)
  have "legs_all (reach ua_initial (ua_step es)) (c\<lparr>auth_running := False\<rparr>)" using assms(2) by (simp add: legs_all_def)
  then show ?thesis unfolding b2b_auth(1)
    by (rule keepsD [OF cc_handlers.cc_rDone [OF legs_reach.J_handlers [OF legs_reach.J_send]]])
next
  case (b2b_disc n rt og)
  then show ?thesis using keepsD [OF legs_reach.J_cc_disconnect assms(2)] by simp
next
  case (b2b_group k)
  then show ?thesis using assms(2) by (simp add: keepsD [OF cc_code.cc_small(7) [OF legs_reach.J_code]])
qed (use assms(2) in \<open>simp_all add: legs_all_def\<close>)

interpretation b2b_legs: step_invariant b2b_init "b2b_step es (ua_legs es w hooks ka) cf" "legs_all (reach ua_initial (ua_step es))"
  for es w hooks ka cf
proof
  show "b2b_init c \<Longrightarrow> legs_all (reach ua_initial (ua_step es)) c" for c
    using b2b_init_clog [of c] by (auto simp: legs_all_def b2b_init_def intro: reach_init)
qed (rule b2b_legs_step)

subsection \<open>The accounting of a leg\<close>

fun stop_of :: "nat \<Rightarrow> cc_log \<Rightarrow> bool" where
  "stop_of k (CL_Acct_Disc (LegO j)) = (j = k)"
| "stop_of k _ = False"

definition stops :: "nat \<Rightarrow> 'u cc \<Rightarrow> nat" where
  "stops k c = length (filter (stop_of k) (clog c))"

lemma stop_of_stop: "\<not> is_stop a \<Longrightarrow> \<not> stop_of k a"
  by (cases a rule: is_stop.cases) auto

text \<open>How often the user agent of a leg has reported the end of its call.\<close>

definition ends :: "nat \<Rightarrow> ua cc \<Rightarrow> nat" where
  "ends k c = (if k < length (uaOs c) then length (end_cbs (fst (uaOs c ! k))) else 0)"

text \<open>
  The stops of a leg and \<open>p\<close> more are covered by its reports. With \<open>p\<close> left open, the predicate
  speaks of a controller in the middle of its callbacks: \<open>p\<close> of them are still to come, in the
  frames of the stack that are not finished.
\<close>

definition covered :: "nat \<Rightarrow> nat \<Rightarrow> ua cc \<Rightarrow> bool" where
  "covered k p c \<longleftrightarrow> stops k c + p \<le> ends k c"

fun is_LC_End :: "leg_cb \<Rightarrow> bool" where
  "is_LC_End (LC_End _ _ _) = True"
| "is_LC_End _ = False"

lemma leg_make_end_cbs: "end_cbs (leg_make w hooks ka la) = []"
  by (simp add: leg_make_def UA_init_def end_cbs_def)

lemma covered_code: "cc_code (ua_legs es w hooks ka) (covered k p)"
proof
  show "covered k p d" if "uaOs c = uaOs d" "clog c = clog d" "covered k p c" for c d :: "ua cc"
  proof -
    have "stops k c = stops k d" "ends k c = ends k d" by (simp_all add: stops_def ends_def that(1,2))
    then show ?thesis using that(3) by (simp add: covered_def)
  qed
  show "covered k p (c\<lparr>clog := clog c @ [a]\<rparr>)" if "\<not> is_stop a" "covered k p c" for a and c :: "ua cc"
    using that stop_of_stop [of a k] by (auto simp: covered_def stops_def ends_def)
  show "covered k p (c\<lparr>uaOs := uaOs c @ [(u_make (ua_legs es w hooks ka) la, b)]\<rparr>)" if "covered k p c" for la b and c :: "ua cc"
    using that by (auto simp: covered_def stops_def ends_def ua_legs_def leg_make_end_cbs nth_append less_Suc_eq)
qed

lemma covered_handlers:
  "(\<And>l e. keeps (covered k p) (send l e)) \<Longrightarrow> cc_handlers (ua_legs es w hooks ka) (covered k p) send"
  by (intro cc_handlers.intro cc_handlers_axioms.intro covered_code)

text \<open>The reports that a leg adds are the end callbacks that the controller sees.\<close>

lemma leg_cbs_ends:
  assumes "prefix (trace u) (trace u')"
  shows "length (end_cbs u) + length (filter is_LC_End (leg_cbs u u')) \<le> length (end_cbs u')"
proof -
  obtain t where t: "trace u' = trace u @ t" using assms by (auto simp: prefix_def)
  have "length (filter is_LC_End (List.map_filter leg_cb_of t)) \<le> length (filter is_end_cb t)"
  proof (induction t)
    case (Cons a t)
    show ?case using Cons
      by (cases a rule: leg_cb_of.cases) (auto simp: List.map_filter_simps)
  qed (simp add: List.map_filter_simps)
  then show ?thesis by (simp add: t end_cbs_def leg_cbs_def)
qed

lemma covered_set:
  assumes "covered k p c" "prefix (trace (leg_ua l c)) (trace u)"
  shows "covered k (p + (if l = LegO k \<and> k < length (uaOs c) then length (filter is_LC_End (leg_cbs (leg_ua l c) u)) else 0)) (set_leg l u c)"
proof (cases "l = LegO k \<and> k < length (uaOs c)")
  case True
  then show ?thesis using assms(1) leg_cbs_ends [OF assms(2)]
    by (simp add: covered_def stops_def ends_def set_leg_def leg_ua_def)
next
  case False
  then have "ends k (set_leg l u c) = ends k c" "stops k (set_leg l u c) = stops k c"
    by (cases l; auto simp: ends_def stops_def set_leg_def nth_list_update)+
  then show ?thesis using assms(1) False by (auto simp: covered_def)
qed

lemma covered_stop:
  "covered k (q + (if j = k then 1 else 0)) c \<Longrightarrow> covered k q c"
  "covered k (q + (if j = k then 1 else 0)) c \<Longrightarrow> covered k q (c\<lparr>clog := clog c @ [CL_Acct_Disc (LegO j)]\<rparr>)"
proof -
  have "stops k (c\<lparr>clog := clog c @ [CL_Acct_Disc (LegO j)]\<rparr>) = stops k c + (if j = k then 1 else 0)"
    "ends k (c\<lparr>clog := clog c @ [CL_Acct_Disc (LegO j)]\<rparr>) = ends k c"
    by (simp_all add: stops_def ends_def)
  then show "covered k (q + (if j = k then 1 else 0)) c \<Longrightarrow> covered k q c"
    "covered k (q + (if j = k then 1 else 0)) c \<Longrightarrow> covered k q (c\<lparr>clog := clog c @ [CL_Acct_Disc (LegO j)]\<rparr>)"
    by (simp_all add: covered_def split: if_splits)
qed

lemma covered_callbacks:
  assumes send: "\<And>l e p. keeps (covered k p) (send l e)"
    and "covered k (p + (if l = LegO k then length (filter is_LC_End cbs) else 0)) c"
  shows "wpc (foreach cbs (leg_callback (ua_legs es w hooks ka) cf send l)) (covered k p) (\<lambda>_. covered k p) (\<lambda>_. covered k p) c"
  using assms(2)
proof (induction cbs arbitrary: c)
  case (Cons cb cbs)
  let ?q = "p + (if l = LegO k then length (filter is_LC_End cbs) else 0)"
  have down: "covered k ?q t \<Longrightarrow> covered k p t" for t
    by (auto simp: covered_def split: if_splits)
  have "wpc (leg_callback (ua_legs es w hooks ka) cf send l cb) (covered k ?q) (\<lambda>_. covered k ?q) (\<lambda>_. covered k ?q) c"
  proof (cases "\<exists>j t og code. (l, cb) = (LegO j, LC_End t og code)")
    case True
    then obtain j t og code where l: "l = LegO j" "cb = LC_End t og code" by auto
    have "covered k (?q + (if j = k then 1 else 0)) c" using Cons.prems l by (cases "j = k") (simp_all add: ac_simps)
    then have "covered k ?q c" "covered k ?q (c\<lparr>clog := clog c @ [CL_Acct_Disc (LegO j)]\<rparr>)"
      by (rule covered_stop)+
    then show ?thesis unfolding l leg_callback_def oDisc_def by simp
  next
    case False
    then have "keeps (covered k ?q) (leg_callback (ua_legs es w hooks ka) cf send l cb)"
      by (intro cc_handlers.cc_callback [OF covered_handlers [OF send]]) auto
    moreover have "covered k ?q c" using Cons.prems by (auto simp: covered_def split: if_splits)
    ultimately show ?thesis by (rule keepsW)
  qed
  then show ?case unfolding wpc_foreach_Cons by (rule wpc_mono) (auto intro: Cons.IH down)
qed (auto simp: covered_def)

lemma covered_leg_done:
  assumes "\<And>l e p. keeps (covered k p) (send l e)" "covered k p c" "prefix (trace (leg_ua l c)) (trace u)" "valid_leg l c"
  shows "covered k p (out_state (leg_done (ua_legs es w hooks ka) cf send l (u, leg_cbs (leg_ua l c) u, x) c))"
proof -
  have "covered k (p + (if l = LegO k then length (filter is_LC_End (leg_cbs (leg_ua l c) u)) else 0)) (set_leg l u c)"
    using covered_set [OF assms(2,3)] assms(4) by (auto simp: valid_leg_def split: if_splits)
  note cbs = covered_callbacks [where send = send, OF assms(1) this]
  show ?thesis
    unfolding leg_done_def prod.case out_state_wpc by (cases x) (auto intro!: wpc_mono [OF cbs])
qed

lemma covered_send: "keeps (covered k p) (cc_send n (ua_legs es w hooks ka) cf l e)"
proof (induction n arbitrary: l e p)
  case 0
  show ?case by (simp add: keeps_raise)
next
  case (Suc n)
  let ?U = "ua_legs es w hooks ka"
  have "covered k p (out_state (leg_done ?U cf (cc_send n ?U cf) l (u_event ?U e (leg_ua l c)) c))"
    if "covered k p c" "valid_leg l c" for c
    using covered_leg_done [where send = "cc_send n ?U cf", OF Suc that(1) _ that(2)]
      trace_grows.I_step [OF step_event [of es "leg_ua l c" e], of "trace (leg_ua l c)"]
    by (simp add: ua_legs_def leg_result_def)
  moreover have "covered k p (c\<lparr>clog := clog c @ [CL_To l e]\<rparr>)" "valid_leg l (c\<lparr>clog := clog c @ [CL_To l e]\<rparr>) = valid_leg l c"
    if "covered k p c" for c
    using cc_code.cc_log [OF covered_code, of "CL_To l e"] that by (simp_all add: valid_leg_def split: leg.split)
  ultimately show ?case unfolding out_state_wpc by (simp add: keeps_wpc)
qed

lemma covered_step:
  assumes "b2b_step es (ua_legs es w hooks ka) cf c d" "covered k p c"
  shows "covered k p d"
  using assms(1)
proof cases
  case (b2b_leg l j u n x)
  have "valid_leg l c" using b2b_leg(2) by (auto simp: valid_leg_def)
  moreover have "prefix (trace (leg_ua l c)) (trace u)"
    using trace_grows.I_step [OF b2b_leg(3), of "trace (leg_ua l c)"] by simp
  ultimately show ?thesis unfolding b2b_leg(1)
    by (intro covered_leg_done covered_send assms(2))
next
  case (b2b_auth n res)
  have "covered k p (c\<lparr>auth_running := False\<rparr>)"
    by (rule cc_code.cc_frame [OF covered_code _ _ _ assms(2)]) simp_all
  then show ?thesis unfolding b2b_auth(1)
    by (rule keepsD [OF cc_handlers.cc_rDone [OF covered_handlers [OF covered_send]]])
next
  case (b2b_disc n rt og)
  have "prefix (trace (leg_ua LegA c)) (trace (out_state (UA_disconnect es rt og (leg_ua LegA c))))"
    using trace_grows.I_step [OF step_disconnect [of es "leg_ua LegA c" rt og], of "trace (leg_ua LegA c)"] by simp
  from covered_leg_done [OF covered_send assms(2) this]
  show ?thesis unfolding b2b_disc cc_disconnect_def local_def
    by (simp add: ua_legs_def leg_result_def leg_ua_def valid_leg_def)
next
  case (b2b_group j)
  then show ?thesis using assms(2) by (simp add: keepsD [OF cc_code.cc_small(7) [OF covered_code]])
next
  case b2b_append
  then show ?thesis by (intro cc_code.cc_frame [OF covered_code _ _ _ assms(2)]) simp_all
next
  case (b2b_time t m)
  then show ?thesis by (intro cc_code.cc_frame [OF covered_code _ _ _ assms(2)]) simp_all
qed

interpretation b2b_acct: step_invariant b2b_init "b2b_step es (ua_legs es w hooks ka) cf" "covered k 0" for es w hooks ka cf k
proof
  show "b2b_init c \<Longrightarrow> covered k 0 c" for c
    using b2b_init_clog [of c] by (simp add: covered_def stops_def)
qed (rule covered_step)

interpretation b2b_routes: step_invariant b2b_init "b2b_step es (ua_legs es w hooks ka) cf" "routes_inv cf" for es w hooks ka cf
  by unfold_locales (auto simp: b2b_init_def intro: cc_init_inv cc_step_inv [OF b2b_step_cc])

end
