(* ===== verification/Call_Map.thy ===== *)
theory Call_Map
  imports Call_Legs
begin

text \<open>
  The map of calls (\<^verbatim>\<open>CallMap\<close> of \<^verbatim>\<open>b2bua.py\<close>): which request starts a call, the orderly stop and
  restart. A new call is a controller with its answering user agent, which gets the request at
  once; its callbacks run before the controller is entered in the map. The proxy for registrations,
  the source of nonces in a challenge and the user agent that a new controller makes are parameters
  of the configuration.
\<close>

section \<open>State\<close>

datatype cm_result =
    CM_None
    \<comment> \<open>\<^verbatim>\<open>(None, None, None)\<close>\<close>
  | CM_Resp sip_resp
  | CM_Call req_result
    \<comment> \<open>what the answering user agent returned\<close>
  | CM_Proxy
    \<comment> \<open>handed to the proxy\<close>

record call_map =
  ccmap :: "ua cc list"
  debug_mode :: bool
  safe_restart :: bool
  safe_stop :: bool
  executeStop_count :: int
  er_timer :: bool
  gc_ival :: int
  loop_broken :: bool
  restarted :: bool

type_synonym stran = "(string \<times> int) \<times> string"
  \<comment> \<open>the address of the sender and the transport\<close>

record map_config =
  accept_ips :: "string list option"
  mc_auth_enable :: bool
  digest_auth :: bool
  digest_auth_only :: bool
  pass_header_names :: "string list"
  mk_challenge :: "sip_host \<Rightarrow> sip_header"
  pre_auth_proc :: "trans_proc option"
  proxy_destination :: "stran option"
  mk_uaA :: "sip_req \<Rightarrow> ua_args \<times> ua"

definition CallMap_init :: call_map where
  "CallMap_init = \<lparr>ccmap = [], debug_mode = False, safe_restart = False, safe_stop = False, executeStop_count = 0,
     er_timer = False, gc_ival = 60, loop_broken = False, restarted = False\<rparr>"

section \<open>New calls\<close>

definition remoteIPAuth :: "map_config \<Rightarrow> stran \<Rightarrow> string option" where
  "remoteIPAuth mc st =
     (let rsrc = (if snd st = ''wss'' then SRC_WSS
                        else if proxy_destination mc = Some st then SRC_PROXY
                        else fst (fst st))
      in if (case accept_ips mc of None \<Rightarrow> True | Some ips \<Rightarrow> rsrc \<in> set ips) then Some rsrc else None)"

definition cm_reply :: "int \<Rightarrow> string \<Rightarrow> sip_req \<Rightarrow> exn + cm_result" where
  "cm_reply code rsn req = map_sum id CM_Resp (genResponse code rsn None None None req)"

definition req_to_tag :: "sip_req \<Rightarrow> exn + string option" where
  "req_to_tag req = and_then (getHFBody ''to'' req) (\<lambda>b. map_sum id getTag (as_addr b))"

text \<open>The second Via, if there is one: the first is then that of a proxy in front.\<close>

definition source_via :: "sip_req \<Rightarrow> exn + sip_via" where
  "source_via req =
     (case getHFs ''via'' req of
        _ # h # _ \<Rightarrow> and_then (getBody h) as_via
      | _ \<Rightarrow> and_then (getHFBody ''via'' req) as_via)"

text \<open>A host without a value (\<^verbatim>\<open>None\<close>) is the empty text.\<close>

fun host_text :: "sip_host option \<Rightarrow> string" where
  "host_text (Some (Host h)) = h"
| "host_text _ = []"

definition remote_ip_of :: "string \<Rightarrow> stran \<Rightarrow> sip_via \<Rightarrow> exn + string" where
  "remote_ip_of rsrc st via =
     (if rsrc \<noteq> SRC_WSS then map_sum id (\<lambda>a. host_text (fst a)) (SipVia_getTAddr via)
      else Inr (fst (fst st)))"

definition challenge_for :: "map_config \<Rightarrow> sip_req \<Rightarrow> sip_header option" where
  "challenge_for mc req =
     (if mc_auth_enable mc \<and> digest_auth mc \<and> countHFs ''authorization'' req = 0
      then Some (mk_challenge mc (host (ruri req))) else None)"

definition pre_auth_call :: "map_config \<Rightarrow> sip_req \<Rightarrow> exn + (string \<times> string) list option" where
  "pre_auth_call mc req = (case pre_auth_proc mc of Some (HDR2Xattrs h) \<Rightarrow> HDR2Xattrs_call h req None | _ \<Rightarrow> Inr None)"

definition new_controller ::
  "map_config \<Rightarrow> string \<Rightarrow> stran \<Rightarrow> string \<Rightarrow> sip_req \<Rightarrow> sip_header option \<Rightarrow> (string \<times> string) list option \<Rightarrow> real \<Rightarrow> int \<Rightarrow> ua cc" where
  "new_controller mc rip st rsrc req ch xa t n =
     (CallController_init rip (fst st) rsrc (ruri req) (concat (map (\<lambda>nm. getHFs nm req) (pass_header_names mc)))
        (UA_init (fst (mk_uaA mc req)) (snd (mk_uaA mc req))) t n)\<lparr>cc_challenge := ch, extra_attributes := xa\<rparr>"

text \<open>
  The answering user agent gets the request. An exception, its own or one of the callbacks, leaves
  the map as it is.
\<close>

definition start_call ::
  "(exn \<Rightarrow> string) \<Rightarrow> ua uas \<Rightarrow> cc_config \<Rightarrow> nat \<Rightarrow> sip_req \<Rightarrow> ua cc \<Rightarrow> call_map \<Rightarrow> (exn + cm_result) \<times> call_map" where
  "start_call es U cf depth req c cm =
     (let x = UA_recvRequest es req (uaA c)
      in (case leg_done U cf (cc_send depth U cf) LegA (leg_result (uaA c) x) c of
            Raise e d \<Rightarrow> (Inl e, cm)
          | y \<Rightarrow> (Inr (CM_Call (case x of Return v s \<Rightarrow> v | _ \<Rightarrow> RR_None)),
                 cm\<lparr>ccmap := ccmap cm @ [out_state y\<lparr>in_ccmap := True\<rparr>]\<rparr>)))"

definition new_dialog ::
  "(exn \<Rightarrow> string) \<Rightarrow> ua uas \<Rightarrow> cc_config \<Rightarrow> nat \<Rightarrow> map_config \<Rightarrow> real \<Rightarrow> int \<Rightarrow> stran \<Rightarrow> sip_req \<Rightarrow> call_map \<Rightarrow> (exn + cm_result) \<times> call_map" where
  "new_dialog es U cf depth mc t n st req cm =
     (if safe_restart cm \<or> safe_stop cm then (cm_reply 503 ''Service Unavailable (restarting)'' req, cm)
      else case source_via req of
        Inl e \<Rightarrow> (Inl e, cm)
      | Inr via \<Rightarrow>
          (case remoteIPAuth mc st of
             None \<Rightarrow> (cm_reply 403 ''Forbidden'' req, cm)
           | Some rsrc \<Rightarrow>
               (case remote_ip_of rsrc st via of
                  Inl e \<Rightarrow> (Inl e, cm)
                | Inr rip \<Rightarrow>
                    (case (challenge_for mc req, digest_auth_only mc) of
                       (Some ch, True) \<Rightarrow>
                         (map_sum id (\<lambda>r. CM_Resp (appendHeader ch r)) (genResponse 401 ''Unauthorized'' None None None req), cm)
                     | (ch, _) \<Rightarrow>
                         (case pre_auth_call mc req of
                            Inl e \<Rightarrow> (Inl e, cm)
                          | Inr xa \<Rightarrow> start_call es U cf depth req (new_controller mc rip st rsrc req ch xa t n) cm)))))"

definition cm_recvRequest ::
  "(exn \<Rightarrow> string) \<Rightarrow> ua uas \<Rightarrow> cc_config \<Rightarrow> nat \<Rightarrow> map_config \<Rightarrow> real \<Rightarrow> int \<Rightarrow> stran \<Rightarrow> sip_req \<Rightarrow> call_map \<Rightarrow> (exn + cm_result) \<times> call_map" where
  "cm_recvRequest es U cf depth mc t n st req cm =
     (case req_to_tag req of
        Inl e \<Rightarrow> (Inr CM_None, cm)
      | Inr (Some tag) \<Rightarrow> (cm_reply 481 ''Call Leg/Transaction Does Not Exist'' req, cm)
      | Inr None \<Rightarrow>
          if rmethod req = ''INVITE'' then new_dialog es U cf depth mc t n st req cm
          else if proxy_destination mc \<noteq> None \<and> rmethod req \<in> {''REGISTER'', ''SUBSCRIBE''} then (Inr CM_Proxy, cm)
          else if rmethod req \<in> {''NOTIFY'', ''PING''} then (cm_reply 200 ''OK'' req, cm)
          else (cm_reply 501 ''Not Implemented'' req, cm))"

section \<open>Stop and restart\<close>

text \<open>A controller that is dropped leaves the map.\<close>

fun disc_calls :: "nat \<Rightarrow> ua uas \<Rightarrow> cc_config \<Rightarrow> ua cc list \<Rightarrow> exn option \<times> ua cc list" where
  "disc_calls depth U cf [] = (None, [])"
| "disc_calls depth U cf (c # cs) =
     (case cc_disconnect depth U cf None None c of
        Raise e d \<Rightarrow> (Some e, d # cs)
      | y \<Rightarrow> (case disc_calls depth U cf cs of (x, ds) \<Rightarrow> (x, out_state y # ds)))"

definition discAll :: "nat \<Rightarrow> ua uas \<Rightarrow> cc_config \<Rightarrow> call_map \<Rightarrow> exn option \<times> call_map" where
  "discAll depth U cf cm =
     (case disc_calls depth U cf (ccmap cm) of (x, cs) \<Rightarrow> (x, cm\<lparr>ccmap := filter in_ccmap cs\<rparr>))"

definition toggleDebug :: "call_map \<Rightarrow> call_map" where
  "toggleDebug cm = cm\<lparr>debug_mode := \<not> debug_mode cm\<rparr>"

definition safeRestart :: "call_map \<Rightarrow> call_map" where
  "safeRestart cm = cm\<lparr>safe_restart := True\<rparr>"

definition safeStop :: "nat \<Rightarrow> ua uas \<Rightarrow> cc_config \<Rightarrow> call_map \<Rightarrow> exn option \<times> call_map" where
  "safeStop depth U cf cm =
     (case discAll depth U cf cm of
        (Some e, cm1) \<Rightarrow> (Some e, cm1)
      | (None, cm1) \<Rightarrow> (None, cm1\<lparr>safe_stop := True, executeStop_count := 0, er_timer := True\<rparr>))"

definition getActiveCalls :: "call_map \<Rightarrow> ua cc list" where
  "getActiveCalls cm = filter (\<lambda>c. cc_state c \<in> {CCStateConnected, CCStateARComplete}) (ccmap cm)"

definition executeStop :: "call_map \<Rightarrow> call_map" where
  "executeStop cm =
     (if \<not> safe_stop cm then cm
      else let cm1 = cm\<lparr>executeStop_count := executeStop_count cm + 1\<rparr>;
               nactive = length (getActiveCalls cm);
               left = (if 5 \<le> executeStop_count cm1 \<and> 0 < nactive then 0 else nactive)
           in if 0 < left then cm1 else cm1\<lparr>er_timer := False, loop_broken := True\<rparr>)"

definition GClector :: "call_map \<Rightarrow> call_map" where
  "GClector cm =
     (if safe_restart cm
      then (if getActiveCalls cm = [] then cm\<lparr>restarted := True\<rparr> else cm\<lparr>gc_ival := 1\<rparr>)
      else cm)"

section \<open>Lemmas\<close>

text \<open>The stop comes at the fifth turn of its timer at the latest.\<close>

lemma executeStop_bounded:
  "safe_stop cm \<Longrightarrow> 4 \<le> executeStop_count cm \<Longrightarrow> loop_broken (executeStop cm)"
  by (simp add: executeStop_def Let_def)

lemma executeStop_counts:
  "safe_stop cm \<Longrightarrow> executeStop_count (executeStop cm) = executeStop_count cm + 1 \<and> safe_stop (executeStop cm)"
  by (simp add: executeStop_def Let_def)

lemma executeStop_idle: "safe_stop cm \<Longrightarrow> getActiveCalls cm = [] \<Longrightarrow> loop_broken (executeStop cm)"
  by (simp add: executeStop_def Let_def)

lemma new_controller_init: "b2b_init (new_controller mc rip st src req ch xa t n)"
  by (auto simp: b2b_init_def cc_init_def new_controller_def CallController_init_def UA_init_initial)

lemma start_call_map:
  assumes "start_call es (ua_legs es w hooks ka) cf depth req c cm = (res, cm')" "b2b_init c"
  shows "cm' = cm \<or> (\<exists>d. cm' = cm\<lparr>ccmap := ccmap cm @ [d]\<rparr> \<and> reach b2b_init (b2b_step es (ua_legs es w hooks ka) cf) d)"
proof -
  let ?U = "ua_legs es w hooks ka"
  let ?o = "leg_done ?U cf (cc_send depth ?U cf) LegA (leg_result (uaA c) (UA_recvRequest es req (uaA c))) c"
  have "b2b_step es ?U cf c (out_state ?o)"
    using b2b_leg [of LegA _ c es "out_state (UA_recvRequest es req (uaA c))"] step_request [of es "uaA c" req]
    by (simp add: leg_result_def leg_ua_def)
  then have "reach b2b_init (b2b_step es ?U cf) (out_state ?o)"
    using reach_init [of b2b_init, OF assms(2)] by (blast intro: reach_step)
  then have "reach b2b_init (b2b_step es ?U cf) (out_state ?o\<lparr>in_ccmap := True\<rparr>)"
    by (rule reach_step) (rule b2b_append)
  then show ?thesis
    using assms(1) by (cases ?o) (auto simp: start_call_def Let_def)
qed

end
