(* ===== verification/Call_Props.thy ===== *)
theory Call_Props
  imports Call_Map UA_Props
begin

text \<open>
  What the back-to-back user agent promises: the order and the limits of the routes it tries, the
  failover, the limit on hops, the types of a route, and what holds of the controller together with
  the user agents of its legs.
\<close>

section \<open>Routes\<close>

lemma route_param_keeps:
  "route_param tel ext a v (r, hs) = Inr (r', hs') \<Longrightarrow> r_hostport r' = r_hostport r \<and> ainfo r' = ainfo r"
  unfolding route_param_def prod.case
  by (auto simp: set_param_def set_cli_def split: if_splits list.splits option.splits)

lemma route_params_keeps:
  "route_params tel ext ps (r, hs) = Inr (r', hs') \<Longrightarrow> r_hostport r' = r_hostport r \<and> ainfo r' = ainfo r"
proof (induction ps arbitrary: r hs)
  case (Cons x ps)
  obtain a v where x: "split1 (CHR ''='') x = [a, v]"
    using Cons.prems by (auto split: list.splits)
  obtain r1 hs1 where p: "route_param tel ext a v (r, hs) = Inr (r1, hs1)"
    using Cons.prems x by (auto split: sum.splits)
  show ?case using Cons.IH [of r1 hs1] Cons.prems route_param_keeps [OF p] x p by simp
qed simp

lemma sip_ua_unresolved:
  assumes "B2BRoute_parse tel ext gai s = Inr r" "r_hostport r = DST_SIP_UA"
  shows "ainfo r = None"
proof -
  obtain d ps where s: "split_on (CHR '';'') s = d # ps"
    using assms(1) by (auto simp: B2BRoute_parse_def split: list.splits)
  obtain r1 where r1: "route_resolve gai (route_dest d) = Inr r1"
    using assms(1) s by (auto simp: B2BRoute_parse_def split: sum.splits)
  obtain r2 hs where r2: "route_params tel ext ps (r1, []) = Inr (r2, hs)" "r = (if hs = [] then r2 else r2\<lparr>r_extra_headers := Some hs\<rparr>)"
    using assms(1) s r1 by (auto simp: B2BRoute_parse_def)
  have "r_hostport r1 = DST_SIP_UA" "ainfo r = ainfo r1"
    using route_params_keeps [OF r2(1)] r2(2) assms(2) by (auto split: if_splits)
  moreover have "r_hostport r1 = r_hostport (route_dest d)"
    using r1 by (auto simp: route_resolve_def split: prod.splits sum.splits if_splits)
  moreover have "ainfo (route_dest d) = None"
    by (simp add: route_dest_def route_blank_def set_cld_def split: list.split)
  moreover have "route_host DST_SIP_UA = (DST_SIP_UA, None, AF_UNSPEC, DST_SIP_UA)"
    by code_simp
  ultimately show ?thesis using r1 by (auto simp: route_resolve_def)
qed


definition no_ext :: "string \<Rightarrow> string \<Rightarrow> exn + trans_proc" where
  "no_ext f a = Inl KeyError"

definition gai0 :: resolver where
  "gai0 h p af = Inr [(AF_INET, (h, p))]"

definition text0 :: string where
  "text0 = ''100@192.0.2.8:5070;credit-time=7200;hs_scodes=486,487;auth=bob:pw''"

definition route_of :: "string \<Rightarrow> b2b_route" where
  "route_of s = (case B2BRoute_parse True no_ext gai0 s of Inr r \<Rightarrow> r | Inl e \<Rightarrow> route_blank [])"

lemma text0_read: "B2BRoute_parse True no_ext gai0 text0 = Inr (route_of text0)"
  by code_simp


text \<open>
  (C30) Limits. The credit time of a route that has been customised for a call is the smaller of its own
  and the configured maximum; it is not negative if these are not. Where neither is given there is
  none, whatever default the authorisation gave.
\<close>

theorem credit_time_limited:
  assumes "customize n cld cli ct phs mx r0 = Inr r1" "route_typed r0" "limit_ok mx"
  shows "limit_ok (r_credit_time r1) \<and> rnum r1 = Some n
    \<and> r_credit_time r1 = (case (mx, r_credit_time r0) of
        (None, t) \<Rightarrow> t | (Some m, None) \<Rightarrow> Some m | (Some m, Some t) \<Rightarrow> Some (min m t))"
proof -
  have r: "rnum r1 = Some n" "r_credit_time r1 = capped mx (r_credit_time r0)"
    using customize_result [OF assms(1)] by auto
  then show ?thesis
    using assms(2,3) by (auto simp: capped_def route_typed_def split: option.split)
qed

theorem credit_time_limited_witness:
  "case customize 1 None None (Some 60) [] (Some 3600) (route_of text0) of Inl e \<Rightarrow> False | Inr r \<Rightarrow> r_credit_time r = Some 3600"
proof -
  have "\<exists>r. customize 1 None None (Some 60) [] (Some 3600) (route_of text0) = Inr r"
    by (rule exI [of _ "case customize 1 None None (Some 60) [] (Some 3600) (route_of text0) of Inr r \<Rightarrow> r | Inl e \<Rightarrow> route_blank []"]) code_simp
  then obtain r where r: "customize 1 None None (Some 60) [] (Some 3600) (route_of text0) = Inr r" by blast
  have "route_typed (route_of text0)" "r_credit_time (route_of text0) = Some 7200" by code_simp+
  then show ?thesis using credit_time_limited [OF r] r by simp
qed

section \<open>Placing calls\<close>

lemma CCEvent_fields [simp]: "ekind (CCEvent k d t og n) = k" "edata (CCEvent k d t og n) = d"
  by (simp_all add: CCEvent_def)

text \<open>A suite that ends with a statement of known effect, whatever the ones before it do.\<close>

lemma wpc_last:
  assumes "\<And>t. wpc (block (b # bs)) N (\<lambda>_ _. True) (\<lambda>_ _. True) t"
  shows "wpc (block (c # b # bs)) N (\<lambda>_ _. True) (\<lambda>_ _. True) s"
  using assms unfolding wpc_block_Cons [of c] by (cases "c s") (auto simp: wpc_def)

lemma wpc_fetch_any:
  "(\<And>v. wpc (k v) N (\<lambda>_ _. True) (\<lambda>_ _. True) s) \<Longrightarrow> wpc (fetch f k) N (\<lambda>_ _. True) (\<lambda>_ _. True) s"
  by (simp split: sum.split)

lemma wpc_any: "(\<And>t. N t) \<Longrightarrow> wpc c N (\<lambda>_ _. True) (\<lambda>_ _. True) s"
  by (cases "c s") (simp_all add: wpc_def)

lemma cc_event_new_cong:
  "(\<And>t n. f (CCEvent k d t None n) = g (CCEvent k d t None n)) \<Longrightarrow> cc_event_new k d rt f = cc_event_new k d rt g"
  by (rule ext) (simp add: cc_event_new_def local_def)

lemma place_event_exhausted:
  assumes "max_forwards e = Some m" "m \<le> 1"
  shows "place_event cf send r e cid cld bd au =
      place_event cf (\<lambda>l ev. if l = LegA \<and> ekind ev = CCEventFail \<and> edata ev = D_Scode2 483 ''Too Many Hops''
        then send l ev else raise RuntimeError) r e cid cld bd au"
    and "wpc (place_event cf send r e cid cld bd au) (\<lambda>d. cc_state d = CCStateDead) (\<lambda>_ _. True) (\<lambda>_ _. True) c"
proof -
  have "m - 1 \<le> 0" using assms(2) by simp
  then have ex: "(case max_forwards e of Some m \<Rightarrow> m - 1 \<le> 0 | None \<Rightarrow> False) = True" using assms(1) by simp
  show "place_event cf send r e cid cld bd au =
      place_event cf (\<lambda>l ev. if l = LegA \<and> ekind ev = CCEventFail \<and> edata ev = D_Scode2 483 ''Too Many Hops''
        then send l ev else raise RuntimeError) r e cid cld bd au"
  proof -
    have "cc_event_new CCEventFail (D_Scode2 483 ''Too Many Hops'') None (send LegA) =
        cc_event_new CCEventFail (D_Scode2 483 ''Too Many Hops'') None
          (\<lambda>ev. if LegA = LegA \<and> ekind ev = CCEventFail \<and> edata ev = D_Scode2 483 ''Too Many Hops''
            then send LegA ev else raise RuntimeError)"
      by (rule cc_event_new_cong) simp
    then show ?thesis unfolding place_event_def ex if_True by (simp only:)
  qed
  show "wpc (place_event cf send r e cid cld bd au) (\<lambda>d. cc_state d = CCStateDead) (\<lambda>_ _. True) (\<lambda>_ _. True) c"
    unfolding place_event_def ex if_True
    by (intro wpc_fetch_any) (simp add: cc_event_new_def del: wpc_fetch, rule wpc_any, simp)
qed

lemma place_start_exhausted:
  assumes "max_forwards e = Some m" "m \<le> 1"
  shows "place_start cf send r e cid cld bd au =
      place_start cf (\<lambda>l ev. if l = LegA \<and> ekind ev = CCEventFail \<and> edata ev = D_Scode2 483 ''Too Many Hops''
        then send l ev else raise RuntimeError) r e cid cld bd au"
    and "wpc (place_start cf send r e cid cld bd au) (\<lambda>d. cc_state d = CCStateDead) (\<lambda>_ _. True) (\<lambda>_ _. True) c"
proof -
  show "place_start cf send r e cid cld bd au =
      place_start cf (\<lambda>l ev. if l = LegA \<and> ekind ev = CCEventFail \<and> edata ev = D_Scode2 483 ''Too Many Hops''
        then send l ev else raise RuntimeError) r e cid cld bd au"
    unfolding place_start_def by (subst place_event_exhausted(1) [OF assms]) (rule refl)
  show "wpc (place_start cf send r e cid cld bd au) (\<lambda>d. cc_state d = CCStateDead) (\<lambda>_ _. True) (\<lambda>_ _. True) c"
    unfolding place_start_def
    by (intro wpc_fetch_any wpc_last) (simp add: place_event_exhausted(2) [OF assms])
qed


text \<open>The record of tried routes only grows.\<close>

definition tried :: "b2b_route list \<Rightarrow> 'u cc \<Rightarrow> bool" where
  "tried rs c \<longleftrightarrow> prefix rs (placed c)"

lemma tried_log: "keeps (tried rs) (cc_log_act a)"
  by (rule keeps_upd) (auto simp: tried_def placed_def split: option.split)

lemma tried_code: "cc_code U (tried rs)"
  by unfold_locales (auto simp: tried_def placed_def split: option.split)

lemma tried_handlers: "(\<And>l e. keeps (tried rs) (send l e)) \<Longrightarrow> cc_handlers U (tried rs) send"
  by (intro cc_handlers.intro cc_handlers_axioms.intro tried_code)

lemma tried_callback:
  assumes "\<And>l e. keeps (tried rs) (send l e)"
  shows "keeps (tried rs) (leg_callback U cf send l cb)"
proof (cases "\<exists>k t og code. (l, cb) = (LegO k, LC_End t og code)")
  case True
  then show ?thesis by (auto simp: leg_callback_def oDisc_def intro!: keeps_if_then tried_log)
next
  case False
  then show ?thesis by (intro cc_handlers.cc_callback [OF tried_handlers [OF assms]]) auto
qed

lemma tried_send: "keeps (tried rs) (cc_send n U cf l e)"
proof (induction n arbitrary: l e)
  case (Suc n)
  have "keeps (tried rs) (leg_done U cf (cc_send n U cf) l r)" for r
    unfolding leg_done_def
    by (auto intro!: keeps_intros keeps_upd tried_callback Suc split: prod.split option.split)
      (auto simp: tried_def placed_def set_leg_def split: leg.split)
  then show ?case by (auto intro!: keeps_intros tried_log)
qed (simp add: keeps_raise)

lemma route_target_simps [simp]:
  "route_target (c\<lparr>cc_routes := x\<rparr>) r = route_target c r" "route_target (c\<lparr>huntstop_scodes := y\<rparr>) r = route_target c r"
  by (simp_all add: route_target_def)

lemma place_acct_next: "\<exists>t. place_acct cf r num ho s = Next t \<and> placed t = placed s \<and> acctA t = acctA s"
  by (simp add: place_acct_def stmt_defs placed_def)

lemma place_credit_next: "acctA s \<noteq> None \<Longrightarrow> \<exists>t. place_credit r s = Next t \<and> placed t = placed s"
  by (auto simp: place_credit_def stmt_defs placed_def)

lemma place_leg_next: "\<exists>t. place_leg U cf r nh tp s = Next t \<and> placed t = placed s \<and> acctA t = acctA s"
  by (simp add: place_leg_def stmt_defs placed_def)

lemma placeOriginate_tries:
  assumes "try_data (eTry c) = Inr td" "translate_out cf r = Inr num" "route_target c r = Inr tg" "acctA c \<noteq> None"
  shows "tried (placed c @ [r]) (out_state (placeOriginate U cf (cc_send n U cf) r c))"
proof -
  obtain e cid bd au nh tp ho where d: "td = (e, cid, bd, au)" "tg = (nh, tp, ho)" by (metis prod_cases4 prod_cases3)
  have rest: "keeps (tried (placed c @ [r])) (block [place_start cf (cc_send n U cf) r e cid num bd au])"
    by (intro keeps_block_Cons keeps_block_Nil cc_handlers.cc_place_start [OF tried_handlers [OF tried_send]])
  have "wpc (block [place_acct cf r num ho, place_credit r, place_leg U cf r nh tp, cc_log_act (CL_Place r),
      place_start cf (cc_send n U cf) r e cid num bd au])
    (tried (placed c @ [r])) (\<lambda>_. tried (placed c @ [r])) (\<lambda>_. tried (placed c @ [r])) (c\<lparr>huntstop_scodes := h\<rparr>)" for h
  proof -
    obtain t1 where t1: "place_acct cf r num ho (c\<lparr>huntstop_scodes := h\<rparr>) = Next t1" "placed t1 = placed c" "acctA t1 = acctA c"
      using place_acct_next [of cf r num ho "c\<lparr>huntstop_scodes := h\<rparr>"] by (auto simp: placed_def)
    obtain t2 where t2: "place_credit r t1 = Next t2" "placed t2 = placed c"
      using place_credit_next [of t1 r] t1(2,3) assms(4) by auto
    obtain t3 where t3: "place_leg U cf r nh tp t2 = Next t3" "placed t3 = placed c"
      using place_leg_next [of U cf r nh tp t2] t2(2) by auto
    have "tried (placed c @ [r]) (t3\<lparr>clog := clog t3 @ [CL_Place r]\<rparr>)"
      using t3(2) by (simp add: tried_def placed_def)
    from keepsW [OF rest this] show ?thesis
      using t1 t2 t3 by (auto simp: wpc_def block.simps upd_def)
  qed
  then show ?thesis
    using assms unfolding placeOriginate_def out_state_wpc d by simp
qed


text \<open>
  (C31) A route to \<^verbatim>\<open>sip-ua\<close> cannot be called. The branch of \<open>placeOriginate\<close> for it is overridden by the
  general one, which asks for an address that such a route never has: it ends with a type error.
\<close>

theorem sip_ua_route_raises:
  assumes "B2BRoute_parse tel ext gai s = Inr r0" "r_hostport r0 = DST_SIP_UA" "customize n cld cli ct phs mx r0 = Inr r"
    and "try_data (eTry c) = Inr td" "translate_out cf r = Inr num"
  shows "placeOriginate U cf send r c = Raise TypeError (c\<lparr>huntstop_scodes := route_huntstop r\<rparr>)"
proof -
  have "r_hostport r = DST_SIP_UA" "ainfo r = None"
    using customize_result [OF assms(3)] sip_ua_unresolved [OF assms(1,2)] assms(2) by auto
  moreover have "DST_SIP_UA \<noteq> DST_WSS_UA" by code_simp
  ultimately have "route_target d r = Inl TypeError" for d :: "'a cc"
    by (simp add: route_target_def getNHAddr_def)
  then show ?thesis
    using assms(4,5) by (cases td) (simp add: placeOriginate_def stmt_defs)
qed

section \<open>The controller and its legs\<close>

text \<open>
  (C6) Routes in order. In every reachable state of a controller, whatever its legs do: the routes tried
  so far and those still to be tried, taken together, have strictly increasing numbers (so they are
  tried in the order given, and none twice), each has time left, and none has more credit time than
  the configured maximum.
\<close>

theorem routes_in_order:
  assumes "reach cc_init (cc_step U cf) c"
  shows "sorted_wrt (<) (map route_number (placed c @ cc_routes c)) \<and> list_all (within_limits cf) (placed c @ cc_routes c)"
  using controller.reach_inv [OF assms] by (simp add: routes_inv_def in_order_def)


text \<open>
  (C7) Accounting follows the call. In every reachable state of the controller with its user agents, the
  accounting of an attempt has been stopped at most as often as the user agent of that attempt has
  reported the end of its call; in particular it has not been stopped as long as the call goes on.
\<close>

theorem accounting_follows_call:
  assumes "reach b2b_init (b2b_step es (ua_legs es w hooks ka) cf) c" and "k < length (uaOs c)"
  shows "stops k c \<le> length (end_cbs (fst (uaOs c ! k))) \<and> (\<not> cls_ended (cls (fst (uaOs c ! k))) \<longrightarrow> stops k c = 0)"
proof -
  have "reach ua_initial (ua_step es) (fst (uaOs c ! k))"
    using b2b_legs.reach_inv [OF assms(1)] assms(2) by (auto simp: legs_all_def)
  then have "life (fst (uaOs c ! k))" by (rule life_steps.reach_inv)
  then show ?thesis
    using b2b_acct.reach_inv [OF assms(1), of k] assms(2) by (auto simp: covered_def ends_def life_def)
qed

text \<open>
  (C11) Admission. A request leaves the map of calls alone or adds one call at its end. It adds one only if
  it is an INVITE outside a dialog, neither a restart nor a stop is under way, the sender is accepted
  and need not answer a challenge first; and the new call is a state that the controller and its user
  agents can reach, so that all that is proved of these holds of it.
\<close>

theorem call_admission:
  assumes "cm_recvRequest es (ua_legs es w hooks ka) cf depth mc t n st req cm = (res, cm')"
  shows "cm' = cm \<or> (\<exists>d. cm' = cm\<lparr>ccmap := ccmap cm @ [d]\<rparr> \<and> reach b2b_init (b2b_step es (ua_legs es w hooks ka) cf) d
    \<and> rmethod req = ''INVITE'' \<and> req_to_tag req = Inr None \<and> \<not> safe_restart cm \<and> \<not> safe_stop cm
    \<and> remoteIPAuth mc st \<noteq> None \<and> (challenge_for mc req = None \<or> \<not> digest_auth_only mc))"
proof (cases "cm' = cm")
  case False
  have d: "new_dialog es (ua_legs es w hooks ka) cf depth mc t n st req cm = (res, cm')"
    and m: "rmethod req = ''INVITE''" "req_to_tag req = Inr None"
    using assms False by (auto simp: cm_recvRequest_def split: sum.splits option.splits if_splits)
  obtain via rip rsrc ch xa where c:
    "start_call es (ua_legs es w hooks ka) cf depth req (new_controller mc rip st rsrc req ch xa t n) cm = (res, cm')"
    and g: "\<not> safe_restart cm" "\<not> safe_stop cm" "remoteIPAuth mc st \<noteq> None" "challenge_for mc req = None \<or> \<not> digest_auth_only mc"
    using d False by (auto simp: new_dialog_def split: sum.splits option.splits if_splits bool.splits)
  show ?thesis using start_call_map [OF c new_controller_init] False m g by blast
qed simp

section \<open>A concrete call\<close>

definition cfg0 :: cc_config where
  "cfg0 = \<lparr>auth_enable = True, acct_enable = True, has_rtp_clients = False, cf_static_routes = None,
     cf_max_credit_time = Some 3600, hide_call_id = False, static_tr_in = None, static_tr_out = None,
     cf_sub = (\<lambda>p r s one. s), cf_md5 = (\<lambda>s. s), cf_boundary = ''b'', cf_route = B2BRoute_parse True no_ext gai0\<rparr>"

definition argsA :: ua_args where
  "argsA = \<lparr>ua_event_cb = True, arg_username = None, arg_password = None,
     nh_address = None, nh_transport = my_transport, arg_credit_time = None,
     arg_conn_cbs = Some [''aConn''], arg_disc_cbs = Some [''aDisc''], arg_fail_cbs = Some [''aDisc''], arg_ring_cbs = None,
     arg_dead_cbs = Some [''aDead''], ltag = Some ''lt'', arg_extra_headers = None, arg_expire_time = None, arg_no_progress_time = None\<rparr>"

definition U0 :: "ua uas" where
  "U0 = ua_legs no_str (\<lambda>_. host0) (\<lambda>_. (\<lambda>_. None, \<lambda>b. HookDone b)) 0"

definition cc0 :: "ua cc" where
  "cc0 = CallController_init ''192.0.2.7'' (''192.0.2.7'', 5060) [] (ruri (call_req ''INVITE'' 10 1)) [] (UA_init argsA host0) 0 100"

text \<open>The caller's INVITE, an answer with two routes, and the end of the first attempt.\<close>

definition leg_runs :: "leg \<Rightarrow> (ua, 'r) stmt \<Rightarrow> ua cc \<Rightarrow> ua cc" where
  "leg_runs l f c = (let u = leg_ua l c; u' = out_state (f u) in
     out_state (leg_done U0 cfg0 (cc_send 2 U0 cfg0) l (u', leg_cbs u u', None) c))"

definition cc1 :: "ua cc" where
  "cc1 = leg_runs LegA (UA_recvRequest no_str (call_req ''INVITE'' 10 1)) cc0"

definition answer0 :: "(string \<times> string) list" where
  "answer0 = [(''h323-ivr-in'', ''Routing:'' @ text0), (''h323-ivr-in'', ''Routing:200@192.0.2.9'')]"

definition cc2 :: "ua cc" where
  "cc2 = out_state (rDone U0 cfg0 (cc_send 2 U0 cfg0) (Some (answer0, 0)) (cc1\<lparr>auth_running := False\<rparr>))"

definition cc3 :: "ua cc" where
  "cc3 = leg_runs (LegO 0) (UA_disconnect no_str None None) cc2"

definition looks :: "ua cc \<Rightarrow> (bool \<times> cc_class \<times> ua_class option \<times> ua_class option list) \<times> int list \<times> int list \<times> acct option \<times> nat" where
  "looks c = ((auth_running c, cc_state c, cls (uaA c), map (\<lambda>x. cls (fst x)) (uaOs c)),
     map route_number (placed c), map route_number (cc_routes c), acctA c, stops 0 c)"

lemma cc1_looks: "looks cc1 = ((True, CCStateWaitRoute, Some UasStateTrying, []), [], [], None, 0)"
  by code_simp

lemma cc2_looks: "looks cc2 = ((False, CCStateARComplete, Some UasStateTrying, [Some UacStateTrying]), [1], [2], Some Radius_Acct, 0)"
  by code_simp

lemma cc3_looks: "looks cc3 = ((False, CCStateARComplete, Some UasStateTrying, [Some UacStateCancelling, Some UacStateTrying]), [1, 2], [], Some Radius_Acct, 1)"
  by code_simp

lemma cc0_init: "b2b_init cc0"
  by (auto simp: b2b_init_def cc_init_def cc0_def CallController_init_def UA_init_initial)

lemma leg_runs_step:
  assumes "l = LegA \<or> l = LegO k \<and> k < length (uaOs c)" "ua_step no_str (leg_ua l c) (out_state (f (leg_ua l c)))"
  shows "b2b_step no_str U0 cfg0 c (leg_runs l f c)"
  unfolding leg_runs_def Let_def by (rule b2b_leg) (rule assms)+

lemma reach_cc1: "reach b2b_init (b2b_step no_str U0 cfg0) cc1"
proof -
  have "reach b2b_init (b2b_step no_str U0 cfg0) cc0" by (rule reach_init) (rule cc0_init)
  moreover have "b2b_step no_str U0 cfg0 cc0 cc1"
    unfolding cc1_def by (rule leg_runs_step) (auto intro: step_request)
  ultimately show ?thesis by (rule reach_step)
qed

lemma reach_cc2: "reach b2b_init (b2b_step no_str U0 cfg0) cc2"
  unfolding cc2_def by (rule reach_step [OF reach_cc1 b2b_auth]) (use cc1_looks in \<open>simp add: looks_def\<close>)

lemma cc2_one: "length (uaOs cc2) = 1"
proof -
  have "length (map (\<lambda>x. cls (fst x)) (uaOs cc2)) = 1" using cc2_looks by (simp add: looks_def del: length_map)
  then show ?thesis by simp
qed

lemma reach_cc3: "reach b2b_init (b2b_step no_str U0 cfg0) cc3"
  unfolding cc3_def
  by (rule reach_step [OF reach_cc2 leg_runs_step [where k = 0]]) (auto simp: cc2_one intro: step_disconnect)

lemma reach_cc:
  "reach b2b_init (b2b_step no_str U0 cfg0) c \<Longrightarrow> reach cc_init (cc_step U0 cfg0) c"
  by (induction rule: reach.induct) (auto simp: b2b_init_def intro: reach.intros b2b_step_cc)

theorem routes_in_order_witness: "list_all (within_limits cfg0) (placed cc3) \<and> map route_number (placed cc3) = [1, 2]"
  using routes_in_order [OF reach_cc [OF reach_cc3]] cc3_looks by (simp add: looks_def)


theorem accounting_follows_call_witness: "0 < length (end_cbs (fst (uaOs cc3 ! 0)))"
proof -
  have "length (map (\<lambda>x. cls (fst x)) (uaOs cc3)) = 2" "stops 0 cc3 = 1"
    using cc3_looks by (simp_all add: looks_def del: length_map)
  then show ?thesis using accounting_follows_call [OF reach_cc3 [unfolded U0_def], of 0] by auto
qed

lemma not_isl_Inr: "\<not> isl x \<Longrightarrow> \<exists>y. x = Inr y"
  by (cases x) auto

definition busy0 :: cc_event where
  "busy0 = CCEvent CCEventFail (D_Scode2 503 ''Unavailable'') 3 None 9"


text \<open>A call whose hop counter is used up, and a route to \<^verbatim>\<open>sip-ua\<close>.\<close>

definition cc_hops :: "ua cc" where
  "cc_hops = cc1\<lparr>acctA := Some Fake_Acct, eTry := map_option (\<lambda>e. e\<lparr>max_forwards := Some 1\<rparr>) (eTry cc1)\<rparr>"

lemma hops_try: "\<exists>e cid bd au. try_data (eTry cc_hops) = Inr (e, cid, bd, au) \<and> max_forwards e = Some 1"
proof -
  have "case try_data (eTry cc_hops) of Inr (e, r) \<Rightarrow> max_forwards e = Some 1 | Inl x \<Rightarrow> False" by code_simp
  then show ?thesis by (auto split: sum.splits prod.splits)
qed


theorem sip_ua_route_raises_witness:
  "case customize 1 None None None [] None (route_of ''100@sip-ua'') of
     Inr r \<Rightarrow> placeOriginate U0 cfg0 (cc_send 2 U0 cfg0) r cc1 = Raise TypeError (cc1\<lparr>huntstop_scodes := route_huntstop r\<rparr>)
   | Inl e \<Rightarrow> False"
proof -
  have p: "B2BRoute_parse True no_ext gai0 ''100@sip-ua'' = Inr (route_of ''100@sip-ua'')" "r_hostport (route_of ''100@sip-ua'') = DST_SIP_UA"
    by code_simp+
  have "\<not> isl (customize 1 None None None [] None (route_of ''100@sip-ua''))" by code_simp
  from not_isl_Inr [OF this] obtain r where r: "customize 1 None None None [] None (route_of ''100@sip-ua'') = Inr r" ..
  have "\<not> isl (try_data (eTry cc1))" by code_simp
  from not_isl_Inr [OF this] obtain td where td: "try_data (eTry cc1) = Inr td" ..
  have "translate_out cfg0 r = Inr (r_cld r)" by (simp add: translate_out_def cfg0_def)
  from sip_ua_route_raises [OF p r td this, of U0 "cc_send 2 U0 cfg0"] show ?thesis
    unfolding r sum.case .
qed

definition mc0 :: map_config where
  "mc0 = \<lparr>accept_ips = Some [''192.0.2.7''], mc_auth_enable = True, digest_auth = False, digest_auth_only = False,
     pass_header_names = [], mk_challenge = (\<lambda>_. SipHeader ''www-authenticate'' (HF_Str [])), pre_auth_proc = None,
     proxy_destination = None, mk_uaA = (\<lambda>_. (argsA, host0))\<rparr>"

definition cm1 :: call_map where
  "cm1 = snd (cm_recvRequest no_str U0 cfg0 2 mc0 0 100 ((''192.0.2.7'', 5060), ''udp'') (call_req ''INVITE'' 10 1) CallMap_init)"

theorem call_admission_witness: "\<exists>d. ccmap cm1 = [d] \<and> reach b2b_init (b2b_step no_str U0 cfg0) d"
proof -
  have l: "length (ccmap cm1) = 1" by code_simp
  obtain res where "cm_recvRequest no_str U0 cfg0 2 mc0 0 100 ((''192.0.2.7'', 5060), ''udp'') (call_req ''INVITE'' 10 1) CallMap_init = (res, cm1)"
    unfolding cm1_def by (metis surjective_pairing)
  from call_admission [OF this [unfolded U0_def]]
  consider "cm1 = CallMap_init"
    | d where "cm1 = CallMap_init\<lparr>ccmap := ccmap CallMap_init @ [d]\<rparr>" "reach b2b_init (b2b_step no_str U0 cfg0) d"
    unfolding U0_def by blast
  then show ?thesis
  proof cases
    case 1
    have "ccmap cm1 = []" unfolding 1 by (simp add: CallMap_init_def)
    then show ?thesis using l by simp
  next
    case 2
    have "ccmap cm1 = [d]" unfolding 2(1) by (simp add: CallMap_init_def)
    then show ?thesis using 2(2) by blast
  qed
qed

end
